(* ===== verification/Wardoff_Prelude.thy ===== *)
theory Wardoff_Prelude
  imports Main "HOL-Library.Word" "HOL-Library.Multiset"
begin

text \<open>
  Shared vocabulary of the development.

  \<^item> \<open>('s, 'e, 'a) prog\<close> is the shape of every effectful Rust function of the model: it takes
    a state \<open>'s\<close> (the machine \<open>world\<close>, or a pair of a struct and the world for a method on
    \<^verbatim>\<open>&mut self\<close>) and returns \<open>Inl error\<close> for \<^verbatim>\<open>Err\<close> or \<open>Inr value\<close> for \<^verbatim>\<open>Ok\<close>, with
    the new state.
  \<^item> \<open>and_then\<close> is Rust's \<^verbatim>\<open>?\<close> (stop at the first \<^verbatim>\<open>Err\<close>, keeping the state reached),
    \<open>map_error\<close> is \<^verbatim>\<open>map_err\<close>, \<open>ok\<close> and \<open>fail\<close> are \<^verbatim>\<open>Ok\<close> and \<^verbatim>\<open>Err\<close>.
  \<^item> Named collections: \<open>prog_simps\<close> (evaluation of the combinators), \<open>frame\<close> (fields an
    operation leaves alone), \<open>layer_simps\<close> (characteristic equations of a protection layer).
\<close>

type_synonym 'a res = "string + 'a"

type_synonym ('s, 'e, 'a) prog = "'s \<Rightarrow> ('e + 'a) \<times> 's"

type_synonym u16 = "16 word"
type_synonym u32 = "32 word"
type_synonym u64 = "64 word"

named_theorems prog_simps "evaluation of the program combinators"
named_theorems frame "parts of the state an operation leaves alone"
named_theorems layer_simps "characteristic equations of the protection layers"

subsection \<open>Program combinators\<close>

definition ok :: "'a \<Rightarrow> ('s, 'e, 'a) prog" where
  "ok x s = (Inr x, s)"

definition fail :: "'e \<Rightarrow> ('s, 'e, 'a) prog" where
  "fail e s = (Inl e, s)"

definition and_then :: "('s, 'e, 'a) prog \<Rightarrow> ('a \<Rightarrow> ('s, 'e, 'b) prog) \<Rightarrow> ('s, 'e, 'b) prog" where
  "and_then m f s = (case m s of (Inl e, s') \<Rightarrow> (Inl e, s') | (Inr x, s') \<Rightarrow> f x s')"

definition map_error :: "('e \<Rightarrow> 'f) \<Rightarrow> ('s, 'e, 'a) prog \<Rightarrow> ('s, 'f, 'a) prog" where
  "map_error g m s = (case m s of (Inl e, s') \<Rightarrow> (Inl (g e), s') | (Inr x, s') \<Rightarrow> (Inr x, s'))"

definition is_ok :: "'e + 'a \<Rightarrow> bool" where
  "is_ok r = (case r of Inl _ \<Rightarrow> False | Inr _ \<Rightarrow> True)"

definition is_err :: "'e + 'a \<Rightarrow> bool" where
  "is_err r = (\<not> is_ok r)"

text \<open>Running a world operation from a method: the struct is untouched.\<close>

definition on_world :: "('w, 'e, 'a) prog \<Rightarrow> ('s \<times> 'w, 'e, 'a) prog" where
  "on_world m sw = (case m (snd sw) of (r, w') \<Rightarrow> (r, (fst sw, w')))"

subsection \<open>Slices\<close>

text \<open>\<^verbatim>\<open>buffer[offset..offset + src.len()].copy_from_slice(src)\<close>, which panics out of range: \<open>None\<close>.\<close>

definition copy_from_slice :: "nat \<Rightarrow> 'a list \<Rightarrow> 'a list \<Rightarrow> 'a list option" where
  "copy_from_slice offset src buffer =
     (if offset + length src \<le> length buffer
      then Some (take offset buffer @ src @ drop (offset + length src) buffer) else None)"

subsection \<open>Decimal rendering, as \<^verbatim>\<open>{}\<close> of an unsigned integer\<close>

definition digit_char :: "nat \<Rightarrow> char" where
  "digit_char d = char_of (48 + d)"

fun show_nat :: "nat \<Rightarrow> string" where
  "show_nat n = (if n < 10 then [digit_char n] else show_nat (n div 10) @ [digit_char (n mod 10)])"

declare show_nat.simps [simp del]

subsection \<open>Laws of the combinators\<close>

lemma ok_apply [simp, prog_simps]: "ok x s = (Inr x, s)"
  by (simp add: ok_def)

lemma fail_apply [simp, prog_simps]: "fail e s = (Inl e, s)"
  by (simp add: fail_def)

lemma is_ok_simps [simp]: "is_ok (Inr x)" "\<not> is_ok (Inl e)"
  by (simp_all add: is_ok_def)

lemma is_err_simps [simp]: "\<not> is_err (Inr x)" "is_err (Inl e)"
  by (simp_all add: is_err_def)

lemma is_ok_iff: "is_ok r \<longleftrightarrow> (\<exists>x. r = Inr x)"
  by (cases r) simp_all

lemma and_then_Inr [prog_simps]: "m s = (Inr x, s') \<Longrightarrow> and_then m f s = f x s'"
  by (simp add: and_then_def)

lemma and_then_Inl [prog_simps]: "m s = (Inl e, s') \<Longrightarrow> and_then m f s = (Inl e, s')"
  by (simp add: and_then_def)

lemma and_then_ok [simp]: "and_then (ok x) f = f x"
  by (simp add: fun_eq_iff and_then_def)

lemma and_then_fail [simp]: "and_then (fail e) f = fail e"
  by (simp add: fun_eq_iff and_then_def)

lemma and_then_ok_right [simp]: "and_then m ok = m"
proof (rule ext)
  fix s
  obtain r s' where "m s = (r, s')" by (cases "m s")
  then show "and_then m ok s = m s"
    by (cases r) (simp_all add: and_then_def)
qed

lemma and_then_assoc: "and_then (and_then m f) g = and_then m (\<lambda>x. and_then (f x) g)"
  by (auto simp: fun_eq_iff and_then_def split: prod.splits sum.splits)

lemma and_then_Inr_iff:
  "and_then m f s = (Inr y, t) \<longleftrightarrow> (\<exists>x s'. m s = (Inr x, s') \<and> f x s' = (Inr y, t))"
  by (auto simp: and_then_def split: prod.splits sum.splits)

lemma and_then_Inl_iff:
  "and_then m f s = (Inl e, t) \<longleftrightarrow>
     m s = (Inl e, t) \<or> (\<exists>x s'. m s = (Inr x, s') \<and> f x s' = (Inl e, t))"
  by (auto simp: and_then_def split: prod.splits sum.splits)

lemma map_error_Inr_iff [simp]: "map_error g m s = (Inr x, t) \<longleftrightarrow> m s = (Inr x, t)"
  by (auto simp: map_error_def split: prod.splits sum.splits)

lemma map_error_Inl_iff:
  "map_error g m s = (Inl e, t) \<longleftrightarrow> (\<exists>e'. m s = (Inl e', t) \<and> e = g e')"
  by (auto simp: map_error_def split: prod.splits sum.splits)

lemma snd_map_error [simp]: "snd (map_error g m s) = snd (m s)"
  by (auto simp: map_error_def split: prod.splits sum.splits)

lemma is_ok_map_error [simp]: "is_ok (fst (map_error g m s)) = is_ok (fst (m s))"
  by (auto simp: map_error_def split: prod.splits sum.splits)

lemma on_world_apply: "on_world m (s, w) = (let (r, w') = m w in (r, (s, w')))"
  by (simp add: on_world_def Let_def)

lemma fst_on_world [simp]: "fst (snd (on_world m sw)) = fst sw"
  by (simp add: on_world_def split: prod.splits)

lemma and_then_keeps:
  assumes "\<And>s. P s \<Longrightarrow> P (snd (m s))" and "\<And>x s. P s \<Longrightarrow> P (snd (f x s))" and "P s"
  shows "P (snd (and_then m f s))"
proof -
  obtain r s' where m: "m s = (r, s')" by (cases "m s")
  with assms(1) [OF assms(3)] have "P s'" by simp
  with m assms(2) show ?thesis by (cases r) (simp_all add: and_then_def)
qed

subsection \<open>Decimal rendering is injective\<close>

fun read_digits :: "nat \<Rightarrow> string \<Rightarrow> nat" where
  "read_digits acc [] = acc"
| "read_digits acc (c # cs) = read_digits (10 * acc + (of_char c - 48)) cs"

lemma digit_value: "d < 10 \<Longrightarrow> of_char (digit_char d) - 48 = (d :: nat)"
  by (simp add: digit_char_def of_char_of)

lemma read_digits_snoc:
  "read_digits acc (cs @ [c]) = 10 * read_digits acc cs + (of_char c - 48)"
  by (induction cs arbitrary: acc) simp_all

lemma read_show_nat: "read_digits 0 (show_nat n) = n"
proof (induction n rule: show_nat.induct)
  case (1 n)
  show ?case
  proof (cases "n < 10")
    case True
    then show ?thesis by (simp add: show_nat.simps [of n] digit_value)
  next
    case False
    with "1.IH" show ?thesis
      by (simp add: show_nat.simps [of n] read_digits_snoc digit_value)
  qed
qed

lemma show_nat_inject [simp]: "show_nat m = show_nat n \<longleftrightarrow> m = n"
  by (metis read_show_nat)

lemma show_nat_nonempty [simp]: "show_nat n \<noteq> []"
  by (subst show_nat.simps) simp

end
