(* ===== verification/World.thy ===== *)
theory World
  imports Wardoff_Prelude
begin

text \<open>
  The machine the program runs on, as far as the program can see it.

  Everything outside \<^verbatim>\<open>src/\<close> (the Win32 API, COM Task Scheduler, ETW, the thread scheduler,
  the clock) is the parameter \<open>os\<close>: a function from the history of earlier calls and the call
  being made to a \<open>reply\<close>. Nothing is assumed about it here, so a theorem stated for every
  \<open>os\<close> holds whatever Windows answers. Every call and its reply are recorded in \<open>trace\<close>
  (newest first), which makes the program's effects observable: a resource property is a
  property of the trace.

  \<open>world\<close> also holds the program's own \<^verbatim>\<open>static\<close> variables: \<^verbatim>\<open>BLOCKER_ACTIVE\<close>,
  \<^verbatim>\<open>END_SESSION_CLEANUP_CALLBACK\<close>, \<^verbatim>\<open>END_SESSION_CLEANUP_STARTED\<close>,
  \<^verbatim>\<open>POWER_BROADCAST_CALLBACK\<close> and \<^verbatim>\<open>WINDOW_CLASS_REGISTERED\<close> of
  \<^verbatim>\<open>blocker/shutdown.rs\<close>, \<^verbatim>\<open>BLOCKED_EVENT_COUNT\<close> of \<^verbatim>\<open>blocker/mod.rs\<close>, and
  \<^verbatim>\<open>LOG_COMMANDS\<close> of \<^verbatim>\<open>logger/mod.rs\<close> (the channel to the log writer thread).
\<close>

subsection \<open>Structured log records (\<^verbatim>\<open>logger/mod.rs\<close>)\<close>

datatype event_source =
    Src_Autostart | Src_Application | Src_Cli | Src_Ipc | Src_Local
  | Src_Remote | Src_Shutdown | Src_Sleep | Src_Tray | Src_UpdateOrchestrator

fun event_source_label :: "event_source \<Rightarrow> string" where
  "event_source_label Src_Autostart = ''autostart''"
| "event_source_label Src_Application = ''application''"
| "event_source_label Src_Cli = ''cli''"
| "event_source_label Src_Ipc = ''ipc''"
| "event_source_label Src_Local = ''local''"
| "event_source_label Src_Remote = ''remote''"
| "event_source_label Src_Shutdown = ''shutdown''"
| "event_source_label Src_Sleep = ''sleep''"
| "event_source_label Src_Tray = ''tray''"
| "event_source_label Src_UpdateOrchestrator = ''update_orchestrator''"

record log_record =
  lr_timestamp :: string
  lr_event :: string
  lr_source :: string
  lr_action :: string
  lr_success :: bool

datatype log_command = Record log_record | Log_Shutdown

text \<open>The \<^verbatim>\<open>mpsc\<close> channel to the writer: queued commands (oldest first), and whether the
  receiving thread still holds its end (a send to a dropped receiver is ignored).\<close>

record log_channel =
  lc_queue :: "log_command list"
  lc_receiver :: bool

subsection \<open>Windows errors and calls\<close>

text \<open>A \<^verbatim>\<open>windows::core::Error\<close>: its \<^verbatim>\<open>HRESULT\<close> and what \<^verbatim>\<open>to_string()\<close> renders.\<close>

record win_error =
  err_code :: u32
  err_text :: string

datatype power_request_type = PowerRequestSystemRequired | PowerRequestDisplayRequired

datatype exit_flag = EWX_SHUTDOWN | EWX_REBOOT

datatype power_call =
    PowerCreateRequest
  | PowerSetRequest nat power_request_type
  | PowerClearRequest nat power_request_type
  | AbortSystemShutdownW
  | ExitWindowsEx exit_flag u32
  | SetSuspendState bool bool bool

datatype window_kind = MessageWindow | SessionWindow | TaskbarWindow

datatype window_call =
    GetModuleHandleW
  | RegisterClassW
  | CreateWindowExW window_kind nat
  | IsWindow nat
  | DestroyWindow nat
  | SetProcessShutdownParameters u32
  | RegisterSuspendResumeNotification nat
  | UnregisterSuspendResumeNotification nat
  | ShutdownBlockReasonCreate nat string
  | ShutdownBlockReasonDestroy nat
  | GetSystemMetrics_ShuttingDown
  | DefWindowProcW nat u32 u64 u64

datatype token_access = TOKEN_QUERY | TOKEN_ADJUST_AND_QUERY | TOKEN_QUERY_DUPLICATE_IMPERSONATE

datatype token_call =
    OpenProcessToken token_access
  | CloseHandle nat
  | LookupPrivilegeValueW
  | AdjustTokenPrivileges nat nat
  | GetTokenElevation nat
  | GetLastError
  | ErrorFromThread

datatype task_call =
    CoInitializeEx
  | CoUninitialize
  | CoCreateTaskScheduler
  | TaskServiceConnect nat
  | GetFolder nat string
  | GetTask nat string
  | TaskGetEnabled nat
  | TaskSetEnabled nat bool

datatype thread_call =
    SpawnThread string
  | JoinThread string
  | ThreadSleep nat
  | InstantNow

text \<open>Event Tracing for Windows, as Layer 2 uses it. A blocking \<^verbatim>\<open>ProcessTrace\<close> call is
  seen in slices: each reply lists the events delivered since the last one, and says with
  \<open>r_err\<close> whether the call has returned.\<close>

datatype etw_call =
    StartTraceW string
  | EnableTraceEx2 nat
  | OpenTraceW string
  | ProcessTrace nat
  | CloseTrace nat
  | ControlTraceStop string
  | TdhGetPropertySize nat string
  | TdhGetProperty nat string nat

record event_record =
  er_identity :: nat
  er_provider_id :: nat
  er_id :: u16
  er_task :: u16
  er_opcode :: "8 word"
  er_process_id :: u32

datatype clock_call = SystemTimeMillis | ProcessId

text \<open>The single-instance mutex and the session id of the process token.\<close>

datatype instance_call =
    CreateMutexExW string
  | OpenMutexW string
  | GetTokenSessionId nat

text \<open>Process launch and console.\<close>

datatype shell_call =
    CurrentExe
  | CanonicalizePath string
  | ShellExecuteRunas string string
  | GetConsoleWindow
  | GetConsoleProcessList
  | HideWindow nat
  | FreeConsole
  | SpawnDetached string "string list"

text \<open>Named pipes, on both sides. \<open>ReadFile\<close> is the non-blocking read of the server,
  \<open>ReadLine\<close> the blocking \<^verbatim>\<open>BufReader::read_line\<close> of a client.\<close>

datatype pipe_call =
    CreateNamedPipeW string bool
  | ConnectNamedPipe nat
  | SetNamedPipeHandleState nat bool
  | ReadFile nat
  | WriteAll nat string
  | FlushFile nat
  | OpenPipe string bool
  | ReadLine nat
  | ConvertSecurityDescriptor string
  | PostThreadMessageW nat u32

text \<open>Token users, access checks and security descriptors.\<close>

datatype security_call =
    GetTokenUserSize nat
  | GetTokenUser nat nat
  | ConvertSidToStringSidW nat
  | LookupAccountSidSize nat
  | LookupAccountSidW nat
  | GetTokenLinkedToken nat
  | DuplicateTokenEx nat
  | GetNamedSecurityInfoW string
  | AccessCheck nat nat u32
  | LocalFree nat

text \<open>The Task Scheduler calls of \<^verbatim>\<open>autostart.rs\<close>: \<open>GetPart\<close> and \<open>SetPart\<close> are the getters and
  setters of a task definition's sub-objects.\<close>

datatype autostart_call =
    NewTask nat
  | GetPart nat string
  | SetPart nat string string
  | RegisterTaskDefinition nat string nat
  | DeleteTask nat string
  | LocalNow

text \<open>The tray icon crate, as \<^verbatim>\<open>tray/mod.rs\<close> uses it: \<open>DropTrayIcon\<close> is the drop of a
  \<^verbatim>\<open>TrayIcon\<close>, \<open>AwaitTrayResult\<close> the bounded wait for the tray thread's answer.\<close>

datatype tray_call =
    AppendMenuItems
  | IconFromRgba bool
  | BuildTrayIcon string bool
  | SetTrayIcon nat bool
  | SetTrayTooltip nat string
  | SetTrayVisible nat bool
  | DropTrayIcon nat
  | RegisterTrayClass
  | RegisterWindowMessageW string
  | AwaitTrayResult

text \<open>The application thread and the standard streams.\<close>

datatype app_call =
    GetCurrentThreadId
  | WaitMessage
  | MessageBoxW string string
  | PrintOut string
  | PrintErr string

datatype render_call =
    UtcNow
  | HresultFromWin32 u32
  | DebugPowerRequestType power_request_type
  | HandleIsInvalid nat
  | Win32ErrorText u32
  | NewErrorText u32 string
  | Utf16Text "u16 list"

datatype sys_call =
    Power power_call
  | Window window_call
  | Token token_call
  | Task task_call
  | Thread thread_call
  | Etw etw_call
  | Clock clock_call
  | Render render_call
  | Instance instance_call
  | Shell shell_call
  | Pipe pipe_call
  | Security security_call
  | Autostart autostart_call
  | Tray tray_call
  | App app_call

text \<open>
  A reply: \<open>r_err\<close> is the error of a call that returns a \<^verbatim>\<open>Result\<close> (\<open>None\<close> for success);
  \<open>r_num\<close>, \<open>r_text\<close> and \<open>r_bytes\<close> carry the handle, count, flag, string or buffer the call
  produces, \<open>r_events\<close> the events a trace slice delivers.
\<close>

record reply =
  r_err :: "win_error option"
  r_num :: nat
  r_text :: string
  r_bytes :: "8 word list"
  r_events :: "event_record list"

type_synonym history = "(sys_call \<times> reply) list"

type_synonym os = "history \<Rightarrow> sys_call \<Rightarrow> reply"

record world =
  trace :: history
  blocker_active :: bool
  blocked_event_count :: u64
  window_class_registered :: bool
  end_session_cleanup_callback :: bool
  end_session_cleanup_started :: bool
  power_broadcast_callback :: bool
  log_commands :: "log_channel option"

definition initial_world :: world where
  "initial_world =
     \<lparr>trace = [], blocker_active = False, blocked_event_count = 0,
      window_class_registered = False, end_session_cleanup_callback = False,
      end_session_cleanup_started = False, power_broadcast_callback = False,
      log_commands = None\<rparr>"

subsection \<open>Making a call\<close>

definition syscall :: "os \<Rightarrow> sys_call \<Rightarrow> world \<Rightarrow> reply \<times> world" where
  "syscall os c w = (let r = os (trace w) c in (r, w\<lparr>trace := (c, r) # trace w\<rparr>))"

text \<open>The calls of \<^verbatim>\<open>Result<(), E>\<close>, \<^verbatim>\<open>Result<handle, E>\<close> and plain value type.\<close>

definition call_unit :: "os \<Rightarrow> sys_call \<Rightarrow> (world, win_error, unit) prog" where
  "call_unit os c w =
     (let (r, w') = syscall os c w
      in (case r_err r of Some e \<Rightarrow> Inl e | None \<Rightarrow> Inr (), w'))"

definition call_num :: "os \<Rightarrow> sys_call \<Rightarrow> (world, win_error, nat) prog" where
  "call_num os c w =
     (let (r, w') = syscall os c w
      in (case r_err r of Some e \<Rightarrow> Inl e | None \<Rightarrow> Inr (r_num r), w'))"

definition call_value :: "os \<Rightarrow> sys_call \<Rightarrow> world \<Rightarrow> nat \<times> world" where
  "call_value os c w = (let (r, w') = syscall os c w in (r_num r, w'))"

definition call_error :: "os \<Rightarrow> sys_call \<Rightarrow> world \<Rightarrow> win_error \<times> world" where
  "call_error os c w =
     (let (r, w') = syscall os c w
      in (case r_err r of Some e \<Rightarrow> e | None \<Rightarrow> \<lparr>err_code = of_nat (r_num r), err_text = r_text r\<rparr>, w'))"

text \<open>\<^verbatim>\<open>HRESULT::from_win32\<close> of the \<^verbatim>\<open>windows\<close> crate: a rendering, not recorded.\<close>

definition hresult_from_win32 :: "os \<Rightarrow> u32 \<Rightarrow> u32" where
  "hresult_from_win32 os c = of_nat (r_num (os [] (Render (HresultFromWin32 c))))"

text \<open>\<^verbatim>\<open>HANDLE::is_invalid\<close> of the same crate.\<close>

definition is_invalid :: "os \<Rightarrow> nat \<Rightarrow> bool" where
  "is_invalid os handle = (r_num (os [] (Render (HandleIsInvalid handle))) \<noteq> 0)"

subsection \<open>Queueing a structured log event (\<^verbatim>\<open>logger::log_event\<close>)\<close>

definition log_record_new :: "os \<Rightarrow> world \<Rightarrow> string \<Rightarrow> event_source \<Rightarrow> string \<Rightarrow> bool \<Rightarrow> log_record" where
  "log_record_new os w event source action success =
     \<lparr>lr_timestamp = r_text (os (trace w) (Render UtcNow)), lr_event = event,
      lr_source = event_source_label source, lr_action = action, lr_success = success\<rparr>"

definition log_send :: "log_command \<Rightarrow> log_channel \<Rightarrow> log_channel" where
  "log_send c ch = (if lc_receiver ch then ch\<lparr>lc_queue := lc_queue ch @ [c]\<rparr> else ch)"

definition log_event :: "os \<Rightarrow> string \<Rightarrow> event_source \<Rightarrow> string \<Rightarrow> bool \<Rightarrow> world \<Rightarrow> world" where
  "log_event os event source action success w =
     (case log_commands w of
        None \<Rightarrow> w
      | Some ch \<Rightarrow>
          w\<lparr>log_commands :=
              Some (log_send (Record (log_record_new os w event source action success)) ch)\<rparr>)"

subsection \<open>Kernel handles held, read off the history\<close>

text \<open>Handles a successful call gave the process and that were not passed to
  \<^verbatim>\<open>CloseHandle\<close> since.\<close>

fun acquires :: "sys_call \<Rightarrow> bool" where
  "acquires (Power c) = (c = PowerCreateRequest)"
| "acquires (Token c) = (case c of OpenProcessToken _ \<Rightarrow> True | _ \<Rightarrow> False)"
| "acquires (Instance c) = (case c of GetTokenSessionId _ \<Rightarrow> False | _ \<Rightarrow> True)"
| "acquires (Pipe c) = (case c of CreateNamedPipeW _ _ \<Rightarrow> True | OpenPipe _ _ \<Rightarrow> True | _ \<Rightarrow> False)"
| "acquires (Security c) = (case c of GetTokenLinkedToken _ \<Rightarrow> True | DuplicateTokenEx _ \<Rightarrow> True | _ \<Rightarrow> False)"
| "acquires _ = False"

fun releases :: "sys_call \<Rightarrow> nat option" where
  "releases (Token c) = (case c of CloseHandle n \<Rightarrow> Some n | _ \<Rightarrow> None)"
| "releases _ = None"

fun open_handles :: "history \<Rightarrow> nat multiset" where
  "open_handles [] = {#}"
| "open_handles ((c, r) # h) =
     (if acquires c then (if r_err r = None then add_mset (r_num r) (open_handles h) else open_handles h)
      else case releases c of Some n \<Rightarrow> open_handles h - {#n#} | None \<Rightarrow> open_handles h)"

subsection \<open>Frame rules\<close>

lemma syscall_fields [simp, frame]:
  "trace (snd (syscall os c w)) = (c, fst (syscall os c w)) # trace w"
  "blocker_active (snd (syscall os c w)) = blocker_active w"
  "blocked_event_count (snd (syscall os c w)) = blocked_event_count w"
  "window_class_registered (snd (syscall os c w)) = window_class_registered w"
  "end_session_cleanup_callback (snd (syscall os c w)) = end_session_cleanup_callback w"
  "end_session_cleanup_started (snd (syscall os c w)) = end_session_cleanup_started w"
  "power_broadcast_callback (snd (syscall os c w)) = power_broadcast_callback w"
  "log_commands (snd (syscall os c w)) = log_commands w"
  by (simp_all add: syscall_def Let_def)

lemma fst_syscall [simp]: "fst (syscall os c w) = os (trace w) c"
  by (simp add: syscall_def Let_def)

lemma snd_call_unit [simp, frame]: "snd (call_unit os c w) = snd (syscall os c w)"
  by (simp add: call_unit_def split: prod.splits)

lemma snd_call_num [simp, frame]: "snd (call_num os c w) = snd (syscall os c w)"
  by (simp add: call_num_def split: prod.splits)

lemma snd_call_value [simp, frame]: "snd (call_value os c w) = snd (syscall os c w)"
  by (simp add: call_value_def split: prod.splits)

lemma snd_call_error [simp, frame]: "snd (call_error os c w) = snd (syscall os c w)"
  by (simp add: call_error_def split: prod.splits)

lemma log_event_fields [simp, frame]:
  "trace (log_event os e s a b w) = trace w"
  "blocker_active (log_event os e s a b w) = blocker_active w"
  "blocked_event_count (log_event os e s a b w) = blocked_event_count w"
  "window_class_registered (log_event os e s a b w) = window_class_registered w"
  "end_session_cleanup_callback (log_event os e s a b w) = end_session_cleanup_callback w"
  "end_session_cleanup_started (log_event os e s a b w) = end_session_cleanup_started w"
  "power_broadcast_callback (log_event os e s a b w) = power_broadcast_callback w"
  by (simp_all add: log_event_def split: option.split)

text \<open>The static flags of Layer 1, as one bundle: most operations leave them alone.\<close>

definition statics :: "world \<Rightarrow> bool \<times> u64 \<times> bool \<times> bool \<times> bool \<times> bool" where
  "statics w = (blocker_active w, blocked_event_count w, window_class_registered w,
     end_session_cleanup_callback w, end_session_cleanup_started w, power_broadcast_callback w)"

lemma statics_syscall [simp, frame]: "statics (snd (syscall os c w)) = statics w"
  by (simp add: statics_def)

lemma statics_log_event [simp, frame]: "statics (log_event os e s a b w) = statics w"
  by (simp add: statics_def)

text \<open>The flags the layers' worker threads never touch (they may advance the counter).\<close>

definition control :: "world \<Rightarrow> bool \<times> bool \<times> bool \<times> bool \<times> bool" where
  "control w = (blocker_active w, window_class_registered w, end_session_cleanup_callback w,
     end_session_cleanup_started w, power_broadcast_callback w)"

lemma control_simps [simp, frame]:
  "control (snd (syscall os c w)) = control w"
  "control (log_event os e s a b w) = control w"
  by (simp_all add: control_def)

lemma statics_control: "statics w = statics w' \<Longrightarrow> control w = control w'"
  by (simp add: statics_def control_def)

lemma statics_blocker_active: "statics w = statics w' \<Longrightarrow> blocker_active w = blocker_active w'"
  by (simp add: statics_def)

lemma call_unit_cases:
  "call_unit os c w =
     (case r_err (os (trace w) c) of Some e \<Rightarrow> Inl e | None \<Rightarrow> Inr (), snd (syscall os c w))"
  by (simp add: call_unit_def syscall_def Let_def)

lemma call_num_cases:
  "call_num os c w =
     (case r_err (os (trace w) c) of Some e \<Rightarrow> Inl e | None \<Rightarrow> Inr (r_num (os (trace w) c)),
      snd (syscall os c w))"
  by (simp add: call_num_def syscall_def Let_def)

lemma call_value_eq: "call_value os c w = (r_num (os (trace w) c), snd (syscall os c w))"
  by (simp add: call_value_def syscall_def Let_def)

lemma call_error_eq:
  "call_error os c w =
     (case r_err (os (trace w) c) of Some e \<Rightarrow> e
      | None \<Rightarrow> \<lparr>err_code = of_nat (r_num (os (trace w) c)), err_text = r_text (os (trace w) c)\<rparr>,
      snd (syscall os c w))"
  by (simp add: call_error_def syscall_def Let_def)

lemmas call_eqs = call_unit_cases call_num_cases call_value_eq call_error_eq

subsection \<open>Which calls an operation makes\<close>

text \<open>Between two states only calls satisfying \<open>P\<close> were made: one fact per operation that
  frames every ledger those calls do not appear in.\<close>

definition only_calls :: "(sys_call \<Rightarrow> bool) \<Rightarrow> world \<Rightarrow> world \<Rightarrow> bool" where
  "only_calls P w w' \<longleftrightarrow> (\<exists>new. trace w' = new @ trace w \<and> (\<forall>cr \<in> set new. P (fst cr)))"

lemma only_calls_refl [simp, intro]: "only_calls P w w"
  by (simp add: only_calls_def)

lemma only_calls_same: "trace w' = trace w \<Longrightarrow> only_calls P w w'"
  by (simp add: only_calls_def)

lemma only_calls_trans: "only_calls P w w' \<Longrightarrow> only_calls P w' w'' \<Longrightarrow> only_calls P w w''"
  by (fastforce simp: only_calls_def)

lemma only_calls_syscall [intro]: "only_calls P w w' \<Longrightarrow> P c \<Longrightarrow> only_calls P w (snd (syscall os c w'))"
  by (fastforce simp: only_calls_def)

lemma only_calls_syscall_simp [simp]: "P c \<Longrightarrow> only_calls P w w' \<Longrightarrow> only_calls P w (snd (syscall os c w'))"
  by (rule only_calls_syscall)

lemma only_calls_log [simp]: "only_calls P w (log_event os e s a b w') = only_calls P w w'"
  by (simp add: only_calls_def)

lemma only_calls_log_left [simp]: "only_calls P (log_event os e s a b w) w' = only_calls P w w'"
  by (simp add: only_calls_def)

lemma only_calls_mono: "only_calls P w w' \<Longrightarrow> (\<And>c. P c \<Longrightarrow> Q c) \<Longrightarrow> only_calls Q w w'"
  by (auto simp: only_calls_def)

lemma only_calls_ledger:
  assumes "only_calls P w w'" and "\<And>c r h. P c \<Longrightarrow> f ((c, r) # h) = f h"
  shows "f (trace w') = f (trace w)"
proof -
  have "f (new @ h) = f h" if "\<forall>cr \<in> set new. P (fst cr)" for new :: history and h
    using that by (induction new) (auto simp: assms(2))
  with assms(1) show ?thesis by (auto simp: only_calls_def)
qed

text \<open>A quiet operating system: every call succeeds and hands out handle 7.\<close>

definition quiet_os :: os where
  "quiet_os h c = \<lparr>r_err = None, r_num = 7, r_text = [], r_bytes = [], r_events = []\<rparr>"

end
