(* ===== verification/Worker.thy ===== *)
theory Worker
  imports World
begin

text \<open>
  What the worker threads of Layers 2, 3 and 4 share. A thread is a value of some type \<open>'t\<close>
  with a phase and one transition function: from \<open>Spawned\<close> it runs its startup, from
  \<open>Polling\<close> it takes one turn of its loop (or of a blocking call), and \<open>Finished\<close> is the end.
  The main thread's operations and the worker's turns interleave.

  \<open>stoppable_worker\<close> is the contract the main thread relies on when it joins: once asked to
  stop, a worker ends within two turns. \<open>protection_layer\<close> is the contract of a background
  layer towards the coordinator.
\<close>

datatype worker_phase = Spawned | Polling | Finished

text \<open>What can happen to a layer with a worker thread: the main thread calls one of its
  operations, or the worker takes a turn.\<close>

datatype layer_event = Ev_Activate | Ev_Deactivate | Ev_Forced_Cleanup | Ev_Worker_Turn

text \<open>Joining: let the worker take its remaining turns.\<close>

definition run_to_end :: "('t \<Rightarrow> 't) \<Rightarrow> 't \<Rightarrow> 't" where
  "run_to_end step t = step (step t)"

locale stoppable_worker =
  fixes step :: "'t \<Rightarrow> 't" and phase :: "'t \<Rightarrow> worker_phase" and stopping :: "'t \<Rightarrow> bool"
  assumes stop_kept: "stopping t \<Longrightarrow> stopping (step t)"
    and spawned_moves: "phase t = Spawned \<Longrightarrow> phase (step t) \<noteq> Spawned"
    and polling_stops: "phase t = Polling \<Longrightarrow> stopping t \<Longrightarrow> phase (step t) = Finished"
    and finished_stays: "phase t = Finished \<Longrightarrow> step t = t"
begin

lemma run_to_end_finished:
  assumes "stopping t"
  shows "phase (run_to_end step t) = Finished"
proof (cases "phase t")
  case Spawned
  then show ?thesis
    using spawned_moves [of t] polling_stops [of "step t"] finished_stays [of "step t"] stop_kept [OF assms]
    by (cases "phase (step t)") (simp_all add: run_to_end_def)
next
  case Polling
  with polling_stops [of t] finished_stays [of "step t"] assms show ?thesis by (simp add: run_to_end_def)
next
  case Finished
  with finished_stays [of t] show ?thesis by (simp add: run_to_end_def)
qed

lemma more_turns_change_nothing:
  assumes "stopping t" and "2 \<le> n"
  shows "(step ^^ n) t = run_to_end step t"
proof -
  from assms(2) obtain k where n: "n = k + 2" using le_Suc_ex [of 2 n] by (auto simp: add.commute)
  have "(step ^^ k) (run_to_end step t) = run_to_end step t"
    by (induction k) (simp_all add: finished_stays run_to_end_finished [OF assms(1)])
  moreover have "(step ^^ 2) t = run_to_end step t" by (simp add: run_to_end_def numeral_2_eq_2)
  ultimately show ?thesis by (simp only: n funpow_add comp_apply)
qed

end

text \<open>
  The contract of a background layer: \<open>inv\<close> is its well-formedness, \<open>idle\<close> says it holds
  nothing. Activation and deactivation keep \<open>inv\<close>, leave Layer 1's flags alone, and
  deactivation ends idle.
\<close>

locale protection_layer =
  fixes activate :: "'b \<times> world \<Rightarrow> (string + unit) \<times> ('b \<times> world)"
    and deactivate :: "'b \<times> world \<Rightarrow> 'b \<times> world"
    and is_active :: "'b \<Rightarrow> bool" and inv :: "'b \<Rightarrow> bool" and idle :: "'b \<Rightarrow> bool"
  assumes activate_inv: "inv b \<Longrightarrow> inv (fst (snd (activate (b, w))))"
    and deactivate_inv: "inv b \<Longrightarrow> inv (fst (deactivate (b, w)))"
    and deactivate_idle: "inv b \<Longrightarrow> idle (fst (deactivate (b, w)))"
    and idle_inactive: "inv b \<Longrightarrow> idle b \<Longrightarrow> \<not> is_active b"
    and activate_control: "inv b \<Longrightarrow> control (snd (snd (activate (b, w)))) = control w"
    and deactivate_control: "inv b \<Longrightarrow> control (snd (deactivate (b, w))) = control w"
begin

fun layer_op :: "bool \<Rightarrow> 'b \<times> world \<Rightarrow> 'b \<times> world" where
  "layer_op True s = snd (activate s)"
| "layer_op False s = deactivate s"

lemma layer_op_keeps: "inv b \<Longrightarrow> layer_op on (b, w) = (b', w') \<Longrightarrow> inv b' \<and> control w' = control w"
  using activate_inv [of b w] deactivate_inv [of b w] activate_control [of b w] deactivate_control [of b w]
  by (cases on) auto

lemma layer_ops_keep: "inv b \<Longrightarrow> fold layer_op ons (b, w) = (b', w') \<Longrightarrow> inv b' \<and> control w' = control w"
proof (induction ons arbitrary: b w)
  case (Cons on ons)
  obtain b1 w1 where "layer_op on (b, w) = (b1, w1)" by (cases "layer_op on (b, w)")
  with Cons layer_op_keeps [OF Cons.prems(1)] show ?case by (metis comp_apply fold_simps(2))
qed simp

lemma off_after_any_use:
  assumes "inv b"
  shows "idle (fst (deactivate (fold layer_op ons (b, w)))) \<and>
         \<not> is_active (fst (deactivate (fold layer_op ons (b, w))))"
proof -
  obtain b' w' where r: "fold layer_op ons (b, w) = (b', w')" by (cases "fold layer_op ons (b, w)")
  with layer_ops_keep [OF assms] have "inv b'" by blast
  with deactivate_inv deactivate_idle idle_inactive show ?thesis by (simp add: r)
qed

end

end
