(* ===== verification/Sleep_Layer.thy ===== *)
theory Sleep_Layer
  imports Worker
begin

text \<open>
  \<^verbatim>\<open>blocker/sleep.rs\<close>: the owner of the system/display Power Request pair.
  \<open>power_requests\<close> is \<^verbatim>\<open>PowerRequests<WindowsPowerApi>\<close> (the array \<^verbatim>\<open>[bool; 2]\<close> is a list of
  length two), \<open>sleep_blocker\<close> is \<^verbatim>\<open>SleepBlocker\<close>; the \<^verbatim>\<open>WindowsPowerApi\<close> methods are the
  \<open>api_*\<close> definitions.

  The lemmas show the layer's invariant (either nothing is held, or one handle with both
  requests acquired), the outcome of every operation on success and on failure, and that for
  every operating system the handles the process holds are exactly the one the layer owns.
\<close>

definition request_types :: "power_request_type list" where
  "request_types = [PowerRequestSystemRequired, PowerRequestDisplayRequired]"

record power_requests =
  pr_handle :: "nat option"
  pr_acquired :: "bool list"

record sleep_blocker =
  sb_requests :: power_requests

definition power_requests_default :: power_requests where
  "power_requests_default = \<lparr>pr_handle = None, pr_acquired = [False, False]\<rparr>"

definition sleep_blocker_default :: sleep_blocker where
  "sleep_blocker_default = \<lparr>sb_requests = power_requests_default\<rparr>"

subsection \<open>\<^verbatim>\<open>WindowsPowerApi\<close>\<close>

definition debug_kind :: "os \<Rightarrow> power_request_type \<Rightarrow> string" where
  "debug_kind os kind = r_text (os [] (Render (DebugPowerRequestType kind)))"

definition api_create :: "os \<Rightarrow> (world, string, nat) prog" where
  "api_create os =
     map_error (\<lambda>e. ''PowerCreateRequest failed: '' @ err_text e) (call_num os (Power PowerCreateRequest))"

definition api_set :: "os \<Rightarrow> nat \<Rightarrow> power_request_type \<Rightarrow> (world, string, unit) prog" where
  "api_set os handle kind =
     map_error (\<lambda>e. ''PowerSetRequest('' @ debug_kind os kind @ '') failed: '' @ err_text e)
       (call_unit os (Power (PowerSetRequest handle kind)))"

definition api_clear :: "os \<Rightarrow> nat \<Rightarrow> power_request_type \<Rightarrow> (world, string, unit) prog" where
  "api_clear os handle kind =
     map_error (\<lambda>e. ''PowerClearRequest('' @ debug_kind os kind @ '') failed: '' @ err_text e)
       (call_unit os (Power (PowerClearRequest handle kind)))"

definition api_close :: "os \<Rightarrow> nat \<Rightarrow> (world, string, unit) prog" where
  "api_close os handle =
     map_error (\<lambda>e. ''CloseHandle failed: '' @ err_text e) (call_unit os (Token (CloseHandle handle)))"

subsection \<open>\<^verbatim>\<open>PowerRequests\<close>\<close>

definition requests_is_active :: "power_requests \<Rightarrow> bool" where
  "requests_is_active r = (pr_handle r \<noteq> None \<and> list_all id (pr_acquired r))"

definition requests_close :: "os \<Rightarrow> (power_requests \<times> world, string, unit) prog" where
  "requests_close os = (\<lambda>(r, w).
     let r = r\<lparr>pr_acquired := [False, False]\<rparr> in
     case pr_handle r of
       Some handle \<Rightarrow> on_world (api_close os handle) (r\<lparr>pr_handle := None\<rparr>, w)
     | None \<Rightarrow> (Inr (), (r\<lparr>pr_handle := None\<rparr>, w)))"

text \<open>The clearing loop of \<^verbatim>\<open>release\<close>: every acquired kind is cleared, errors are collected.\<close>

fun clear_loop :: "os \<Rightarrow> nat \<Rightarrow> (power_request_type \<times> bool) list \<Rightarrow> string list \<Rightarrow> world \<Rightarrow>
    string list \<times> world" where
  "clear_loop os handle [] errors w = (errors, w)"
| "clear_loop os handle ((kind, acq) # rest) errors w =
     (if acq then
        (case api_clear os handle kind w of
           (Inl error, w') \<Rightarrow> clear_loop os handle rest (errors @ [error]) w'
         | (Inr _, w') \<Rightarrow> clear_loop os handle rest errors w')
      else clear_loop os handle rest errors w)"

text \<open>\<^verbatim>\<open>errors.join("; ")\<close>\<close>

fun join_errors :: "string list \<Rightarrow> string" where
  "join_errors [] = []"
| "join_errors [e] = e"
| "join_errors (e # es) = e @ ''; '' @ join_errors es"

definition requests_release :: "os \<Rightarrow> (power_requests \<times> world, string, unit) prog" where
  "requests_release os = (\<lambda>(r, w).
     let (errors, w) =
       (case pr_handle r of
          Some handle \<Rightarrow> clear_loop os handle (zip request_types (pr_acquired r)) [] w
        | None \<Rightarrow> ([], w)) in
     let (closed, (r, w)) = requests_close os (r, w) in
     let errors = (case closed of Inl error \<Rightarrow> errors @ [error] | Inr _ \<Rightarrow> errors) in
     (if errors = [] then Inr () else Inl (join_errors errors), (r, w)))"

text \<open>The loop over \<^verbatim>\<open>REQUEST_TYPES.into_iter().enumerate()\<close> in \<^verbatim>\<open>activate\<close>.\<close>

fun set_loop :: "os \<Rightarrow> nat \<Rightarrow> (nat \<times> power_request_type) list \<Rightarrow>
    (power_requests \<times> world, string, unit) prog" where
  "set_loop os handle [] (r, w) = (Inr (), (r, w))"
| "set_loop os handle ((index, kind) # rest) (r, w) =
     (case api_set os handle kind w of
        (Inl error, w') \<Rightarrow>
          (case requests_release os (r, w') of
             (Inr _, s) \<Rightarrow> (Inl error, s)
           | (Inl cleanup_error, s) \<Rightarrow> (Inl (error @ ''; cleanup: '' @ cleanup_error), s))
      | (Inr _, w') \<Rightarrow>
          set_loop os handle rest (r\<lparr>pr_acquired := (pr_acquired r)[index := True]\<rparr>, w'))"

definition requests_activate :: "os \<Rightarrow> (power_requests \<times> world, string, unit) prog" where
  "requests_activate os = (\<lambda>(r, w).
     if requests_is_active r then (Inr (), (r, w))
     else case api_create os w of
       (Inl error, w') \<Rightarrow> (Inl error, (r, w'))
     | (Inr handle, w') \<Rightarrow>
         set_loop os handle (enumerate 0 request_types) (r\<lparr>pr_handle := Some handle\<rparr>, w'))"

subsection \<open>\<^verbatim>\<open>SleepBlocker\<close>\<close>

definition sleep_is_active :: "sleep_blocker \<Rightarrow> bool" where
  "sleep_is_active b = requests_is_active (sb_requests b)"

definition sleep_activate :: "os \<Rightarrow> (sleep_blocker \<times> world, string, unit) prog" where
  "sleep_activate os = (\<lambda>(b, w).
     if sleep_is_active b then (Inr (), (b, w))
     else case requests_activate os (sb_requests b, w) of
       (Inl error, (r, w')) \<Rightarrow>
         (Inl error, (b\<lparr>sb_requests := r\<rparr>, log_event os ''sleep_blocked'' Src_Sleep error False w'))
     | (Inr _, (r, w')) \<Rightarrow>
         (Inr (), (b\<lparr>sb_requests := r\<rparr>,
            log_event os ''sleep_blocked'' Src_Sleep
              ''Wardoff acquired system/display Power Requests for idle-sleep and automatic display-timeout prevention. Windows policy and explicit Sleep/Hibernate can override this protection.''
              True w')))"

definition sleep_deactivate :: "os \<Rightarrow> sleep_blocker \<times> world \<Rightarrow> sleep_blocker \<times> world" where
  "sleep_deactivate os = (\<lambda>(b, w).
     if pr_handle (sb_requests b) = None then (b, w)
     else case requests_release os (sb_requests b, w) of
       (Inr _, (r, w')) \<Rightarrow>
         (b\<lparr>sb_requests := r\<rparr>,
          log_event os ''sleep_unblocked'' Src_Sleep
            ''Wardoff released its idle-power requests and closed the request handle.'' True w')
     | (Inl error, (r, w')) \<Rightarrow>
         (b\<lparr>sb_requests := r\<rparr>, log_event os ''sleep_unblocked'' Src_Sleep error False w'))"

definition sleep_begin_forced_shutdown_cleanup ::
    "os \<Rightarrow> sleep_blocker \<times> world \<Rightarrow> sleep_blocker \<times> world" where
  "sleep_begin_forced_shutdown_cleanup os = sleep_deactivate os"

definition sleep_renew_after_resume :: "os \<Rightarrow> (sleep_blocker \<times> world, string, unit) prog" where
  "sleep_renew_after_resume os = (\<lambda>(b, w).
     case requests_close os (sb_requests b, w) of
       (Inl error, (r, w')) \<Rightarrow> (Inl error, (b\<lparr>sb_requests := r\<rparr>, w'))
     | (Inr _, (r, w')) \<Rightarrow> sleep_activate os (b\<lparr>sb_requests := r\<rparr>, w'))"

text \<open>Dropping a \<^verbatim>\<open>SleepBlocker\<close>: its own \<^verbatim>\<open>Drop\<close>, then that of the \<^verbatim>\<open>PowerRequests\<close> field.\<close>

definition sleep_drop :: "os \<Rightarrow> sleep_blocker \<times> world \<Rightarrow> sleep_blocker \<times> world" where
  "sleep_drop os s =
     (let (b, w) = sleep_deactivate os s;
          (_, (r, w')) = requests_release os (sb_requests b, w)
      in (b\<lparr>sb_requests := r\<rparr>, w'))"

subsection \<open>Operation sequences, and what the machine holds\<close>

datatype sleep_op = Op_Activate | Op_Deactivate | Op_Forced_Cleanup | Op_Renew | Op_Drop

fun sleep_op_step :: "os \<Rightarrow> sleep_op \<Rightarrow> sleep_blocker \<times> world \<Rightarrow> sleep_blocker \<times> world" where
  "sleep_op_step os Op_Activate s = snd (sleep_activate os s)"
| "sleep_op_step os Op_Deactivate s = sleep_deactivate os s"
| "sleep_op_step os Op_Forced_Cleanup s = sleep_begin_forced_shutdown_cleanup os s"
| "sleep_op_step os Op_Renew s = snd (sleep_renew_after_resume os s)"
| "sleep_op_step os Op_Drop s = sleep_drop os s"

text \<open>The counts Windows keeps per request object and kind: a fresh object starts at zero, a
  successful set adds one, a successful clear takes one, closing the object ends them.\<close>

fun request_count :: "history \<Rightarrow> nat \<Rightarrow> power_request_type \<Rightarrow> nat" where
  "request_count [] h k = 0"
| "request_count ((c, rep) # t) h k =
     (case c of
        Power PowerCreateRequest \<Rightarrow>
          (if r_err rep = None \<and> r_num rep = h then 0 else request_count t h k)
      | Power (PowerSetRequest h' k') \<Rightarrow>
          (if r_err rep = None \<and> h' = h \<and> k' = k then Suc (request_count t h k)
           else request_count t h k)
      | Power (PowerClearRequest h' k') \<Rightarrow>
          (if r_err rep = None \<and> h' = h \<and> k' = k then request_count t h k - 1
           else request_count t h k)
      | Token (CloseHandle h') \<Rightarrow> (if h' = h then 0 else request_count t h k)
      | _ \<Rightarrow> request_count t h k)"

definition requests_ok :: "power_requests \<Rightarrow> bool" where
  "requests_ok r \<longleftrightarrow> pr_acquired r = (if pr_handle r = None then [False, False] else [True, True])"

definition owned_handles :: "power_requests \<Rightarrow> nat multiset" where
  "owned_handles r = (case pr_handle r of None \<Rightarrow> {#} | Some h \<Rightarrow> {#h#})"

definition sleep_inv :: "sleep_blocker \<Rightarrow> bool" where
  "sleep_inv b = requests_ok (sb_requests b)"

text \<open>The handles the process holds are \<open>H\<close> plus the one the layer owns.\<close>

definition handles_accounted :: "nat multiset \<Rightarrow> power_requests \<times> world \<Rightarrow> bool" where
  "handles_accounted H s \<longleftrightarrow> open_handles (trace (snd s)) = H + owned_handles (fst s)"

text \<open>Each request kind is counted once on the owned object and nowhere else.\<close>

definition counts_exact :: "power_requests \<times> world \<Rightarrow> bool" where
  "counts_exact s \<longleftrightarrow> (\<forall>h k.
     request_count (trace (snd s)) h k = (if pr_handle (fst s) = Some h then 1 else 0))"

definition requests_inv :: "nat multiset \<Rightarrow> power_requests \<times> world \<Rightarrow> bool" where
  "requests_inv H s \<longleftrightarrow> requests_ok (fst s) \<and> handles_accounted H s \<and> counts_exact s"

subsection \<open>Closing and releasing\<close>

lemmas api_defs = api_create_def api_set_def api_clear_def api_close_def

lemma requests_ok_active: "requests_ok r \<Longrightarrow> requests_is_active r \<longleftrightarrow> pr_handle r \<noteq> None"
  by (auto simp: requests_ok_def requests_is_active_def)

lemma requests_default_simps [simp]:
  "pr_handle power_requests_default = None"
  "pr_acquired power_requests_default = [False, False]"
  "requests_ok power_requests_default" "\<not> requests_is_active power_requests_default"
  "owned_handles power_requests_default = {#}"
  by (simp_all add: requests_ok_def power_requests_default_def requests_is_active_def owned_handles_def)

lemma requests_reset [simp]:
  "(r :: power_requests)\<lparr>pr_handle := None, pr_acquired := [False, False]\<rparr> = power_requests_default"
  "(r :: power_requests)\<lparr>pr_acquired := [False, False], pr_handle := None\<rparr> = power_requests_default"
  by (simp_all add: power_requests_default_def)

lemma requests_close_eq:
  "requests_close os (r, w) =
     (case pr_handle r of
        None \<Rightarrow> (Inr (), (power_requests_default, w))
      | Some h \<Rightarrow> (fst (api_close os h w), (power_requests_default, snd (api_close os h w))))"
  by (simp add: requests_close_def on_world_def Let_def split: option.splits prod.splits)

lemma close_result [layer_simps]: "fst (snd (requests_close os (r, w))) = power_requests_default"
  by (simp add: requests_close_eq split: option.splits)

lemma close_trace:
  "trace (snd (snd (requests_close os (r, w)))) =
     (case pr_handle r of
        None \<Rightarrow> trace w
      | Some h \<Rightarrow> (Token (CloseHandle h), os (trace w) (Token (CloseHandle h))) # trace w)"
  by (simp add: requests_close_eq api_close_def split: option.splits)

lemma close_statics [frame]: "statics (snd (snd (requests_close os (r, w)))) = statics w"
  by (simp add: requests_close_eq api_close_def split: option.splits)

lemma snd_api [simp, frame]:
  "snd (api_create os w) = snd (syscall os (Power PowerCreateRequest) w)"
  "snd (api_set os h k w) = snd (syscall os (Power (PowerSetRequest h k)) w)"
  "snd (api_clear os h k w) = snd (syscall os (Power (PowerClearRequest h k)) w)"
  "snd (api_close os h w) = snd (syscall os (Token (CloseHandle h)) w)"
  by (simp_all add: api_defs)

lemma is_ok_api [simp]:
  "is_ok (fst (api_create os w)) \<longleftrightarrow> r_err (os (trace w) (Power PowerCreateRequest)) = None"
  "is_ok (fst (api_set os h k w)) \<longleftrightarrow> r_err (os (trace w) (Power (PowerSetRequest h k))) = None"
  by (simp_all add: api_defs call_eqs split: option.splits)

lemma clear_loop_Cons:
  "clear_loop os h ((k, a) # rest) errs w =
     (if a then
        clear_loop os h rest
          (case fst (api_clear os h k w) of Inl e \<Rightarrow> errs @ [e] | Inr _ \<Rightarrow> errs)
          (snd (api_clear os h k w))
      else clear_loop os h rest errs w)"
  by (auto split: prod.splits sum.splits simp del: snd_api)

declare clear_loop.simps(2) [simp del]

lemma clear_loop_frame [simp, frame]:
  "open_handles (trace (snd (clear_loop os h ks errs w))) = open_handles (trace w)"
  "statics (snd (clear_loop os h ks errs w)) = statics w"
  by (induction ks arbitrary: errs w) (simp_all add: clear_loop_Cons split_paired_all)

lemma clear_loop_count_other:
  "h' \<noteq> h \<Longrightarrow>
     request_count (trace (snd (clear_loop os h ks errs w))) h' k = request_count (trace w) h' k"
  by (induction ks arbitrary: errs w) (simp_all add: clear_loop_Cons split_paired_all)

lemma requests_release_eq:
  "requests_release os (r, w) =
     (let (errors, w1) =
        (case pr_handle r of
           Some h \<Rightarrow> clear_loop os h (zip request_types (pr_acquired r)) [] w
         | None \<Rightarrow> ([], w));
       errors' =
        (case fst (requests_close os (r, w1)) of Inl e \<Rightarrow> errors @ [e] | Inr _ \<Rightarrow> errors)
      in (if errors' = [] then Inr () else Inl (join_errors errors'),
          (power_requests_default, snd (snd (requests_close os (r, w1))))))"
  by (simp add: requests_release_def Let_def requests_close_eq split: prod.splits option.splits sum.splits)

lemma release_result [layer_simps]: "fst (snd (requests_release os (r, w))) = power_requests_default"
  by (simp add: requests_release_eq Let_def split: prod.splits)

lemma release_statics [frame]: "statics (snd (snd (requests_release os (r, w)))) = statics w"
  by (auto simp: requests_release_eq Let_def close_statics split: prod.splits option.splits)
    (metis clear_loop_frame(2) snd_conv)

text \<open>The state inside an operation: handles accounted for, nothing counted elsewhere.\<close>

definition owned_only :: "nat multiset \<Rightarrow> power_requests \<times> world \<Rightarrow> bool" where
  "owned_only H s \<longleftrightarrow> handles_accounted H s \<and>
     (\<forall>h k. pr_handle (fst s) \<noteq> Some h \<longrightarrow> request_count (trace (snd s)) h k = 0)"

lemma requests_inv_owned_only: "requests_inv H s \<Longrightarrow> owned_only H s"
  by (simp add: requests_inv_def owned_only_def counts_exact_def)

lemma close_inv:
  assumes "owned_only H (r, w)"
  shows "requests_inv H (snd (requests_close os (r, w)))"
proof (cases "pr_handle r")
  case None
  with assms show ?thesis
    by (simp add: requests_close_eq requests_inv_def owned_only_def handles_accounted_def
        counts_exact_def owned_handles_def)
next
  case (Some h)
  with assms show ?thesis
    by (simp add: requests_close_eq requests_inv_def owned_only_def handles_accounted_def
        counts_exact_def owned_handles_def)
qed

lemma clear_loop_owned_only:
  assumes "owned_only H (r, w)" and "pr_handle r = Some h"
  shows "owned_only H (r, snd (clear_loop os h ks errs w))"
  using assms by (auto simp: owned_only_def handles_accounted_def clear_loop_count_other)

lemma release_inv:
  assumes "owned_only H (r, w)"
  shows "requests_inv H (snd (requests_release os (r, w)))"
proof (cases "pr_handle r")
  case None
  with close_inv [OF assms] show ?thesis
    by (simp add: requests_release_eq requests_close_eq)
next
  case (Some h)
  let ?w1 = "snd (clear_loop os h (zip request_types (pr_acquired r)) [] w)"
  have "requests_inv H (snd (requests_close os (r, ?w1)))"
    by (rule close_inv) (rule clear_loop_owned_only [OF assms Some])
  with Some show ?thesis
    by (simp add: requests_release_eq requests_close_eq Let_def case_prod_beta)
qed

subsection \<open>Activating\<close>

lemma request_types_enum:
  "enumerate 0 request_types = [(0, PowerRequestSystemRequired), (1, PowerRequestDisplayRequired)]"
  by (simp add: request_types_def)

lemma set_loop_Cons:
  "set_loop os h ((i, k) # rest) (r, w) =
     (let w' = snd (api_set os h k w) in
      case fst (api_set os h k w) of
        Inl e \<Rightarrow>
          (case requests_release os (r, w') of
             (Inr _, s) \<Rightarrow> (Inl e, s)
           | (Inl c, s) \<Rightarrow> (Inl (e @ ''; cleanup: '' @ c), s))
      | Inr _ \<Rightarrow> set_loop os h rest (r\<lparr>pr_acquired := (pr_acquired r)[i := True]\<rparr>, w'))"
  by (auto split: prod.splits sum.splits simp: Let_def simp del: snd_api)

declare set_loop.simps(2) [simp del]

lemma owned_only_set:
  "owned_only H (r, w) \<Longrightarrow> pr_handle r = Some h \<Longrightarrow> owned_only H (r, snd (api_set os h k w))"
  by (auto simp: owned_only_def handles_accounted_def)

lemma set_loop_fails:
  assumes "owned_only H (r, w)" and "pr_handle r = Some h" and "fst (api_set os h k w) = Inl e"
  shows "is_err (fst (set_loop os h ((i, k) # rest) (r, w))) \<and>
         snd (set_loop os h ((i, k) # rest) (r, w)) =
           snd (requests_release os (r, snd (api_set os h k w))) \<and>
         requests_inv H (snd (set_loop os h ((i, k) # rest) (r, w)))"
  using assms(3) release_inv [OF owned_only_set [OF assms(1,2)], of os os k]
  by (auto simp: set_loop_Cons Let_def split: prod.splits sum.splits)

lemma api_set_cases:
  "fst (api_set os h k w) = Inr () \<and> r_err (os (trace w) (Power (PowerSetRequest h k))) = None \<or>
   (\<exists>e. fst (api_set os h k w) = Inl e)"
  by (cases "fst (api_set os h k w)") (auto, metis is_ok_api(2) is_ok_simps(1))

lemma set_loop_inv:
  assumes r: "pr_handle r = Some h" "pr_acquired r = [False, False]"
    and own: "owned_only H (r, w)" and zero: "\<forall>k. request_count (trace w) h k = 0"
  shows "requests_inv H (snd (set_loop os h (enumerate 0 request_types) (r, w))) \<and>
         (is_ok (fst (set_loop os h (enumerate 0 request_types) (r, w))) \<longleftrightarrow>
          pr_handle (fst (snd (set_loop os h (enumerate 0 request_types) (r, w)))) = Some h) \<and>
         (is_err (fst (set_loop os h (enumerate 0 request_types) (r, w))) \<longleftrightarrow>
          pr_handle (fst (snd (set_loop os h (enumerate 0 request_types) (r, w)))) = None)"
proof -
  let ?s = PowerRequestSystemRequired and ?d = PowerRequestDisplayRequired
  let ?w1 = "snd (api_set os h ?s w)"
  let ?r1 = "r\<lparr>pr_acquired := (pr_acquired r)[0 := True]\<rparr>"
  show ?thesis
  proof (cases "fst (api_set os h ?s w)")
    case (Inl e)
    from set_loop_fails [OF own r(1) Inl, of 0 "[(1, ?d)]"] show ?thesis
      by (auto simp: request_types_enum release_result is_err_def)
  next
    case (Inr u)
    then have ok1: "r_err (os (trace w) (Power (PowerSetRequest h ?s))) = None"
      using api_set_cases [of os h ?s w] by auto
    have own1: "owned_only H (?r1, ?w1)"
      using own r(1) by (auto simp: owned_only_def handles_accounted_def owned_handles_def)
    have step: "set_loop os h (enumerate 0 request_types) (r, w) = set_loop os h [(1, ?d)] (?r1, ?w1)"
      using Inr by (simp add: request_types_enum set_loop_Cons Let_def)
    show ?thesis
    proof (cases "fst (api_set os h ?d ?w1)")
      case (Inl e)
      from set_loop_fails [OF own1 _ Inl, of 1 "[]"] r(1) show ?thesis
        by (auto simp: step release_result is_err_def)
    next
      case (Inr u')
      then have ok2: "r_err (os (trace ?w1) (Power (PowerSetRequest h ?d))) = None"
        using api_set_cases [of os h ?d ?w1] by auto
      have counts: "counts_exact (?r1, snd (api_set os h ?d ?w1))"
      proof -
        have "request_count (trace (snd (api_set os h ?d ?w1))) h' k = (if h = h' then 1 else 0)" for h' k
          using ok1 ok2 zero own r(1) by (cases k) (auto simp: owned_only_def)
        with r(1) show ?thesis by (simp add: counts_exact_def)
      qed
      with Inr r own1 show ?thesis
        by (simp add: step set_loop_Cons Let_def requests_inv_def requests_ok_def counts_exact_def
            handles_accounted_def owned_only_def owned_handles_def)
    qed
  qed
qed

lemma activate_inv:
  assumes inv: "requests_inv H (r, w)"
  shows "requests_inv H (snd (requests_activate os (r, w))) \<and>
         (is_ok (fst (requests_activate os (r, w))) \<longleftrightarrow>
          requests_is_active (fst (snd (requests_activate os (r, w)))))"
proof (cases "requests_is_active r")
  case True
  with inv show ?thesis by (simp add: requests_activate_def)
next
  case False
  with inv have none: "pr_handle r = None"
    using requests_ok_active by (auto simp: requests_inv_def)
  show ?thesis
  proof (cases "fst (api_create os w)")
    case (Inl e)
    then have "r_err (os (trace w) (Power PowerCreateRequest)) \<noteq> None"
      using is_ok_api(1) [of os w] by auto
    with Inl False inv show ?thesis
      by (auto simp: requests_activate_def requests_inv_def handles_accounted_def counts_exact_def
          case_prod_beta none)
  next
    case (Inr h)
    then have created: "r_err (os (trace w) (Power PowerCreateRequest)) = None"
      "h = r_num (os (trace w) (Power PowerCreateRequest))"
      by (auto simp: api_create_def map_error_def call_num_cases split: option.splits)
    let ?r1 = "r\<lparr>pr_handle := Some h\<rparr>" and ?w1 = "snd (api_create os w)"
    have "pr_acquired ?r1 = [False, False]"
      using inv none by (simp add: requests_inv_def requests_ok_def)
    moreover have "owned_only H (?r1, ?w1)" "\<forall>k. request_count (trace ?w1) h k = 0"
      using inv none created
      by (auto simp: owned_only_def requests_inv_def handles_accounted_def counts_exact_def
          owned_handles_def)
    ultimately have loop: "requests_inv H (snd (set_loop os h (enumerate 0 request_types) (?r1, ?w1))) \<and>
        (is_ok (fst (set_loop os h (enumerate 0 request_types) (?r1, ?w1))) \<longleftrightarrow>
         pr_handle (fst (snd (set_loop os h (enumerate 0 request_types) (?r1, ?w1)))) = Some h) \<and>
        (is_err (fst (set_loop os h (enumerate 0 request_types) (?r1, ?w1))) \<longleftrightarrow>
         pr_handle (fst (snd (set_loop os h (enumerate 0 request_types) (?r1, ?w1)))) = None)"
      by (intro set_loop_inv) simp_all
    have "requests_activate os (r, w) = set_loop os h (enumerate 0 request_types) (?r1, ?w1)"
      using Inr False by (simp add: requests_activate_def case_prod_beta del: snd_api)
    with loop show ?thesis
      using requests_ok_active by (auto simp: requests_inv_def is_err_def)
  qed
qed

lemma activate_statics [frame]: "statics (snd (snd (requests_activate os (r, w)))) = statics w"
  by (auto simp: requests_activate_def request_types_enum set_loop_Cons Let_def case_prod_beta
      release_statics split: sum.splits prod.splits)

subsection \<open>The layer\<close>

text \<open>The invariant carried over \<^verbatim>\<open>SleepBlocker\<close> and the machine.\<close>

definition sleep_world_inv :: "nat multiset \<Rightarrow> sleep_blocker \<times> world \<Rightarrow> bool" where
  "sleep_world_inv H s = requests_inv H (sb_requests (fst s), snd s)"

lemma requests_inv_log_event [simp]:
  "requests_inv H (r, log_event os e src a b w) = requests_inv H (r, w)"
  by (simp add: requests_inv_def handles_accounted_def counts_exact_def)

lemma sleep_activate_inv:
  assumes "sleep_world_inv H (b, w)"
  shows "sleep_world_inv H (snd (sleep_activate os (b, w))) \<and>
         (is_ok (fst (sleep_activate os (b, w))) \<longleftrightarrow>
          sleep_is_active (fst (snd (sleep_activate os (b, w)))))"
  using assms activate_inv [of H "sb_requests b" w os]
  by (auto simp: sleep_activate_def sleep_world_inv_def sleep_is_active_def case_prod_beta
      split: sum.splits prod.splits)

lemma sleep_deactivate_inv:
  assumes "sleep_world_inv H (b, w)"
  shows "sleep_world_inv H (sleep_deactivate os (b, w)) \<and>
         \<not> sleep_is_active (fst (sleep_deactivate os (b, w)))"
proof (cases "pr_handle (sb_requests b) = None")
  case True
  with assms show ?thesis
    by (simp add: sleep_deactivate_def sleep_is_active_def requests_is_active_def)
next
  case False
  have "requests_inv H (snd (requests_release os (sb_requests b, w)))"
    using assms release_inv requests_inv_owned_only by (simp add: sleep_world_inv_def)
  with False show ?thesis
    using release_result [of os "sb_requests b" w]
    by (auto simp: sleep_deactivate_def sleep_world_inv_def sleep_is_active_def
        split: prod.splits sum.splits)
qed

lemma sleep_renew_inv:
  assumes "sleep_world_inv H (b, w)"
  shows "sleep_world_inv H (snd (sleep_renew_after_resume os (b, w))) \<and>
         (is_ok (fst (sleep_renew_after_resume os (b, w))) \<longleftrightarrow>
          sleep_is_active (fst (snd (sleep_renew_after_resume os (b, w)))))"
proof -
  have close: "requests_inv H (snd (requests_close os (sb_requests b, w)))"
    using assms close_inv requests_inv_owned_only by (simp add: sleep_world_inv_def)
  obtain res r w' where c: "requests_close os (sb_requests b, w) = (res, (r, w'))"
    by (metis surj_pair)
  have r: "r = power_requests_default" using close_result [of os "sb_requests b" w] c by simp
  show ?thesis
  proof (cases res)
    case (Inl e)
    with c close r show ?thesis
      by (simp add: sleep_renew_after_resume_def sleep_world_inv_def sleep_is_active_def)
  next
    case (Inr u)
    have "sleep_world_inv H (b\<lparr>sb_requests := r\<rparr>, w')"
      using close c by (simp add: sleep_world_inv_def)
    from sleep_activate_inv [OF this, of os] Inr c show ?thesis
      by (simp add: sleep_renew_after_resume_def)
  qed
qed

lemma sleep_drop_inv: "sleep_world_inv H (b, w) \<Longrightarrow> sleep_world_inv H (sleep_drop os (b, w))"
  using sleep_deactivate_inv [of H b w os] release_inv [of H _ _ os] requests_inv_owned_only
  by (fastforce simp: sleep_drop_def sleep_world_inv_def split: prod.splits)

lemma sleep_op_step_inv: "sleep_world_inv H s \<Longrightarrow> sleep_world_inv H (sleep_op_step os op s)"
  by (cases s; cases op)
    (simp_all add: sleep_activate_inv sleep_deactivate_inv sleep_renew_inv sleep_drop_inv
      sleep_begin_forced_shutdown_cleanup_def)

lemma sleep_ops_inv: "sleep_world_inv H s \<Longrightarrow> sleep_world_inv H (fold (sleep_op_step os) ops s)"
  by (induction ops arbitrary: s) (simp_all add: sleep_op_step_inv)

lemma sleep_default_inv:
  assumes "\<forall>h k. request_count (trace w) h k = 0"
  shows "sleep_world_inv (open_handles (trace w)) (sleep_blocker_default, w)"
  using assms
  by (simp add: sleep_world_inv_def sleep_blocker_default_def requests_inv_def handles_accounted_def
      counts_exact_def)

lemma sleep_ops_default_inv:
  assumes "\<forall>h k. request_count (trace w) h k = 0"
  shows "sleep_world_inv (open_handles (trace w)) (fold (sleep_op_step os) ops (sleep_blocker_default, w))"
  by (rule sleep_ops_inv) (rule sleep_default_inv [OF assms])

lemma sleep_inv_active:
  "sleep_world_inv H s \<Longrightarrow> sleep_is_active (fst s) \<longleftrightarrow> pr_handle (sb_requests (fst s)) \<noteq> None"
  using requests_ok_active by (simp add: sleep_world_inv_def requests_inv_def sleep_is_active_def)

lemma sleep_deactivate_default:
  assumes "sleep_inv b"
  shows "sb_requests (fst (sleep_deactivate os (b, w))) = power_requests_default"
proof (cases "pr_handle (sb_requests b)")
  case None
  with assms show ?thesis
    by (cases "sb_requests b")
      (simp add: sleep_deactivate_def sleep_inv_def requests_ok_def power_requests_default_def)
next
  case (Some h)
  then show ?thesis
    using release_result [of os "sb_requests b" w]
    by (auto simp: sleep_deactivate_def split: prod.splits sum.splits)
qed

lemma sleep_deactivate_inactive: "sleep_inv b \<Longrightarrow> \<not> sleep_is_active (fst (sleep_deactivate os (b, w)))"
  by (simp add: sleep_is_active_def sleep_deactivate_default)

lemma sleep_deactivate_keeps: "sleep_inv b \<Longrightarrow> sleep_inv (fst (sleep_deactivate os (b, w)))"
  by (simp add: sleep_inv_def sleep_deactivate_default)

lemma requests_activate_ok:
  assumes "requests_ok r"
  shows "requests_ok (fst (snd (requests_activate os (r, w)))) \<and>
         (is_ok (fst (requests_activate os (r, w))) \<longleftrightarrow>
          requests_is_active (fst (snd (requests_activate os (r, w)))))"
proof (cases "requests_is_active r")
  case True
  with assms show ?thesis by (simp add: requests_activate_def)
next
  case False
  with assms have "pr_handle r = None" "pr_acquired r = [False, False]"
    using requests_ok_active by (auto simp: requests_ok_def)
  with False assms show ?thesis
    by (auto simp: requests_activate_def request_types_enum set_loop_Cons Let_def case_prod_beta
        release_result requests_ok_def requests_is_active_def split: sum.splits)
qed

lemma sleep_activate_reports:
  assumes "sleep_inv b"
  shows "sleep_inv (fst (snd (sleep_activate os (b, w)))) \<and>
         (is_ok (fst (sleep_activate os (b, w))) \<longleftrightarrow>
          sleep_is_active (fst (snd (sleep_activate os (b, w)))))"
  using assms requests_activate_ok [of "sb_requests b" os w]
  by (auto simp: sleep_activate_def sleep_inv_def sleep_is_active_def split: sum.splits prod.splits)

lemma sleep_renew_reports:
  assumes "sleep_inv b"
  shows "sleep_inv (fst (snd (sleep_renew_after_resume os (b, w)))) \<and>
         (is_ok (fst (sleep_renew_after_resume os (b, w))) \<longleftrightarrow>
          sleep_is_active (fst (snd (sleep_renew_after_resume os (b, w)))))"
proof -
  obtain res r w' where c: "requests_close os (sb_requests b, w) = (res, (r, w'))"
    by (metis surj_pair)
  have r: "r = power_requests_default" using close_result [of os "sb_requests b" w] c by simp
  then have "sleep_inv (b\<lparr>sb_requests := r\<rparr>)" by (simp add: sleep_inv_def)
  from sleep_activate_reports [OF this, of os w'] c r show ?thesis
    by (cases res) (simp_all add: sleep_renew_after_resume_def sleep_inv_def sleep_is_active_def)
qed

lemma sleep_statics [frame]:
  "statics (snd (snd (sleep_activate os (b, w)))) = statics w"
  "statics (snd (sleep_deactivate os (b, w))) = statics w"
  "statics (snd (snd (sleep_renew_after_resume os (b, w)))) = statics w"
proof -
  show act: "statics (snd (snd (sleep_activate os (b, w)))) = statics w" for b w
    using activate_statics [of os "sb_requests b" w]
    by (auto simp: sleep_activate_def split: prod.splits sum.splits)
  show "statics (snd (sleep_deactivate os (b, w))) = statics w"
    using release_statics [of os "sb_requests b" w]
    by (auto simp: sleep_deactivate_def split: prod.splits sum.splits)
  show "statics (snd (snd (sleep_renew_after_resume os (b, w)))) = statics w"
    using close_statics [of os "sb_requests b" w] act
    by (auto simp: sleep_renew_after_resume_def split: prod.splits sum.splits)
qed

text \<open>The layer as the coordinator sees it.\<close>

definition sleep_idle :: "sleep_blocker \<Rightarrow> bool" where
  "sleep_idle b \<longleftrightarrow> sb_requests b = power_requests_default"

interpretation sleep_layer: protection_layer "sleep_activate os" "sleep_deactivate os"
    sleep_is_active sleep_inv sleep_idle
proof
  fix b w
  assume inv: "sleep_inv b"
  show "sleep_inv (fst (snd (sleep_activate os (b, w))))" using sleep_activate_reports [OF inv] by simp
  show "sleep_inv (fst (sleep_deactivate os (b, w)))" by (rule sleep_deactivate_keeps [OF inv])
  show "sleep_idle (fst (sleep_deactivate os (b, w)))" by (simp add: sleep_idle_def sleep_deactivate_default [OF inv])
  show "control (snd (snd (sleep_activate os (b, w)))) = control w" by (intro statics_control sleep_statics)
  show "control (snd (sleep_deactivate os (b, w))) = control w" by (intro statics_control sleep_statics)
next
  fix b
  assume "sleep_idle b"
  then show "\<not> sleep_is_active b" by (simp add: sleep_idle_def sleep_is_active_def)
qed

text \<open>C3. Whatever Windows answers, after any sequence of activations, deactivations, forced
  cleanups, resume renewals and drops of a fresh layer: the process holds exactly the handles it
  held before plus the one the layer owns (nothing leaks, nothing is closed twice); each of
  the two request kinds is counted exactly once on the owned object and on no other object
  (duplicate resume notifications never accumulate counts); and the layer reports active
  exactly when it owns such an object.\<close>

theorem power_requests_balanced:
  assumes "\<forall>h k. request_count (trace w) h k = 0"
    and "fold (sleep_op_step os) ops (sleep_blocker_default, w) = (b, w')"
  shows "open_handles (trace w') = open_handles (trace w) + owned_handles (sb_requests b) \<and>
         (\<forall>h k. request_count (trace w') h k = (if pr_handle (sb_requests b) = Some h then 1 else 0)) \<and>
         (sleep_is_active b \<longleftrightarrow> pr_handle (sb_requests b) \<noteq> None)"
proof -
  have inv: "sleep_world_inv (open_handles (trace w)) (b, w')"
    using sleep_ops_default_inv [OF assms(1), of os ops] assms(2) by simp
  then show ?thesis
    using sleep_inv_active [OF inv]
    by (simp add: sleep_world_inv_def requests_inv_def handles_accounted_def counts_exact_def)
qed

text \<open>The operations report what they did: an activation or a resume renewal returns
  \<^verbatim>\<open>Ok\<close> exactly when the layer is active afterwards (so \<^verbatim>\<open>Err\<close> means every partially acquired
  request was rolled back and the object closed), and a deactivation always ends inactive,
  even when clearing or closing fails.\<close>

theorem sleep_operations_report_truthfully:
  assumes "\<forall>h k. request_count (trace w) h k = 0"
    and "s = fold (sleep_op_step os) ops (sleep_blocker_default, w)"
  shows "(is_ok (fst (sleep_activate os s)) \<longleftrightarrow> sleep_is_active (fst (snd (sleep_activate os s)))) \<and>
         (is_ok (fst (sleep_renew_after_resume os s)) \<longleftrightarrow>
            sleep_is_active (fst (snd (sleep_renew_after_resume os s)))) \<and>
         sb_requests (fst (sleep_deactivate os s)) = power_requests_default"
proof -
  obtain b w' where s: "s = (b, w')" by (cases s)
  have inv: "sleep_world_inv (open_handles (trace w)) (b, w')"
    using sleep_ops_default_inv [OF assms(1), of os ops] assms(2) s by simp
  then have "sleep_inv b" by (simp add: sleep_world_inv_def requests_inv_def sleep_inv_def)
  with sleep_activate_inv [OF inv, of os] sleep_renew_inv [OF inv, of os] show ?thesis
    by (simp add: s sleep_deactivate_default)
qed

theorem power_requests_balanced_witness:
  "\<exists>b w'. fold (sleep_op_step quiet_os) [Op_Activate, Op_Renew] (sleep_blocker_default, initial_world) = (b, w') \<and>
     open_handles (trace w') = {#7#} \<and> request_count (trace w') 7 PowerRequestSystemRequired = 1"
proof -
  obtain b w' where s: "fold (sleep_op_step quiet_os) [Op_Activate, Op_Renew]
      (sleep_blocker_default, initial_world) = (b, w')"
    by (metis surj_pair)
  have "pr_handle (sb_requests (fst (fold (sleep_op_step quiet_os) [Op_Activate, Op_Renew]
      (sleep_blocker_default, initial_world)))) = Some 7"
    by (simp add: sleep_activate_def sleep_renew_after_resume_def sleep_blocker_default_def
        requests_activate_def requests_is_active_def request_types_enum set_loop_Cons requests_close_eq
        api_defs map_error_def call_eqs quiet_os_def initial_world_def power_requests_default_def
        sleep_is_active_def)
  then have "pr_handle (sb_requests b) = Some 7" by (simp only: s fst_conv)
  then show ?thesis
    using power_requests_balanced [OF _ s] s
    by (auto simp: initial_world_def owned_handles_def)
qed

theorem sleep_operations_report_truthfully_witness:
  "is_ok (fst (sleep_activate quiet_os (sleep_blocker_default, initial_world))) \<and>
   sleep_is_active (fst (snd (sleep_activate quiet_os (sleep_blocker_default, initial_world))))"
proof -
  have "is_ok (fst (sleep_activate quiet_os (sleep_blocker_default, initial_world)))"
    by (simp add: sleep_activate_def sleep_blocker_default_def
        requests_activate_def requests_is_active_def request_types_enum set_loop_Cons
        api_defs map_error_def call_eqs quiet_os_def initial_world_def power_requests_default_def
        sleep_is_active_def)
  then show ?thesis
    using sleep_operations_report_truthfully
      [of initial_world "(sleep_blocker_default, initial_world)" quiet_os "[]"]
    by (simp add: initial_world_def)
qed

end
