(* ===== verification/Blocker_Types.thy ===== *)
theory Blocker_Types
  imports Wardoff_Prelude
begin

text \<open>
  The small types of \<^verbatim>\<open>blocker/mod.rs\<close> that the command line, the protocol, the tray and the
  coordinator share: \<^verbatim>\<open>BlockerMode\<close>, \<^verbatim>\<open>LayerStatus\<close>, \<^verbatim>\<open>PowerAction\<close>, and the labels rendered
  from them (\<^verbatim>\<open>mode_label\<close>, \<^verbatim>\<open>power_action_label\<close>, \<^verbatim>\<open>{:?}\<close> of the derived \<^verbatim>\<open>Debug\<close>).
\<close>

datatype blocker_mode = Block | Allow

record layer_status =
  ls_shutdown :: bool
  ls_local_shutdown :: bool
  ls_update :: bool
  ls_remote :: bool
  ls_sleep :: bool

datatype power_action = PA_Shutdown | PA_Reboot | PA_Sleep | PA_Hibernate

fun mode_label :: "blocker_mode \<Rightarrow> string" where
  "mode_label Block = ''Block''"
| "mode_label Allow = ''Allow''"

fun power_action_label :: "power_action \<Rightarrow> string" where
  "power_action_label PA_Shutdown = ''shutdown''"
| "power_action_label PA_Reboot = ''reboot''"
| "power_action_label PA_Sleep = ''sleep''"
| "power_action_label PA_Hibernate = ''hibernate''"

fun debug_power_action :: "power_action \<Rightarrow> string" where
  "debug_power_action PA_Shutdown = ''Shutdown''"
| "debug_power_action PA_Reboot = ''Reboot''"
| "debug_power_action PA_Sleep = ''Sleep''"
| "debug_power_action PA_Hibernate = ''Hibernate''"

definition on_off_label :: "bool \<Rightarrow> string" where
  "on_off_label enabled = (if enabled then ''on'' else ''off'')"

lemma mode_cases: "(m = Block \<Longrightarrow> P) \<Longrightarrow> (m = Allow \<Longrightarrow> P) \<Longrightarrow> P"
  by (cases m) simp_all

lemma not_Block [simp]: "m \<noteq> Block \<longleftrightarrow> m = Allow"
  by (cases m) simp_all

lemma not_Allow [simp]: "m \<noteq> Allow \<longleftrightarrow> m = Block"
  by (cases m) simp_all

lemma mode_label_inject [simp]: "mode_label m = mode_label n \<longleftrightarrow> m = n"
  by (cases m; cases n) simp_all

end
