(* ===== verification/Shutdown_Layer.thy ===== *)
theory Shutdown_Layer
  imports World Blocker_Types
begin

text \<open>
  \<^verbatim>\<open>blocker/shutdown.rs\<close>, Layer 1: the two hidden windows, the shutdown block reason and the
  window procedure that answers \<^verbatim>\<open>WM_QUERYENDSESSION\<close>, \<^verbatim>\<open>WM_ENDSESSION\<close> and
  \<^verbatim>\<open>WM_POWERBROADCAST\<close>. The two registered callbacks are Rust function pointers into
  \<^verbatim>\<open>main.rs\<close>; the slots are the flags of \<open>world\<close>, the functions themselves are arguments of
  the window procedure, over whatever application state \<open>'a\<close> they work on.

  The lemmas show that construction and destruction account for every window and
  notification, how each operation moves the pair (block reason, \<^verbatim>\<open>BLOCKER_ACTIVE\<close>), and
  that message handling runs the forced cleanup at most once.
\<close>

datatype power_broadcast_event = Suspend | Resume

record shutdown_blocker =
  sd_message_window :: nat
  sd_session_window :: nat
  sd_suspend_resume_notification :: "nat option"
  sd_reason :: string
  sd_reason_registered :: bool

definition SHUTDOWN_PRIORITY :: u32 where
  "SHUTDOWN_PRIORITY = 0x3FF"

text \<open>Win32 constants the file imports.\<close>

definition ENDSESSION_LOGOFF :: u64 where "ENDSESSION_LOGOFF = 0x80000000"
definition WM_DESTROY :: u32 where "WM_DESTROY = 0x2"
definition WM_QUERYENDSESSION :: u32 where "WM_QUERYENDSESSION = 0x11"
definition WM_ENDSESSION :: u32 where "WM_ENDSESSION = 0x16"
definition WM_POWERBROADCAST :: u32 where "WM_POWERBROADCAST = 0x218"
definition PBT_APMSUSPEND :: u32 where "PBT_APMSUSPEND = 0x4"
definition PBT_APMRESUMESUSPEND :: u32 where "PBT_APMRESUMESUSPEND = 0x7"
definition PBT_APMRESUMEAUTOMATIC :: u32 where "PBT_APMRESUMEAUTOMATIC = 0x12"

lemmas win32_messages = WM_DESTROY_def WM_QUERYENDSESSION_def WM_ENDSESSION_def
  WM_POWERBROADCAST_def PBT_APMSUSPEND_def PBT_APMRESUMESUSPEND_def PBT_APMRESUMEAUTOMATIC_def

subsection \<open>Windows and the window class\<close>

definition current_instance :: "os \<Rightarrow> (world, win_error, nat) prog" where
  "current_instance os = call_num os (Window GetModuleHandleW)"

definition register_window_class :: "os \<Rightarrow> (world, win_error, unit) prog" where
  "register_window_class os w =
     (if window_class_registered w then (Inr (), w)
      else
        let (atom, w) = call_value os (Window RegisterClassW) w in
        if atom = 0 then (let (e, w) = call_error os (Token ErrorFromThread) w in (Inl e, w))
        else (Inr (), w\<lparr>window_class_registered := True\<rparr>))"

definition create_message_window :: "os \<Rightarrow> nat \<Rightarrow> (world, win_error, nat) prog" where
  "create_message_window os hinstance = call_num os (Window (CreateWindowExW MessageWindow hinstance))"

definition create_session_window :: "os \<Rightarrow> nat \<Rightarrow> (world, win_error, nat) prog" where
  "create_session_window os hinstance = call_num os (Window (CreateWindowExW SessionWindow hinstance))"

definition register_suspend_resume_notification :: "os \<Rightarrow> nat \<Rightarrow> (world, win_error, nat) prog" where
  "register_suspend_resume_notification os window =
     call_num os (Window (RegisterSuspendResumeNotification window))"

definition destroy_window :: "os \<Rightarrow> nat \<Rightarrow> world \<Rightarrow> world" where
  "destroy_window os window w =
     (if window = 0 then w
      else
        let (is_window, w) = call_value os (Window (IsWindow window)) w in
        if is_window \<noteq> 0 then snd (call_unit os (Window (DestroyWindow window)) w) else w)"

subsection \<open>\<^verbatim>\<open>ShutdownBlocker\<close>\<close>

definition shutdown_new :: "os \<Rightarrow> string \<Rightarrow> (world, win_error, shutdown_blocker) prog" where
  "shutdown_new os reason =
     and_then (current_instance os) (\<lambda>hinstance.
     and_then (register_window_class os) (\<lambda>_.
     and_then (create_message_window os hinstance) (\<lambda>message_window w.
       case create_session_window os hinstance w of
         (Inl error, w) \<Rightarrow> (Inl error, destroy_window os message_window w)
       | (Inr session_window, w) \<Rightarrow>
           (case call_unit os (Window (SetProcessShutdownParameters SHUTDOWN_PRIORITY)) w of
              (Inl error, w) \<Rightarrow>
                (Inl error, destroy_window os message_window (destroy_window os session_window w))
            | (Inr _, w) \<Rightarrow>
                (case register_suspend_resume_notification os session_window w of
                   (Inl error, w) \<Rightarrow>
                     (Inl error, destroy_window os message_window (destroy_window os session_window w))
                 | (Inr handle, w) \<Rightarrow>
                     (Inr \<lparr>sd_message_window = message_window, sd_session_window = session_window,
                           sd_suspend_resume_notification = Some handle, sd_reason = reason,
                           sd_reason_registered = False\<rparr>, w))))))"

definition shutdown_is_active :: "shutdown_blocker \<Rightarrow> bool" where
  "shutdown_is_active b = sd_reason_registered b"

definition shutdown_activate :: "os \<Rightarrow> (shutdown_blocker \<times> world, win_error, unit) prog" where
  "shutdown_activate os = (\<lambda>(b, w).
     if sd_reason_registered b then (Inr (), (b, w))
     else case call_unit os (Window (ShutdownBlockReasonCreate (sd_session_window b) (sd_reason b))) w of
       (Inl error, w) \<Rightarrow> (Inl error, (b, w))
     | (Inr _, w) \<Rightarrow>
         (Inr (), (b\<lparr>sd_reason_registered := True\<rparr>,
            log_event os ''shutdown_layer_enabled'' Src_Shutdown
              ''Layer 1 registered its shutdown block reason and will reject WM_QUERYENDSESSION.''
              True (w\<lparr>blocker_active := True\<rparr>))))"

definition shutdown_deactivate :: "os \<Rightarrow> (shutdown_blocker \<times> world, win_error, unit) prog" where
  "shutdown_deactivate os = (\<lambda>(b, w).
     if \<not> sd_reason_registered b then (Inr (), (b, w\<lparr>blocker_active := False\<rparr>))
     else case call_unit os (Window (ShutdownBlockReasonDestroy (sd_session_window b))) w of
       (Inl error, w) \<Rightarrow> (Inl error, (b, w))
     | (Inr _, w) \<Rightarrow>
         (Inr (), (b\<lparr>sd_reason_registered := False\<rparr>,
            log_event os ''shutdown_layer_disabled'' Src_Shutdown
              ''Layer 1 removed its shutdown block reason and returned to Allow mode.''
              True (w\<lparr>blocker_active := False\<rparr>))))"

definition shutdown_drop :: "os \<Rightarrow> shutdown_blocker \<times> world \<Rightarrow> world" where
  "shutdown_drop os s =
     (let (_, (b, w)) = shutdown_deactivate os s;
          w = (case sd_suspend_resume_notification b of
                 Some handle \<Rightarrow> snd (call_unit os (Window (UnregisterSuspendResumeNotification handle)) w)
               | None \<Rightarrow> w);
          w = destroy_window os (sd_session_window b) w;
          w = destroy_window os (sd_message_window b) w
      in w\<lparr>blocker_active := False\<rparr>)"

subsection \<open>Callbacks and the window procedure\<close>

definition set_end_session_cleanup_callback :: "world \<Rightarrow> world" where
  "set_end_session_cleanup_callback w =
     w\<lparr>end_session_cleanup_callback := True, end_session_cleanup_started := False\<rparr>"

definition clear_end_session_cleanup_callback :: "world \<Rightarrow> world" where
  "clear_end_session_cleanup_callback w =
     w\<lparr>end_session_cleanup_callback := False, end_session_cleanup_started := False\<rparr>"

definition set_power_broadcast_callback :: "world \<Rightarrow> world" where
  "set_power_broadcast_callback w = w\<lparr>power_broadcast_callback := True\<rparr>"

definition clear_power_broadcast_callback :: "world \<Rightarrow> world" where
  "clear_power_broadcast_callback w = w\<lparr>power_broadcast_callback := False\<rparr>"

text \<open>\<^verbatim>\<open>fetch_add\<close> on an \<^verbatim>\<open>AtomicU64\<close> wraps.\<close>

definition record_blocked_event :: "world \<Rightarrow> world" where
  "record_blocked_event w = w\<lparr>blocked_event_count := blocked_event_count w + 1\<rparr>"

definition is_logoff_query :: "u64 \<Rightarrow> bool" where
  "is_logoff_query lparam = (and lparam ENDSESSION_LOGOFF \<noteq> 0)"

definition handle_query_end_session :: "os \<Rightarrow> u64 \<Rightarrow> u64 \<Rightarrow> world \<Rightarrow> u64 \<times> world" where
  "handle_query_end_session os wparam lparam w =
     (if blocker_active w then
        let requested_action = (if is_logoff_query lparam then ''sign-out'' else ''shutdown'') in
        (0, log_event os ''shutdown_blocked'' Src_Shutdown
              (''Layer 1 blocked a Windows '' @ requested_action @
               '' request through WM_QUERYENDSESSION and returned FALSE.'')
              True (record_blocked_event w))
      else (1, w))"

definition is_shutdown_or_session_end_in_progress :: "os \<Rightarrow> world \<Rightarrow> bool \<times> world" where
  "is_shutdown_or_session_end_in_progress os w =
     (let (n, w) = call_value os (Window GetSystemMetrics_ShuttingDown) w in (n \<noteq> 0, w))"

definition should_run_end_session_cleanup :: "u64 \<Rightarrow> bool \<Rightarrow> bool" where
  "should_run_end_session_cleanup wparam shutdown_in_progress = (wparam \<noteq> 0 \<and> shutdown_in_progress)"

definition handle_end_session ::
    "os \<Rightarrow> ('a \<times> world \<Rightarrow> 'a \<times> world) \<Rightarrow> nat \<Rightarrow> u64 \<Rightarrow> 'a \<times> world \<Rightarrow> u64 \<times> ('a \<times> world)" where
  "handle_end_session os callback hwnd wparam = (\<lambda>(a, w).
     let (in_progress, w) = is_shutdown_or_session_end_in_progress os w in
     if should_run_end_session_cleanup wparam in_progress then
       let w = w\<lparr>blocker_active := False\<rparr>;
           w = snd (call_unit os (Window (ShutdownBlockReasonDestroy hwnd)) w);
           started = end_session_cleanup_started w;
           w = w\<lparr>end_session_cleanup_started := True\<rparr>
       in if \<not> started \<and> end_session_cleanup_callback w then (0, callback (a, w)) else (0, (a, w))
     else (0, (a, w)))"

definition power_event_of :: "u64 \<Rightarrow> power_broadcast_event option" where
  "power_event_of wparam =
     (let code = (ucast wparam :: u32) in
      if code = PBT_APMSUSPEND then Some Suspend
      else if code = PBT_APMRESUMEAUTOMATIC then Some Resume
      else if code = PBT_APMRESUMESUSPEND then Some Resume
      else None)"

definition handle_power_broadcast ::
    "os \<Rightarrow> (power_broadcast_event \<Rightarrow> 'a \<times> world \<Rightarrow> 'a \<times> world) \<Rightarrow> nat \<Rightarrow> u64 \<Rightarrow> u64 \<Rightarrow>
     'a \<times> world \<Rightarrow> u64 \<times> ('a \<times> world)" where
  "handle_power_broadcast os callback hwnd wparam lparam = (\<lambda>(a, w).
     case power_event_of wparam of
       Some event \<Rightarrow> (1, if power_broadcast_callback w then callback event (a, w) else (a, w))
     | None \<Rightarrow>
         let (n, w) = call_value os (Window (DefWindowProcW hwnd WM_POWERBROADCAST wparam lparam)) w
         in (of_nat n, (a, w)))"

definition shutdown_window_proc ::
    "os \<Rightarrow> ('a \<times> world \<Rightarrow> 'a \<times> world) \<Rightarrow> (power_broadcast_event \<Rightarrow> 'a \<times> world \<Rightarrow> 'a \<times> world) \<Rightarrow>
     nat \<Rightarrow> u32 \<Rightarrow> u64 \<Rightarrow> u64 \<Rightarrow> 'a \<times> world \<Rightarrow> u64 \<times> ('a \<times> world)" where
  "shutdown_window_proc os end_callback power_callback hwnd message wparam lparam = (\<lambda>(a, w).
     if message = WM_QUERYENDSESSION then
       (let (r, w) = handle_query_end_session os wparam lparam w in (r, (a, w)))
     else if message = WM_ENDSESSION then handle_end_session os end_callback hwnd wparam (a, w)
     else if message = WM_POWERBROADCAST then
       handle_power_broadcast os power_callback hwnd wparam lparam (a, w)
     else if message = WM_DESTROY then (0, (a, w))
     else
       let (n, w) = call_value os (Window (DefWindowProcW hwnd message wparam lparam)) w
       in (of_nat n, (a, w)))"

lemma record_blocked_event_simps [simp]:
  "trace (record_blocked_event w) = trace w" "control (record_blocked_event w) = control w"
  "blocked_event_count (record_blocked_event w) = blocked_event_count w + 1"
  by (simp_all add: record_blocked_event_def control_def)

subsection \<open>Windows and notifications held, read off the history\<close>

text \<open>A window is held from its creation until it is destroyed or Windows reports that it no
  longer exists.\<close>

fun windows_held :: "history \<Rightarrow> nat multiset" where
  "windows_held [] = {#}"
| "windows_held ((c, r) # h) =
     (case c of
        Window (CreateWindowExW _ _) \<Rightarrow>
          (if r_err r = None \<and> r_num r \<noteq> 0 then add_mset (r_num r) (windows_held h) else windows_held h)
      | Window (IsWindow n) \<Rightarrow> (if r_num r = 0 then windows_held h - {#n#} else windows_held h)
      | Window (DestroyWindow n) \<Rightarrow> windows_held h - {#n#}
      | _ \<Rightarrow> windows_held h)"

fun notifications_held :: "history \<Rightarrow> nat multiset" where
  "notifications_held [] = {#}"
| "notifications_held ((c, r) # h) =
     (case c of
        Window (RegisterSuspendResumeNotification _) \<Rightarrow>
          (if r_err r = None then add_mset (r_num r) (notifications_held h) else notifications_held h)
      | Window (UnregisterSuspendResumeNotification n) \<Rightarrow> notifications_held h - {#n#}
      | _ \<Rightarrow> notifications_held h)"

definition one_window :: "nat \<Rightarrow> nat multiset" where
  "one_window n = (if n = 0 then {#} else {#n#})"

datatype l1_op = L1_Activate | L1_Deactivate

fun l1_step :: "os \<Rightarrow> l1_op \<Rightarrow> shutdown_blocker \<times> world \<Rightarrow> shutdown_blocker \<times> world" where
  "l1_step os L1_Activate s = snd (shutdown_activate os s)"
| "l1_step os L1_Deactivate s = snd (shutdown_deactivate os s)"

lemma destroy_window_frame [simp, frame]:
  "statics (destroy_window os n w) = statics w"
  "open_handles (trace (destroy_window os n w)) = open_handles (trace w)"
  "notifications_held (trace (destroy_window os n w)) = notifications_held (trace w)"
  by (simp_all add: destroy_window_def call_eqs Let_def)

lemma destroy_window_held [simp]:
  "windows_held (trace (destroy_window os n w)) = windows_held (trace w) - one_window n"
  by (simp add: destroy_window_def call_eqs Let_def one_window_def)

lemma shutdown_activate_frame [simp, frame]:
  "windows_held (trace (snd (snd (shutdown_activate os (b, w))))) = windows_held (trace w)"
  "notifications_held (trace (snd (snd (shutdown_activate os (b, w))))) = notifications_held (trace w)"
  "fst (snd (shutdown_activate os (b, w))) = b\<lparr>sd_reason_registered := is_ok (fst (shutdown_activate os (b, w)))\<rparr>"
  by (auto simp: shutdown_activate_def call_eqs split: option.splits)

lemma shutdown_deactivate_frame [simp, frame]:
  "windows_held (trace (snd (snd (shutdown_deactivate os (b, w))))) = windows_held (trace w)"
  "notifications_held (trace (snd (snd (shutdown_deactivate os (b, w))))) = notifications_held (trace w)"
  "fst (snd (shutdown_deactivate os (b, w))) =
     b\<lparr>sd_reason_registered := \<not> is_ok (fst (shutdown_deactivate os (b, w)))\<rparr>"
  by (auto simp: shutdown_deactivate_def call_eqs split: option.splits)

definition l1_identity :: "shutdown_blocker \<Rightarrow> nat \<times> nat \<times> nat option" where
  "l1_identity b = (sd_message_window b, sd_session_window b, sd_suspend_resume_notification b)"

lemma l1_ops_frame:
  "l1_identity (fst (fold (l1_step os) ops (b, w))) = l1_identity b \<and>
   windows_held (trace (snd (fold (l1_step os) ops (b, w)))) = windows_held (trace w) \<and>
   notifications_held (trace (snd (fold (l1_step os) ops (b, w)))) = notifications_held (trace w)"
proof (induction ops arbitrary: b w)
  case (Cons op ops)
  obtain b' w' where s: "l1_step os op (b, w) = (b', w')" by (cases "l1_step os op (b, w)")
  have "l1_identity b' = l1_identity b \<and> windows_held (trace w') = windows_held (trace w) \<and>
      notifications_held (trace w') = notifications_held (trace w)"
    using s shutdown_activate_frame [of os b w] shutdown_deactivate_frame [of os b w]
    by (cases op) (simp_all add: l1_identity_def)
  with Cons.IH [of b' w'] s show ?case by simp
qed simp

lemma shutdown_drop_held:
  "windows_held (trace (shutdown_drop os (b, w))) =
     windows_held (trace w) - one_window (sd_session_window b) - one_window (sd_message_window b)"
  "notifications_held (trace (shutdown_drop os (b, w))) =
     notifications_held (trace w) -
       (case sd_suspend_resume_notification b of Some n \<Rightarrow> {#n#} | None \<Rightarrow> {#})"
proof -
  obtain r b' w' where d: "shutdown_deactivate os (b, w) = (r, (b', w'))" by (metis surj_pair)
  with shutdown_deactivate_frame [of os b w] have
    "windows_held (trace w') = windows_held (trace w)"
    "notifications_held (trace w') = notifications_held (trace w)" "l1_identity b' = l1_identity b"
    by (simp_all add: l1_identity_def)
  then show "windows_held (trace (shutdown_drop os (b, w))) =
      windows_held (trace w) - one_window (sd_session_window b) - one_window (sd_message_window b)"
    "notifications_held (trace (shutdown_drop os (b, w))) =
      notifications_held (trace w) -
        (case sd_suspend_resume_notification b of Some n \<Rightarrow> {#n#} | None \<Rightarrow> {#})"
    by (simp_all add: shutdown_drop_def d l1_identity_def split: option.splits)
qed

lemma register_window_class_frame [simp, frame]:
  "windows_held (trace (snd (register_window_class os w))) = windows_held (trace w)"
  "notifications_held (trace (snd (register_window_class os w))) = notifications_held (trace w)"
  "blocker_active (snd (register_window_class os w)) = blocker_active w"
  by (simp_all add: register_window_class_def call_eqs Let_def)

lemma create_window_held:
  assumes "call_num os (Window (CreateWindowExW k i)) w = (r, w')"
  shows "windows_held (trace w') =
           windows_held (trace w) + (case r of Inr n \<Rightarrow> one_window n | Inl _ \<Rightarrow> {#}) \<and>
         notifications_held (trace w') = notifications_held (trace w) \<and>
         blocker_active w' = blocker_active w"
  using assms by (auto simp: call_eqs one_window_def split: option.splits)

lemma shutdown_new_outcome:
  "case shutdown_new os reason w of
     (Inl e, w') \<Rightarrow> windows_held (trace w') = windows_held (trace w) \<and>
       notifications_held (trace w') = notifications_held (trace w)
   | (Inr b, w') \<Rightarrow>
       windows_held (trace w') =
         windows_held (trace w) + one_window (sd_message_window b) + one_window (sd_session_window b) \<and>
       (\<exists>n. sd_suspend_resume_notification b = Some n \<and>
          notifications_held (trace w') = add_mset n (notifications_held (trace w))) \<and>
       \<not> sd_reason_registered b \<and> blocker_active w' = blocker_active w"
proof -
  obtain r1 w1 where i: "current_instance os w = (r1, w1)" by (cases "current_instance os w")
  then have w1: "windows_held (trace w1) = windows_held (trace w)"
    "notifications_held (trace w1) = notifications_held (trace w)" "blocker_active w1 = blocker_active w"
    by (auto simp: current_instance_def call_eqs)
  obtain r2 w2 where c: "register_window_class os w1 = (r2, w2)" by (cases "register_window_class os w1")
  with register_window_class_frame [of os w1] w1 have
    w2: "windows_held (trace w2) = windows_held (trace w)"
    "notifications_held (trace w2) = notifications_held (trace w)" "blocker_active w2 = blocker_active w"
    by simp_all
  show ?thesis
  proof (cases r1)
    case (Inl e)
    with i w1 show ?thesis by (simp add: shutdown_new_def and_then_def)
  next
    case (Inr hi)
    note Inr1 = this
    show ?thesis
    proof (cases r2)
      case (Inl e)
      with i c Inr1 w2 show ?thesis by (simp add: shutdown_new_def and_then_def)
    next
      case (Inr u)
      obtain r3 w3 where m: "create_message_window os hi w2 = (r3, w3)"
        by (cases "create_message_window os hi w2")
      obtain r4 w4 where s: "create_session_window os hi w3 = (r4, w4)"
        by (cases "create_session_window os hi w3")
      note m' = create_window_held [OF m [unfolded create_message_window_def]]
      note s' = create_window_held [OF s [unfolded create_session_window_def]]
      show ?thesis
        using i c Inr1 Inr m m' s s' w2
        by (cases r3; cases r4)
          (auto simp: shutdown_new_def and_then_def call_eqs register_suspend_resume_notification_def
            split: option.splits)
    qed
  qed
qed

text \<open>C5. Layer 1 leaks neither windows nor the suspend/resume registration. When
  \<^verbatim>\<open>ShutdownBlocker::new\<close> fails at any of its steps, the windows and notifications held are
  those held before. When it succeeds, it holds its two windows and one registration, blocks
  nothing yet, and after any activations and deactivations, whatever they returned, dropping
  it gives exactly those back and leaves \<^verbatim>\<open>BLOCKER_ACTIVE\<close> false.\<close>

theorem layer1_windows_accounted:
  "(case shutdown_new os reason w of
      (Inl e, w') \<Rightarrow> windows_held (trace w') = windows_held (trace w) \<and>
        notifications_held (trace w') = notifications_held (trace w)
    | (Inr b, w') \<Rightarrow>
        \<not> shutdown_is_active b \<and> blocker_active w' = blocker_active w \<and>
        (let w'' = shutdown_drop os (fold (l1_step os) ops (b, w')) in
          windows_held (trace w'') = windows_held (trace w) \<and>
          notifications_held (trace w'') = notifications_held (trace w) \<and> \<not> blocker_active w''))"
proof -
  obtain r w' where n: "shutdown_new os reason w = (r, w')" by (cases "shutdown_new os reason w")
  show ?thesis
  proof (cases r)
    case (Inl e)
    with shutdown_new_outcome [where os = os and reason = reason and w = w] n show ?thesis by simp
  next
    case (Inr b)
    obtain b2 w2 where ops: "fold (l1_step os) ops (b, w') = (b2, w2)"
      by (cases "fold (l1_step os) ops (b, w')")
    have "\<not> blocker_active (shutdown_drop os (b2, w2))"
      by (simp add: shutdown_drop_def split: prod.split)
    with l1_ops_frame [of os ops b w'] ops shutdown_new_outcome [where os = os and reason = reason and w = w] n Inr
    show ?thesis
      by (auto simp: shutdown_drop_held l1_identity_def Let_def shutdown_is_active_def)
  qed
qed

subsection \<open>Runs of the window procedure\<close>

record window_message =
  wm_hwnd :: nat
  wm_message :: u32
  wm_wparam :: u64
  wm_lparam :: u64

fun dispatch_messages ::
    "os \<Rightarrow> ('a \<times> world \<Rightarrow> 'a \<times> world) \<Rightarrow> (power_broadcast_event \<Rightarrow> 'a \<times> world \<Rightarrow> 'a \<times> world) \<Rightarrow>
     window_message list \<Rightarrow> 'a \<times> world \<Rightarrow> u64 list \<times> ('a \<times> world)" where
  "dispatch_messages os ecb pcb [] s = ([], s)"
| "dispatch_messages os ecb pcb (m # ms) s =
     (let (r, s) = shutdown_window_proc os ecb pcb (wm_hwnd m) (wm_message m) (wm_wparam m) (wm_lparam m) s;
          (rs, s) = dispatch_messages os ecb pcb ms s
      in (r # rs, s))"

text \<open>A message and its answer that together refuse the end of the session.\<close>

definition refused :: "window_message \<times> u64 \<Rightarrow> bool" where
  "refused mr \<longleftrightarrow> wm_message (fst mr) = WM_QUERYENDSESSION \<and> snd mr = 0"

text \<open>Windows reported, somewhere in the history, that the session is ending.\<close>

definition session_end_reported :: "history \<Rightarrow> bool" where
  "session_end_reported h \<longleftrightarrow>
     (\<exists>(c, r) \<in> set h. c = Window GetSystemMetrics_ShuttingDown \<and> r_num r \<noteq> 0)"

definition counting_callback :: "nat \<times> world \<Rightarrow> nat \<times> world" where
  "counting_callback = (\<lambda>(n, w). (Suc n, w))"

lemma session_end_reported_Cons [simp]:
  "session_end_reported ((c, r) # h) \<longleftrightarrow>
     (c = Window GetSystemMetrics_ShuttingDown \<and> r_num r \<noteq> 0) \<or> session_end_reported h"
  by (auto simp: session_end_reported_def)

lemmas window_proc_defs = shutdown_window_proc_def handle_query_end_session_def handle_end_session_def
  handle_power_broadcast_def is_shutdown_or_session_end_in_progress_def
  should_run_end_session_cleanup_def record_blocked_event_def

lemma window_proc_step:
  assumes "shutdown_window_proc os counting_callback (\<lambda>_ s. s) h m wp lp (n, w) = (r, (n', w'))"
    and "end_session_cleanup_callback w" and "end_session_cleanup_started w \<longrightarrow> \<not> blocker_active w"
  shows "end_session_cleanup_callback w' \<and>
     (end_session_cleanup_started w \<longrightarrow> end_session_cleanup_started w') \<and>
     n' = n + (if end_session_cleanup_started w' \<and> \<not> end_session_cleanup_started w then 1 else 0) \<and>
     blocker_active w' = (blocker_active w \<and> \<not> end_session_cleanup_started w') \<and>
     blocked_event_count w' =
       blocked_event_count w + (if m = WM_QUERYENDSESSION \<and> r = 0 then 1 else 0) \<and>
     (end_session_cleanup_started w' \<and> \<not> end_session_cleanup_started w \<longrightarrow>
        session_end_reported (trace w')) \<and>
     (session_end_reported (trace w) \<longrightarrow> session_end_reported (trace w'))"
proof -
  consider "m = WM_QUERYENDSESSION" | "m = WM_ENDSESSION" | "m = WM_POWERBROADCAST"
    | "m \<noteq> WM_QUERYENDSESSION" "m \<noteq> WM_ENDSESSION" "m \<noteq> WM_POWERBROADCAST" by blast
  then show ?thesis
  proof cases
    case 1
    with assms show ?thesis by (auto simp: window_proc_defs Let_def split: if_splits)
  next
    case 2
    with assms show ?thesis
      by (auto simp: window_proc_defs Let_def call_eqs counting_callback_def win32_messages
          split: if_splits)
  next
    case 3
    with assms show ?thesis
      by (auto simp: window_proc_defs Let_def call_eqs win32_messages split: option.splits if_splits)
  next
    case 4
    with assms show ?thesis by (auto simp: window_proc_defs Let_def call_eqs split: if_splits)
  qed
qed

lemma window_proc_starts:
  assumes "shutdown_window_proc os counting_callback (\<lambda>_ s. s) h m wp lp (n, w) = (r, (n', w'))"
    and "end_session_cleanup_started w'" and "\<not> end_session_cleanup_started w"
  shows "m = WM_ENDSESSION \<and> wp \<noteq> 0"
  using assms
  by (auto simp: window_proc_defs Let_def call_eqs split: option.splits if_splits)

text \<open>Only a \<^verbatim>\<open>WM_ENDSESSION\<close> with a nonzero \<^verbatim>\<open>wParam\<close> starts the cleanup.\<close>

lemma dispatch_messages_starts:
  assumes "dispatch_messages os counting_callback (\<lambda>_ s. s) ms (n, w) = (rs, (n', w'))"
    and "end_session_cleanup_started w'" and "\<not> end_session_cleanup_started w"
  shows "\<exists>m \<in> set ms. wm_message m = WM_ENDSESSION \<and> wm_wparam m \<noteq> 0"
  using assms
proof (induction ms arbitrary: n w rs)
  case (Cons m ms)
  obtain r n1 w1 where s: "shutdown_window_proc os counting_callback (\<lambda>_ s. s) (wm_hwnd m) (wm_message m)
      (wm_wparam m) (wm_lparam m) (n, w) = (r, (n1, w1))" by (metis surj_pair)
  from Cons.prems(1) s obtain rs' where
    rest: "dispatch_messages os counting_callback (\<lambda>_ s. s) ms (n1, w1) = (rs', (n', w'))"
    by (auto simp: Let_def split: prod.splits)
  show ?case
  proof (cases "end_session_cleanup_started w1")
    case True
    with window_proc_starts [OF s] Cons.prems(3) show ?thesis by auto
  next
    case False
    with Cons.IH [OF rest Cons.prems(2)] show ?thesis by auto
  qed
qed simp

lemma dispatch_messages_run:
  assumes "dispatch_messages os counting_callback (\<lambda>_ s. s) ms (n, w) = (rs, (n', w'))"
    and "end_session_cleanup_callback w" and "end_session_cleanup_started w \<longrightarrow> \<not> blocker_active w"
  shows "(end_session_cleanup_started w \<longrightarrow> end_session_cleanup_started w') \<and>
     n' = n + (if end_session_cleanup_started w' \<and> \<not> end_session_cleanup_started w then 1 else 0) \<and>
     blocker_active w' = (blocker_active w \<and> \<not> end_session_cleanup_started w') \<and>
     blocked_event_count w' = blocked_event_count w + of_nat (length (filter refused (zip ms rs))) \<and>
     (end_session_cleanup_started w' \<and> \<not> end_session_cleanup_started w \<longrightarrow>
        session_end_reported (trace w')) \<and>
     (session_end_reported (trace w) \<longrightarrow> session_end_reported (trace w'))"
  using assms
proof (induction ms arbitrary: n w rs)
  case (Cons m ms)
  obtain r n1 w1 where s: "shutdown_window_proc os counting_callback (\<lambda>_ s. s) (wm_hwnd m) (wm_message m)
      (wm_wparam m) (wm_lparam m) (n, w) = (r, (n1, w1))" by (metis surj_pair)
  from Cons.prems(1) s obtain rs' where
    rest: "dispatch_messages os counting_callback (\<lambda>_ s. s) ms (n1, w1) = (rs', (n', w'))" "rs = r # rs'"
    by (auto simp: Let_def split: prod.splits)
  note step = window_proc_step [OF s Cons.prems(2,3)]
  then have "end_session_cleanup_callback w1" "end_session_cleanup_started w1 \<longrightarrow> \<not> blocker_active w1"
    by simp_all
  note ih = Cons.IH [OF rest(1) this]
  have "(if wm_message m = WM_QUERYENDSESSION \<and> r = 0 then 1 else 0) = (of_bool (refused (m, r)) :: u64)"
    by (simp add: refused_def)
  with step have count: "blocked_event_count w1 = blocked_event_count w + of_bool (refused (m, r))"
    by simp
  from ih step show ?case
    by (cases "end_session_cleanup_started w"; cases "end_session_cleanup_started w1";
        cases "refused (m, r)") (simp_all add: rest(2) count)
qed auto

text \<open>C6. The forced cleanup runs at most once. With the cleanup callback registered, over
  any sequence of window messages and whatever Windows answers: the callback ran exactly once
  if the cleanup is marked started and never otherwise; it is started only if Windows itself
  reported that the session is ending (a spoofed \<^verbatim>\<open>WM_ENDSESSION\<close> does nothing) and only by a
  \<^verbatim>\<open>WM_ENDSESSION\<close> whose \<^verbatim>\<open>wParam\<close> is not zero (a cancelled session end does nothing); blocking
  is given up exactly then; and the blocked-event counter advanced (modulo \<open>2 ^ 64\<close>) by the
  number of \<^verbatim>\<open>WM_QUERYENDSESSION\<close> messages answered with \<^verbatim>\<open>FALSE\<close>.\<close>

theorem forced_cleanup_runs_once:
  assumes "end_session_cleanup_callback w" and "\<not> end_session_cleanup_started w"
    and "\<not> session_end_reported (trace w)"
    and "dispatch_messages os counting_callback (\<lambda>_ s. s) ms (0, w) = (rs, (n, w'))"
  shows "n = (if end_session_cleanup_started w' then 1 else 0) \<and>
         (end_session_cleanup_started w' \<longrightarrow> session_end_reported (trace w') \<and>
            (\<exists>m \<in> set ms. wm_message m = WM_ENDSESSION \<and> wm_wparam m \<noteq> 0)) \<and>
         blocker_active w' = (blocker_active w \<and> \<not> end_session_cleanup_started w') \<and>
         blocked_event_count w' = blocked_event_count w + of_nat (length (filter refused (zip ms rs)))"
  using dispatch_messages_run [OF assms(4) assms(1)] dispatch_messages_starts [OF assms(4)] assms(2) by auto

text \<open>A run: a shutdown query while blocking, then two real session ends.\<close>

definition query_then_end :: "window_message list" where
  "query_then_end =
     [\<lparr>wm_hwnd = 7, wm_message = WM_QUERYENDSESSION, wm_wparam = 0, wm_lparam = 0\<rparr>,
      \<lparr>wm_hwnd = 7, wm_message = WM_ENDSESSION, wm_wparam = 1, wm_lparam = 0\<rparr>,
      \<lparr>wm_hwnd = 7, wm_message = WM_ENDSESSION, wm_wparam = 1, wm_lparam = 0\<rparr>]"

theorem forced_cleanup_runs_once_witness:
  "\<exists>w'. dispatch_messages quiet_os counting_callback (\<lambda>_ s. s) query_then_end
      (0, initial_world\<lparr>blocker_active := True, end_session_cleanup_callback := True\<rparr>) =
        ([0, 0, 0], (1, w')) \<and> \<not> blocker_active w' \<and> blocked_event_count w' = 1"
proof -
  let ?w = "initial_world\<lparr>blocker_active := True, end_session_cleanup_callback := True\<rparr>"
  obtain rs n w' where run: "dispatch_messages quiet_os counting_callback (\<lambda>_ s. s) query_then_end
      (0, ?w) = (rs, (n, w'))" by (metis surj_pair)
  have "rs = [0, 0, 0] \<and> end_session_cleanup_started w'"
    using run by (auto simp: query_then_end_def window_proc_defs win32_messages Let_def call_eqs
        quiet_os_def initial_world_def log_event_def counting_callback_def syscall_def)
  moreover note forced_cleanup_runs_once [OF _ _ _ run]
  ultimately show ?thesis
    using run by (auto simp: initial_world_def session_end_reported_def query_then_end_def refused_def
        win32_messages)
qed

end
