(* ===== verification/Abort.thy ===== *)
theory Abort
  imports World Blocker_Types
begin

text \<open>
  The privileged calls of \<^verbatim>\<open>blocker/mod.rs\<close> (\<^verbatim>\<open>enable_shutdown_privilege\<close>,
  \<^verbatim>\<open>request_suspend\<close>, \<^verbatim>\<open>execute_power_action\<close>) and \<^verbatim>\<open>blocker/abort.rs\<close> (the capability
  preflight and \<^verbatim>\<open>AbortSystemShutdownW\<close> with the classification of its errors).

  The lemmas show that a power action is executed exactly when \<^verbatim>\<open>Ok\<close> is returned, that an
  abort is reported exactly when Windows performed one, and that no process token leaks.
\<close>

datatype shutdown_abort_capability =
    Cap_Available | Cap_AccessDenied string | Cap_Failed string

datatype shutdown_abort_outcome =
    Out_Aborted | Out_NoShutdownPending | Out_AccessDenied string | Out_Failed string

text \<open>Win32 constants.\<close>

definition ERROR_ACCESS_DENIED :: u32 where "ERROR_ACCESS_DENIED = 5"
definition ERROR_ALREADY_EXISTS :: u32 where "ERROR_ALREADY_EXISTS = 183"
definition ERROR_NOT_ALL_ASSIGNED :: u32 where "ERROR_NOT_ALL_ASSIGNED = 1300"
definition ERROR_NO_SHUTDOWN_IN_PROGRESS :: u32 where "ERROR_NO_SHUTDOWN_IN_PROGRESS = 1116"
definition E_ACCESSDENIED :: u32 where "E_ACCESSDENIED = 0x80070005"
definition SHTDN_REASON_MAJOR_APPLICATION :: u32 where "SHTDN_REASON_MAJOR_APPLICATION = 0x40000"
definition SHTDN_REASON_MINOR_OTHER :: u32 where "SHTDN_REASON_MINOR_OTHER = 0"
definition SHTDN_REASON_FLAG_PLANNED :: u32 where "SHTDN_REASON_FLAG_PLANNED = 0x80000000"

subsection \<open>\<^verbatim>\<open>blocker/mod.rs\<close>\<close>

text \<open>\<^verbatim>\<open>HandleGuard::drop\<close>\<close>

definition handle_guard_drop :: "os \<Rightarrow> nat \<Rightarrow> world \<Rightarrow> world" where
  "handle_guard_drop os handle w =
     (if \<not> is_invalid os handle then snd (call_unit os (Token (CloseHandle handle)) w) else w)"

text \<open>Running a body with a guard in scope: the guard is dropped on every way out.\<close>

definition with_guard :: "os \<Rightarrow> nat \<Rightarrow> (world, 'e, 'a) prog \<Rightarrow> (world, 'e, 'a) prog" where
  "with_guard os handle m w = (let (r, w) = m w in (r, handle_guard_drop os handle w))"

definition enable_shutdown_privilege :: "os \<Rightarrow> (world, win_error, unit) prog" where
  "enable_shutdown_privilege os =
     and_then (call_num os (Token (OpenProcessToken TOKEN_ADJUST_AND_QUERY))) (\<lambda>token.
       with_guard os token
         (and_then (call_num os (Token LookupPrivilegeValueW)) (\<lambda>shutdown_luid.
          and_then (call_unit os (Token (AdjustTokenPrivileges token shutdown_luid))) (\<lambda>_ w.
            let (last_error, w) = call_value os (Token GetLastError) w in
            if (of_nat last_error :: u32) = ERROR_NOT_ALL_ASSIGNED
            then let (e, w) = call_error os (Token ErrorFromThread) w in (Inl e, w)
            else (Inr (), w)))))"

definition planned_shutdown_reason :: u32 where
  "planned_shutdown_reason =
     or (or SHTDN_REASON_MAJOR_APPLICATION SHTDN_REASON_MINOR_OTHER) SHTDN_REASON_FLAG_PLANNED"

definition request_suspend :: "os \<Rightarrow> bool \<Rightarrow> (world, string, unit) prog" where
  "request_suspend os hibernate w =
     (let (accepted, w) = call_value os (Power (SetSuspendState hibernate False False)) w in
      if accepted \<noteq> 0 then (Inr (), w)
      else let (e, w) = call_error os (Token ErrorFromThread) w in (Inl (err_text e), w))"

definition execute_power_action :: "os \<Rightarrow> power_action \<Rightarrow> (world, string, unit) prog" where
  "execute_power_action os action =
     and_then
       (map_error (\<lambda>e. ''Wardoff could not enable the shutdown privilege before '' @
            debug_power_action action @ '': '' @ err_text e)
          (enable_shutdown_privilege os))
       (\<lambda>_. case action of
          PA_Shutdown \<Rightarrow>
            map_error (\<lambda>e. ''Windows rejected the shutdown request: '' @ err_text e)
              (call_unit os (Power (ExitWindowsEx EWX_SHUTDOWN planned_shutdown_reason)))
        | PA_Reboot \<Rightarrow>
            map_error (\<lambda>e. ''Windows rejected the reboot request: '' @ err_text e)
              (call_unit os (Power (ExitWindowsEx EWX_REBOOT planned_shutdown_reason)))
        | PA_Sleep \<Rightarrow>
            map_error (\<lambda>e. ''Windows rejected the sleep request: '' @ e) (request_suspend os False)
        | PA_Hibernate \<Rightarrow>
            map_error (\<lambda>e. ''Windows rejected the hibernate request: '' @ e) (request_suspend os True))"

subsection \<open>\<^verbatim>\<open>blocker/abort.rs\<close>\<close>

definition is_access_denied_error :: "os \<Rightarrow> win_error \<Rightarrow> bool" where
  "is_access_denied_error os error \<longleftrightarrow>
     err_code error = E_ACCESSDENIED \<or>
     err_code error = hresult_from_win32 os ERROR_ACCESS_DENIED \<or>
     err_code error = hresult_from_win32 os ERROR_NOT_ALL_ASSIGNED"

definition is_no_shutdown_in_progress_error :: "os \<Rightarrow> win_error \<Rightarrow> bool" where
  "is_no_shutdown_in_progress_error os error \<longleftrightarrow>
     err_code error = hresult_from_win32 os ERROR_NO_SHUTDOWN_IN_PROGRESS"

definition preflight_shutdown_abort_capability :: "os \<Rightarrow> world \<Rightarrow> shutdown_abort_capability \<times> world" where
  "preflight_shutdown_abort_capability os w =
     (case enable_shutdown_privilege os w of
        (Inr _, w) \<Rightarrow> (Cap_Available, w)
      | (Inl error, w) \<Rightarrow>
          (if is_access_denied_error os error then Cap_AccessDenied (err_text error)
           else Cap_Failed (err_text error), w))"

definition abort_pending_shutdown :: "os \<Rightarrow> world \<Rightarrow> shutdown_abort_outcome \<times> world" where
  "abort_pending_shutdown os w =
     (case preflight_shutdown_abort_capability os w of
        (Cap_AccessDenied details, w) \<Rightarrow> (Out_AccessDenied details, w)
      | (Cap_Failed details, w) \<Rightarrow> (Out_Failed details, w)
      | (Cap_Available, w) \<Rightarrow>
          (case call_unit os (Power AbortSystemShutdownW) w of
             (Inr _, w) \<Rightarrow> (Out_Aborted, w)
           | (Inl error, w) \<Rightarrow>
               (if is_no_shutdown_in_progress_error os error then Out_NoShutdownPending
                else if is_access_denied_error os error then Out_AccessDenied (err_text error)
                else Out_Failed (err_text error), w)))"

subsection \<open>What the calls did, read off the history\<close>

text \<open>Power transitions Windows accepted, newest first, and shutdowns it aborted.\<close>

fun accepted_power :: "history \<Rightarrow> power_call list" where
  "accepted_power [] = []"
| "accepted_power ((c, r) # h) =
     (case c of
        Power (ExitWindowsEx f x) \<Rightarrow>
          (if r_err r = None then ExitWindowsEx f x # accepted_power h else accepted_power h)
      | Power (SetSuspendState a b d) \<Rightarrow>
          (if r_num r \<noteq> 0 then SetSuspendState a b d # accepted_power h else accepted_power h)
      | _ \<Rightarrow> accepted_power h)"

fun shutdowns_aborted :: "history \<Rightarrow> nat" where
  "shutdowns_aborted [] = 0"
| "shutdowns_aborted ((c, r) # h) =
     (if c = Power AbortSystemShutdownW \<and> r_err r = None then Suc (shutdowns_aborted h)
      else shutdowns_aborted h)"

fun power_call_of :: "power_action \<Rightarrow> power_call" where
  "power_call_of PA_Shutdown = ExitWindowsEx EWX_SHUTDOWN planned_shutdown_reason"
| "power_call_of PA_Reboot = ExitWindowsEx EWX_REBOOT planned_shutdown_reason"
| "power_call_of PA_Sleep = SetSuspendState False False False"
| "power_call_of PA_Hibernate = SetSuspendState True False False"

text \<open>The handles held that are not invalid values.\<close>

definition valid_handles :: "os \<Rightarrow> history \<Rightarrow> nat multiset" where
  "valid_handles os h = {#n \<in># open_handles h. \<not> is_invalid os n#}"

lemma valid_handles_frame:
  "open_handles h' = open_handles h \<Longrightarrow> valid_handles os h' = valid_handles os h"
  by (simp add: valid_handles_def)

lemma valid_handles_Cons:
  "valid_handles os ((c, r) # h) =
     (if acquires c
      then (if r_err r = None \<and> \<not> is_invalid os (r_num r) then add_mset (r_num r) (valid_handles os h)
            else valid_handles os h)
      else case releases c of Some n \<Rightarrow> valid_handles os h - {#n#} | None \<Rightarrow> valid_handles os h)"
proof -
  have "{#x \<in># M - {#n#}. \<not> is_invalid os x#} = {#x \<in># M. \<not> is_invalid os x#} - {#n#}" for M n
    by (cases "is_invalid os n") (simp_all add: filter_diff_mset diff_single_trivial)
  then show ?thesis
    by (simp add: valid_handles_def split: option.split)
qed

text \<open>The counter minus the aborts Windows performed: constant if every abort is counted.\<close>

definition uncounted :: "world \<Rightarrow> u64" where
  "uncounted w = blocked_event_count w - of_nat (shutdowns_aborted (trace w))"

lemma uncounted_simps [simp]:
  "uncounted (log_event os e s a b w) = uncounted w"
  "c \<noteq> Power AbortSystemShutdownW \<Longrightarrow> uncounted (snd (syscall os c w)) = uncounted w"
  by (simp_all add: uncounted_def)

lemma uncounted_same:
  "statics w' = statics w \<Longrightarrow> shutdowns_aborted (trace w') = shutdowns_aborted (trace w) \<Longrightarrow>
     uncounted w' = uncounted w"
  by (simp add: uncounted_def statics_def)

lemma guard_drop_history [simp]:
  "accepted_power (trace (handle_guard_drop os n w)) = accepted_power (trace w)"
  "shutdowns_aborted (trace (handle_guard_drop os n w)) = shutdowns_aborted (trace w)"
  "statics (handle_guard_drop os n w) = statics w"
  by (simp_all add: handle_guard_drop_def)

lemma guard_drop_valid [simp]:
  "valid_handles os (trace (handle_guard_drop os n w)) = valid_handles os (trace w) - {#n#}"
  by (cases "is_invalid os n")
    (simp_all add: handle_guard_drop_def valid_handles_Cons, simp add: valid_handles_def diff_single_trivial)

lemma invalid_not_held: "is_invalid os n \<Longrightarrow> valid_handles os h - {#n#} = valid_handles os h"
  by (simp add: valid_handles_def diff_single_trivial)

lemma enable_privilege_history [simp, frame]:
  "accepted_power (trace (snd (enable_shutdown_privilege os w))) = accepted_power (trace w)"
  "shutdowns_aborted (trace (snd (enable_shutdown_privilege os w))) = shutdowns_aborted (trace w)"
  "statics (snd (enable_shutdown_privilege os w)) = statics w"
  "valid_handles os (trace (snd (enable_shutdown_privilege os w))) = valid_handles os (trace w)"
  by (auto simp: enable_shutdown_privilege_def with_guard_def and_then_def call_eqs Let_def
      valid_handles_Cons invalid_not_held split: option.splits)

lemma preflight_history [simp, frame]:
  "shutdowns_aborted (trace (snd (preflight_shutdown_abort_capability os w))) = shutdowns_aborted (trace w)"
  "statics (snd (preflight_shutdown_abort_capability os w)) = statics w"
  "valid_handles os (trace (snd (preflight_shutdown_abort_capability os w))) = valid_handles os (trace w)"
  by (cases "enable_shutdown_privilege os w"; cases "fst (enable_shutdown_privilege os w)";
      use enable_privilege_history [of os w] in \<open>simp add: preflight_shutdown_abort_capability_def\<close>)+

lemma preflight_available_iff:
  "fst (preflight_shutdown_abort_capability os w) = Cap_Available \<longleftrightarrow>
     is_ok (fst (enable_shutdown_privilege os w))"
  by (auto simp: preflight_shutdown_abort_capability_def split: prod.splits sum.splits)

lemma abort_history:
  "shutdowns_aborted (trace (snd (abort_pending_shutdown os w))) =
     shutdowns_aborted (trace w) + of_bool (fst (abort_pending_shutdown os w) = Out_Aborted)"
  "statics (snd (abort_pending_shutdown os w)) = statics w"
  "valid_handles os (trace (snd (abort_pending_shutdown os w))) = valid_handles os (trace w)"
  by (cases "preflight_shutdown_abort_capability os w"; cases "fst (preflight_shutdown_abort_capability os w)";
      use preflight_history [of os w] in
        \<open>auto simp: abort_pending_shutdown_def call_eqs valid_handles_Cons split: option.splits\<close>)+

lemma request_suspend_history:
  "accepted_power (trace (snd (request_suspend os h w))) =
     (if is_ok (fst (request_suspend os h w)) then SetSuspendState h False False # accepted_power (trace w)
      else accepted_power (trace w))"
  "statics (snd (request_suspend os h w)) = statics w"
  "valid_handles os (trace (snd (request_suspend os h w))) = valid_handles os (trace w)"
  by (simp_all add: request_suspend_def call_eqs Let_def valid_handles_Cons)

lemma execute_power_action_outcome:
  "accepted_power (trace (snd (execute_power_action os a w))) =
     (if is_ok (fst (execute_power_action os a w)) then power_call_of a # accepted_power (trace w)
      else accepted_power (trace w)) \<and>
   valid_handles os (trace (snd (execute_power_action os a w))) = valid_handles os (trace w) \<and>
   statics (snd (execute_power_action os a w)) = statics w"
proof -
  obtain r w1 where e: "enable_shutdown_privilege os w = (r, w1)" by (cases "enable_shutdown_privilege os w")
  note h = enable_privilege_history [of os w, unfolded e snd_conv]
  show ?thesis
  proof (cases r)
    case (Inl err)
    with e h show ?thesis by (simp add: execute_power_action_def and_then_def map_error_def)
  next
    case (Inr u)
    then have eq: "execute_power_action os a w = (case a of
          PA_Shutdown \<Rightarrow>
            map_error (\<lambda>e. ''Windows rejected the shutdown request: '' @ err_text e)
              (call_unit os (Power (ExitWindowsEx EWX_SHUTDOWN planned_shutdown_reason)))
        | PA_Reboot \<Rightarrow>
            map_error (\<lambda>e. ''Windows rejected the reboot request: '' @ err_text e)
              (call_unit os (Power (ExitWindowsEx EWX_REBOOT planned_shutdown_reason)))
        | PA_Sleep \<Rightarrow>
            map_error (\<lambda>e. ''Windows rejected the sleep request: '' @ e) (request_suspend os False)
        | PA_Hibernate \<Rightarrow>
            map_error (\<lambda>e. ''Windows rejected the hibernate request: '' @ e) (request_suspend os True)) w1"
      using e by (simp add: execute_power_action_def and_then_def map_error_def)
    show ?thesis
      unfolding eq using h
      by (cases a) (auto simp: request_suspend_history call_eqs valid_handles_Cons split: option.splits)
  qed
qed

text \<open>The calls an abort makes.\<close>

fun abort_call :: "sys_call \<Rightarrow> bool" where
  "abort_call (Token _) = True"
| "abort_call (Power AbortSystemShutdownW) = True"
| "abort_call _ = False"

lemma guard_drop_calls: "only_calls abort_call w w' \<Longrightarrow> only_calls abort_call w (handle_guard_drop os n w')"
  by (simp add: handle_guard_drop_def)

lemma enable_privilege_calls: "only_calls abort_call w (snd (enable_shutdown_privilege os w))"
  by (auto simp: enable_shutdown_privilege_def with_guard_def and_then_def call_eqs Let_def
      intro!: guard_drop_calls split: option.splits)

lemma preflight_calls: "only_calls abort_call w (snd (preflight_shutdown_abort_capability os w))"
  using enable_privilege_calls [of w os]
  by (auto simp: preflight_shutdown_abort_capability_def split: prod.splits sum.splits)

lemma abort_calls: "only_calls abort_call w (snd (abort_pending_shutdown os w))"
  using preflight_calls [of w os]
  by (auto simp: abort_pending_shutdown_def call_eqs
      split: prod.splits shutdown_abort_capability.splits option.splits)

text \<open>C7. Power actions do what they report. Whatever Windows answers,
  \<^verbatim>\<open>execute_power_action\<close> returns \<^verbatim>\<open>Ok\<close> exactly when Windows accepted one transition, the one
  asked for, and \<^verbatim>\<open>Err\<close> leaves no accepted transition behind; \<^verbatim>\<open>abort_pending_shutdown\<close>
  reports \<^verbatim>\<open>Aborted\<close> exactly when Windows aborted one shutdown; neither keeps a process token
  open on any path.\<close>

theorem power_actions_exact:
  "accepted_power (trace (snd (execute_power_action os a w))) =
     (if is_ok (fst (execute_power_action os a w)) then [power_call_of a] else []) @
       accepted_power (trace w) \<and>
   shutdowns_aborted (trace (snd (abort_pending_shutdown os w))) =
     (if fst (abort_pending_shutdown os w) = Out_Aborted then 1 else 0) + shutdowns_aborted (trace w) \<and>
   valid_handles os (trace (snd (execute_power_action os a w))) = valid_handles os (trace w) \<and>
   valid_handles os (trace (snd (abort_pending_shutdown os w))) = valid_handles os (trace w)"
  using execute_power_action_outcome [of os a w] abort_history [of os w] by simp

end
