(* ===== verification/Remote_Layer.thy ===== *)
theory Remote_Layer
  imports Worker Abort Shutdown_Layer
begin

text \<open>
  \<^verbatim>\<open>blocker/remote.rs\<close>, Layer 4: a worker thread that calls \<^verbatim>\<open>AbortSystemShutdownW\<close> every
  900 ms. \<open>remote_worker_turn\<close> is \<^verbatim>\<open>run_worker\<close> cut at its blocking points: the turn from
  \<open>Spawned\<close> is everything up to the first \<^verbatim>\<open>recv_timeout\<close>, a turn from \<open>Polling\<close> is one
  \<^verbatim>\<open>recv_timeout\<close> with what follows it. The thread's phase and the stop channel are kept with
  the \<^verbatim>\<open>worker\<close> handle that owns them.

  The lemmas show the layer's invariant under every interleaving, that deactivation always
  joins the thread and ends idle, and that the blocked-event counter counts exactly the
  shutdowns Windows aborted.
\<close>

definition LAYER4_THREAD_NAME :: string where
  "LAYER4_THREAD_NAME = ''wardoff-layer4-remote-shutdown''"

definition remote_abort_interval_ms :: nat where
  "remote_abort_interval_ms = 900"

record remote_worker =
  rw_stop_queued :: bool
  rw_phase :: worker_phase

record remote_shutdown_blocker =
  rb_worker :: "remote_worker option"
  rb_active_state :: bool

definition remote_default :: remote_shutdown_blocker where
  "remote_default = \<lparr>rb_worker = None, rb_active_state = False\<rparr>"

definition poll_remote_shutdown :: "os \<Rightarrow> world \<Rightarrow> bool \<times> world" where
  "poll_remote_shutdown os w =
     (case abort_pending_shutdown os w of
        (Out_Aborted, w) \<Rightarrow>
          (True, log_event os ''remote_shutdown_intercepted'' Src_Remote
             ''Layer 4 called AbortSystemShutdownW(None) and aborted a pending remote shutdown.''
             True (record_blocked_event w))
      | (Out_NoShutdownPending, w) \<Rightarrow> (True, w)
      | (Out_AccessDenied details, w) \<Rightarrow>
          (False, log_event os ''remote_layer_enabled'' Src_Remote
             (''Layer 4 could not call AbortSystemShutdownW(None) because the required shutdown privilege is missing: '' @ details)
             False w)
      | (Out_Failed details, w) \<Rightarrow>
          (False, log_event os ''remote_layer_disabled'' Src_Remote
             (''Layer 4 polling stopped after AbortSystemShutdownW(None) failed unexpectedly: '' @ details)
             False w))"

definition set_remote_phase :: "remote_worker \<Rightarrow> worker_phase \<Rightarrow> remote_shutdown_blocker \<Rightarrow> remote_shutdown_blocker" where
  "set_remote_phase k p b = b\<lparr>rb_worker := Some (k\<lparr>rw_phase := p\<rparr>)\<rparr>"

definition remote_worker_turn ::
    "os \<Rightarrow> remote_shutdown_blocker \<times> world \<Rightarrow> remote_shutdown_blocker \<times> world" where
  "remote_worker_turn os = (\<lambda>(b, w).
     case rb_worker b of
       None \<Rightarrow> (b, w)
     | Some k \<Rightarrow>
         (case rw_phase k of
            Spawned \<Rightarrow>
              (let (go_on, w) = poll_remote_shutdown os w in
               if \<not> go_on then (set_remote_phase k Finished b, w)
               else
                 (set_remote_phase k Polling (b\<lparr>rb_active_state := True\<rparr>),
                  log_event os ''remote_layer_enabled'' Src_Remote
                    (''Layer 4 started polling AbortSystemShutdownW(None) every '' @
                     show_nat remote_abort_interval_ms @ '' ms.'')
                    True w))
          | Polling \<Rightarrow>
              (if rw_stop_queued k then
                 (set_remote_phase k Finished (b\<lparr>rb_active_state := False\<rparr>),
                  log_event os ''remote_layer_disabled'' Src_Remote
                    ''Layer 4 stopped remote shutdown polling as Block mode ended.'' True w)
               else
                 let (go_on, w) = poll_remote_shutdown os w in
                 if go_on then (b, w)
                 else (set_remote_phase k Finished (b\<lparr>rb_active_state := False\<rparr>), w))
          | Finished \<Rightarrow> (b, w)))"

definition remote_activate :: "os \<Rightarrow> (remote_shutdown_blocker \<times> world, string, unit) prog" where
  "remote_activate os = (\<lambda>(b, w).
     if rb_worker b \<noteq> None then (Inr (), (b, w))
     else case call_unit os (Thread (SpawnThread LAYER4_THREAD_NAME)) w of
       (Inr _, w) \<Rightarrow>
         (Inr (), (b\<lparr>rb_worker := Some \<lparr>rw_stop_queued = False, rw_phase = Spawned\<rparr>\<rparr>, w))
     | (Inl error, w) \<Rightarrow>
         (Inl (''Layer 4 could not start its polling thread: '' @ err_text error), (b, w)))"

definition remote_begin_forced_shutdown_cleanup :: "remote_shutdown_blocker \<Rightarrow> remote_shutdown_blocker" where
  "remote_begin_forced_shutdown_cleanup b =
     (case rb_worker b of
        None \<Rightarrow> b
      | Some k \<Rightarrow> b\<lparr>rb_active_state := False, rb_worker := Some (k\<lparr>rw_stop_queued := True\<rparr>)\<rparr>)"

definition remote_deactivate ::
    "os \<Rightarrow> remote_shutdown_blocker \<times> world \<Rightarrow> remote_shutdown_blocker \<times> world" where
  "remote_deactivate os = (\<lambda>(b, w).
     let b = remote_begin_forced_shutdown_cleanup b in
     case rb_worker b of
       None \<Rightarrow> (b, w)
     | Some _ \<Rightarrow>
         let (b, w) = run_to_end (remote_worker_turn os) (b, w);
             (joined, w) = call_unit os (Thread (JoinThread LAYER4_THREAD_NAME)) w;
             w = (if is_err joined then
                    log_event os ''remote_layer_disabled'' Src_Remote
                      ''Layer 4 worker thread panicked while stopping.'' False w
                  else w)
         in (b\<lparr>rb_worker := None\<rparr>, w))"

definition remote_is_active :: "remote_shutdown_blocker \<Rightarrow> bool" where
  "remote_is_active b = rb_active_state b"

fun remote_event :: "os \<Rightarrow> layer_event \<Rightarrow> remote_shutdown_blocker \<times> world \<Rightarrow> remote_shutdown_blocker \<times> world" where
  "remote_event os Ev_Activate s = snd (remote_activate os s)"
| "remote_event os Ev_Deactivate s = remote_deactivate os s"
| "remote_event os Ev_Forced_Cleanup (b, w) = (remote_begin_forced_shutdown_cleanup b, w)"
| "remote_event os Ev_Worker_Turn s = remote_worker_turn os s"

subsection \<open>Invariant\<close>

text \<open>The active flag is raised only by a worker that is in its loop.\<close>

definition remote_inv :: "remote_shutdown_blocker \<Rightarrow> bool" where
  "remote_inv b \<longleftrightarrow> (rb_active_state b \<longrightarrow> (\<exists>k. rb_worker b = Some k \<and> rw_phase k = Polling))"

definition remote_idle :: "remote_shutdown_blocker \<Rightarrow> bool" where
  "remote_idle b \<longleftrightarrow> rb_worker b = None"

definition remote_phase :: "remote_shutdown_blocker \<times> world \<Rightarrow> worker_phase" where
  "remote_phase s = (case rb_worker (fst s) of None \<Rightarrow> Finished | Some k \<Rightarrow> rw_phase k)"

definition remote_stopping :: "remote_shutdown_blocker \<times> world \<Rightarrow> bool" where
  "remote_stopping s = (case rb_worker (fst s) of None \<Rightarrow> True | Some k \<Rightarrow> rw_stop_queued k)"

lemma abort_count:
  "blocked_event_count (snd (abort_pending_shutdown os w)) = blocked_event_count w"
  "control (snd (abort_pending_shutdown os w)) = control w"
  using abort_history(2) [of os w] by (simp_all add: statics_def control_def)

lemma poll_uncounted [simp]: "uncounted (snd (poll_remote_shutdown os w)) = uncounted w"
  using abort_history(1) [of os w] abort_count(1) [of os w]
  by (auto simp: poll_remote_shutdown_def uncounted_def split: prod.splits shutdown_abort_outcome.splits)

lemma poll_control [simp, frame]: "control (snd (poll_remote_shutdown os w)) = control w"
  using abort_count(2) [of os w]
  by (auto simp: poll_remote_shutdown_def split: prod.splits shutdown_abort_outcome.splits)

lemma remote_turn_cases:
  "remote_worker_turn os (b, w) =
     (case rb_worker b of
        None \<Rightarrow> (b, w)
      | Some k \<Rightarrow>
          (case rw_phase k of
             Spawned \<Rightarrow>
               if fst (poll_remote_shutdown os w) then
                 (set_remote_phase k Polling (b\<lparr>rb_active_state := True\<rparr>),
                  log_event os ''remote_layer_enabled'' Src_Remote
                    (''Layer 4 started polling AbortSystemShutdownW(None) every '' @
                     show_nat remote_abort_interval_ms @ '' ms.'')
                    True (snd (poll_remote_shutdown os w)))
               else (set_remote_phase k Finished b, snd (poll_remote_shutdown os w))
           | Polling \<Rightarrow>
               if rw_stop_queued k then
                 (set_remote_phase k Finished (b\<lparr>rb_active_state := False\<rparr>),
                  log_event os ''remote_layer_disabled'' Src_Remote
                    ''Layer 4 stopped remote shutdown polling as Block mode ended.'' True w)
               else
                 (if fst (poll_remote_shutdown os w) then b
                  else set_remote_phase k Finished (b\<lparr>rb_active_state := False\<rparr>),
                  snd (poll_remote_shutdown os w))
           | Finished \<Rightarrow> (b, w)))"
  by (simp add: remote_worker_turn_def case_prod_beta Let_def split: option.split worker_phase.split)

lemma remote_turn_frame [simp, frame]:
  "control (snd (remote_worker_turn os (b, w))) = control w"
  "uncounted (snd (remote_worker_turn os (b, w))) = uncounted w"
  by (simp_all add: remote_turn_cases split: option.split worker_phase.split)

lemma remote_turn_inv: "remote_inv b \<Longrightarrow> remote_inv (fst (remote_worker_turn os (b, w)))"
  by (auto simp: remote_turn_cases remote_inv_def set_remote_phase_def
      split: option.splits worker_phase.splits)

interpretation remote_thread: stoppable_worker "remote_worker_turn os" remote_phase remote_stopping
proof
  fix t :: "remote_shutdown_blocker \<times> world"
  obtain b w where t: "t = (b, w)" by (cases t)
  show "remote_stopping t \<Longrightarrow> remote_stopping (remote_worker_turn os t)"
    by (auto simp: t remote_stopping_def remote_turn_cases set_remote_phase_def
        split: option.splits worker_phase.splits)
  show "remote_phase t = Spawned \<Longrightarrow> remote_phase (remote_worker_turn os t) \<noteq> Spawned"
    by (auto simp: t remote_phase_def remote_turn_cases set_remote_phase_def split: option.splits)
  show "remote_phase t = Polling \<Longrightarrow> remote_stopping t \<Longrightarrow> remote_phase (remote_worker_turn os t) = Finished"
    by (auto simp: t remote_phase_def remote_stopping_def remote_turn_cases set_remote_phase_def
        split: option.splits)
  show "remote_phase t = Finished \<Longrightarrow> remote_worker_turn os t = t"
    by (auto simp: t remote_phase_def remote_turn_cases split: option.splits)
qed

lemma forced_cleanup_stops: "remote_stopping (remote_begin_forced_shutdown_cleanup b, w)"
  by (simp add: remote_begin_forced_shutdown_cleanup_def remote_stopping_def split: option.split)

lemma remote_forced_inv [simp]: "remote_inv b \<Longrightarrow> remote_inv (remote_begin_forced_shutdown_cleanup b)"
  by (auto simp: remote_begin_forced_shutdown_cleanup_def remote_inv_def split: option.split)

lemma remote_join_finished:
  assumes "run_to_end (remote_worker_turn os) (remote_begin_forced_shutdown_cleanup b, w) = (b', w')"
  shows "remote_phase (b', w') = Finished"
  using remote_thread.run_to_end_finished [OF forced_cleanup_stops [of b w], of os] assms by simp

lemma remote_join_frame:
  assumes "remote_inv b" and "run_to_end (remote_worker_turn os) (b, w) = (b', w')"
  shows "remote_inv b' \<and> control w' = control w \<and> uncounted w' = uncounted w"
proof -
  obtain b1 w1 where t: "remote_worker_turn os (b, w) = (b1, w1)" by (cases "remote_worker_turn os (b, w)")
  show ?thesis
    using assms t remote_turn_inv [of b os w] remote_turn_frame [of os b w]
      remote_turn_inv [of b1 os w1] remote_turn_frame [of os b1 w1]
    by (simp add: run_to_end_def)
qed

lemma remote_deactivate_outcome:
  assumes "remote_inv b"
  shows "remote_idle (fst (remote_deactivate os (b, w))) \<and> remote_inv (fst (remote_deactivate os (b, w))) \<and>
         control (snd (remote_deactivate os (b, w))) = control w \<and>
         uncounted (snd (remote_deactivate os (b, w))) = uncounted w"
proof (cases "rb_worker b")
  case None
  with assms show ?thesis
    by (simp add: remote_deactivate_def remote_begin_forced_shutdown_cleanup_def remote_idle_def)
next
  case (Some k)
  let ?b = "remote_begin_forced_shutdown_cleanup b"
  obtain b1 w1 where j: "run_to_end (remote_worker_turn os) (?b, w) = (b1, w1)"
    by (cases "run_to_end (remote_worker_turn os) (?b, w)")
  have worker: "rb_worker ?b \<noteq> None" using Some by (simp add: remote_begin_forced_shutdown_cleanup_def)
  have inv: "remote_inv b1 \<and> control w1 = control w \<and> uncounted w1 = uncounted w"
    using remote_join_frame [OF remote_forced_inv [OF assms] j] .
  have "\<not> rb_active_state b1"
    using inv remote_join_finished [OF j] by (auto simp: remote_inv_def remote_phase_def split: option.splits)
  with inv worker j show ?thesis
    by (auto simp: remote_deactivate_def remote_idle_def remote_inv_def Let_def call_unit_cases)
qed

lemma remote_activate_outcome:
  "remote_inv b \<Longrightarrow> remote_inv (fst (snd (remote_activate os (b, w))))"
  "control (snd (snd (remote_activate os (b, w)))) = control w"
  "uncounted (snd (snd (remote_activate os (b, w)))) = uncounted w"
  "is_ok (fst (remote_activate os (b, w))) \<longleftrightarrow> rb_worker (fst (snd (remote_activate os (b, w)))) \<noteq> None"
  by (auto simp: remote_activate_def remote_inv_def call_eqs split: option.splits)

lemma remote_idle_inactive: "remote_inv b \<Longrightarrow> remote_idle b \<Longrightarrow> \<not> remote_is_active b"
  by (auto simp: remote_inv_def remote_idle_def remote_is_active_def)

interpretation remote_layer: protection_layer "remote_activate os" "remote_deactivate os"
    remote_is_active remote_inv remote_idle
  using remote_activate_outcome remote_deactivate_outcome remote_idle_inactive
  by unfold_locales auto

lemma remote_event_keeps:
  "remote_inv b \<Longrightarrow> remote_event os e (b, w) = (b', w') \<Longrightarrow>
     remote_inv b' \<and> control w' = control w \<and> uncounted w' = uncounted w"
  using remote_activate_outcome [where b = b and os = os and w = w]
    remote_deactivate_outcome [of b os w] remote_turn_inv [of b os w] remote_turn_frame [of os b w]
  by (cases e) auto

lemma remote_events_keep:
  "remote_inv b \<Longrightarrow> fold (remote_event os) es (b, w) = (b', w') \<Longrightarrow>
     remote_inv b' \<and> control w' = control w \<and> uncounted w' = uncounted w"
proof (induction es arbitrary: b w)
  case (Cons e es)
  obtain b1 w1 where e: "remote_event os e (b, w) = (b1, w1)" by (cases "remote_event os e (b, w)")
  with remote_event_keeps [OF Cons.prems(1) e] Cons.IH [of b1 w1] Cons.prems(2) show ?case by simp
qed simp



end
