(* ===== verification/Windows_Util.thy ===== *)
theory Windows_Util
  imports Abort
begin

text \<open>
  \<^verbatim>\<open>windows_util.rs\<close>: the elevation query that Layer 3 and startup share, the elevated and the
  detached relaunch of the program, and its console. The token guard is the same RAII wrapper as
  in \<^verbatim>\<open>blocker/mod.rs\<close> (\<open>with_guard\<close>). The working directory passed to \<^verbatim>\<open>ShellExecuteW\<close> is
  determined by the executable path and not recorded.
\<close>

definition is_process_elevated :: "os \<Rightarrow> (world, win_error, bool) prog" where
  "is_process_elevated os =
     and_then (call_num os (Token (OpenProcessToken TOKEN_QUERY))) (\<lambda>token.
       with_guard os token
         (and_then (call_num os (Token (GetTokenElevation token))) (\<lambda>elevated. ok (elevated \<noteq> 0))))"

lemma is_process_elevated_frame [simp, frame]:
  "statics (snd (is_process_elevated os w)) = statics w"
  "shutdowns_aborted (trace (snd (is_process_elevated os w))) = shutdowns_aborted (trace w)"
  "valid_handles os (trace (snd (is_process_elevated os w))) = valid_handles os (trace w)"
  by (auto simp: is_process_elevated_def with_guard_def and_then_def call_eqs Let_def
      valid_handles_Cons invalid_not_held split: option.splits)

subsection \<open>Relaunch and console\<close>

text \<open>A call that produces a string.\<close>

definition call_text :: "os \<Rightarrow> sys_call \<Rightarrow> (world, win_error, string) prog" where
  "call_text os c w =
     (let (r, w') = syscall os c w in (case r_err r of Some e \<Rightarrow> Inl e | None \<Rightarrow> Inr (r_text r), w'))"

lemma call_text_cases:
  "call_text os c w =
     (case r_err (os (trace w) c) of Some e \<Rightarrow> Inl e | None \<Rightarrow> Inr (r_text (os (trace w) c)), snd (syscall os c w))"
  by (simp add: call_text_def syscall_def Let_def)

definition INTERNAL_DETACHED_RUNTIME_ARG :: string where
  "INTERNAL_DETACHED_RUNTIME_ARG = ''--wardoff-detached-runtime''"

definition INTERNAL_ELEVATED_RELAUNCH_ARG :: string where
  "INTERNAL_ELEVATED_RELAUNCH_ARG = ''--wardoff-elevated-relaunch''"

definition ERROR_CANCELLED :: u32 where "ERROR_CANCELLED = 1223"

datatype elevation_launch_result = Elev_Launched | Elev_Cancelled

datatype console_launch_context = Console_None | Console_Owned | Console_Inherited

definition relaunch_self_elevated :: "os \<Rightarrow> (world, string, elevation_launch_result) prog" where
  "relaunch_self_elevated os =
     and_then
       (map_error (\<lambda>e. ''Wardoff could not resolve its executable path for elevation: '' @ err_text e)
          (call_text os (Shell CurrentExe)))
       (\<lambda>executable_path w.
          let (result, w) = call_value os (Shell (ShellExecuteRunas executable_path INTERNAL_ELEVATED_RELAUNCH_ARG)) w in
          if result > 32 then (Inr Elev_Launched, w)
          else
            let (last_error, w) = call_value os (Token GetLastError) w;
                code = (of_nat last_error :: u32)
            in if code = ERROR_CANCELLED then (Inr Elev_Cancelled, w)
               else
                 (Inl (''Wardoff could not relaunch itself with administrator rights (ShellExecuteW code '' @
                    show_nat result @ '').'' @
                    (if code = 0 then [] else '' (Win32 error '' @ show_nat (unat code) @ '')'')), w))"

definition console_launch_context :: "os \<Rightarrow> (world, string, console_launch_context) prog" where
  "console_launch_context os w =
     (let (console_window, w) = call_value os (Shell GetConsoleWindow) w in
      if console_window = 0 then (Inr Console_None, w)
      else
        let (process_count, w) = call_value os (Shell GetConsoleProcessList) w in
        if process_count = 0 then
          let (last_error, w) = call_value os (Token GetLastError) w in
          (Inl (''Wardoff could not inspect its console attachment state (Win32 error '' @ show_nat last_error @ '').''), w)
        else if process_count = 1 then (Inr Console_Owned, w)
        else (Inr Console_Inherited, w))"

definition hide_and_free_console :: "os \<Rightarrow> (world, string, unit) prog" where
  "hide_and_free_console os w =
     (let (console_window, w) = call_value os (Shell GetConsoleWindow) w in
      if console_window = 0 then (Inr (), w)
      else
        let w = snd (call_value os (Shell (HideWindow console_window)) w) in
        case call_unit os (Shell FreeConsole) w of
          (Inr _, w) \<Rightarrow> (Inr (), w)
        | (Inl error, w) \<Rightarrow>
            let (last_error, w) = call_value os (Token GetLastError) w in
            (Inl (''Wardoff could not detach from its standalone console window (Win32 error '' @
                  show_nat (if last_error = 0 then unat (err_code error) else last_error) @ '').''), w))"

text \<open>The arguments of the detached copy: the own ones, with the internal marker once.\<close>

definition detached_args :: "string list \<Rightarrow> string list" where
  "detached_args existing_args =
     (if INTERNAL_DETACHED_RUNTIME_ARG \<notin> set existing_args
      then existing_args @ [INTERNAL_DETACHED_RUNTIME_ARG] else existing_args)"

definition relaunch_self_detached :: "os \<Rightarrow> string list \<Rightarrow> (world, string, unit) prog" where
  "relaunch_self_detached os existing_args =
     and_then
       (map_error (\<lambda>e. ''Wardoff could not resolve its executable path for detached relaunch: '' @ err_text e)
          (call_text os (Shell CurrentExe)))
       (\<lambda>executable_path.
          map_error (\<lambda>e. ''Wardoff could not relaunch its long-lived runtime without a shell console: '' @ err_text e)
            (call_unit os (Shell (SpawnDetached executable_path (detached_args existing_args)))))"


subsection \<open>What a sequence of calls keeps\<close>

text \<open>A relation between the world before and after that every call of some set respects. The
  operations built from such calls by the program's combinators respect it too: this is how frames
  (flags untouched, only certain calls made) reach from the calls to whole operations.\<close>

locale call_frame =
  fixes R :: "world \<Rightarrow> world \<Rightarrow> bool" and allowed :: "sys_call \<Rightarrow> bool"
  assumes R_refl: "R w w"
    and R_trans: "R w w' \<Longrightarrow> R w' w'' \<Longrightarrow> R w w''"
    and R_call: "allowed c \<Longrightarrow> R w (snd (syscall os c w))"
begin

definition keeps :: "(world, 'e, 'a) prog \<Rightarrow> bool" where
  "keeps m \<longleftrightarrow> (\<forall>w. R w (snd (m w)))"

lemma keepsI: "(\<And>w. R w (snd (m w))) \<Longrightarrow> keeps m"
  by (simp add: keeps_def)

lemma keepsD: "keeps m \<Longrightarrow> R w (snd (m w))"
  by (simp add: keeps_def)

lemma keeps_result: "keeps m \<Longrightarrow> m w = (r, w') \<Longrightarrow> R w w'"
  unfolding keeps_def by (metis snd_conv)

lemma keeps_pure: "keeps (ok x)" "keeps (fail e)"
  by (simp_all add: keeps_def R_refl)

lemma keeps_calls:
  assumes "allowed c"
  shows "keeps (call_unit os c)" "keeps (call_num os c)" "keeps (call_text os c)"
  using R_call [OF assms] by (simp_all add: keeps_def call_text_cases)

lemma keeps_and_then:
  assumes "keeps m" and "\<And>x. keeps (f x)"
  shows "keeps (and_then m f)"
proof (rule keepsI)
  fix w
  obtain r w1 where m: "m w = (r, w1)" by (rule prod.exhaust)
  from keeps_result [OF assms(1) m] m keepsD [OF assms(2)] show "R w (snd (and_then m f w))"
    by (cases r) (auto simp: and_then_def intro: R_trans)
qed

lemma keeps_map_error: "keeps m \<Longrightarrow> keeps (map_error g m)"
  by (simp add: keeps_def)

lemma keeps_guarded:
  assumes "keeps m" and "allowed (Token (CloseHandle h))"
  shows "keeps (with_guard os h m)"
proof (rule keepsI)
  fix w
  obtain r w1 where m: "m w = (r, w1)" by (rule prod.exhaust)
  from keeps_result [OF assms(1) m] m R_call [OF assms(2), of w1 os] show "R w (snd (with_guard os h m w))"
    by (auto simp: with_guard_def handle_guard_drop_def intro: R_trans)
qed

lemma keeps_either: "keeps m \<Longrightarrow> keeps m' \<Longrightarrow> keeps (if b then m else m')"
  by simp

end

interpretation control_frame: call_frame "\<lambda>w w'. control w' = control w" "\<lambda>_. True"
  by unfold_locales simp_all

interpretation calls_frame: call_frame "only_calls P" P for P
  by unfold_locales (auto intro: only_calls_trans)

end
