(* ===== verification/Update_Layer.thy ===== *)
theory Update_Layer
  imports Worker Windows_Util
begin

text \<open>
  \<^verbatim>\<open>blocker/update.rs\<close>, Layer 3: a worker thread that keeps the UpdateOrchestrator reboot task
  disabled while Block mode is active and re-enables it at the end if it was this layer that
  disabled it. \<open>update_worker_turn\<close> is \<^verbatim>\<open>run_worker\<close> cut at its blocking \<^verbatim>\<open>recv_timeout\<close>; the
  shared \<^verbatim>\<open>Mutex<RestoreState>\<close> is a field of the blocker with its poison flag.

  The lemmas show the invariant under every interleaving, that the COM apartment is entered
  and left in pairs, that the layer never enables a task it did not disable, and that with a
  scheduler that answers truthfully the task ends in the state it started in.
\<close>

definition backslash :: string where
  "backslash = [CHR 0x5C]"

definition UPDATE_ORCHESTRATOR_FOLDER_PATH :: string where
  "UPDATE_ORCHESTRATOR_FOLDER_PATH =
     backslash @ ''Microsoft'' @ backslash @ ''Windows'' @ backslash @ ''UpdateOrchestrator''"

definition UPDATE_ORCHESTRATOR_REBOOT_TASK_NAME :: string where
  "UPDATE_ORCHESTRATOR_REBOOT_TASK_NAME = ''Reboot''"

definition UPDATE_ORCHESTRATOR_REBOOT_TASK_PATH :: string where
  "UPDATE_ORCHESTRATOR_REBOOT_TASK_PATH =
     backslash @ ''Microsoft'' @ backslash @ ''Windows'' @ backslash @ ''UpdateOrchestrator'' @
     backslash @ ''Reboot''"

definition LAYER3_THREAD_NAME :: string where
  "LAYER3_THREAD_NAME = ''wardoff-layer3-update-reboot''"

definition recheck_interval_secs :: nat where
  "recheck_interval_secs = 5 * 60"

definition ERROR_FILE_NOT_FOUND :: u32 where "ERROR_FILE_NOT_FOUND = 2"
definition ERROR_PATH_NOT_FOUND :: u32 where "ERROR_PATH_NOT_FOUND = 3"
definition ERROR_NOT_FOUND :: u32 where "ERROR_NOT_FOUND = 1168"

abbreviation task_path :: string where
  "task_path \<equiv> UPDATE_ORCHESTRATOR_REBOOT_TASK_PATH"

subsection \<open>State\<close>

record restore_state =
  rs_original_state_recorded :: bool
  rs_restore_enabled_on_exit :: bool

definition restore_state_default :: restore_state where
  "restore_state_default = \<lparr>rs_original_state_recorded = False, rs_restore_enabled_on_exit = False\<rparr>"

record update_worker =
  uw_stop_queued :: bool
  uw_phase :: worker_phase

record update_reboot_blocker =
  ub_worker :: "update_worker option"
  ub_active_state :: bool
  ub_restore_state :: restore_state
  ub_restore_poisoned :: bool

definition update_default :: update_reboot_blocker where
  "update_default =
     \<lparr>ub_worker = None, ub_active_state = False, ub_restore_state = restore_state_default,
      ub_restore_poisoned = False\<rparr>"

datatype reboot_task_lookup = Lookup_Task nat | MissingFolder | MissingTask

subsection \<open>Task Scheduler access\<close>

definition is_not_found_error :: "os \<Rightarrow> win_error \<Rightarrow> bool" where
  "is_not_found_error os error \<longleftrightarrow>
     err_code error = hresult_from_win32 os ERROR_FILE_NOT_FOUND \<or>
     err_code error = hresult_from_win32 os ERROR_PATH_NOT_FOUND \<or>
     err_code error = hresult_from_win32 os ERROR_NOT_FOUND"

definition is_task_access_denied_error :: "os \<Rightarrow> win_error \<Rightarrow> bool" where
  "is_task_access_denied_error os error \<longleftrightarrow>
     err_code error = E_ACCESSDENIED \<or> err_code error = hresult_from_win32 os ERROR_ACCESS_DENIED"

definition initialize_com_apartment :: "os \<Rightarrow> (world, win_error, unit) prog" where
  "initialize_com_apartment os = call_unit os (Task CoInitializeEx)"

definition connect_task_service :: "os \<Rightarrow> (world, win_error, nat) prog" where
  "connect_task_service os =
     and_then (call_num os (Task CoCreateTaskScheduler)) (\<lambda>task_service.
     and_then (call_unit os (Task (TaskServiceConnect task_service))) (\<lambda>_. ok task_service))"

definition open_update_orchestrator_folder :: "os \<Rightarrow> (world, win_error, nat) prog" where
  "open_update_orchestrator_folder os =
     and_then (connect_task_service os) (\<lambda>task_service.
       call_num os (Task (GetFolder task_service UPDATE_ORCHESTRATOR_FOLDER_PATH)))"

definition lookup_reboot_task :: "os \<Rightarrow> (world, win_error, reboot_task_lookup) prog" where
  "lookup_reboot_task os w =
     (case open_update_orchestrator_folder os w of
        (Inl error, w) \<Rightarrow> (if is_not_found_error os error then Inr MissingFolder else Inl error, w)
      | (Inr folder, w) \<Rightarrow>
          (case call_num os (Task (GetTask folder UPDATE_ORCHESTRATOR_REBOOT_TASK_NAME)) w of
             (Inr task, w) \<Rightarrow> (Inr (Lookup_Task task), w)
           | (Inl error, w) \<Rightarrow> (if is_not_found_error os error then Inr MissingTask else Inl error, w)))"

definition set_task_enabled :: "os \<Rightarrow> nat \<Rightarrow> bool \<Rightarrow> (world, win_error, unit) prog" where
  "set_task_enabled os task enabled = call_unit os (Task (TaskSetEnabled task enabled))"

definition task_is_enabled :: "os \<Rightarrow> nat \<Rightarrow> (world, win_error, bool) prog" where
  "task_is_enabled os task = and_then (call_num os (Task (TaskGetEnabled task))) (\<lambda>v. ok (v \<noteq> 0))"

subsection \<open>Disabling and restoring the reboot task\<close>

definition ensure_reboot_task_disabled :: "os \<Rightarrow> (restore_state \<times> world, win_error, bool) prog" where
  "ensure_reboot_task_disabled os =
     and_then (on_world (lookup_reboot_task os)) (\<lambda>lookup.
       case lookup of
         Lookup_Task task \<Rightarrow>
           and_then (on_world (task_is_enabled os task)) (\<lambda>enabled (restore_state, w).
             if \<not> rs_original_state_recorded restore_state then
               let restore_state = restore_state\<lparr>rs_original_state_recorded := True\<rparr> in
               if enabled then
                 (case set_task_enabled os task False w of
                    (Inl error, w) \<Rightarrow> (Inl error, (restore_state, w))
                  | (Inr _, w) \<Rightarrow>
                      (Inr True, (restore_state\<lparr>rs_restore_enabled_on_exit := True\<rparr>,
                         log_event os ''update_task_disabled'' Src_UpdateOrchestrator
                           (''Layer 3 disabled scheduled task '' @ task_path @ '' while Block mode is active.'')
                           True w)))
               else
                 (Inr True, (restore_state,
                    log_event os ''update_task_disabled'' Src_UpdateOrchestrator
                      (''Layer 3 found scheduled task '' @ task_path @
                       '' already disabled and is only monitoring it.'')
                      True w))
             else if enabled then
               (case set_task_enabled os task False w of
                  (Inl error, w) \<Rightarrow> (Inl error, (restore_state, w))
                | (Inr _, w) \<Rightarrow>
                    (Inr True, (restore_state,
                       if rs_restore_enabled_on_exit restore_state then
                         log_event os ''update_task_disabled'' Src_UpdateOrchestrator
                           (''Layer 3 re-disabled scheduled task '' @ task_path @
                            '' after Windows re-enabled it.'')
                           True w
                       else
                         log_event os ''update_task_disabled'' Src_UpdateOrchestrator
                           (''Layer 3 disabled scheduled task '' @ task_path @
                            '' after it was re-enabled during Block mode; it will remain disabled on exit because it was already disabled before Layer 3 started.'')
                           True w)))
             else (Inr True, (restore_state, w)))
       | MissingFolder \<Rightarrow> (\<lambda>(restore_state, w).
           (Inr False, (restore_state,
              log_event os ''update_monitoring_started'' Src_UpdateOrchestrator
                (''Layer 3 skipped because the Task Scheduler folder '' @ UPDATE_ORCHESTRATOR_FOLDER_PATH @
                 '' does not exist on this machine.'')
                False w)))
       | MissingTask \<Rightarrow> (\<lambda>(restore_state, w).
           (Inr False, (restore_state,
              log_event os ''update_monitoring_started'' Src_UpdateOrchestrator
                (''Layer 3 skipped because the scheduled task '' @ task_path @
                 '' does not exist on this machine.'')
                False w))))"

definition restore_task_if_needed :: "os \<Rightarrow> restore_state \<Rightarrow> world \<Rightarrow> world" where
  "restore_task_if_needed os restore_state w =
     (if \<not> rs_restore_enabled_on_exit restore_state then w
      else case lookup_reboot_task os w of
        (Inr (Lookup_Task task), w) \<Rightarrow>
          (case task_is_enabled os task w of
             (Inr True, w) \<Rightarrow>
               log_event os ''update_task_enabled'' Src_UpdateOrchestrator
                 (''Layer 3 left scheduled task '' @ task_path @ '' enabled as Block mode ended.'') True w
           | (Inr False, w) \<Rightarrow>
               (case set_task_enabled os task True w of
                  (Inl error, w) \<Rightarrow>
                    log_event os ''update_task_enabled'' Src_UpdateOrchestrator
                      (''Layer 3 could not re-enable scheduled task '' @ task_path @ '': '' @ err_text error)
                      False w
                | (Inr _, w) \<Rightarrow>
                    log_event os ''update_task_enabled'' Src_UpdateOrchestrator
                      (''Layer 3 re-enabled scheduled task '' @ task_path @ '' as Block mode ended.'') True w)
           | (Inl error, w) \<Rightarrow>
               log_event os ''update_task_enabled'' Src_UpdateOrchestrator
                 (''Layer 3 could not query scheduled task '' @ task_path @ '' during restore: '' @ err_text error)
                 False w)
      | (Inr MissingFolder, w) \<Rightarrow>
          log_event os ''update_task_enabled'' Src_UpdateOrchestrator
            (''Layer 3 could not restore '' @ task_path @ '' because the folder '' @
             UPDATE_ORCHESTRATOR_FOLDER_PATH @ '' is not present.'')
            False w
      | (Inr MissingTask, w) \<Rightarrow>
          log_event os ''update_task_enabled'' Src_UpdateOrchestrator
            (''Layer 3 could not restore '' @ task_path @ '' because the task is not present.'') False w
      | (Inl error, w) \<Rightarrow>
          log_event os ''update_task_enabled'' Src_UpdateOrchestrator
            (''Layer 3 could not restore scheduled task '' @ task_path @ '': '' @ err_text error) False w)"

text \<open>\<^verbatim>\<open>with_restore_state(&restore_state, ensure_reboot_task_disabled)\<close>\<close>

definition with_restore_state ::
    "os \<Rightarrow> (restore_state \<times> world, win_error, 'a) prog \<Rightarrow> (update_reboot_blocker \<times> world, win_error, 'a) prog" where
  "with_restore_state os action = (\<lambda>(b, w).
     if ub_restore_poisoned b then
       (Inl \<lparr>err_code = 0x80004005,
             err_text = r_text (os [] (Render (NewErrorText 0x80004005 ''Restore state lock poisoned'')))\<rparr>,
        (b, w))
     else let (r, (restore_state, w)) = action (ub_restore_state b, w)
          in (r, (b\<lparr>ub_restore_state := restore_state\<rparr>, w)))"

definition restore_state_snapshot :: "update_reboot_blocker \<Rightarrow> restore_state" where
  "restore_state_snapshot b =
     (if ub_restore_poisoned b then restore_state_default else ub_restore_state b)"

subsection \<open>The worker thread\<close>

definition set_update_phase ::
    "update_worker \<Rightarrow> worker_phase \<Rightarrow> update_reboot_blocker \<Rightarrow> update_reboot_blocker" where
  "set_update_phase k p b = b\<lparr>ub_worker := Some (k\<lparr>uw_phase := p\<rparr>)\<rparr>"

text \<open>Leaving \<^verbatim>\<open>run_worker\<close> with the COM guard in scope.\<close>

definition co_uninitialize :: "os \<Rightarrow> world \<Rightarrow> world" where
  "co_uninitialize os w = snd (call_unit os (Task CoUninitialize) w)"

text \<open>After the loop: drop the active guard, restore the task, log a clean stop.\<close>

definition update_finish ::
    "os \<Rightarrow> update_worker \<Rightarrow> bool \<Rightarrow> update_reboot_blocker \<times> world \<Rightarrow> update_reboot_blocker \<times> world" where
  "update_finish os k stopped_cleanly = (\<lambda>(b, w).
     let b = b\<lparr>ub_active_state := False\<rparr>;
         w = restore_task_if_needed os (restore_state_snapshot b) w;
         w = (if stopped_cleanly then
                log_event os ''update_monitoring_stopped'' Src_UpdateOrchestrator
                  (''Layer 3 stopped monitoring scheduled task '' @ task_path @ '' as Block mode ended.'') True w
              else w)
     in (set_update_phase k Finished b, co_uninitialize os w))"

definition update_worker_turn ::
    "os \<Rightarrow> update_reboot_blocker \<times> world \<Rightarrow> update_reboot_blocker \<times> world" where
  "update_worker_turn os = (\<lambda>(b, w).
     case ub_worker b of
       None \<Rightarrow> (b, w)
     | Some k \<Rightarrow>
         (case uw_phase k of
            Spawned \<Rightarrow>
              (case initialize_com_apartment os w of
                 (Inl error, w) \<Rightarrow>
                   (set_update_phase k Finished b,
                    log_event os ''update_monitoring_started'' Src_UpdateOrchestrator
                      (''Layer 3 could not initialize the COM apartment before monitoring '' @ task_path @
                       '': '' @ err_text error)
                      False w)
               | (Inr _, w) \<Rightarrow>
                   (case with_restore_state os (ensure_reboot_task_disabled os) (b, w) of
                      (Inr True, (b, w)) \<Rightarrow>
                        (set_update_phase k Polling (b\<lparr>ub_active_state := True\<rparr>),
                         log_event os ''update_monitoring_started'' Src_UpdateOrchestrator
                           (''Layer 3 started monitoring scheduled task '' @ task_path @ '' every '' @
                            show_nat recheck_interval_secs @ '' seconds while Block mode is active.'')
                           True w)
                    | (Inr False, (b, w)) \<Rightarrow> (set_update_phase k Finished b, co_uninitialize os w)
                    | (Inl error, (b, w)) \<Rightarrow>
                        (set_update_phase k Finished b,
                         co_uninitialize os
                           (log_event os ''update_monitoring_started'' Src_UpdateOrchestrator
                             (if is_task_access_denied_error os error
                              then ''Layer 3 could not access scheduled task '' @ task_path @ '': '' @ err_text error
                              else ''Layer 3 could not query scheduled task '' @ task_path @ '': '' @ err_text error)
                             False w))))
          | Polling \<Rightarrow>
              (if uw_stop_queued k then update_finish os k True (b, w)
               else case with_restore_state os (ensure_reboot_task_disabled os) (b, w) of
                 (Inr True, s) \<Rightarrow> s
               | (Inr False, s) \<Rightarrow> update_finish os k True s
               | (Inl error, (b, w)) \<Rightarrow>
                   update_finish os k False
                     (b, log_event os ''update_monitoring_stopped'' Src_UpdateOrchestrator
                        (if is_task_access_denied_error os error
                         then ''Layer 3 lost access to scheduled task '' @ task_path @ '': '' @ err_text error
                         else ''Layer 3 polling stopped after a Task Scheduler error for '' @ task_path @ '': '' @
                           err_text error)
                        False w))
          | Finished \<Rightarrow> (b, w)))"

subsection \<open>\<^verbatim>\<open>UpdateRebootBlocker\<close>\<close>

definition update_activate :: "os \<Rightarrow> (update_reboot_blocker \<times> world, string, unit) prog" where
  "update_activate os = (\<lambda>(b, w).
     if ub_worker b \<noteq> None then (Inr (), (b, w))
     else
       let b = (if ub_restore_poisoned b then b else b\<lparr>ub_restore_state := restore_state_default\<rparr>) in
       case is_process_elevated os w of
         (Inr False, w) \<Rightarrow>
           (Inr (), (b, log_event os ''update_monitoring_started'' Src_UpdateOrchestrator
              (''Layer 3 skipped scheduled task '' @ task_path @
               '' because administrator rights are required.'')
              False w))
       | (Inl error, w) \<Rightarrow>
           (Inr (), (b, log_event os ''update_monitoring_started'' Src_UpdateOrchestrator
              (''Layer 3 could not determine whether administrator rights are available before monitoring '' @
               task_path @ '': '' @ err_text error)
              False w))
       | (Inr True, w) \<Rightarrow>
           (case call_unit os (Thread (SpawnThread LAYER3_THREAD_NAME)) w of
              (Inr _, w) \<Rightarrow>
                (Inr (), (b\<lparr>ub_worker := Some \<lparr>uw_stop_queued = False, uw_phase = Spawned\<rparr>\<rparr>, w))
            | (Inl error, w) \<Rightarrow>
                (Inl (''Layer 3 could not start its polling thread: '' @ err_text error), (b, w))))"

definition update_begin_forced_shutdown_cleanup :: "update_reboot_blocker \<Rightarrow> update_reboot_blocker" where
  "update_begin_forced_shutdown_cleanup b =
     (case ub_worker b of
        None \<Rightarrow> b
      | Some k \<Rightarrow> b\<lparr>ub_active_state := False, ub_worker := Some (k\<lparr>uw_stop_queued := True\<rparr>)\<rparr>)"

definition update_deactivate ::
    "os \<Rightarrow> update_reboot_blocker \<times> world \<Rightarrow> update_reboot_blocker \<times> world" where
  "update_deactivate os = (\<lambda>(b, w).
     let b = update_begin_forced_shutdown_cleanup b in
     case ub_worker b of
       None \<Rightarrow> (b, w)
     | Some _ \<Rightarrow>
         let (b, w) = run_to_end (update_worker_turn os) (b, w);
             (joined, w) = call_unit os (Thread (JoinThread LAYER3_THREAD_NAME)) w;
             w = (if is_err joined then
                    log_event os ''update_monitoring_stopped'' Src_UpdateOrchestrator
                      ''Layer 3 worker thread panicked while stopping.'' False w
                  else w)
         in (b\<lparr>ub_worker := None\<rparr>, w))"

definition update_is_active :: "update_reboot_blocker \<Rightarrow> bool" where
  "update_is_active b = ub_active_state b"

fun update_event :: "os \<Rightarrow> layer_event \<Rightarrow> update_reboot_blocker \<times> world \<Rightarrow> update_reboot_blocker \<times> world" where
  "update_event os Ev_Activate s = snd (update_activate os s)"
| "update_event os Ev_Deactivate s = update_deactivate os s"
| "update_event os Ev_Forced_Cleanup (b, w) = (update_begin_forced_shutdown_cleanup b, w)"
| "update_event os Ev_Worker_Turn s = update_worker_turn os s"

subsection \<open>What the layer did to the machine, read off the history\<close>

text \<open>Depth of the COM apartment, attempts to enable the task, successful disables, and the
  state a task that started as \<open>e0\<close> is in after the successful writes.\<close>

fun com_depth :: "history \<Rightarrow> int" where
  "com_depth [] = 0"
| "com_depth ((c, r) # h) =
     (if c = Task CoInitializeEx \<and> r_err r = None then com_depth h + 1
      else if c = Task CoUninitialize then com_depth h - 1 else com_depth h)"

fun enables_tried :: "history \<Rightarrow> nat" where
  "enables_tried [] = 0"
| "enables_tried ((c, r) # h) =
     (case c of Task (TaskSetEnabled _ True) \<Rightarrow> Suc (enables_tried h) | _ \<Rightarrow> enables_tried h)"

fun disables_done :: "history \<Rightarrow> nat" where
  "disables_done [] = 0"
| "disables_done ((c, r) # h) =
     (case c of
        Task (TaskSetEnabled _ False) \<Rightarrow> (if r_err r = None then Suc (disables_done h) else disables_done h)
      | _ \<Rightarrow> disables_done h)"

fun task_enabled :: "bool \<Rightarrow> history \<Rightarrow> bool" where
  "task_enabled e0 [] = e0"
| "task_enabled e0 ((c, r) # h) =
     (case c of
        Task (TaskSetEnabled _ v) \<Rightarrow> (if r_err r = None then v else task_enabled e0 h)
      | _ \<Rightarrow> task_enabled e0 h)"

definition task_ledger :: "bool \<Rightarrow> world \<Rightarrow> int \<times> nat \<times> nat \<times> bool" where
  "task_ledger e0 w = (com_depth (trace w), enables_tried (trace w), disables_done (trace w),
     task_enabled e0 (trace w))"

fun ledger_call :: "sys_call \<Rightarrow> bool" where
  "ledger_call (Task CoInitializeEx) = True"
| "ledger_call (Task CoUninitialize) = True"
| "ledger_call (Task (TaskSetEnabled _ _)) = True"
| "ledger_call _ = False"

lemma task_ledger_other [simp]:
  "\<not> ledger_call c \<Longrightarrow> task_ledger e0 (snd (syscall os c w)) = task_ledger e0 w"
  by (cases c rule: ledger_call.cases) (simp_all add: task_ledger_def)

lemma task_ledger_log [simp]: "task_ledger e0 (log_event os e s a b w) = task_ledger e0 w"
  by (simp add: task_ledger_def)

lemma lookup_frame [simp, frame]:
  "task_ledger e0 (snd (lookup_reboot_task os w)) = task_ledger e0 w"
  "statics (snd (lookup_reboot_task os w)) = statics w"
  "shutdowns_aborted (trace (snd (lookup_reboot_task os w))) = shutdowns_aborted (trace w)"
  by (auto simp: lookup_reboot_task_def open_update_orchestrator_folder_def connect_task_service_def
      and_then_def call_eqs split: option.splits)

lemma task_is_enabled_frame [simp, frame]:
  "task_ledger e0 (snd (task_is_enabled os t w)) = task_ledger e0 w"
  "statics (snd (task_is_enabled os t w)) = statics w"
  "shutdowns_aborted (trace (snd (task_is_enabled os t w))) = shutdowns_aborted (trace w)"
  by (auto simp: task_is_enabled_def and_then_def call_eqs split: option.splits)

lemma elevated_ledger [simp, frame]: "task_ledger e0 (snd (is_process_elevated os w)) = task_ledger e0 w"
  by (auto simp: is_process_elevated_def with_guard_def and_then_def call_eqs Let_def
      handle_guard_drop_def split: option.splits)

text \<open>The three ways a check of the reboot task changes the ledger: not at all, or one more
  successful disable.\<close>

definition no_change :: "bool \<Rightarrow> world \<Rightarrow> world \<Rightarrow> bool" where
  "no_change e0 w w' \<longleftrightarrow> task_ledger e0 w' = task_ledger e0 w"

definition one_disable :: "bool \<Rightarrow> world \<Rightarrow> world \<Rightarrow> bool" where
  "one_disable e0 w w' \<longleftrightarrow>
     task_ledger e0 w' = (com_depth (trace w), enables_tried (trace w), Suc (disables_done (trace w)), False)"

lemma set_task_disabled_ledger:
  assumes "set_task_enabled os t False w = (r, w')"
  shows "(if is_ok r then one_disable e0 w w' else no_change e0 w w') \<and> statics w' = statics w \<and>
         shutdowns_aborted (trace w') = shutdowns_aborted (trace w)"
  using assms
  by (auto simp: set_task_enabled_def call_eqs one_disable_def no_change_def task_ledger_def
      split: option.splits)

text \<open>What a check of the task can do, one case per branch of
  \<^verbatim>\<open>ensure_reboot_task_disabled\<close>: the task cannot be found or read; it is found.\<close>

lemmas ensure_unfold = ensure_reboot_task_disabled_def and_then_def on_world_def Let_def

lemma ensure_unavailable:
  assumes "ensure_reboot_task_disabled os (rs, w) = (r, (rs', w'))"
    and "lookup_reboot_task os w = (l, w1)"
    and "\<And>t. l = Inr (Lookup_Task t) \<Longrightarrow> is_err (fst (task_is_enabled os t w1))"
  shows "r \<noteq> Inr True \<and> rs' = rs \<and> no_change e0 w w'"
proof -
  have w1: "no_change e0 w w1" using lookup_frame(1) [of e0 os w] assms(2) by (simp add: no_change_def)
  have read: "no_change e0 w (snd (task_is_enabled os t w1))" for t
    using w1 by (simp add: no_change_def)
  show ?thesis
  proof (cases l)
    case (Inl e)
    with assms(1,2) w1 show ?thesis by (auto simp: ensure_unfold)
  next
    case (Inr k)
    with assms w1 show ?thesis
    proof (cases k)
      case (Lookup_Task t)
      with assms Inr read [of t] show ?thesis
        by (cases "task_is_enabled os t w1"; cases "fst (task_is_enabled os t w1)") (auto simp: ensure_unfold)
    qed (auto simp: ensure_unfold no_change_def)
  qed
qed

lemma ensure_found:
  assumes run: "ensure_reboot_task_disabled os (rs, w) = (r, (rs', w'))"
    and l: "lookup_reboot_task os w = (Inr (Lookup_Task t), w1)"
    and e: "task_is_enabled os t w1 = (Inr v, w2)"
  shows "is_err r \<and> (rs' = rs \<or> rs' = rs\<lparr>rs_original_state_recorded := True\<rparr>) \<and> no_change e0 w w' \<or>
     r = Inr True \<and> \<not> v \<and> rs' = rs\<lparr>rs_original_state_recorded := True\<rparr> \<and> no_change e0 w w' \<or>
     r = Inr True \<and> v \<and> one_disable e0 w w' \<and>
       rs' = (if rs_original_state_recorded rs then rs
              else rs\<lparr>rs_original_state_recorded := True, rs_restore_enabled_on_exit := True\<rparr>)"
proof -
  have w2: "no_change e0 w w2"
    using lookup_frame(1) [of e0 os w] task_is_enabled_frame(1) [of e0 os t w1] l e by (simp add: no_change_def)
  obtain sr w3 where s: "set_task_enabled os t False w2 = (sr, w3)" by (cases "set_task_enabled os t False w2")
  have w3: "if is_ok sr then one_disable e0 w w3 else no_change e0 w w3"
    using set_task_disabled_ledger [OF s, of e0] w2
    by (cases sr) (simp_all add: one_disable_def no_change_def task_ledger_def)
  have same: "rs_original_state_recorded rs \<Longrightarrow> rs = rs\<lparr>rs_original_state_recorded := True\<rparr>" by simp
  show ?thesis
    using run l e s w2 w3 same
    by (cases v; cases sr; cases "rs_original_state_recorded rs")
      (auto simp: ensure_unfold no_change_def one_disable_def split: if_splits)
qed

lemma ensure_outcome:
  assumes "ensure_reboot_task_disabled os (rs, w) = (r, (rs', w'))"
  obtains (failed) "r \<noteq> Inr True" "rs_restore_enabled_on_exit rs' = rs_restore_enabled_on_exit rs"
      "no_change e0 w w'"
  | (monitor) "r = Inr True" "rs' = rs\<lparr>rs_original_state_recorded := True\<rparr>" "no_change e0 w w'"
  | (disabled) "r = Inr True" "one_disable e0 w w'"
      "rs' = (if rs_original_state_recorded rs then rs
              else rs\<lparr>rs_original_state_recorded := True, rs_restore_enabled_on_exit := True\<rparr>)"
proof -
  obtain l w1 where l: "lookup_reboot_task os w = (l, w1)" by (cases "lookup_reboot_task os w")
  show thesis
  proof (cases "\<exists>t v w2. l = Inr (Lookup_Task t) \<and> task_is_enabled os t w1 = (Inr v, w2)")
    case True
    then obtain t v w2 where f: "lookup_reboot_task os w = (Inr (Lookup_Task t), w1)"
      "task_is_enabled os t w1 = (Inr v, w2)" using l by blast
    from ensure_found [OF assms f, of e0] that show thesis by fastforce
  next
    case False
    then have "l = Inr (Lookup_Task t) \<Longrightarrow> is_err (fst (task_is_enabled os t w1))" for t
      by (cases "task_is_enabled os t w1"; cases "fst (task_is_enabled os t w1)") auto
    from ensure_unavailable [OF assms l this, of e0] that(1) show thesis by simp
  qed
qed

lemma ensure_statics:
  "statics (snd (snd (ensure_reboot_task_disabled os (rs, w)))) = statics w"
  "shutdowns_aborted (trace (snd (snd (ensure_reboot_task_disabled os (rs, w))))) = shutdowns_aborted (trace w)"
proof -
  obtain l w1 where l: "lookup_reboot_task os w = (l, w1)" by (cases "lookup_reboot_task os w")
  have t1: "statics w1 = statics w" "shutdowns_aborted (trace w1) = shutdowns_aborted (trace w)"
    using lookup_frame(2,3) [of os w] l by simp_all
  have t2: "statics w2 = statics w \<and> shutdowns_aborted (trace w2) = shutdowns_aborted (trace w)"
    if "task_is_enabled os t w1 = (v, w2)" for t v w2
    using task_is_enabled_frame(2,3) [of os t w1] that t1 by simp
  have t3: "statics w3 = statics w \<and> shutdowns_aborted (trace w3) = shutdowns_aborted (trace w)"
    if "task_is_enabled os t w1 = (v, w2)" "set_task_enabled os t False w2 = (x, w3)" for t v w2 x w3
    using t2 [OF that(1)] set_task_disabled_ledger [OF that(2)] by simp
  have "statics (snd (snd (ensure_reboot_task_disabled os (rs, w)))) = statics w \<and>
      shutdowns_aborted (trace (snd (snd (ensure_reboot_task_disabled os (rs, w))))) = shutdowns_aborted (trace w)"
    using l t1
    by (auto simp: ensure_unfold split: sum.splits reboot_task_lookup.splits prod.splits dest: t2 t3)
  then show "statics (snd (snd (ensure_reboot_task_disabled os (rs, w)))) = statics w"
    "shutdowns_aborted (trace (snd (snd (ensure_reboot_task_disabled os (rs, w))))) = shutdowns_aborted (trace w)"
    by simp_all
qed

subsection \<open>Restoring\<close>

lemma restore_frame:
  "com_depth (trace (restore_task_if_needed os rs w)) = com_depth (trace w)"
  "disables_done (trace (restore_task_if_needed os rs w)) = disables_done (trace w)"
  "enables_tried (trace (restore_task_if_needed os rs w)) \<le>
     enables_tried (trace w) + of_bool (rs_restore_enabled_on_exit rs)"
  "statics (restore_task_if_needed os rs w) = statics w"
  "shutdowns_aborted (trace (restore_task_if_needed os rs w)) = shutdowns_aborted (trace w)"
proof -
  obtain l w1 where l: "lookup_reboot_task os w = (l, w1)" by (cases "lookup_reboot_task os w")
  note f1 = lookup_frame(1) [of True os w, unfolded l snd_conv] lookup_frame(2,3) [of os w, unfolded l snd_conv]
  have f2: "task_ledger True w2 = task_ledger True w1" "statics w2 = statics w1"
    "shutdowns_aborted (trace w2) = shutdowns_aborted (trace w1)"
    if "task_is_enabled os t w1 = (v, w2)" for t v w2
    using task_is_enabled_frame(1) [of True os t w1] task_is_enabled_frame(2,3) [of os t w1] that by simp_all
  have "com_depth (trace (restore_task_if_needed os rs w)) = com_depth (trace w) \<and>
      disables_done (trace (restore_task_if_needed os rs w)) = disables_done (trace w) \<and>
      enables_tried (trace (restore_task_if_needed os rs w)) \<le>
        enables_tried (trace w) + of_bool (rs_restore_enabled_on_exit rs) \<and>
      statics (restore_task_if_needed os rs w) = statics w \<and>
      shutdowns_aborted (trace (restore_task_if_needed os rs w)) = shutdowns_aborted (trace w)"
    using l f1
    by (auto simp: restore_task_if_needed_def set_task_enabled_def call_eqs task_ledger_def
        split: sum.splits reboot_task_lookup.splits prod.splits bool.splits option.splits
        dest: f2 [unfolded task_ledger_def])
  then show "com_depth (trace (restore_task_if_needed os rs w)) = com_depth (trace w)"
    "disables_done (trace (restore_task_if_needed os rs w)) = disables_done (trace w)"
    "enables_tried (trace (restore_task_if_needed os rs w)) \<le>
      enables_tried (trace w) + of_bool (rs_restore_enabled_on_exit rs)"
    "statics (restore_task_if_needed os rs w) = statics w"
    "shutdowns_aborted (trace (restore_task_if_needed os rs w)) = shutdowns_aborted (trace w)"
    by simp_all
qed

lemma with_restore_outcome:
  assumes "with_restore_state os (ensure_reboot_task_disabled os) (b, w) = (r, (b', w'))"
  obtains (failed) rs' where "r \<noteq> Inr True" "b' = b\<lparr>ub_restore_state := rs'\<rparr>"
      "rs_restore_enabled_on_exit rs' = rs_restore_enabled_on_exit (ub_restore_state b)" "no_change e0 w w'"
  | (monitor) "r = Inr True" "\<not> ub_restore_poisoned b" "no_change e0 w w'"
      "b' = b\<lparr>ub_restore_state := (ub_restore_state b)\<lparr>rs_original_state_recorded := True\<rparr>\<rparr>"
  | (disabled) "r = Inr True" "\<not> ub_restore_poisoned b" "one_disable e0 w w'"
      "b' = b\<lparr>ub_restore_state := (if rs_original_state_recorded (ub_restore_state b) then ub_restore_state b
         else (ub_restore_state b)\<lparr>rs_original_state_recorded := True, rs_restore_enabled_on_exit := True\<rparr>)\<rparr>"
proof (cases "ub_restore_poisoned b")
  case True
  with assms have "is_err r" "b' = b" "w' = w" by (auto simp: with_restore_state_def)
  then show thesis using that(1) [of "ub_restore_state b"] by (cases r) (simp_all add: no_change_def)
next
  case False
  then obtain rs' where e: "ensure_reboot_task_disabled os (ub_restore_state b, w) = (r, (rs', w'))"
      "b' = b\<lparr>ub_restore_state := rs'\<rparr>"
    using assms by (auto simp: with_restore_state_def split: prod.splits)
  from e(1) show thesis
    by (cases rule: ensure_outcome [where ?e0.0 = e0]) (use False e(2) that in blast)+
qed

lemma with_restore_statics:
  assumes "with_restore_state os (ensure_reboot_task_disabled os) (b, w) = (r, (b', w'))"
  shows "statics w' = statics w \<and> shutdowns_aborted (trace w') = shutdowns_aborted (trace w)"
  using assms ensure_statics [of os "ub_restore_state b" w]
  by (auto simp: with_restore_state_def split: prod.splits if_splits)

subsection \<open>Invariants\<close>

definition update_phase :: "update_reboot_blocker \<times> world \<Rightarrow> worker_phase" where
  "update_phase s = (case ub_worker (fst s) of None \<Rightarrow> Finished | Some k \<Rightarrow> uw_phase k)"

definition update_stopping :: "update_reboot_blocker \<times> world \<Rightarrow> bool" where
  "update_stopping s = (case ub_worker (fst s) of None \<Rightarrow> True | Some k \<Rightarrow> uw_stop_queued k)"

definition restore_flag :: "update_reboot_blocker \<Rightarrow> bool" where
  "restore_flag b = rs_restore_enabled_on_exit (restore_state_snapshot b)"

text \<open>The active flag belongs to a worker in its loop; a worker that has not run yet starts
  from the reset restore state.\<close>

definition update_inv :: "update_reboot_blocker \<Rightarrow> bool" where
  "update_inv b \<longleftrightarrow>
     (ub_active_state b \<longrightarrow> (\<exists>k. ub_worker b = Some k \<and> uw_phase k = Polling)) \<and>
     (\<forall>k. ub_worker b = Some k \<longrightarrow> uw_phase k = Spawned \<longrightarrow>
        ub_restore_poisoned b \<or> ub_restore_state b = restore_state_default)"

definition update_idle :: "update_reboot_blocker \<Rightarrow> bool" where
  "update_idle b \<longleftrightarrow> ub_worker b = None"

text \<open>Relative to the start \<open>w0\<close>: the COM apartment is held exactly by a worker in its loop,
  and there is a successful disable of its own for every enable, tried or still owed.\<close>

definition update_balanced :: "world \<Rightarrow> update_reboot_blocker \<times> world \<Rightarrow> bool" where
  "update_balanced w0 s \<longleftrightarrow>
     com_depth (trace (snd s)) = com_depth (trace w0) + of_bool (update_phase s = Polling) \<and>
     enables_tried (trace (snd s)) + of_bool (update_phase s = Polling \<and> restore_flag (fst s)) +
       disables_done (trace w0) \<le> disables_done (trace (snd s)) + enables_tried (trace w0)"

lemma restore_flag_simps [simp]:
  "restore_flag (b\<lparr>ub_active_state := x\<rparr>) = restore_flag b"
  "restore_flag (b\<lparr>ub_worker := y\<rparr>) = restore_flag b"
  "restore_flag (set_update_phase k p b) = restore_flag b"
  by (simp_all add: restore_flag_def restore_state_snapshot_def set_update_phase_def)

lemma snapshot_simps [simp]: "restore_state_snapshot (b\<lparr>ub_active_state := x\<rparr>) = restore_state_snapshot b"
  by (simp add: restore_state_snapshot_def)

lemma update_phase_simps [simp]:
  "update_phase (set_update_phase k p b, w) = p"
  "ub_worker b = Some k \<Longrightarrow> update_phase (b, w) = uw_phase k"
  "ub_worker b = None \<Longrightarrow> update_phase (b, w) = Finished"
  by (simp_all add: update_phase_def set_update_phase_def)

lemma co_uninitialize_frame [simp]:
  "com_depth (trace (co_uninitialize os w)) = com_depth (trace w) - 1"
  "enables_tried (trace (co_uninitialize os w)) = enables_tried (trace w)"
  "disables_done (trace (co_uninitialize os w)) = disables_done (trace w)"
  "task_enabled e0 (trace (co_uninitialize os w)) = task_enabled e0 (trace w)"
  "statics (co_uninitialize os w) = statics w"
  "shutdowns_aborted (trace (co_uninitialize os w)) = shutdowns_aborted (trace w)"
  by (simp_all add: co_uninitialize_def)

lemma update_finish_outcome:
  assumes "update_finish os k c (b, w) = (b', w')"
  shows "b' = set_update_phase k Finished (b\<lparr>ub_active_state := False\<rparr>) \<and>
     com_depth (trace w') = com_depth (trace w) - 1 \<and> disables_done (trace w') = disables_done (trace w) \<and>
     enables_tried (trace w') \<le> enables_tried (trace w) + of_bool (restore_flag b) \<and>
     statics w' = statics w \<and> shutdowns_aborted (trace w') = shutdowns_aborted (trace w)"
  using assms restore_frame [of os "restore_state_snapshot b" w]
  by (auto simp: update_finish_def Let_def restore_flag_def)

subsection \<open>Turns of the worker\<close>

definition update_turn_ok ::
    "world \<Rightarrow> update_reboot_blocker \<times> world \<Rightarrow> update_reboot_blocker \<times> world \<Rightarrow> bool" where
  "update_turn_ok w0 s s' \<longleftrightarrow>
     update_inv (fst s') \<and> (update_balanced w0 s \<longrightarrow> update_balanced w0 s') \<and>
     statics (snd s') = statics (snd s) \<and>
     shutdowns_aborted (trace (snd s')) = shutdowns_aborted (trace (snd s))"

lemma ledger_parts:
  "no_change e0 w w' \<Longrightarrow> com_depth (trace w') = com_depth (trace w) \<and>
     enables_tried (trace w') = enables_tried (trace w) \<and> disables_done (trace w') = disables_done (trace w) \<and>
     task_enabled e0 (trace w') = task_enabled e0 (trace w)"
  "one_disable e0 w w' \<Longrightarrow> com_depth (trace w') = com_depth (trace w) \<and>
     enables_tried (trace w') = enables_tried (trace w) \<and>
     disables_done (trace w') = Suc (disables_done (trace w)) \<and> \<not> task_enabled e0 (trace w')"
  by (simp_all add: no_change_def one_disable_def task_ledger_def)

lemma update_inv_finished:
  "update_inv (set_update_phase k Finished (b\<lparr>ub_active_state := False\<rparr>))"
  "\<not> ub_active_state b \<Longrightarrow> update_inv (set_update_phase k Finished b)"
  "update_inv (set_update_phase k Polling b)"
  by (simp_all add: update_inv_def set_update_phase_def)

lemma com_init_history:
  assumes "initialize_com_apartment os w = (r, w')"
  shows "com_depth (trace w') = com_depth (trace w) + of_bool (is_ok r) \<and>
     enables_tried (trace w') = enables_tried (trace w) \<and> disables_done (trace w') = disables_done (trace w) \<and>
     task_enabled e0 (trace w') = task_enabled e0 (trace w) \<and>
     statics w' = statics w \<and> shutdowns_aborted (trace w') = shutdowns_aborted (trace w)"
  using assms by (auto simp: initialize_com_apartment_def call_eqs split: option.splits)

lemma update_spawned_turn:
  assumes inv: "update_inv b" and k: "ub_worker b = Some k" "uw_phase k = Spawned"
  shows "update_turn_ok w0 (b, w) (update_worker_turn os (b, w))"
proof -
  have off: "\<not> ub_active_state b" and flag: "\<not> restore_flag b"
    using inv k by (auto simp: update_inv_def restore_flag_def restore_state_snapshot_def
        restore_state_default_def)
  obtain ci w1 where c: "initialize_com_apartment os w = (ci, w1)" by (cases "initialize_com_apartment os w")
  note c' = com_init_history [OF c, of True]
  show ?thesis
  proof (cases ci)
    case (Inl e)
    with c c' off k show ?thesis
      by (simp add: update_turn_ok_def update_worker_turn_def update_inv_finished update_balanced_def)
  next
    case (Inr u)
    obtain r b1 w2 where r: "with_restore_state os (ensure_reboot_task_disabled os) (b, w1) = (r, (b1, w2))"
      by (metis surj_pair)
    note st = with_restore_statics [OF r]
    from r show ?thesis
    proof (cases rule: with_restore_outcome [where ?e0.0 = True])
      case (failed rs')
      then have "\<not> ub_active_state b1" using off by simp
      with failed(1,4) Inr c c' k r st show ?thesis
        by (cases r; cases "r = Inr False")
          (auto simp: update_turn_ok_def update_worker_turn_def update_inv_finished update_balanced_def
            dest: ledger_parts)
    next
      case monitor
      then have "restore_flag b1 = restore_flag b"
        by (simp add: restore_flag_def restore_state_snapshot_def)
      with monitor(1,3) Inr c c' k r st flag show ?thesis
        by (auto simp: update_turn_ok_def update_worker_turn_def update_inv_finished update_balanced_def
            dest: ledger_parts)
    next
      case disabled
      with Inr c c' k r st show ?thesis
        by (auto simp: update_turn_ok_def update_worker_turn_def update_inv_finished update_balanced_def
            dest: ledger_parts)
    qed
  qed
qed

lemma update_finish_turn:
  assumes k: "ub_worker b = Some k'" "uw_phase k' = Polling"
    and f: "update_finish os k c (b1, w1) = s'" and b1: "restore_flag b1 = restore_flag b"
    and w1: "no_change e0 w w1" "statics w1 = statics w"
      "shutdowns_aborted (trace w1) = shutdowns_aborted (trace w)"
  shows "update_turn_ok w0 (b, w) s'"
proof -
  obtain b' w' where s': "s' = (b', w')" by (cases s')
  note out = update_finish_outcome [OF f [unfolded s']]
  have "update_balanced w0 (b', w')" if "update_balanced w0 (b, w)"
    using out that k b1 ledger_parts(1) [OF w1(1)] by (simp add: update_balanced_def)
  with out w1 s' show ?thesis by (simp add: update_turn_ok_def update_inv_finished)
qed

lemma update_polling_turn:
  assumes inv: "update_inv b" and k: "ub_worker b = Some k" "uw_phase k = Polling"
  shows "update_turn_ok w0 (b, w) (update_worker_turn os (b, w))"
proof (cases "uw_stop_queued k")
  case True
  then have "update_worker_turn os (b, w) = update_finish os k True (b, w)"
    using k by (simp add: update_worker_turn_def)
  then show ?thesis using update_finish_turn [OF k, of os k True b w _ True w] by (simp add: no_change_def)
next
  case False
  obtain r b1 w1 where r: "with_restore_state os (ensure_reboot_task_disabled os) (b, w) = (r, (b1, w1))"
    by (metis surj_pair)
  note st = with_restore_statics [OF r]
  have turn: "update_worker_turn os (b, w) = (case r of Inr True \<Rightarrow> (b1, w1)
      | Inr False \<Rightarrow> update_finish os k True (b1, w1)
      | Inl error \<Rightarrow> update_finish os k False
          (b1, log_event os ''update_monitoring_stopped'' Src_UpdateOrchestrator
            (if is_task_access_denied_error os error
             then ''Layer 3 lost access to scheduled task '' @ task_path @ '': '' @ err_text error
             else ''Layer 3 polling stopped after a Task Scheduler error for '' @ task_path @ '': '' @
               err_text error) False w1))"
    using False k r by (simp add: update_worker_turn_def split: sum.split bool.split)
  from r show ?thesis
  proof (cases rule: with_restore_outcome [where ?e0.0 = True])
    case (failed rs')
    have flag: "restore_flag b1 = restore_flag b"
      using failed(2,3) by (simp add: restore_flag_def restore_state_snapshot_def)
    have "update_turn_ok w0 (b, w) (update_finish os k c (b1, w2))"
      if "no_change True w w2 \<and> statics w2 = statics w \<and> shutdowns_aborted (trace w2) = shutdowns_aborted (trace w)"
      for c w2
      by (rule update_finish_turn [OF k refl flag]) (use that in blast)+
    with failed(1,4) st turn show ?thesis
      by (cases r) (auto simp: no_change_def split: bool.splits)
  next
    case monitor
    then have "restore_flag b1 = restore_flag b" "ub_worker b1 = ub_worker b" "update_inv b1"
      using inv k by (simp_all add: restore_flag_def restore_state_snapshot_def update_inv_def)
    with monitor(1,3) turn st k show ?thesis
      by (auto simp: update_turn_ok_def update_balanced_def dest: ledger_parts)
  next
    case disabled
    then have "ub_worker b1 = ub_worker b" "update_inv b1" "restore_flag b \<longrightarrow> restore_flag b1"
      using inv k by (simp_all add: restore_flag_def restore_state_snapshot_def update_inv_def)
    with disabled(1,3) turn st k show ?thesis
      by (auto simp: update_turn_ok_def update_balanced_def dest: ledger_parts)
  qed
qed

lemma update_turn_keeps:
  assumes "update_inv b"
  shows "update_turn_ok w0 (b, w) (update_worker_turn os (b, w))"
proof (cases "ub_worker b")
  case None
  with assms show ?thesis by (simp add: update_turn_ok_def update_worker_turn_def)
next
  case (Some k)
  show ?thesis
  proof (cases "uw_phase k")
    case Spawned
    with assms Some show ?thesis by (rule update_spawned_turn)
  next
    case Polling
    with assms Some show ?thesis by (rule update_polling_turn)
  next
    case Finished
    with assms Some show ?thesis by (simp add: update_turn_ok_def update_worker_turn_def)
  qed
qed

subsection \<open>Joining, and the layer's contract\<close>

lemma with_restore_worker:
  assumes "with_restore_state os (ensure_reboot_task_disabled os) (b, w) = (r, (b', w'))"
  shows "ub_worker b' = ub_worker b"
  using assms by (cases rule: with_restore_outcome [where ?e0.0 = True]) simp_all

lemma update_turn_thread:
  assumes "ub_worker b = Some k" and "update_worker_turn os (b, w) = (b', w')"
  shows "\<exists>p. ub_worker b' = Some (k\<lparr>uw_phase := p\<rparr>) \<and>
     (uw_phase k = Spawned \<longrightarrow> p \<noteq> Spawned) \<and> (uw_phase k = Polling \<longrightarrow> uw_stop_queued k \<longrightarrow> p = Finished)"
proof -
  have same: "\<exists>p. k = k\<lparr>uw_phase := p\<rparr>" by (rule exI [of _ "uw_phase k"]) simp
  obtain ci w1 where c: "initialize_com_apartment os w = (ci, w1)" by (cases "initialize_com_apartment os w")
  obtain r b1 w2 where r: "with_restore_state os (ensure_reboot_task_disabled os) (b, w1) = (r, (b1, w2))"
    by (metis surj_pair)
  obtain r' b1' w2' where r': "with_restore_state os (ensure_reboot_task_disabled os) (b, w) = (r', (b1', w2'))"
    by (metis surj_pair)
  note workers = with_restore_worker [OF r] with_restore_worker [OF r']
  show ?thesis
  proof (cases "uw_phase k")
    case Spawned
    then show ?thesis using assms c r
      by (cases ci) (auto simp: update_worker_turn_def set_update_phase_def split: sum.splits bool.splits)
  next
    case Polling
    then show ?thesis using assms r' workers same
      by (cases r') (auto simp: update_worker_turn_def update_finish_def set_update_phase_def Let_def
          split: bool.splits if_splits)
  next
    case Finished
    then show ?thesis using assms by (auto simp: update_worker_turn_def intro: exI [of _ Finished])
  qed
qed

interpretation update_thread: stoppable_worker "update_worker_turn os" update_phase update_stopping
proof
  fix t :: "update_reboot_blocker \<times> world"
  obtain b w where t: "t = (b, w)" by (cases t)
  obtain b' w' where t': "update_worker_turn os (b, w) = (b', w')" by (cases "update_worker_turn os (b, w)")
  have none: "ub_worker b = None \<Longrightarrow> update_worker_turn os (b, w) = (b, w)"
    by (simp add: update_worker_turn_def)
  note turn = update_turn_thread [OF _ t']
  show "update_stopping t \<Longrightarrow> update_stopping (update_worker_turn os t)"
    using none turn t t' by (cases "ub_worker b") (force simp: update_stopping_def)+
  show "update_phase t = Spawned \<Longrightarrow> update_phase (update_worker_turn os t) \<noteq> Spawned"
    using turn t t' by (cases "ub_worker b") (force simp: update_phase_def)+
  show "update_phase t = Polling \<Longrightarrow> update_stopping t \<Longrightarrow> update_phase (update_worker_turn os t) = Finished"
    using turn t t' by (cases "ub_worker b") (force simp: update_phase_def update_stopping_def)+
  show "update_phase t = Finished \<Longrightarrow> update_worker_turn os t = t"
    using none t by (cases "ub_worker b") (simp_all add: update_phase_def update_worker_turn_def)
qed

lemma update_forced_stops: "update_stopping (update_begin_forced_shutdown_cleanup b, w)"
  by (simp add: update_begin_forced_shutdown_cleanup_def update_stopping_def split: option.split)

lemma update_forced_keeps:
  "update_inv b \<Longrightarrow> update_inv (update_begin_forced_shutdown_cleanup b)"
  "update_balanced w0 (update_begin_forced_shutdown_cleanup b, w) = update_balanced w0 (b, w)"
  by (auto simp: update_begin_forced_shutdown_cleanup_def update_inv_def update_balanced_def
      update_phase_def split: option.split)

lemma update_turn_ok_trans:
  "update_turn_ok w0 s s' \<Longrightarrow> update_turn_ok w0 s' s'' \<Longrightarrow> update_turn_ok w0 s s''"
  by (simp add: update_turn_ok_def)

lemma update_turn_ok_quiet:
  assumes "update_inv b'" and "update_phase (b, w) \<noteq> Polling" and "update_phase (b', w') \<noteq> Polling"
    and "task_ledger True w' = task_ledger True w" and "statics w' = statics w"
    and "shutdowns_aborted (trace w') = shutdowns_aborted (trace w)"
  shows "update_turn_ok w0 (b, w) (b', w')"
  using assms by (simp add: update_turn_ok_def update_balanced_def task_ledger_def)

lemma update_join_ok:
  assumes "update_inv b"
  shows "update_turn_ok w0 (b, w) (run_to_end (update_worker_turn os) (b, w))"
proof -
  obtain b1 w1 where t: "update_worker_turn os (b, w) = (b1, w1)" by (cases "update_worker_turn os (b, w)")
  from update_turn_keeps [OF assms, of w0 w os] t have ok: "update_turn_ok w0 (b, w) (b1, w1)" by simp
  then have "update_turn_ok w0 (b1, w1) (update_worker_turn os (b1, w1))"
    by (intro update_turn_keeps) (simp add: update_turn_ok_def)
  with ok t show ?thesis by (simp add: run_to_end_def update_turn_ok_trans)
qed

lemma update_deactivate_outcome:
  assumes "update_inv b"
  shows "update_idle (fst (update_deactivate os (b, w))) \<and> update_turn_ok w0 (b, w) (update_deactivate os (b, w))"
proof (cases "ub_worker b")
  case None
  with assms show ?thesis
    by (simp add: update_deactivate_def update_begin_forced_shutdown_cleanup_def update_idle_def update_turn_ok_def)
next
  case (Some k)
  let ?b = "update_begin_forced_shutdown_cleanup b"
  obtain b1 w1 where j: "run_to_end (update_worker_turn os) (?b, w) = (b1, w1)"
    by (cases "run_to_end (update_worker_turn os) (?b, w)")
  have worker: "ub_worker ?b \<noteq> None" using Some by (simp add: update_begin_forced_shutdown_cleanup_def)
  have fin: "update_phase (b1, w1) = Finished"
    using update_thread.run_to_end_finished [OF update_forced_stops [of b w], of os] j by simp
  have ok: "update_turn_ok w0 (b, w) (b1, w1)"
    using update_join_ok [OF update_forced_keeps(1) [OF assms], of w0 w os] j
    by (simp add: update_turn_ok_def update_forced_keeps(2))
  have "\<not> ub_active_state b1"
    using ok fin by (auto simp: update_turn_ok_def update_inv_def)
  moreover obtain w3 where d: "update_deactivate os (b, w) = (b1\<lparr>ub_worker := None\<rparr>, w3)"
      "task_ledger True w3 = task_ledger True w1" "statics w3 = statics w1"
      "shutdowns_aborted (trace w3) = shutdowns_aborted (trace w1)"
    using worker j by (auto simp: update_deactivate_def Let_def call_unit_cases)
  ultimately have "update_turn_ok w0 (b1, w1) (update_deactivate os (b, w))"
    using fin unfolding d(1) by (intro update_turn_ok_quiet d(2-4)) (simp_all add: update_inv_def)
  then show ?thesis using update_turn_ok_trans [OF ok] d(1) by (simp add: update_idle_def)
qed

lemma update_activate_outcome:
  assumes "update_inv b"
  shows "update_turn_ok w0 (b, w) (snd (update_activate os (b, w)))"
proof (cases "ub_worker b")
  case (Some k)
  with assms show ?thesis by (simp add: update_activate_def update_turn_ok_def)
next
  case None
  then have off: "\<not> ub_active_state b" using assms by (simp add: update_inv_def)
  obtain e w1 where e: "is_process_elevated os w = (e, w1)" by (cases "is_process_elevated os w")
  have w1: "task_ledger True w1 = task_ledger True w" "statics w1 = statics w"
    "shutdowns_aborted (trace w1) = shutdowns_aborted (trace w)"
    using e elevated_ledger [of True os w] is_process_elevated_frame(1,2) [of os w] by simp_all
  obtain b' w' where a: "snd (update_activate os (b, w)) = (b', w')" by (cases "snd (update_activate os (b, w))")
  have "task_ledger True w' = task_ledger True w1 \<and> statics w' = statics w1 \<and>
      shutdowns_aborted (trace w') = shutdowns_aborted (trace w1)"
    using None e a
    by (cases e) (auto simp: update_activate_def call_eqs Let_def split: bool.splits option.splits)
  moreover have "update_inv b' \<and> update_phase (b', w') \<noteq> Polling"
    using None e a off
    by (cases "ub_restore_poisoned b"; cases e)
      (auto simp: update_activate_def update_inv_def update_phase_def call_eqs Let_def
        split: bool.splits option.splits)
  ultimately show ?thesis
    using None w1 unfolding a by (intro update_turn_ok_quiet) simp_all
qed

lemma update_idle_inactive: "update_inv b \<Longrightarrow> update_idle b \<Longrightarrow> \<not> update_is_active b"
  by (simp add: update_inv_def update_idle_def update_is_active_def)

interpretation update_layer: protection_layer "update_activate os" "update_deactivate os"
    update_is_active update_inv update_idle
proof
  fix b w
  assume inv: "update_inv b"
  note a = update_activate_outcome [OF inv, of w w os] and d = update_deactivate_outcome [OF inv, of os w w]
  from a show "update_inv (fst (snd (update_activate os (b, w))))" by (simp add: update_turn_ok_def)
  from d show "update_inv (fst (update_deactivate os (b, w)))" by (simp add: update_turn_ok_def)
  from d show "update_idle (fst (update_deactivate os (b, w)))" by simp
  show "control (snd (snd (update_activate os (b, w)))) = control w"
    using a by (intro statics_control) (simp add: update_turn_ok_def)
  show "control (snd (update_deactivate os (b, w))) = control w"
    using d by (intro statics_control) (simp add: update_turn_ok_def)
qed (rule update_idle_inactive)

lemma update_event_keeps:
  assumes "update_inv b"
  shows "update_turn_ok w0 (b, w) (update_event os e (b, w))"
proof (cases e)
  case Ev_Activate
  then show ?thesis using update_activate_outcome [OF assms] by simp
next
  case Ev_Deactivate
  then show ?thesis using update_deactivate_outcome [OF assms] by simp
next
  case Ev_Forced_Cleanup
  then show ?thesis using update_forced_keeps(1) [OF assms] by (simp add: update_turn_ok_def update_forced_keeps(2))
next
  case Ev_Worker_Turn
  then show ?thesis using update_turn_keeps [OF assms] by simp
qed

lemma update_events_keep:
  "update_inv b \<Longrightarrow> update_turn_ok w0 (b, w) (fold (update_event os) es (b, w))"
proof (induction es arbitrary: b w)
  case (Cons e es)
  obtain b1 w1 where e: "update_event os e (b, w) = (b1, w1)" by (cases "update_event os e (b, w)")
  with update_event_keeps [OF Cons.prems, of w0 w os e] have ok: "update_turn_ok w0 (b, w) (b1, w1)" by simp
  with Cons.IH [of b1 w1] e show ?case by (auto intro: update_turn_ok_trans simp: update_turn_ok_def)
qed (simp add: update_turn_ok_def)

lemma update_default_inv [simp]: "update_inv update_default" "update_balanced w (update_default, w)"
  by (simp_all add: update_inv_def update_default_def update_balanced_def update_phase_def)

text \<open>C9. Layer 3 under every interleaving of the main thread's calls with the worker's
  turns, whatever Windows answers: it reports active only while its worker is in the
  monitoring loop; the COM apartment is held exactly by a worker in that loop; a deactivation
  joins the worker, leaves the layer inactive with no worker and the COM apartment left as
  often as entered; and over the whole run the layer never tries to enable the reboot task
  more often than it had itself disabled it.\<close>

theorem update_layer_sound:
  assumes "fold (update_event os) es (update_default, w) = (b, w')"
    and "update_deactivate os (b, w') = (b'', w'')"
  shows "(update_is_active b \<longrightarrow> update_phase (b, w') = Polling) \<and>
         com_depth (trace w') = com_depth (trace w) + (if update_phase (b, w') = Polling then 1 else 0) \<and>
         ub_worker b'' = None \<and> \<not> update_is_active b'' \<and> com_depth (trace w'') = com_depth (trace w) \<and>
         enables_tried (trace w'') + disables_done (trace w) \<le> disables_done (trace w'') + enables_tried (trace w)"
proof -
  have ok: "update_turn_ok w (update_default, w) (b, w')"
    using update_events_keep [OF update_default_inv(1), of w w os es] assms(1) by simp
  then have inv: "update_inv b" "update_balanced w (b, w')" by (simp_all add: update_turn_ok_def)
  have d: "update_idle b''" "update_inv b''" "update_balanced w (b'', w'')"
    using update_deactivate_outcome [OF inv(1), of os w' w] assms(2) inv(2) by (simp_all add: update_turn_ok_def)
  show ?thesis
    using inv d update_idle_inactive [OF d(2,1)]
    by (auto simp: update_inv_def update_balanced_def update_idle_def update_is_active_def)
qed

subsection \<open>A truthful scheduler\<close>

text \<open>No Task Scheduler call fails, and reading the task's state gives what the writes made
  of the initial state \<open>e0\<close> (nobody else changes it).\<close>

definition truthful_scheduler :: "bool \<Rightarrow> os \<Rightarrow> bool" where
  "truthful_scheduler e0 os \<longleftrightarrow>
     (\<forall>h c. r_err (os h (Task c)) = None) \<and>
     (\<forall>h t. (r_num (os h (Task (TaskGetEnabled t))) \<noteq> 0) = task_enabled e0 h)"

definition update_truth :: "bool \<Rightarrow> update_reboot_blocker \<times> world \<Rightarrow> bool" where
  "update_truth e0 s \<longleftrightarrow>
     (if update_phase s = Polling then
        \<not> ub_restore_poisoned (fst s) \<and> rs_original_state_recorded (ub_restore_state (fst s)) \<and>
        rs_restore_enabled_on_exit (ub_restore_state (fst s)) = e0 \<and> \<not> task_enabled e0 (trace (snd s))
      else task_enabled e0 (trace (snd s)) = e0)"

lemma truthful_lookup:
  assumes "truthful_scheduler e0 os"
  obtains t w1 where "lookup_reboot_task os w = (Inr (Lookup_Task t), w1)" "task_ledger e0 w1 = task_ledger e0 w"
proof -
  have "\<exists>t w1. lookup_reboot_task os w = (Inr (Lookup_Task t), w1)"
    using assms by (simp add: truthful_scheduler_def lookup_reboot_task_def open_update_orchestrator_folder_def
        connect_task_service_def and_then_def call_eqs)
  then obtain t w1 where l: "lookup_reboot_task os w = (Inr (Lookup_Task t), w1)" by blast
  with lookup_frame(1) [of e0 os w] that show thesis by simp
qed

lemma truthful_read:
  assumes "truthful_scheduler e0 os"
  obtains w1 where "task_is_enabled os t w = (Inr (task_enabled e0 (trace w)), w1)"
    "task_ledger e0 w1 = task_ledger e0 w"
proof -
  have "fst (task_is_enabled os t w) = Inr (task_enabled e0 (trace w))"
    using assms by (simp add: truthful_scheduler_def task_is_enabled_def and_then_def call_eqs)
  with task_is_enabled_frame(1) [of e0 os t w] that show thesis by (metis prod.collapse)
qed

lemma truthful_write:
  assumes "truthful_scheduler e0 os"
  obtains w1 where "set_task_enabled os t v w = (Inr (), w1)" "task_enabled e0 (trace w1) = v"
  using assms that by (simp add: truthful_scheduler_def set_task_enabled_def call_eqs)

lemma truthful_ensure:
  assumes tr: "truthful_scheduler e0 os"
    and rs: "rs = restore_state_default \<and> task_enabled e0 (trace w) = e0 \<or>
      rs_original_state_recorded rs \<and> rs_restore_enabled_on_exit rs = e0"
  obtains rs' w' where "ensure_reboot_task_disabled os (rs, w) = (Inr True, (rs', w'))"
    "rs_original_state_recorded rs'" "rs_restore_enabled_on_exit rs' = e0" "\<not> task_enabled e0 (trace w')"
proof -
  obtain t w1 where l: "lookup_reboot_task os w = (Inr (Lookup_Task t), w1)" "task_ledger e0 w1 = task_ledger e0 w"
    by (rule truthful_lookup [OF tr])
  obtain w2 where e: "task_is_enabled os t w1 = (Inr (task_enabled e0 (trace w1)), w2)"
    "task_ledger e0 w2 = task_ledger e0 w1" by (rule truthful_read [OF tr])
  obtain w3 where s: "set_task_enabled os t False w2 = (Inr (), w3)" "task_enabled e0 (trace w3) = False"
    by (rule truthful_write [OF tr])
  have en: "task_enabled e0 (trace w1) = task_enabled e0 (trace w)" "task_enabled e0 (trace w2) = task_enabled e0 (trace w)"
    using l e by (simp_all add: task_ledger_def)
  obtain r rs' w' where run: "ensure_reboot_task_disabled os (rs, w) = (r, (rs', w'))" by (metis surj_pair)
  have "r = Inr True \<and> rs_original_state_recorded rs' \<and> rs_restore_enabled_on_exit rs' = e0 \<and>
      \<not> task_enabled e0 (trace w')"
  proof (cases "task_enabled e0 (trace w)")
    case True
    with run l(1) e(1) s en rs show ?thesis by (auto simp: ensure_unfold restore_state_default_def)
  next
    case False
    with run l(1) e(1) en rs show ?thesis by (auto simp: ensure_unfold restore_state_default_def)
  qed
  with run that show thesis by blast
qed

lemma truthful_restore:
  assumes tr: "truthful_scheduler e0 os" and "rs_restore_enabled_on_exit rs = e0" and "\<not> task_enabled e0 (trace w)"
  shows "task_enabled e0 (trace (restore_task_if_needed os rs w)) = e0"
proof (cases e0)
  case True
  obtain t w1 where l: "lookup_reboot_task os w = (Inr (Lookup_Task t), w1)" "task_ledger e0 w1 = task_ledger e0 w"
    by (rule truthful_lookup [OF tr])
  obtain w2 where e: "task_is_enabled os t w1 = (Inr (task_enabled e0 (trace w1)), w2)"
    "task_ledger e0 w2 = task_ledger e0 w1" by (rule truthful_read [OF tr])
  obtain w3 where s: "set_task_enabled os t True w2 = (Inr (), w3)" "task_enabled e0 (trace w3) = True"
    by (rule truthful_write [OF tr])
  from l e s assms True show ?thesis by (simp add: restore_task_if_needed_def task_ledger_def)
next
  case False
  with assms show ?thesis by (simp add: restore_task_if_needed_def)
qed

lemma truthful_finish:
  assumes tr: "truthful_scheduler e0 os" and "update_truth e0 (b, w)" and "update_phase (b, w) = Polling"
  shows "update_truth e0 (update_finish os k c (b, w))"
  using truthful_restore [OF tr, of "ub_restore_state b" w] assms(2,3)
  by (simp add: update_finish_def update_truth_def restore_state_snapshot_def Let_def)

lemma truthful_spawned:
  assumes tr: "truthful_scheduler e0 os" and inv: "update_inv b" and truth: "update_truth e0 (b, w)"
    and k: "ub_worker b = Some k" "uw_phase k = Spawned"
  shows "update_truth e0 (update_worker_turn os (b, w))"
proof -
  obtain w1 where c: "initialize_com_apartment os w = (Inr (), w1)" "task_enabled e0 (trace w1) = e0"
    using tr truth k by (simp add: initialize_com_apartment_def call_eqs truthful_scheduler_def update_truth_def)
  show ?thesis
  proof (cases "ub_restore_poisoned b")
    case True
    with c k show ?thesis by (simp add: update_worker_turn_def with_restore_state_def update_truth_def)
  next
    case False
    with inv k have "ub_restore_state b = restore_state_default" by (auto simp: update_inv_def)
    then obtain rs' w2 where "ensure_reboot_task_disabled os (ub_restore_state b, w1) = (Inr True, (rs', w2))"
      "rs_original_state_recorded rs'" "rs_restore_enabled_on_exit rs' = e0" "\<not> task_enabled e0 (trace w2)"
      using truthful_ensure [OF tr, of "ub_restore_state b" w1] c(2) by blast
    with c k False show ?thesis
      by (simp add: update_worker_turn_def with_restore_state_def update_truth_def) (simp add: set_update_phase_def)
  qed
qed

lemma truthful_polling:
  assumes tr: "truthful_scheduler e0 os" and truth: "update_truth e0 (b, w)"
    and k: "ub_worker b = Some k" "uw_phase k = Polling"
  shows "update_truth e0 (update_worker_turn os (b, w))"
proof (cases "uw_stop_queued k")
  case True
  with truthful_finish [OF tr truth] k show ?thesis by (simp add: update_worker_turn_def)
next
  case False
  from truth k have b: "\<not> ub_restore_poisoned b" "rs_original_state_recorded (ub_restore_state b)"
    "rs_restore_enabled_on_exit (ub_restore_state b) = e0" by (simp_all add: update_truth_def)
  then obtain rs' w2 where "ensure_reboot_task_disabled os (ub_restore_state b, w) = (Inr True, (rs', w2))"
    "rs_original_state_recorded rs'" "rs_restore_enabled_on_exit rs' = e0" "\<not> task_enabled e0 (trace w2)"
    using truthful_ensure [OF tr, of "ub_restore_state b" w] by blast
  with b False k show ?thesis
    by (simp add: update_worker_turn_def with_restore_state_def update_truth_def)
qed

lemma truthful_turn:
  assumes "truthful_scheduler e0 os" and "update_inv b" and "update_truth e0 (b, w)"
  shows "update_truth e0 (update_worker_turn os (b, w))"
proof (cases "ub_worker b")
  case None
  with assms show ?thesis by (simp add: update_worker_turn_def)
next
  case (Some k)
  with assms truthful_spawned truthful_polling show ?thesis
    by (cases "uw_phase k") (blast, blast, simp add: update_worker_turn_def)
qed

lemma truthful_forced: "update_truth e0 (b, w) \<Longrightarrow> update_truth e0 (update_begin_forced_shutdown_cleanup b, w)"
  by (auto simp: update_begin_forced_shutdown_cleanup_def update_truth_def update_phase_def split: option.splits)

lemma truthful_join:
  assumes tr: "truthful_scheduler e0 os" and inv: "update_inv b" and truth: "update_truth e0 (b, w)"
  shows "update_truth e0 (run_to_end (update_worker_turn os) (b, w))"
proof -
  obtain b1 w1 where t: "update_worker_turn os (b, w) = (b1, w1)" by (cases "update_worker_turn os (b, w)")
  have "update_inv b1" using update_turn_keeps [OF inv, of w w os] t by (simp add: update_turn_ok_def)
  moreover have "update_truth e0 (b1, w1)" using truthful_turn [OF assms] t by simp
  ultimately show ?thesis using truthful_turn [OF tr] t by (simp add: run_to_end_def)
qed

lemma truthful_deactivate:
  assumes tr: "truthful_scheduler e0 os" and inv: "update_inv b" and truth: "update_truth e0 (b, w)"
  shows "task_enabled e0 (trace (snd (update_deactivate os (b, w)))) = e0"
proof (cases "ub_worker b")
  case None
  with truth show ?thesis
    by (simp add: update_deactivate_def update_begin_forced_shutdown_cleanup_def update_truth_def)
next
  case (Some k)
  let ?b = "update_begin_forced_shutdown_cleanup b"
  obtain b1 w1 where j: "run_to_end (update_worker_turn os) (?b, w) = (b1, w1)"
    by (cases "run_to_end (update_worker_turn os) (?b, w)")
  have "update_phase (b1, w1) = Finished"
    using update_thread.run_to_end_finished [OF update_forced_stops [of b w], of os] j by simp
  moreover have "update_truth e0 (b1, w1)"
    using truthful_join [OF tr update_forced_keeps(1) [OF inv] truthful_forced [OF truth]] j by simp
  ultimately have "task_enabled e0 (trace w1) = e0" by (simp add: update_truth_def)
  moreover have "ub_worker ?b \<noteq> None" using Some by (simp add: update_begin_forced_shutdown_cleanup_def)
  ultimately show ?thesis using j by (auto simp: update_deactivate_def Let_def call_unit_cases split: if_splits)
qed

lemma truthful_activate:
  assumes "update_truth e0 (b, w)"
  shows "update_truth e0 (snd (update_activate os (b, w)))"
proof (cases "ub_worker b")
  case (Some k)
  with assms show ?thesis by (simp add: update_activate_def)
next
  case None
  obtain e w1 where e: "is_process_elevated os w = (e, w1)" by (cases "is_process_elevated os w")
  have "task_enabled e0 (trace w1) = e0"
    using e elevated_ledger [of e0 os w] assms None by (simp add: task_ledger_def update_truth_def)
  with None e show ?thesis
    by (cases "ub_restore_poisoned b"; cases e)
      (auto simp: update_activate_def update_truth_def update_phase_def call_eqs Let_def
        split: bool.splits option.splits)
qed

lemma truthful_event:
  assumes tr: "truthful_scheduler e0 os" and inv: "update_inv b" and truth: "update_truth e0 (b, w)"
  shows "update_truth e0 (update_event os e (b, w))"
proof (cases e)
  case Ev_Deactivate
  obtain b' w' where d: "update_deactivate os (b, w) = (b', w')" by (cases "update_deactivate os (b, w)")
  have "ub_worker b' = None" using update_deactivate_outcome [OF inv, of os w w] d by (simp add: update_idle_def)
  with truthful_deactivate [OF assms] d Ev_Deactivate show ?thesis by (simp add: update_truth_def)
qed (use truthful_activate [OF truth] truthful_turn [OF assms] truthful_forced [OF truth] in simp_all)

lemma truthful_events:
  assumes tr: "truthful_scheduler e0 os"
  shows "update_inv b \<Longrightarrow> update_truth e0 (b, w) \<Longrightarrow> update_truth e0 (fold (update_event os) es (b, w))"
proof (induction es arbitrary: b w)
  case (Cons e es)
  obtain b1 w1 where e: "update_event os e (b, w) = (b1, w1)" by (cases "update_event os e (b, w)")
  have "update_inv b1" using update_event_keeps [OF Cons.prems(1), of w w os e] e by (simp add: update_turn_ok_def)
  moreover have "update_truth e0 (b1, w1)" using truthful_event [OF tr Cons.prems, of e] e by simp
  ultimately show ?case using Cons.IH [of b1 w1] e by simp
qed simp

text \<open>C10. The reboot task is disabled while Layer 3 monitors and ends as it started. With a
  Task Scheduler that answers truthfully and in which nobody else changes the task: after any
  run of activations, worker turns, forced cleanups and deactivations, a layer whose worker is
  in its loop keeps the task disabled, and a final deactivation leaves it exactly in the state
  \<open>e0\<close> it had before Wardoff touched it.\<close>

theorem reboot_task_round_trip:
  assumes "truthful_scheduler e0 os" and "task_enabled e0 (trace w) = e0"
    and "fold (update_event os) es (update_default, w) = (b, w')"
  shows "(update_phase (b, w') = Polling \<longrightarrow> \<not> task_enabled e0 (trace w')) \<and>
         task_enabled e0 (trace (snd (update_deactivate os (b, w')))) = e0"
proof -
  have "update_truth e0 (update_default, w)"
    using assms(2) by (simp add: update_truth_def update_phase_def update_default_def)
  then have truth: "update_truth e0 (b, w')"
    using truthful_events [OF assms(1) update_default_inv(1), of w es] assms(3) by simp
  have inv: "update_inv b"
    using update_events_keep [OF update_default_inv(1), of w w os es] assms(3) by (simp add: update_turn_ok_def)
  from truthful_deactivate [OF assms(1) inv truth] truth show ?thesis
    by (cases "update_phase (b, w') = Polling") (simp_all add: update_truth_def)
qed

text \<open>A scheduler with an enabled reboot task, in a process that is elevated.\<close>

definition scheduler_os :: os where
  "scheduler_os h c =
     (quiet_os h c)\<lparr>r_num := (case c of Task (TaskGetEnabled _) \<Rightarrow> of_bool (task_enabled True h)
        | Render (HandleIsInvalid _) \<Rightarrow> 0 | _ \<Rightarrow> 7)\<rparr>"

lemma scheduler_os_truthful: "truthful_scheduler True scheduler_os"
  by (simp add: truthful_scheduler_def scheduler_os_def quiet_os_def)

theorem reboot_task_round_trip_witness:
  "\<exists>b w'. fold (update_event scheduler_os) [Ev_Activate, Ev_Worker_Turn, Ev_Worker_Turn]
       (update_default, initial_world) = (b, w') \<and>
     update_is_active b \<and> \<not> task_enabled True (trace w') \<and>
     task_enabled True (trace (snd (update_deactivate scheduler_os (b, w'))))"
proof -
  obtain b w' where run: "fold (update_event scheduler_os) [Ev_Activate, Ev_Worker_Turn, Ev_Worker_Turn]
      (update_default, initial_world) = (b, w')" by (metis surj_pair)
  have "update_is_active (fst (fold (update_event scheduler_os) [Ev_Activate, Ev_Worker_Turn, Ev_Worker_Turn]
        (update_default, initial_world))) \<and>
      update_phase (fold (update_event scheduler_os) [Ev_Activate, Ev_Worker_Turn, Ev_Worker_Turn]
        (update_default, initial_world)) = Polling"
    by code_simp
  then have "update_is_active b" "update_phase (b, w') = Polling" by (simp_all only: run fst_conv)
  with reboot_task_round_trip [OF scheduler_os_truthful _ run] run show ?thesis
    by (auto simp: initial_world_def)
qed

theorem update_layer_sound_witness:
  "\<exists>b w' b'' w''. fold (update_event scheduler_os) [Ev_Activate, Ev_Worker_Turn]
       (update_default, initial_world) = (b, w') \<and> update_deactivate scheduler_os (b, w') = (b'', w'') \<and>
     ub_worker b'' = None \<and> com_depth (trace w'') = 0"
proof -
  obtain b w' where run: "fold (update_event scheduler_os) [Ev_Activate, Ev_Worker_Turn]
      (update_default, initial_world) = (b, w')" by (metis surj_pair)
  obtain b'' w'' where d: "update_deactivate scheduler_os (b, w') = (b'', w'')"
    by (cases "update_deactivate scheduler_os (b, w')")
  from update_layer_sound [OF run d] run d show ?thesis by (auto simp: initial_world_def)
qed

end
