(* ===== verification/Etw_Events.thy ===== *)
theory Etw_Events
  imports Abort Shutdown_Layer
begin

text \<open>
  The event side of \<^verbatim>\<open>blocker/local.rs\<close> (Layer 2): decoding a process-start event and aborting
  the shutdown that a local \<^verbatim>\<open>shutdown.exe\<close> requested.

  A Rust \<^verbatim>\<open>String\<close> that came from Windows is kept as its UTF-16 code units (\<^verbatim>\<open>from_utf16\<close>
  accepts exactly the sequences \<open>utf16_valid\<close> accepts). \<open>path_file_name\<close> is
  \<^verbatim>\<open>std::path::Path::file_name\<close> for Windows paths: the prefix (drive, UNC, device, verbatim) is
  cut off, then the last component that is neither empty nor \<open>.\<close> decides.
\<close>

definition LAYER2_PROCESS_START_EVENT_ID :: u16 where "LAYER2_PROCESS_START_EVENT_ID = 1"
definition LAYER2_PROCESS_START_TASK :: u16 where "LAYER2_PROCESS_START_TASK = 1"
definition LAYER2_PROCESS_START_OPCODE :: "8 word" where "LAYER2_PROCESS_START_OPCODE = 1"

definition KERNEL_PROCESS_PROVIDER_GUID :: nat where
  "KERNEL_PROCESS_PROVIDER_GUID = 0x22fb2cd60e7b422ba0c72fad1fd0e716"

definition units_of :: "string \<Rightarrow> u16 list" where
  "units_of s = map (\<lambda>c. of_nat (of_char c)) s"

definition SHUTDOWN_IMAGE_NAME :: "u16 list" where
  "SHUTDOWN_IMAGE_NAME = units_of ''shutdown.exe''"

subsection \<open>UTF-16 and paths\<close>

definition high_surrogate :: "u16 \<Rightarrow> bool" where
  "high_surrogate u \<longleftrightarrow> 0xD800 \<le> u \<and> u \<le> 0xDBFF"

definition low_surrogate :: "u16 \<Rightarrow> bool" where
  "low_surrogate u \<longleftrightarrow> 0xDC00 \<le> u \<and> u \<le> 0xDFFF"

fun utf16_valid :: "u16 list \<Rightarrow> bool" where
  "utf16_valid [] = True"
| "utf16_valid (u # us) =
     (if high_surrogate u then
        (case us of [] \<Rightarrow> False | v # vs \<Rightarrow> low_surrogate v \<and> utf16_valid vs)
      else \<not> low_surrogate u \<and> utf16_valid us)"

definition ascii_lower :: "u16 \<Rightarrow> u16" where
  "ascii_lower u = (if 0x41 \<le> u \<and> u \<le> 0x5A then u + 0x20 else u)"

definition eq_ignore_ascii_case :: "u16 list \<Rightarrow> u16 list \<Rightarrow> bool" where
  "eq_ignore_ascii_case a b \<longleftrightarrow> map ascii_lower a = map ascii_lower b"

definition is_sep :: "bool \<Rightarrow> u16 \<Rightarrow> bool" where
  "is_sep verbatim u \<longleftrightarrow> u = 0x5C \<or> \<not> verbatim \<and> u = 0x2F"

fun split_path :: "bool \<Rightarrow> u16 list \<Rightarrow> u16 list list" where
  "split_path v [] = [[]]"
| "split_path v (u # us) =
     (if is_sep v u then [] # split_path v us
      else case split_path v us of c # cs \<Rightarrow> (u # c) # cs | [] \<Rightarrow> [[u]])"

fun last_normal :: "bool \<Rightarrow> u16 list list \<Rightarrow> u16 list option" where
  "last_normal v [] = None"
| "last_normal v (c # cs) =
     (if c = [] \<or> c = [0x2E] \<and> \<not> v then last_normal v cs
      else if c = [0x2E] \<or> c = [0x2E, 0x2E] then None
      else Some c)"

definition is_ascii_letter :: "u16 \<Rightarrow> bool" where
  "is_ascii_letter u \<longleftrightarrow> 0x41 \<le> u \<and> u \<le> 0x5A \<or> 0x61 \<le> u \<and> u \<le> 0x7A"

text \<open>\<^verbatim>\<open>parse_next_component\<close>: up to the first separator, and what follows it.\<close>

definition next_component :: "bool \<Rightarrow> u16 list \<Rightarrow> u16 list \<times> u16 list" where
  "next_component v p = (takeWhile (\<lambda>u. \<not> is_sep v u) p, drop 1 (dropWhile (\<lambda>u. \<not> is_sep v u) p))"

definition starts_with_drive :: "u16 list \<Rightarrow> bool" where
  "starts_with_drive p = (case p of d # c # _ \<Rightarrow> is_ascii_letter d \<and> c = 0x3A | _ \<Rightarrow> False)"

definition starts_with_exact_drive :: "u16 list \<Rightarrow> bool" where
  "starts_with_exact_drive p =
     (starts_with_drive p \<and> (case drop 2 p of [] \<Rightarrow> True | u # _ \<Rightarrow> is_sep False u))"

text \<open>Length of a two-part UNC prefix after its own introduction.\<close>

definition unc_length :: "bool \<Rightarrow> u16 list \<Rightarrow> nat" where
  "unc_length v p =
     (let (server, rest) = next_component v p; (share, _) = next_component v rest in
      length server + (if share = [] then 0 else 1 + length share))"

text \<open>\<^verbatim>\<open>parse_prefix\<close>: the length of the path's prefix, and whether it is verbatim.\<close>

definition normalized :: "u16 list \<Rightarrow> u16 list" where
  "normalized p = map (\<lambda>u. if u = 0x2F then 0x5C else u) p"

definition path_prefix :: "u16 list \<Rightarrow> nat \<times> bool" where
  "path_prefix p =
     (if take 2 (normalized p) = [0x5C, 0x5C] then
        (if take 4 p = [0x5C, 0x5C, 0x3F, 0x5C] then
           (if take 4 (normalized (drop 4 p)) = units_of ''UNC'' @ [0x5C] then
              (8 + unc_length True (drop 8 p), True)
            else if starts_with_exact_drive (drop 4 p) then (6, True)
            else (4 + length (fst (next_component True (drop 4 p))), True))
         else if take 2 (normalized (drop 2 p)) = [0x2E, 0x5C] then
           (4 + length (fst (next_component False (drop 4 p))), False)
         else
           let (server, rest) = next_component False (drop 2 p); (share, _) = next_component False rest in
           if server \<noteq> [] \<and> share \<noteq> [] then (2 + unc_length False (drop 2 p), False) else (0, False))
      else if starts_with_drive p then (2, False)
      else (0, False))"

definition path_file_name :: "u16 list \<Rightarrow> u16 list option" where
  "path_file_name p =
     (let (n, verbatim) = path_prefix p in last_normal verbatim (rev (split_path verbatim (drop n p))))"

definition basename_or_original :: "u16 list \<Rightarrow> u16 list" where
  "basename_or_original image_name =
     (case path_file_name image_name of Some name \<Rightarrow> name | None \<Rightarrow> image_name)"

subsection \<open>Reading event properties\<close>

text \<open>A call that returns a Win32 status: 0 is success.\<close>

definition call_status :: "os \<Rightarrow> sys_call \<Rightarrow> world \<Rightarrow> (u32 \<times> reply) \<times> world" where
  "call_status os c w =
     (let (r, w) = syscall os c w in
      ((case r_err r of None \<Rightarrow> 0 | Some e \<Rightarrow> err_code e, r), w))"

definition read_property_bytes :: "os \<Rightarrow> event_record \<Rightarrow> string \<Rightarrow> world \<Rightarrow> 8 word list option \<times> world" where
  "read_property_bytes os er property_name w =
     (let ((size_status, r), w) = call_status os (Etw (TdhGetPropertySize (er_identity er) property_name)) w;
          property_size = unat (of_nat (r_num r) :: u32)
      in if size_status \<noteq> 0 then (None, w)
         else
           let ((read_status, r), w) =
                 call_status os (Etw (TdhGetProperty (er_identity er) property_name property_size)) w
           in if read_status \<noteq> 0 then (None, w)
              else (Some (take property_size (r_bytes r @ replicate property_size 0)), w))"

text \<open>\<^verbatim>\<open>as_chunks::<2>()\<close> with \<^verbatim>\<open>u16::from_ne_bytes\<close> (little-endian); an odd last byte is
  dropped.\<close>

fun u16_chunks :: "8 word list \<Rightarrow> u16 list" where
  "u16_chunks (a # b # rest) = (ucast a + 256 * ucast b) # u16_chunks rest"
| "u16_chunks _ = []"

definition read_unicode_property :: "os \<Rightarrow> event_record \<Rightarrow> string \<Rightarrow> world \<Rightarrow> u16 list option \<times> world" where
  "read_unicode_property os er property_name w =
     (case read_property_bytes os er property_name w of
        (None, w) \<Rightarrow> (None, w)
      | (Some buffer, w) \<Rightarrow>
          (if length buffer < 2 then None
           else let utf16 = takeWhile (\<lambda>u. u \<noteq> 0) (u16_chunks buffer) in
                if utf16 = [] then None else if utf16_valid utf16 then Some utf16 else None,
           w))"

definition read_u32_property :: "os \<Rightarrow> event_record \<Rightarrow> string \<Rightarrow> world \<Rightarrow> u32 option \<times> world" where
  "read_u32_property os er property_name w =
     (case read_property_bytes os er property_name w of
        (None, w) \<Rightarrow> (None, w)
      | (Some buffer, w) \<Rightarrow>
          (case buffer of
             a # b # c # d # _ \<Rightarrow>
               Some (ucast a + 0x100 * ucast b + 0x10000 * ucast c + 0x1000000 * ucast d)
           | _ \<Rightarrow> None,
           w))"

subsection \<open>Handling an event\<close>

definition is_process_start :: "event_record \<Rightarrow> bool" where
  "is_process_start er \<longleftrightarrow>
     er_provider_id er = KERNEL_PROCESS_PROVIDER_GUID \<and> er_id er = LAYER2_PROCESS_START_EVENT_ID \<and>
     er_task er = LAYER2_PROCESS_START_TASK \<and> er_opcode er = LAYER2_PROCESS_START_OPCODE"

definition process_details :: "os \<Rightarrow> u32 \<Rightarrow> u32 \<Rightarrow> u16 list \<Rightarrow> string" where
  "process_details os pid parent img =
     ''(pid='' @ show_nat (unat pid) @ '', parent_pid='' @ show_nat (unat parent) @
     '', image='' @ r_text (os [] (Render (Utf16Text img))) @ '')''"

definition process_event_record :: "os \<Rightarrow> event_record \<Rightarrow> world \<Rightarrow> world" where
  "process_event_record os er w =
     (if \<not> is_process_start er then w
      else case read_unicode_property os er ''ImageName'' w of
        (None, w) \<Rightarrow> w
      | (Some image_name, w) \<Rightarrow>
          let image_basename = basename_or_original image_name in
          if \<not> eq_ignore_ascii_case image_basename SHUTDOWN_IMAGE_NAME then w
          else
            let (pid, w) = read_u32_property os er ''ProcessID'' w;
                process_id = (case pid of Some n \<Rightarrow> n | None \<Rightarrow> er_process_id er);
                (parent, w) = read_u32_property os er ''ParentProcessID'' w;
                parent_process_id = (case parent of Some n \<Rightarrow> n | None \<Rightarrow> 0);
                details = process_details os process_id parent_process_id image_basename;
                w = log_event os ''local_shutdown_process_detected'' Src_Local
                      (''Layer 2 detected a local shutdown.exe process start '' @ details @
                       '' and is attempting AbortSystemShutdownW(None).'') True w
            in case abort_pending_shutdown os w of
              (Out_Aborted, w) \<Rightarrow>
                log_event os ''local_shutdown_abort_succeeded'' Src_Local
                  (''Layer 2 detected shutdown.exe '' @ details @
                   '' and AbortSystemShutdownW(None) aborted a pending shutdown.'')
                  True (record_blocked_event w)
            | (Out_NoShutdownPending, w) \<Rightarrow>
                log_event os ''local_shutdown_abort_not_needed'' Src_Local
                  (''Layer 2 detected shutdown.exe '' @ details @
                   '' but AbortSystemShutdownW(None) reported that no shutdown was pending. This can happen when the local shutdown path was already past the abortable window, including fast paths such as shutdown /t 0 /f.'')
                  False w
            | (Out_AccessDenied reason, w) \<Rightarrow>
                log_event os ''local_shutdown_abort_failed'' Src_Local
                  (''Layer 2 detected shutdown.exe '' @ details @
                   '' but AbortSystemShutdownW(None) was denied: '' @ reason)
                  False w
            | (Out_Failed reason, w) \<Rightarrow>
                log_event os ''local_shutdown_abort_failed'' Src_Local
                  (''Layer 2 detected shutdown.exe '' @ details @
                   '' but AbortSystemShutdownW(None) failed unexpectedly: '' @ reason)
                  False w)"

text \<open>The ETW callback: a null record is ignored, a panic would be caught.\<close>

definition handle_event_record :: "os \<Rightarrow> event_record option \<Rightarrow> world \<Rightarrow> world" where
  "handle_event_record os er w = (case er of Some er \<Rightarrow> process_event_record os er w | None \<Rightarrow> w)"

subsection \<open>File names of image paths\<close>

lemma split_path_nonempty [simp]: "split_path v p \<noteq> []"
  by (induction p) (auto split: list.splits)

lemma split_path_sep: "is_sep v s \<Longrightarrow> split_path v (a @ s # b) = split_path v a @ split_path v b"
proof (induction a)
  case (Cons u us)
  then show ?case by (cases "split_path v us") auto
qed simp

lemma split_path_plain: "\<not> list_ex (is_sep v) p \<Longrightarrow> split_path v p = [p]"
  by (induction p) auto

text \<open>A usable file name: no separator inside, and neither empty nor a dot component.\<close>

definition plain_name :: "u16 list \<Rightarrow> bool" where
  "plain_name n \<longleftrightarrow> n \<noteq> [] \<and> n \<noteq> [0x2E] \<and> n \<noteq> [0x2E, 0x2E] \<and> \<not> list_ex (is_sep False) n"

text \<open>The shape of an image path the kernel reports: rooted, and not starting with two
  separators.\<close>

definition kernel_image_path :: "u16 list \<Rightarrow> u16 list \<Rightarrow> u16 list" where
  "kernel_image_path dir n = 0x5C # dir @ 0x5C # n"

definition kernel_dir :: "u16 list \<Rightarrow> bool" where
  "kernel_dir dir \<longleftrightarrow> (case dir of [] \<Rightarrow> False | u # _ \<Rightarrow> \<not> is_sep False u)"

lemma basename_of_image:
  assumes "kernel_dir dir" and "plain_name n"
  shows "basename_or_original (kernel_image_path dir n) = n"
proof -
  obtain u d where dir: "dir = u # d" "\<not> is_sep False u"
    using assms(1) by (cases dir) (auto simp: kernel_dir_def)
  have prefix: "path_prefix (kernel_image_path dir n) = (0, False)"
    using dir by (auto simp: path_prefix_def kernel_image_path_def normalized_def is_sep_def
        starts_with_drive_def is_ascii_letter_def)
  have "split_path False (kernel_image_path dir n) = split_path False (0x5C # dir) @ [n]"
    using split_path_sep [of False "0x5C" "0x5C # dir" n] split_path_plain [of False n] assms(2)
    by (simp add: kernel_image_path_def is_sep_def plain_name_def)
  with prefix assms(2) show ?thesis
    by (simp add: basename_or_original_def path_file_name_def plain_name_def)
qed

subsection \<open>Reading back an encoded property\<close>

definition u16_bytes :: "u16 list \<Rightarrow> 8 word list" where
  "u16_bytes us = concat (map (\<lambda>u. [ucast u, ucast (drop_bit 8 u)]) us)"

lemma ucast_parts: "ucast (ucast u :: 8 word) + 256 * ucast (ucast (drop_bit 8 u) :: 8 word) = (u :: u16)"
proof -
  have lt: "unat u < 65536" using unsigned_less [of u, where 'a = nat] by simp
  have a: "unat (ucast (ucast u :: 8 word) :: u16) = unat u mod 256"
    by (simp add: unsigned_ucast_eq take_bit_eq_mod unat_mod)
  have b: "unat (ucast (ucast (drop_bit 8 u) :: 8 word) :: u16) = unat u div 256"
    using lt by (simp add: unsigned_ucast_eq take_bit_eq_mod unsigned_drop_bit_eq drop_bit_eq_div less_mult_imp_div_less unat_mod unat_div)
  have "unat (ucast (ucast u :: 8 word) + 256 * ucast (ucast (drop_bit 8 u) :: 8 word) :: u16) =
      (unat u mod 256 + (256 * (unat u div 256)) mod 65536) mod 65536"
    by (simp add: unat_word_ariths a b)
  also have "\<dots> = unat u" using lt by simp
  finally show ?thesis by (simp add: word_unat_eq_iff)
qed

lemma u16_chunks_bytes [simp]: "u16_chunks (u16_bytes us) = us"
  by (induction us) (simp_all add: u16_bytes_def ucast_parts)

lemma length_u16_bytes [simp]: "length (u16_bytes us) = 2 * length us"
  by (induction us) (simp_all add: u16_bytes_def)

subsection \<open>Events and aborts\<close>

text \<open>Read off the history: the requests for the shutdown privilege (each opens the process
  token to adjust it), the times it was granted (the token was adjusted, and the error code read
  right after it is not \<^verbatim>\<open>ERROR_NOT_ALL_ASSIGNED\<close>), and the calls of
  \<^verbatim>\<open>AbortSystemShutdownW\<close>, whatever Windows answered to them.\<close>

fun privilege_requests :: "history \<Rightarrow> nat" where
  "privilege_requests [] = 0"
| "privilege_requests ((c, r) # h) =
     (if c = Token (OpenProcessToken TOKEN_ADJUST_AND_QUERY) then Suc (privilege_requests h) else privilege_requests h)"

fun just_adjusted :: "history \<Rightarrow> bool" where
  "just_adjusted ((Token (AdjustTokenPrivileges _ _), r) # h) = (r_err r = None)"
| "just_adjusted _ = False"

fun privilege_grants :: "history \<Rightarrow> nat" where
  "privilege_grants [] = 0"
| "privilege_grants ((c, r) # h) =
     (if c = Token GetLastError \<and> (of_nat (r_num r) :: u32) \<noteq> ERROR_NOT_ALL_ASSIGNED \<and> just_adjusted h
      then Suc (privilege_grants h) else privilege_grants h)"

fun abort_system_calls :: "history \<Rightarrow> nat" where
  "abort_system_calls [] = 0"
| "abort_system_calls ((c, r) # h) =
     (if c = Power AbortSystemShutdownW then Suc (abort_system_calls h) else abort_system_calls h)"

lemma guard_drop_abort_ledgers [simp]:
  "privilege_requests (trace (handle_guard_drop os n w)) = privilege_requests (trace w)"
  "privilege_grants (trace (handle_guard_drop os n w)) = privilege_grants (trace w)"
  "abort_system_calls (trace (handle_guard_drop os n w)) = abort_system_calls (trace w)"
  by (simp_all add: handle_guard_drop_def)

lemma enable_privilege_ledgers:
  "privilege_requests (trace (snd (enable_shutdown_privilege os w))) = Suc (privilege_requests (trace w))"
  "privilege_grants (trace (snd (enable_shutdown_privilege os w))) =
     privilege_grants (trace w) + of_bool (is_ok (fst (enable_shutdown_privilege os w)))"
  "abort_system_calls (trace (snd (enable_shutdown_privilege os w))) = abort_system_calls (trace w)"
  by (auto simp: enable_shutdown_privilege_def with_guard_def and_then_def call_eqs Let_def
      split: option.splits)

text \<open>One abort: one request for the privilege, and one \<^verbatim>\<open>AbortSystemShutdownW\<close> if and only if it
  was granted.\<close>

definition one_abort :: "os \<Rightarrow> world \<Rightarrow> world \<Rightarrow> bool" where
  "one_abort os w w' \<longleftrightarrow>
     privilege_requests (trace w') = Suc (privilege_requests (trace w)) \<and>
     privilege_grants (trace w') \<in> {privilege_grants (trace w), Suc (privilege_grants (trace w))} \<and>
     abort_system_calls (trace w') + privilege_grants (trace w) =
       abort_system_calls (trace w) + privilege_grants (trace w') \<and>
     ((\<forall>w. is_ok (fst (enable_shutdown_privilege os w))) \<longrightarrow>
       privilege_grants (trace w') = Suc (privilege_grants (trace w)))"

lemma abort_is_one_abort: "one_abort os w (snd (abort_pending_shutdown os w))"
proof -
  obtain c w1 where p: "preflight_shutdown_abort_capability os w = (c, w1)"
    by (cases "preflight_shutdown_abort_capability os w")
  have w1: "w1 = snd (enable_shutdown_privilege os w)"
    using p by (auto simp: preflight_shutdown_abort_capability_def split: prod.splits sum.splits)
  have c: "c = Cap_Available \<longleftrightarrow> is_ok (fst (enable_shutdown_privilege os w))"
    using preflight_available_iff [of os w] p by simp
  show ?thesis
    using p c by (cases c) (auto simp: abort_pending_shutdown_def one_abort_def call_eqs w1
        enable_privilege_ledgers split: option.splits)
qed

lemma call_status_snd [simp]: "snd (call_status os c w) = snd (syscall os c w)"
  by (simp add: call_status_def Let_def split: prod.split)

lemma call_status_fst:
  "fst (call_status os c w) =
     (case r_err (os (trace w) c) of None \<Rightarrow> 0 | Some e \<Rightarrow> err_code e, os (trace w) c)"
  by (simp add: call_status_def syscall_def Let_def)

lemma call_status_eq:
  "call_status os c w =
     ((case r_err (os (trace w) c) of None \<Rightarrow> 0 | Some e \<Rightarrow> err_code e, os (trace w) c), snd (syscall os c w))"
  using call_status_fst [of os c w] call_status_snd [of os c w] by (metis prod.collapse)

definition event_frame :: "world \<Rightarrow> world \<Rightarrow> bool" where
  "event_frame w w' \<longleftrightarrow> control w' = control w \<and> uncounted w' = uncounted w \<and>
     privilege_requests (trace w') = privilege_requests (trace w) \<and>
     privilege_grants (trace w') = privilege_grants (trace w) \<and>
     abort_system_calls (trace w') = abort_system_calls (trace w)"

lemma read_property_frame: "event_frame w (snd (read_property_bytes os er p w))"
  by (simp add: read_property_bytes_def call_status_eq Let_def event_frame_def)

lemma read_frames:
  "event_frame w (snd (read_unicode_property os er p w))" "event_frame w (snd (read_u32_property os er p w))"
  using read_property_frame [of w os er p]
  by (auto simp: read_unicode_property_def read_u32_property_def split: prod.splits option.splits)

lemma event_frame_trans: "event_frame w w' \<Longrightarrow> event_frame w' w'' \<Longrightarrow> event_frame w w''"
  by (simp add: event_frame_def)

lemma abort_then_count:
  assumes "abort_pending_shutdown os w = (r, w1)"
  shows "control w1 = control w \<and> one_abort os w w1 \<and>
     uncounted (if r = Out_Aborted then record_blocked_event w1 else w1) = uncounted w"
  using assms abort_history(1,2) [of os w] abort_is_one_abort [of os w]
  by (auto simp: uncounted_def record_blocked_event_def statics_def control_def)

text \<open>The detection decides: nothing happens to an event that is not the start of
  \<^verbatim>\<open>shutdown.exe\<close>, and one abort is attempted for one that is.\<close>

definition detects :: "os \<Rightarrow> event_record \<Rightarrow> world \<Rightarrow> bool" where
  "detects os er w \<longleftrightarrow> is_process_start er \<and>
     (case fst (read_unicode_property os er ''ImageName'' w) of
        None \<Rightarrow> False
      | Some image_name \<Rightarrow> eq_ignore_ascii_case (basename_or_original image_name) SHUTDOWN_IMAGE_NAME)"

lemma process_event_outcome:
  "control (process_event_record os er w) = control w \<and>
   uncounted (process_event_record os er w) = uncounted w \<and>
   (if detects os er w then one_abort os w (process_event_record os er w)
    else event_frame w (process_event_record os er w))"
proof -
  obtain i w1 where i: "read_unicode_property os er ''ImageName'' w = (i, w1)"
    by (cases "read_unicode_property os er ''ImageName'' w")
  have f1: "event_frame w w1" using read_frames(1) [of w os er "''ImageName''"] i by simp
  show ?thesis
  proof (cases "detects os er w")
    case False
    with i f1 show ?thesis
      by (auto simp: process_event_record_def detects_def event_frame_def split: option.splits)
  next
    case True
    then obtain img where img: "i = Some img" "is_process_start er"
        "eq_ignore_ascii_case (basename_or_original img) SHUTDOWN_IMAGE_NAME"
      using i by (auto simp: detects_def split: option.splits)
    obtain p1 w2 where p1: "read_u32_property os er ''ProcessID'' w1 = (p1, w2)"
      by (cases "read_u32_property os er ''ProcessID'' w1")
    obtain p2 w3 where p2: "read_u32_property os er ''ParentProcessID'' w2 = (p2, w3)"
      by (cases "read_u32_property os er ''ParentProcessID'' w2")
    have f3: "event_frame w w3"
      using read_frames(2) [of w1 os er "''ProcessID''"] read_frames(2) [of w2 os er "''ParentProcessID''"]
        p1 p2 f1 event_frame_trans by (metis snd_conv)
    let ?pid = "case p1 of Some n \<Rightarrow> n | None \<Rightarrow> er_process_id er"
    let ?w4 = "log_event os ''local_shutdown_process_detected'' Src_Local
       (''Layer 2 detected a local shutdown.exe process start '' @
        process_details os ?pid (case p2 of Some n \<Rightarrow> n | None \<Rightarrow> 0) (basename_or_original img) @
        '' and is attempting AbortSystemShutdownW(None).'') True w3"
    obtain r w5 where a: "abort_pending_shutdown os ?w4 = (r, w5)" by (cases "abort_pending_shutdown os ?w4")
    note a' = abort_then_count [OF a]
    show ?thesis
      using True i img p1 p2 a a' f3
      by (cases r) (simp_all add: process_event_record_def Let_def event_frame_def one_abort_def)
  qed
qed

lemma process_event_frame [simp, frame]:
  "control (process_event_record os er w) = control w"
  "uncounted (process_event_record os er w) = uncounted w"
  using process_event_outcome by blast+

text \<open>Windows reports \<open>path\<close> as the image name of the event: the size and the bytes of the
  zero-terminated UTF-16 property.\<close>

definition reports_image :: "os \<Rightarrow> event_record \<Rightarrow> u16 list \<Rightarrow> bool" where
  "reports_image os er path \<longleftrightarrow>
     (\<forall>h. r_err (os h (Etw (TdhGetPropertySize (er_identity er) ''ImageName''))) = None \<and>
          r_num (os h (Etw (TdhGetPropertySize (er_identity er) ''ImageName''))) =
            length (u16_bytes (path @ [0]))) \<and>
     (\<forall>h n. r_err (os h (Etw (TdhGetProperty (er_identity er) ''ImageName'' n))) = None \<and>
          r_bytes (os h (Etw (TdhGetProperty (er_identity er) ''ImageName'' n))) = u16_bytes (path @ [0]))"

lemma read_reported_image:
  assumes "reports_image os er path" and "length path < 2 ^ 30" and "path \<noteq> []" and "0 \<notin> set path"
    and "utf16_valid path"
  shows "fst (read_unicode_property os er ''ImageName'' w) = Some path"
proof -
  have size: "unat (of_nat (length (u16_bytes (path @ [0]))) :: u32) = length (u16_bytes (path @ [0]))"
    using assms(2) by (simp only: unat_of_nat) simp
  have "fst (read_property_bytes os er ''ImageName'' w) = Some (u16_bytes (path @ [0]))"
    using assms(1) size by (simp add: read_property_bytes_def call_status_eq reports_image_def)
  moreover have "takeWhile (\<lambda>u. u \<noteq> 0) (path @ [0]) = path"
    using assms(4) by (induction path) auto
  ultimately show ?thesis
    using assms(3,5) by (auto simp: read_unicode_property_def split: prod.splits option.splits)
qed

lemma detects_iff:
  assumes "reports_image os er (kernel_image_path dir name)" and "length (kernel_image_path dir name) < 2 ^ 30"
    and "0 \<notin> set (kernel_image_path dir name)" and "utf16_valid (kernel_image_path dir name)"
    and "kernel_dir dir" and "plain_name name"
  shows "detects os er w \<longleftrightarrow> is_process_start er \<and> map ascii_lower name = units_of ''shutdown.exe''"
proof -
  have lower: "map ascii_lower SHUTDOWN_IMAGE_NAME = units_of ''shutdown.exe''" by code_simp
  have "fst (read_unicode_property os er ''ImageName'' w) = Some (kernel_image_path dir name)"
    using assms by (intro read_reported_image) (simp_all add: kernel_image_path_def)
  then show ?thesis
    using basename_of_image [OF assms(5,6)] by (simp add: detects_def eq_ignore_ascii_case_def lower)
qed

text \<open>C11. Layer 2 reacts to \<^verbatim>\<open>shutdown.exe\<close> and to nothing else. For an event whose image path
  Windows reports as a rooted kernel path in valid UTF-16 ending in the file name \<open>name\<close>: the
  shutdown privilege is asked for, exactly once, if and only if the event is a kernel process
  start and the name is \<open>shutdown.exe\<close> up to ASCII case, in whatever directory;
  \<^verbatim>\<open>AbortSystemShutdownW\<close> is called, exactly once, if and only if moreover Windows granted that
  privilege, and not at all otherwise; and the blocked-event counter moves by exactly the
  shutdowns Windows aborted.\<close>

theorem shutdown_exe_detection:
  assumes "reports_image os er (kernel_image_path dir name)" and "length (kernel_image_path dir name) < 2 ^ 30"
    and "0 \<notin> set (kernel_image_path dir name)" and "utf16_valid (kernel_image_path dir name)"
    and "kernel_dir dir" and "plain_name name"
    and "trace (process_event_record os er w) = h'"
  shows "privilege_requests h' =
           privilege_requests (trace w) +
             (if is_process_start er \<and> map ascii_lower name = units_of ''shutdown.exe'' then 1 else 0) \<and>
         abort_system_calls h' =
           abort_system_calls (trace w) +
             (if is_process_start er \<and> map ascii_lower name = units_of ''shutdown.exe'' \<and>
                 privilege_grants (trace w) < privilege_grants h' then 1 else 0) \<and>
         blocked_event_count (process_event_record os er w) - blocked_event_count w =
           of_nat (shutdowns_aborted h') - of_nat (shutdowns_aborted (trace w))"
  using process_event_outcome [of os er w] assms(7) detects_iff [OF assms(1-6), of w]
  by (auto simp: uncounted_def one_abort_def event_frame_def algebra_simps split: if_splits)

text \<open>A start of \<open>\Device\HarddiskVolume3\Windows\SHUTDOWN.EXE\<close>.\<close>

definition sample_event :: event_record where
  "sample_event = \<lparr>er_identity = 1, er_provider_id = KERNEL_PROCESS_PROVIDER_GUID, er_id = 1, er_task = 1,
     er_opcode = 1, er_process_id = 4321\<rparr>"

definition sample_dir :: "u16 list" where
  "sample_dir = units_of (''Device'' @ [CHR 0x5C] @ ''HarddiskVolume3'' @ [CHR 0x5C] @ ''Windows'')"

definition event_os :: os where
  "event_os h c =
     (case c of
        Etw (TdhGetPropertySize _ p) \<Rightarrow>
          \<lparr>r_err = None, r_num = length (u16_bytes (kernel_image_path sample_dir (units_of ''SHUTDOWN.EXE'') @ [0])),
           r_text = [], r_bytes = [], r_events = []\<rparr>
      | Etw (TdhGetProperty _ p n) \<Rightarrow>
          \<lparr>r_err = None, r_num = 0, r_text = [],
           r_bytes = u16_bytes (kernel_image_path sample_dir (units_of ''SHUTDOWN.EXE'') @ [0]), r_events = []\<rparr>
      | _ \<Rightarrow> quiet_os h c)"

theorem shutdown_exe_detection_witness:
  "abort_system_calls (trace (process_event_record event_os sample_event initial_world)) = 1"
proof -
  let ?name = "units_of ''SHUTDOWN.EXE''"
  have "reports_image event_os sample_event (kernel_image_path sample_dir ?name)"
    by (simp add: reports_image_def event_os_def)
  moreover have "length (kernel_image_path sample_dir ?name) < 2 ^ 30"
    by (simp add: kernel_image_path_def sample_dir_def units_of_def)
  moreover have "0 \<notin> set (kernel_image_path sample_dir ?name)"
    "utf16_valid (kernel_image_path sample_dir ?name)" "kernel_dir sample_dir" "plain_name ?name" "map ascii_lower ?name = units_of ''shutdown.exe''"
    by code_simp+
  moreover have "is_process_start sample_event"
    by (simp add: is_process_start_def sample_event_def LAYER2_PROCESS_START_EVENT_ID_def
        LAYER2_PROCESS_START_TASK_def LAYER2_PROCESS_START_OPCODE_def)
  moreover have "is_ok (fst (enable_shutdown_privilege event_os w))" for w
    by (simp add: enable_shutdown_privilege_def with_guard_def and_then_def call_eqs Let_def event_os_def
        quiet_os_def ERROR_NOT_ALL_ASSIGNED_def)
  ultimately show ?thesis
    using shutdown_exe_detection [of event_os sample_event sample_dir ?name initial_world, OF _ _ _ _ _ _ refl]
      process_event_outcome [of event_os sample_event initial_world]
      detects_iff [of event_os sample_event sample_dir ?name initial_world]
    by (simp add: initial_world_def one_abort_def)
qed

end
