(* ===== verification/Local_Layer.thy ===== *)
theory Local_Layer
  imports Worker Etw_Events
begin

text \<open>
  \<^verbatim>\<open>blocker/local.rs\<close>, Layer 2: the ETW session, its consumer and the worker thread that sits in
  \<^verbatim>\<open>ProcessTrace\<close>. \<open>local_worker_turn\<close> is \<^verbatim>\<open>run_worker\<close> cut at that blocking call: the turn from
  \<open>Spawned\<close> runs up to it, a turn from \<open>Polling\<close> is one slice of it (events delivered, and
  possibly its return with everything after it).

  Joining waits for \<^verbatim>\<open>ProcessTrace\<close> to return. Windows documents that it does once the session
  is stopped or the consumer closed; \<open>lw_cancelled\<close> marks that the controller asked for both and
  that Windows accepted one of the two, and a slice of a cancelled trace is its last. Where Windows
  refuses both, \<^verbatim>\<open>deactivate\<close> waits until \<^verbatim>\<open>ProcessTrace\<close> returns for another reason, possibly
  for ever: \<open>local_join\<close> follows the waits that end. \<open>lw_processing\<close> is the worker's local copy of
  the handle. The consumer handle is shared between
  controller and worker through \<^verbatim>\<open>SharedProcessTraceHandle\<close>; its poison flag is a field.

  The lemmas show the invariant under every interleaving and that an ETW session or a consumer
  handle outlives a deactivation only where Windows refused to stop or close it.
\<close>

definition LAYER2_THREAD_NAME :: string where
  "LAYER2_THREAD_NAME = ''wardoff-layer2-local-shutdown''"

definition ERROR_NOT_SUPPORTED :: u32 where "ERROR_NOT_SUPPORTED = 50"
definition ERROR_PRIVILEGE_NOT_HELD :: u32 where "ERROR_PRIVILEGE_NOT_HELD = 1314"
definition ERROR_WMI_INSTANCE_NOT_FOUND :: u32 where "ERROR_WMI_INSTANCE_NOT_FOUND = 4201"

definition invalid_processtrace_handle :: nat where
  "invalid_processtrace_handle = 2 ^ 64 - 1"

subsection \<open>Errors\<close>

definition win32_error_details :: "os \<Rightarrow> u32 \<Rightarrow> string" where
  "win32_error_details os status =
     r_text (os [] (Render (Win32ErrorText status))) @ '' (code '' @ show_nat (unat status) @ '')''"

definition format_start_trace_error :: "os \<Rightarrow> u32 \<Rightarrow> string" where
  "format_start_trace_error os status =
     (if status = ERROR_ACCESS_DENIED \<or> status = ERROR_PRIVILEGE_NOT_HELD then
        ''Layer 2 could not start ETW process monitoring because this process lacks the privileges Windows requires: '' @
        win32_error_details os status
      else if status = ERROR_NOT_SUPPORTED then
        ''Layer 2 ETW process monitoring is not available on this Windows configuration: '' @
        win32_error_details os status
      else if status = ERROR_ALREADY_EXISTS then
        ''Layer 2 found an unexpected existing ETW session with the same name and will stay inactive: '' @
        win32_error_details os status
      else
        ''Layer 2 could not start its ETW process monitoring session and will stay inactive: '' @
        win32_error_details os status)"

subsection \<open>State\<close>

record shared_process_trace_handle =
  pth_handle :: "nat option"
  pth_poisoned :: bool

record local_shutdown_worker =
  lw_session_name :: string
  lw_process_handle :: shared_process_trace_handle
  lw_cancelled :: bool
  lw_processing :: nat
  lw_phase :: worker_phase

record local_shutdown_blocker =
  lb_worker :: "local_shutdown_worker option"
  lb_active_state :: bool

record local_trace_subscription =
  lt_session_name :: string
  lt_process_handle :: shared_process_trace_handle

definition local_default :: local_shutdown_blocker where
  "local_default = \<lparr>lb_worker = None, lb_active_state = False\<rparr>"

subsection \<open>\<^verbatim>\<open>SharedProcessTraceHandle\<close> and the trace session\<close>

definition handle_new :: "nat \<Rightarrow> shared_process_trace_handle" where
  "handle_new h = \<lparr>pth_handle = Some h, pth_poisoned = False\<rparr>"

definition raw_handle :: "shared_process_trace_handle \<Rightarrow> nat res" where
  "raw_handle p =
     (if pth_poisoned p then Inl ''Layer 2 ETW consumer handle lock was poisoned.''
      else case pth_handle p of
        Some h \<Rightarrow> Inr h
      | None \<Rightarrow> Inl ''Layer 2 ETW consumer handle was already closed.'')"

definition handle_close :: "os \<Rightarrow> (shared_process_trace_handle \<times> world, string, bool) prog" where
  "handle_close os = (\<lambda>(p, w).
     if pth_poisoned p then (Inl ''Layer 2 ETW consumer handle lock was poisoned.'', (p, w))
     else case pth_handle p of
       None \<Rightarrow> (Inr False, (p, w))
     | Some h \<Rightarrow>
         let p = p\<lparr>pth_handle := None\<rparr>;
             ((close_status, _), w) = call_status os (Etw (CloseTrace h)) w
         in if close_status = 0 \<or> close_status = ERROR_WMI_INSTANCE_NOT_FOUND then (Inr True, (p, w))
            else (Inl (''Windows returned '' @ win32_error_details os close_status @
                    '' while closing the Layer 2 ETW consumer handle.''), (p, w)))"

definition stop_trace_session :: "os \<Rightarrow> string \<Rightarrow> (world, string, unit) prog" where
  "stop_trace_session os session_name w =
     (let ((status, _), w) = call_status os (Etw (ControlTraceStop session_name)) w in
      if status = 0 \<or> status = ERROR_WMI_INSTANCE_NOT_FOUND then (Inr (), w)
      else (Inl (''Windows returned '' @ win32_error_details os status @
              '' while stopping the Layer 2 ETW session.''), w))"

definition build_session_name :: "os \<Rightarrow> world \<Rightarrow> string \<times> world" where
  "build_session_name os w =
     (let (timestamp, w) = call_value os (Clock SystemTimeMillis) w;
          (pid, w) = call_value os (Clock ProcessId) w
      in (''Wardoff-Layer2-Local-'' @ show_nat pid @ ''-'' @ show_nat timestamp, w))"

definition trace_start :: "os \<Rightarrow> string \<Rightarrow> (world, string, local_trace_subscription) prog" where
  "trace_start os session_name w =
     (let ((start_status, r), w) = call_status os (Etw (StartTraceW session_name)) w in
      if start_status \<noteq> 0 then (Inl (format_start_trace_error os start_status), w)
      else
        let ((enable_status, _), w) = call_status os (Etw (EnableTraceEx2 (r_num r))) w in
        if enable_status \<noteq> 0 then
          (Inl (''Layer 2 could not enable the Microsoft-Windows-Kernel-Process provider for ETW monitoring: '' @
             win32_error_details os enable_status),
           snd (stop_trace_session os session_name w))
        else
          let (process_handle, w) = call_value os (Etw (OpenTraceW session_name)) w in
          if process_handle = invalid_processtrace_handle then
            let (open_error, w) = call_error os (Token ErrorFromThread) w in
            (Inl (''Layer 2 could not open its real-time ETW consumer: '' @ err_text open_error),
             snd (stop_trace_session os session_name w))
          else
            (Inr \<lparr>lt_session_name = session_name, lt_process_handle = handle_new process_handle\<rparr>, w))"

definition trace_shutdown :: "os \<Rightarrow> local_trace_subscription \<Rightarrow> (world, string, unit) prog" where
  "trace_shutdown os sub w =
     (let (_, (_, w)) = handle_close os (lt_process_handle sub, w)
      in stop_trace_session os (lt_session_name sub) w)"

subsection \<open>The worker thread\<close>

definition set_local_worker :: "local_shutdown_worker \<Rightarrow> local_shutdown_blocker \<Rightarrow> local_shutdown_blocker" where
  "set_local_worker k b = b\<lparr>lb_worker := Some k\<rparr>"

text \<open>After \<^verbatim>\<open>ProcessTrace\<close> returned: close, stop, log, and drop the active guard.\<close>

definition local_finish ::
    "os \<Rightarrow> local_shutdown_worker \<Rightarrow> u32 \<Rightarrow> local_shutdown_blocker \<times> world \<Rightarrow> local_shutdown_blocker \<times> world" where
  "local_finish os k process_status = (\<lambda>(b, w).
     let (_, (p, w)) = handle_close os (lw_process_handle k, w);
         (_, w) = stop_trace_session os (lw_session_name k) w;
         w = (if process_status = 0 \<or> process_status = ERROR_WMI_INSTANCE_NOT_FOUND then
                log_event os ''local_layer_disabled'' Src_Local
                  ''Layer 2 stopped ETW monitoring as Block mode ended.'' True w
              else
                log_event os ''local_layer_disabled'' Src_Local
                  (''Layer 2 ETW monitoring stopped unexpectedly after ProcessTrace returned '' @
                   win32_error_details os process_status @ ''.'') False w)
     in (set_local_worker (k\<lparr>lw_process_handle := p, lw_phase := Finished\<rparr>)
           (b\<lparr>lb_active_state := False\<rparr>), w))"

definition local_worker_turn ::
    "os \<Rightarrow> local_shutdown_blocker \<times> world \<Rightarrow> local_shutdown_blocker \<times> world" where
  "local_worker_turn os = (\<lambda>(b, w).
     case lb_worker b of
       None \<Rightarrow> (b, w)
     | Some k \<Rightarrow>
         (case lw_phase k of
            Spawned \<Rightarrow>
              (case raw_handle (lw_process_handle k) of
                 Inl message \<Rightarrow>
                   let w = log_event os ''local_layer_disabled'' Src_Local message False w;
                       (_, w) = stop_trace_session os (lw_session_name k) w
                   in (set_local_worker (k\<lparr>lw_phase := Finished\<rparr>) b, w)
               | Inr process_handle \<Rightarrow>
                   (set_local_worker (k\<lparr>lw_processing := process_handle, lw_phase := Polling\<rparr>) (b\<lparr>lb_active_state := True\<rparr>),
                    log_event os ''local_layer_enabled'' Src_Local
                      ''Layer 2 confirmed shutdown-abort capability, started ETW process-start monitoring for local shutdown.exe launches, and will attempt AbortSystemShutdownW(None) when it detects one.''
                      True w))
          | Polling \<Rightarrow>
              (let (r, w) = syscall os (Etw (ProcessTrace (lw_processing k))) w;
                   w = fold (handle_event_record os) (map Some (r_events r)) w
               in case r_err r of
                    Some e \<Rightarrow> local_finish os k (err_code e) (b, w)
                  | None \<Rightarrow> if lw_cancelled k then local_finish os k 0 (b, w) else (b, w))
          | Finished \<Rightarrow> (b, w)))"

subsection \<open>\<^verbatim>\<open>LocalShutdownBlocker\<close>\<close>

definition cleanup_finished_worker ::
    "os \<Rightarrow> local_shutdown_blocker \<times> world \<Rightarrow> local_shutdown_blocker \<times> world" where
  "cleanup_finished_worker os = (\<lambda>(b, w).
     case lb_worker b of
       None \<Rightarrow> (b, w)
     | Some k \<Rightarrow>
         if lw_phase k \<noteq> Finished then (b, w)
         else (b\<lparr>lb_worker := None\<rparr>, snd (call_unit os (Thread (JoinThread LAYER2_THREAD_NAME)) w)))"

definition local_activate :: "os \<Rightarrow> (local_shutdown_blocker \<times> world, string, unit) prog" where
  "local_activate os s =
     (let (b, w) = cleanup_finished_worker os s in
      if lb_worker b \<noteq> None then (Inr (), (b, w))
      else case preflight_shutdown_abort_capability os w of
        (Cap_AccessDenied details, w) \<Rightarrow>
          (Inr (), (b, log_event os ''local_layer_unavailable'' Src_Local
             (''Layer 2 local shutdown protection will stay inactive because this process lacks the shutdown-abort privilege required to cancel shutdown.exe launches: '' @ details)
             False w))
      | (Cap_Failed details, w) \<Rightarrow>
          (Inr (), (b, log_event os ''local_layer_unavailable'' Src_Local
             (''Layer 2 local shutdown protection will stay inactive because Wardoff could not verify the shutdown-abort capability required before starting ETW monitoring: '' @ details)
             False w))
      | (Cap_Available, w) \<Rightarrow>
          let (session_name, w) = build_session_name os w in
          (case trace_start os session_name w of
             (Inl message, w) \<Rightarrow>
               (Inr (), (b, log_event os ''local_layer_unavailable'' Src_Local message False w))
           | (Inr sub, w) \<Rightarrow>
               (case call_unit os (Thread (SpawnThread LAYER2_THREAD_NAME)) w of
                  (Inr _, w) \<Rightarrow>
                    (Inr (), (set_local_worker
                       \<lparr>lw_session_name = session_name, lw_process_handle = lt_process_handle sub,
                        lw_cancelled = False, lw_processing = 0, lw_phase = Spawned\<rparr> b, w))
                | (Inl error, w) \<Rightarrow>
                    (Inl (''Layer 2 could not start its ETW worker thread: '' @ err_text error),
                     (b, snd (trace_shutdown os sub w))))))"

definition cancel_trace_processing ::
    "os \<Rightarrow> (local_shutdown_worker \<times> world, string, unit) prog" where
  "cancel_trace_processing os = (\<lambda>(k, w).
     case handle_close os (lw_process_handle k, w) of
       (Inl error, (p, w)) \<Rightarrow> (Inl error, (k\<lparr>lw_process_handle := p\<rparr>, w))
     | (Inr _, (p, w)) \<Rightarrow> (Inr (), (k\<lparr>lw_process_handle := p\<rparr>, w)))"

text \<open>The end of \<^verbatim>\<open>deactivate\<close>: joining the worker. A cancelled worker ends within two turns. One
  that Windows would not cancel sits in \<^verbatim>\<open>ProcessTrace\<close> until that returns by itself, which
  \<open>local_await\<close> takes to happen.\<close>

definition local_await ::
    "os \<Rightarrow> local_shutdown_blocker \<times> world \<Rightarrow> local_shutdown_blocker \<times> world" where
  "local_await os s =
     (let (b, w) = run_to_end (local_worker_turn os) s in
      case lb_worker b of
        None \<Rightarrow> (b, w)
      | Some k \<Rightarrow>
          if lw_phase k = Finished then (b, w)
          else run_to_end (local_worker_turn os) (set_local_worker (k\<lparr>lw_cancelled := True\<rparr>) b, w))"

definition local_join ::
    "os \<Rightarrow> local_shutdown_blocker \<times> world \<Rightarrow> local_shutdown_blocker \<times> world" where
  "local_join os s =
     (let (b, w) = local_await os s;
          (joined, w) = call_unit os (Thread (JoinThread LAYER2_THREAD_NAME)) w;
          w = (if is_err joined then
                 log_event os ''local_layer_disabled'' Src_Local
                   ''Layer 2 worker thread panicked while stopping.'' False w
               else w)
      in (b\<lparr>lb_worker := None\<rparr>, w))"

definition local_deactivate ::
    "os \<Rightarrow> local_shutdown_blocker \<times> world \<Rightarrow> local_shutdown_blocker \<times> world" where
  "local_deactivate os s =
     (let (b, w) = cleanup_finished_worker os s in
      case lb_worker b of
        None \<Rightarrow> (b, w)
      | Some k \<Rightarrow>
          let b = b\<lparr>lb_active_state := False\<rparr>;
              (stopped, w) = stop_trace_session os (lw_session_name k) w;
              w = (case stopped of
                     Inl error \<Rightarrow>
                       log_event os ''local_layer_disabled'' Src_Local
                         (''Layer 2 could not stop its ETW session cleanly: '' @ error) False w
                   | Inr _ \<Rightarrow> w);
              (cancelled, (k, w)) = cancel_trace_processing os (k, w);
              w = (case cancelled of
                     Inl error \<Rightarrow>
                       log_event os ''local_layer_disabled'' Src_Local
                         (''Layer 2 could not close its ETW consumer handle while stopping: '' @ error) False w
                   | Inr _ \<Rightarrow> w)
          in local_join os (set_local_worker (k\<lparr>lw_cancelled := is_ok stopped \<or> is_ok cancelled\<rparr>) b, w))"

definition local_is_active :: "local_shutdown_blocker \<Rightarrow> bool" where
  "local_is_active b = lb_active_state b"

fun local_event :: "os \<Rightarrow> layer_event \<Rightarrow> local_shutdown_blocker \<times> world \<Rightarrow> local_shutdown_blocker \<times> world" where
  "local_event os Ev_Activate s = snd (local_activate os s)"
| "local_event os Ev_Deactivate s = local_deactivate os s"
| "local_event os Ev_Forced_Cleanup s = s"
| "local_event os Ev_Worker_Turn s = local_worker_turn os s"

subsection \<open>Sessions and consumers held, read off the history\<close>

definition succeeded :: "reply \<Rightarrow> bool" where
  "succeeded r \<longleftrightarrow> (case r_err r of None \<Rightarrow> True | Some e \<Rightarrow> err_code e = 0)"

text \<open>Windows ended a session or a consumer, or knew of none.\<close>

definition gone :: "reply \<Rightarrow> bool" where
  "gone r \<longleftrightarrow> (case r_err r of None \<Rightarrow> True | Some e \<Rightarrow> err_code e = 0 \<or> err_code e = ERROR_WMI_INSTANCE_NOT_FOUND)"

fun etw_sessions :: "history \<Rightarrow> string set" where
  "etw_sessions [] = {}"
| "etw_sessions ((c, r) # h) =
     (case c of
        Etw (StartTraceW n) \<Rightarrow> (if succeeded r then insert n (etw_sessions h) else etw_sessions h)
      | Etw (ControlTraceStop n) \<Rightarrow> (if gone r then etw_sessions h - {n} else etw_sessions h)
      | _ \<Rightarrow> etw_sessions h)"

fun etw_consumers :: "history \<Rightarrow> nat set" where
  "etw_consumers [] = {}"
| "etw_consumers ((c, r) # h) =
     (case c of
        Etw (OpenTraceW _) \<Rightarrow>
          (if r_num r \<noteq> invalid_processtrace_handle then insert (r_num r) (etw_consumers h) else etw_consumers h)
      | Etw (CloseTrace n) \<Rightarrow> (if gone r then etw_consumers h - {n} else etw_consumers h)
      | _ \<Rightarrow> etw_consumers h)"

text \<open>Sessions whose last stop request since they were started, and consumers whose last close
  request since they were opened, Windows refused.\<close>

fun refused_stops :: "history \<Rightarrow> string set" where
  "refused_stops [] = {}"
| "refused_stops ((c, r) # h) =
     (case c of
        Etw (StartTraceW n) \<Rightarrow> (if succeeded r then refused_stops h - {n} else refused_stops h)
      | Etw (ControlTraceStop n) \<Rightarrow> (if gone r then refused_stops h - {n} else insert n (refused_stops h))
      | _ \<Rightarrow> refused_stops h)"

fun refused_closes :: "history \<Rightarrow> nat set" where
  "refused_closes [] = {}"
| "refused_closes ((c, r) # h) =
     (case c of
        Etw (OpenTraceW _) \<Rightarrow>
          (if r_num r \<noteq> invalid_processtrace_handle then refused_closes h - {r_num r} else refused_closes h)
      | Etw (CloseTrace n) \<Rightarrow> (if gone r then refused_closes h - {n} else insert n (refused_closes h))
      | _ \<Rightarrow> refused_closes h)"

fun etw_neutral :: "sys_call \<Rightarrow> bool" where
  "etw_neutral (Etw (StartTraceW _)) = False"
| "etw_neutral (Etw (ControlTraceStop _)) = False"
| "etw_neutral (Etw (OpenTraceW _)) = False"
| "etw_neutral (Etw (CloseTrace _)) = False"
| "etw_neutral _ = True"

text \<open>What is held and was not refused: the resources somebody still has to release.\<close>

definition held_sessions :: "history \<Rightarrow> string set" where
  "held_sessions h = etw_sessions h - refused_stops h"

definition held_consumers :: "history \<Rightarrow> nat set" where
  "held_consumers h = etw_consumers h - refused_closes h"

definition etw_held :: "history \<Rightarrow> string set \<times> nat set" where
  "etw_held h = (held_sessions h, held_consumers h)"

lemma held_calls [simp]:
  "held_sessions ((Etw (StartTraceW n), r) # h) =
     (if succeeded r then insert n (held_sessions h) else held_sessions h)"
  "held_sessions ((Etw (ControlTraceStop n), r) # h) = held_sessions h - {n}"
  "held_consumers ((Etw (OpenTraceW n), r) # h) =
     (if r_num r \<noteq> invalid_processtrace_handle then insert (r_num r) (held_consumers h) else held_consumers h)"
  "held_consumers ((Etw (CloseTrace m), r) # h) = held_consumers h - {m}"
  by (auto simp: held_sessions_def held_consumers_def)

lemma held_other [simp]:
  "held_consumers ((Etw (StartTraceW n), r) # h) = held_consumers h"
  "held_consumers ((Etw (ControlTraceStop n), r) # h) = held_consumers h"
  "held_consumers ((Etw (EnableTraceEx2 m), r) # h) = held_consumers h"
  "held_sessions ((Etw (EnableTraceEx2 m), r) # h) = held_sessions h"
  "held_sessions ((Etw (OpenTraceW n), r) # h) = held_sessions h"
  "held_sessions ((Etw (CloseTrace m), r) # h) = held_sessions h"
  "held_sessions ((Token c, r) # h) = held_sessions h" "held_consumers ((Token c, r) # h) = held_consumers h"
  "held_sessions ((Thread d, r) # h) = held_sessions h" "held_consumers ((Thread d, r) # h) = held_consumers h"
  "held_sessions ((Clock e, r) # h) = held_sessions h" "held_consumers ((Clock e, r) # h) = held_consumers h"
  by (simp_all add: held_sessions_def held_consumers_def)

lemma etw_neutral_step: "etw_neutral c \<Longrightarrow> etw_held ((c, r) # h) = etw_held h"
  by (cases c rule: etw_neutral.cases) (simp_all add: etw_held_def held_sessions_def held_consumers_def)

lemma etw_neutral_held: "only_calls etw_neutral w w' \<Longrightarrow> etw_held (trace w') = etw_held (trace w)"
  using only_calls_ledger [of etw_neutral w w' etw_held] etw_neutral_step by blast

lemma abort_neutral: "abort_call c \<Longrightarrow> etw_neutral c"
  by (cases c rule: abort_call.cases) simp_all

lemma preflight_neutral: "only_calls etw_neutral w (snd (preflight_shutdown_abort_capability os w))"
  by (rule only_calls_mono [OF preflight_calls abort_neutral])

lemma abort_pending_neutral: "only_calls etw_neutral w (snd (abort_pending_shutdown os w))"
  by (rule only_calls_mono [OF abort_calls abort_neutral])

lemma read_property_neutral: "only_calls etw_neutral w (snd (read_property_bytes os er p w))"
  by (simp add: read_property_bytes_def call_status_eq Let_def)

lemma read_neutral:
  "only_calls etw_neutral w (snd (read_unicode_property os er p w))"
  "only_calls etw_neutral w (snd (read_u32_property os er p w))"
  using read_property_neutral [of w os er p]
  by (auto simp: read_unicode_property_def read_u32_property_def split: prod.splits option.splits)

lemma process_event_neutral: "only_calls etw_neutral w (process_event_record os er w)"
proof -
  obtain i w1 where i: "read_unicode_property os er ''ImageName'' w = (i, w1)"
    by (cases "read_unicode_property os er ''ImageName'' w")
  obtain p1 w2 where p1: "read_u32_property os er ''ProcessID'' w1 = (p1, w2)"
    by (cases "read_u32_property os er ''ProcessID'' w1")
  obtain p2 w3 where p2: "read_u32_property os er ''ParentProcessID'' w2 = (p2, w3)"
    by (cases "read_u32_property os er ''ParentProcessID'' w2")
  have w1: "only_calls etw_neutral w w1" using read_neutral(1) [of w os er "''ImageName''"] i by simp
  then have w3: "only_calls etw_neutral w w3"
    using read_neutral(2) [of w1 os er "''ProcessID''"] read_neutral(2) [of w2 os er "''ParentProcessID''"] p1 p2
    by (metis only_calls_trans snd_conv)
  have ab: "only_calls etw_neutral w w5" if "abort_pending_shutdown os (log_event os e s a b w3) = (r, w5)"
    for e s a b r w5
    using abort_pending_neutral [of "log_event os e s a b w3" os] that w3 by (auto intro: only_calls_trans)
  have rec: "only_calls etw_neutral w (record_blocked_event w5) = only_calls etw_neutral w w5" for w5
    by (simp add: only_calls_def)
  show ?thesis
    using i p1 p2 w1
    by (auto simp: process_event_record_def Let_def rec split: option.splits prod.splits
        shutdown_abort_outcome.splits dest: ab)
qed

text \<open>Events are delivered one after the other.\<close>

lemma deliver_frame:
  "control (fold (handle_event_record os) ers w) = control w \<and>
   uncounted (fold (handle_event_record os) ers w) = uncounted w \<and>
   etw_held (trace (fold (handle_event_record os) ers w)) = etw_held (trace w)"
proof (induction ers arbitrary: w)
  case (Cons er ers)
  have "etw_held (trace (handle_event_record os er w)) = etw_held (trace w)"
    using etw_neutral_held [OF process_event_neutral] by (simp add: handle_event_record_def split: option.split)
  moreover have "control (handle_event_record os er w) = control w" "uncounted (handle_event_record os er w) = uncounted w"
    by (simp_all add: handle_event_record_def split: option.split)
  ultimately show ?case using Cons.IH by simp
qed simp

subsection \<open>Invariant\<close>

definition local_inv :: "local_shutdown_blocker \<Rightarrow> bool" where
  "local_inv b \<longleftrightarrow>
     (lb_active_state b \<longrightarrow> (\<exists>k. lb_worker b = Some k \<and> lw_phase k = Polling)) \<and>
     (\<forall>k. lb_worker b = Some k \<longrightarrow> \<not> pth_poisoned (lw_process_handle k) \<and>
        (lw_phase k = Finished \<longrightarrow> pth_handle (lw_process_handle k) = None))"

definition local_idle :: "local_shutdown_blocker \<Rightarrow> bool" where
  "local_idle b \<longleftrightarrow> lb_worker b = None"

definition own_sessions :: "local_shutdown_blocker \<Rightarrow> string set" where
  "own_sessions b =
     (case lb_worker b of Some k \<Rightarrow> (if lw_phase k = Finished then {} else {lw_session_name k}) | None \<Rightarrow> {})"

definition own_consumers :: "local_shutdown_blocker \<Rightarrow> nat set" where
  "own_consumers b =
     (case lb_worker b of Some k \<Rightarrow> set_option (pth_handle (lw_process_handle k)) | None \<Rightarrow> {})"

text \<open>Beyond what was held at \<open>w0\<close>, only the live worker's session and consumer are held, and what
  Windows refused to give back.\<close>

definition local_accounted :: "world \<Rightarrow> local_shutdown_blocker \<times> world \<Rightarrow> bool" where
  "local_accounted w0 s \<longleftrightarrow>
     held_sessions (trace (snd s)) \<subseteq> etw_sessions (trace w0) \<union> own_sessions (fst s) \<and>
     held_consumers (trace (snd s)) \<subseteq> etw_consumers (trace w0) \<union> own_consumers (fst s)"

definition local_ok :: "world \<Rightarrow> local_shutdown_blocker \<times> world \<Rightarrow> local_shutdown_blocker \<times> world \<Rightarrow> bool" where
  "local_ok w0 s s' \<longleftrightarrow> local_inv (fst s') \<and> (local_accounted w0 s \<longrightarrow> local_accounted w0 s') \<and>
     control (snd s') = control (snd s) \<and> uncounted (snd s') = uncounted (snd s)"

lemma local_ok_trans: "local_ok w0 s s' \<Longrightarrow> local_ok w0 s' s'' \<Longrightarrow> local_ok w0 s s''"
  by (simp add: local_ok_def)

lemma local_ok_refl: "local_inv (fst s) \<Longrightarrow> local_ok w0 s s"
  by (simp add: local_ok_def)

lemma handle_close_outcome:
  assumes "handle_close os (p, w) = (r, (p', w'))" and "\<not> pth_poisoned p"
  shows "p' = p\<lparr>pth_handle := None\<rparr> \<and> held_sessions (trace w') = held_sessions (trace w) \<and>
     held_consumers (trace w') = held_consumers (trace w) - set_option (pth_handle p) \<and>
     control w' = control w \<and> uncounted w' = uncounted w"
  using assms
  by (cases "pth_handle p") (auto simp: handle_close_def call_status_eq Let_def split: if_splits)

lemma stop_trace_outcome:
  assumes "stop_trace_session os n w = (r, w')"
  shows "held_sessions (trace w') = held_sessions (trace w) - {n} \<and>
     held_consumers (trace w') = held_consumers (trace w) \<and> control w' = control w \<and> uncounted w' = uncounted w"
  using assms
  by (auto simp: stop_trace_session_def call_status_eq Let_def split: if_splits)

lemma local_finish_ok:
  assumes k: "lb_worker b = Some k" "\<not> pth_poisoned (lw_process_handle k)" "lw_phase k = Polling"
    and w: "control w1 = control w" "uncounted w1 = uncounted w" "etw_held (trace w1) = etw_held (trace w)"
  shows "local_ok w0 (b, w) (local_finish os k st (b, w1))"
proof -
  obtain r p w2 where c: "handle_close os (lw_process_handle k, w1) = (r, (p, w2))" by (metis surj_pair)
  obtain r' w3 where s: "stop_trace_session os (lw_session_name k) w2 = (r', w3)"
    by (cases "stop_trace_session os (lw_session_name k) w2")
  note c' = handle_close_outcome [OF c k(2)] and s' = stop_trace_outcome [OF s]
  obtain w4 where f: "local_finish os k st (b, w1) =
      (set_local_worker (k\<lparr>lw_process_handle := p, lw_phase := Finished\<rparr>) (b\<lparr>lb_active_state := False\<rparr>), w4)"
      "trace w4 = trace w3" "control w4 = control w3" "uncounted w4 = uncounted w3"
    using c s by (auto simp: local_finish_def Let_def)
  have "local_accounted w0 (local_finish os k st (b, w1))" if "local_accounted w0 (b, w)"
    using that f c' s' k w
    by (auto simp: local_accounted_def own_sessions_def own_consumers_def set_local_worker_def etw_held_def)
  then show ?thesis
    using f c' s' k w by (auto simp: local_ok_def local_inv_def set_local_worker_def)
qed

lemma local_turn_ok:
  assumes inv: "local_inv b"
  shows "local_ok w0 (b, w) (local_worker_turn os (b, w))"
proof (cases "lb_worker b")
  case None
  with inv show ?thesis by (simp add: local_worker_turn_def local_ok_refl)
next
  case (Some k)
  have np: "\<not> pth_poisoned (lw_process_handle k)" using inv Some by (simp add: local_inv_def)
  show ?thesis
  proof (cases "lw_phase k")
    case Spawned
    obtain r w1 where s: "stop_trace_session os (lw_session_name k)
        (log_event os ''local_layer_disabled'' Src_Local ''Layer 2 ETW consumer handle was already closed.'' False w) = (r, w1)"
      by (metis surj_pair)
    note s' = stop_trace_outcome [OF s]
    show ?thesis
    proof (cases "pth_handle (lw_process_handle k)")
      case None
      with Some Spawned s s' np inv show ?thesis
        by (auto simp: local_worker_turn_def raw_handle_def local_ok_def local_inv_def local_accounted_def
            own_sessions_def own_consumers_def set_local_worker_def)
    next
      case handle: (Some h)
      with Some Spawned np inv show ?thesis
        by (auto simp: local_worker_turn_def raw_handle_def local_ok_def local_inv_def local_accounted_def
            own_sessions_def own_consumers_def set_local_worker_def)
    qed
  next
    case Polling
    let ?c = "Etw (ProcessTrace (lw_processing k))"
    let ?w1 = "fold (handle_event_record os) (map Some (r_events (os (trace w) ?c))) (snd (syscall os ?c w))"
    have w1: "control ?w1 = control w" "uncounted ?w1 = uncounted w" "etw_held (trace ?w1) = etw_held (trace w)"
      using deliver_frame [of os _ "snd (syscall os ?c w)"] by (simp_all add: etw_neutral_step)
    then have "local_ok w0 (b, w) (b, ?w1)"
      using inv by (auto simp: local_ok_def local_accounted_def etw_held_def)
    with local_finish_ok [OF Some np Polling w1] Polling Some show ?thesis
      by (simp add: local_worker_turn_def case_prod_beta Let_def split: option.split)
  next
    case Finished
    with inv Some show ?thesis by (simp add: local_worker_turn_def local_ok_refl)
  qed
qed

subsection \<open>Joining, and the layer's contract\<close>

definition local_phase :: "local_shutdown_blocker \<times> world \<Rightarrow> worker_phase" where
  "local_phase s = (case lb_worker (fst s) of None \<Rightarrow> Finished | Some k \<Rightarrow> lw_phase k)"

definition local_stopping :: "local_shutdown_blocker \<times> world \<Rightarrow> bool" where
  "local_stopping s = (case lb_worker (fst s) of None \<Rightarrow> True | Some k \<Rightarrow> lw_cancelled k)"

lemma local_finish_worker:
  "lb_worker (fst (local_finish os k st (b, w))) =
     Some (k\<lparr>lw_process_handle := fst (snd (handle_close os (lw_process_handle k, w))), lw_phase := Finished\<rparr>)"
  by (simp add: local_finish_def set_local_worker_def case_prod_beta Let_def)

interpretation local_thread: stoppable_worker "local_worker_turn os" local_phase local_stopping
proof
  fix t :: "local_shutdown_blocker \<times> world"
  obtain b w where t: "t = (b, w)" by (cases t)
  show "local_stopping t \<Longrightarrow> local_stopping (local_worker_turn os t)"
    using local_finish_worker [of os]
    by (auto simp: t local_stopping_def local_worker_turn_def set_local_worker_def case_prod_beta Let_def
        split: option.splits worker_phase.splits sum.splits)
  show "local_phase t = Spawned \<Longrightarrow> local_phase (local_worker_turn os t) \<noteq> Spawned"
    by (auto simp: t local_phase_def local_worker_turn_def set_local_worker_def case_prod_beta Let_def
        split: option.splits sum.splits)
  show "local_phase t = Polling \<Longrightarrow> local_stopping t \<Longrightarrow> local_phase (local_worker_turn os t) = Finished"
    by (auto simp: t local_phase_def local_stopping_def local_worker_turn_def case_prod_beta Let_def
        local_finish_worker split: option.splits)
  show "local_phase t = Finished \<Longrightarrow> local_worker_turn os t = t"
    by (auto simp: t local_phase_def local_worker_turn_def split: option.splits)
qed

lemma cleanup_ok:
  assumes "local_inv b"
  shows "local_ok w0 (b, w) (cleanup_finished_worker os (b, w))"
  using assms
  by (auto simp: cleanup_finished_worker_def local_ok_def local_inv_def local_accounted_def own_sessions_def
      own_consumers_def split: option.splits)

text \<open>Asking a live worker to stop, then joining it.\<close>

lemma local_deactivate_live:
  assumes "cleanup_finished_worker os s = (b, w)" and "lb_worker b = Some k"
    and "stop_trace_session os (lw_session_name k) w = (sr, w1)"
    and "handle_close os (lw_process_handle k,
        case sr of Inl error \<Rightarrow> log_event os ''local_layer_disabled'' Src_Local
          (''Layer 2 could not stop its ETW session cleanly: '' @ error) False w1 | Inr _ \<Rightarrow> w1) = (cr, (p, w3))"
  obtains w4 where "trace w4 = trace w3" "control w4 = control w3" "uncounted w4 = uncounted w3"
    "local_deactivate os s = local_join os
       (set_local_worker (k\<lparr>lw_process_handle := p, lw_cancelled := is_ok sr \<or> is_ok cr\<rparr>)
          (b\<lparr>lb_active_state := False\<rparr>), w4)"
proof (cases cr)
  case (Inl e)
  show thesis
    by (rule that [of "log_event os ''local_layer_disabled'' Src_Local
          (''Layer 2 could not close its ETW consumer handle while stopping: '' @ e) False w3"])
      (use assms Inl in \<open>simp_all add: local_deactivate_def cancel_trace_processing_def\<close>)
next
  case (Inr u)
  show thesis
    by (rule that [of w3]) (use assms Inr in \<open>simp_all add: local_deactivate_def cancel_trace_processing_def\<close>)
qed

lemma local_stop_ok:
  assumes inv: "local_inv b" and k: "lb_worker b = Some k" "lw_phase k \<noteq> Finished"
    and s: "stop_trace_session os (lw_session_name k) w = (sr, w1)"
    and w2: "trace w2 = trace w1" "control w2 = control w1" "uncounted w2 = uncounted w1"
    and c: "handle_close os (lw_process_handle k, w2) = (cr, (p, w3))"
    and w4: "trace w4 = trace w3" "control w4 = control w3" "uncounted w4 = uncounted w3"
  shows "local_ok w0 (b, w)
     (set_local_worker (k\<lparr>lw_process_handle := p, lw_cancelled := accepted\<rparr>) (b\<lparr>lb_active_state := False\<rparr>), w4)"
proof -
  have np: "\<not> pth_poisoned (lw_process_handle k)" using inv k by (simp add: local_inv_def)
  note s' = stop_trace_outcome [OF s] and c' = handle_close_outcome [OF c np]
  show ?thesis
    using s' c' w2 w4 k np
    by (auto simp: local_ok_def local_inv_def local_accounted_def own_sessions_def own_consumers_def
        set_local_worker_def)
qed

lemma local_run_ok:
  assumes "local_inv b"
  shows "local_ok w0 (b, w) (run_to_end (local_worker_turn os) (b, w))"
proof -
  obtain b1 w1 where t: "local_worker_turn os (b, w) = (b1, w1)" by (cases "local_worker_turn os (b, w)")
  from local_turn_ok [OF assms, of w0 w os] t have ok: "local_ok w0 (b, w) (b1, w1)" by simp
  then have "local_ok w0 (b1, w1) (local_worker_turn os (b1, w1))"
    by (intro local_turn_ok) (simp add: local_ok_def)
  with ok t show ?thesis by (simp add: run_to_end_def local_ok_trans)
qed

lemma local_await_outcome:
  assumes inv: "local_inv b"
  shows "local_phase (local_await os (b, w)) = Finished \<and> local_ok w0 (b, w) (local_await os (b, w))"
proof -
  obtain b1 w1 where j: "run_to_end (local_worker_turn os) (b, w) = (b1, w1)"
    by (cases "run_to_end (local_worker_turn os) (b, w)")
  have ok: "local_ok w0 (b, w) (b1, w1)" using local_run_ok [OF inv, of w0 w os] j by simp
  then have inv1: "local_inv b1" by (simp add: local_ok_def)
  show ?thesis
  proof (cases "local_phase (b1, w1) = Finished")
    case True
    with j ok show ?thesis by (auto simp: local_await_def local_phase_def split: option.splits)
  next
    case False
    then obtain k where k: "lb_worker b1 = Some k" "lw_phase k \<noteq> Finished"
      by (auto simp: local_phase_def split: option.splits)
    let ?b = "set_local_worker (k\<lparr>lw_cancelled := True\<rparr>) b1"
    have inv2: "local_inv ?b" using inv1 k by (auto simp: local_inv_def set_local_worker_def)
    have mark: "local_ok w0 (b1, w1) (?b, w1)"
      using inv2 k by (simp add: local_ok_def local_accounted_def own_sessions_def own_consumers_def set_local_worker_def)
    have "local_await os (b, w) = run_to_end (local_worker_turn os) (?b, w1)"
      using j k by (simp add: local_await_def)
    moreover have "local_stopping (?b, w1)" by (simp add: local_stopping_def set_local_worker_def)
    ultimately show ?thesis
      using local_run_ok [OF inv2, of w0 w1 os] local_thread.run_to_end_finished [of "(?b, w1)" os] ok mark
      by (auto intro: local_ok_trans)
  qed
qed

text \<open>Where Windows accepted the stop or the close, joining is the worker's own last turns: nothing
  is taken for granted.\<close>

lemma local_await_cancelled:
  "local_stopping s \<Longrightarrow> local_await os s = run_to_end (local_worker_turn os) s"
  using local_thread.run_to_end_finished [of s os]
  by (auto simp: local_await_def local_phase_def split: option.splits prod.splits)

lemma local_drop_finished:
  assumes "local_inv b" and "local_phase (b, w) = Finished" and "only_calls etw_neutral w w'"
    and "control w' = control w" and "uncounted w' = uncounted w"
  shows "local_ok w0 (b, w) (b\<lparr>lb_worker := None\<rparr>, w')"
  using assms etw_neutral_held [OF assms(3)]
  by (auto simp: local_ok_def local_inv_def local_accounted_def own_sessions_def own_consumers_def
      local_phase_def etw_held_def split: option.splits)

lemma local_join_outcome:
  assumes inv: "local_inv b"
  shows "local_idle (fst (local_join os (b, w))) \<and> local_ok w0 (b, w) (local_join os (b, w))"
proof -
  obtain b1 w1 where j: "local_await os (b, w) = (b1, w1)" by (cases "local_await os (b, w)")
  have fin: "local_phase (b1, w1) = Finished" and ok: "local_ok w0 (b, w) (b1, w1)"
    using local_await_outcome [OF inv, of os w w0] j by simp_all
  obtain w2 where w2: "local_join os (b, w) = (b1\<lparr>lb_worker := None\<rparr>, w2)" "only_calls etw_neutral w1 w2"
      "control w2 = control w1" "uncounted w2 = uncounted w1"
    using j by (simp add: local_join_def call_unit_cases)
  have "local_ok w0 (b1, w1) (b1\<lparr>lb_worker := None\<rparr>, w2)"
    using ok fin w2 by (intro local_drop_finished) (simp_all add: local_ok_def)
  with ok w2(1) show ?thesis by (simp add: local_idle_def local_ok_trans)
qed

lemma local_deactivate_outcome:
  assumes inv: "local_inv b"
  shows "local_idle (fst (local_deactivate os (b, w))) \<and> local_ok w0 (b, w) (local_deactivate os (b, w))"
proof -
  obtain b1 w1 where c: "cleanup_finished_worker os (b, w) = (b1, w1)" by (cases "cleanup_finished_worker os (b, w)")
  have ok1: "local_ok w0 (b, w) (b1, w1)" using cleanup_ok [OF inv, of w0 w os] c by simp
  then have inv1: "local_inv b1" by (simp add: local_ok_def)
  show ?thesis
  proof (cases "lb_worker b1")
    case None
    with c ok1 show ?thesis by (simp add: local_deactivate_def local_idle_def)
  next
    case (Some k)
    have live: "lw_phase k \<noteq> Finished"
      using c Some by (auto simp: cleanup_finished_worker_def split: option.splits if_splits)
    obtain sr w2 where s: "stop_trace_session os (lw_session_name k) w1 = (sr, w2)"
      by (cases "stop_trace_session os (lw_session_name k) w1")
    let ?w3 = "case sr of Inl error \<Rightarrow> log_event os ''local_layer_disabled'' Src_Local
        (''Layer 2 could not stop its ETW session cleanly: '' @ error) False w2 | Inr _ \<Rightarrow> w2"
    obtain cr p w4 where h: "handle_close os (lw_process_handle k, ?w3) = (cr, (p, w4))" by (metis surj_pair)
    let ?b = "set_local_worker (k\<lparr>lw_process_handle := p, lw_cancelled := is_ok sr \<or> is_ok cr\<rparr>) (b1\<lparr>lb_active_state := False\<rparr>)"
    obtain w5 where d: "trace w5 = trace w4" "control w5 = control w4" "uncounted w5 = uncounted w4"
      and d': "local_deactivate os (b, w) = local_join os (?b, w5)"
      by (rule local_deactivate_live [OF c Some s h])
    have ok2: "local_ok w0 (b1, w1) (?b, w5)"
      by (rule local_stop_ok [OF inv1 Some live s _ _ _ h d]) (simp_all split: sum.split)
    have "local_idle (fst (local_join os (?b, w5))) \<and> local_ok w0 (?b, w5) (local_join os (?b, w5))"
      using ok2 by (intro local_join_outcome) (simp add: local_ok_def)
    with ok1 ok2 d' show ?thesis by (auto intro: local_ok_trans)
  qed
qed

lemma trace_start_outcome:
  assumes "trace_start os n w = (r, w')"
  shows "control w' = control w \<and> uncounted w' = uncounted w \<and>
     (case r of
        Inl _ \<Rightarrow> held_sessions (trace w') \<subseteq> held_sessions (trace w) \<and> held_consumers (trace w') = held_consumers (trace w)
      | Inr sub \<Rightarrow> lt_session_name sub = n \<and> \<not> pth_poisoned (lt_process_handle sub) \<and>
          held_sessions (trace w') \<subseteq> insert n (held_sessions (trace w)) \<and>
          held_consumers (trace w') \<subseteq> set_option (pth_handle (lt_process_handle sub)) \<union> held_consumers (trace w))"
proof -
  have stop: "held_sessions (trace (snd (stop_trace_session os n v))) = held_sessions (trace v) - {n} \<and>
      held_consumers (trace (snd (stop_trace_session os n v))) = held_consumers (trace v) \<and>
      control (snd (stop_trace_session os n v)) = control v \<and>
      uncounted (snd (stop_trace_session os n v)) = uncounted v" for v
    using stop_trace_outcome [of os n v] by (metis surj_pair snd_conv)
  show ?thesis
    using assms
    by (auto simp: trace_start_def call_status_eq call_eqs Let_def stop handle_new_def succeeded_def
        simp del: log_event_fields split: if_splits option.splits)
qed

lemma trace_shutdown_outcome:
  assumes "trace_shutdown os sub w = (r, w')" and "\<not> pth_poisoned (lt_process_handle sub)"
  shows "control w' = control w \<and> uncounted w' = uncounted w \<and>
     held_sessions (trace w') = held_sessions (trace w) - {lt_session_name sub} \<and>
     held_consumers (trace w') = held_consumers (trace w) - set_option (pth_handle (lt_process_handle sub))"
proof -
  obtain cr p w1 where c: "handle_close os (lt_process_handle sub, w) = (cr, (p, w1))" by (metis surj_pair)
  then have "stop_trace_session os (lt_session_name sub) w1 = (r, w')"
    using assms(1) by (simp add: trace_shutdown_def)
  from stop_trace_outcome [OF this] handle_close_outcome [OF c assms(2)] show ?thesis by simp
qed

lemma build_session_name_frame:
  assumes "build_session_name os w = (n, w')"
  shows "control w' = control w \<and> uncounted w' = uncounted w \<and> etw_held (trace w') = etw_held (trace w)"
  using assms by (auto simp: build_session_name_def call_eqs Let_def etw_held_def)

lemma preflight_frame:
  assumes "preflight_shutdown_abort_capability os w = (c, w')"
  shows "control w' = control w \<and> uncounted w' = uncounted w \<and> etw_held (trace w') = etw_held (trace w)"
  using preflight_history [of os w] etw_neutral_held [OF preflight_neutral [of w os]] assms
  by (simp add: uncounted_def statics_def control_def)

lemma local_start_ok:
  assumes none: "lb_worker b = None" and inv: "local_inv b"
    and ts: "trace_start os n w = (Inr sub, w1)"
    and sp: "call_unit os (Thread (SpawnThread LAYER2_THREAD_NAME)) w1 = (sr, w2)"
  shows "local_ok w0 (b, w)
     (if is_ok sr then
        (set_local_worker \<lparr>lw_session_name = n, lw_process_handle = lt_process_handle sub,
           lw_cancelled = False, lw_processing = 0, lw_phase = Spawned\<rparr> b, w2)
      else (b, snd (trace_shutdown os sub w2)))"
proof -
  note t = trace_start_outcome [OF ts, simplified]
  have w2: "control w2 = control w1" "uncounted w2 = uncounted w1" "held_sessions (trace w2) = held_sessions (trace w1)"
    "held_consumers (trace w2) = held_consumers (trace w1)"
    using sp by (auto simp: call_unit_cases)
  obtain r w3 where sh: "trace_shutdown os sub w2 = (r, w3)" by (cases "trace_shutdown os sub w2")
  have np: "\<not> pth_poisoned (lt_process_handle sub)" using t by simp
  note s = trace_shutdown_outcome [OF sh np]
  show ?thesis
  proof (cases "is_ok sr")
    case True
    with none inv t w2 show ?thesis
      by (auto simp: local_ok_def local_inv_def local_accounted_def own_sessions_def own_consumers_def
          set_local_worker_def)
  next
    case False
    with none inv t w2 s sh show ?thesis
      by (auto simp: local_ok_def local_accounted_def own_sessions_def own_consumers_def)
  qed
qed

lemma local_activate_outcome:
  assumes inv: "local_inv b"
  shows "local_ok w0 (b, w) (snd (local_activate os (b, w)))"
proof -
  obtain b1 w1 where c: "cleanup_finished_worker os (b, w) = (b1, w1)" by (cases "cleanup_finished_worker os (b, w)")
  have ok1: "local_ok w0 (b, w) (b1, w1)" using cleanup_ok [OF inv, of w0 w os] c by simp
  then have inv1: "local_inv b1" by (simp add: local_ok_def)
  have quiet: "local_ok w0 (b, w) (b1, w')"
    if "control w' = control w1 \<and> uncounted w' = uncounted w1 \<and> etw_held (trace w') = etw_held (trace w1)" for w'
    using that ok1 by (auto simp: local_ok_def local_accounted_def etw_held_def)
  obtain pr w2 where p: "preflight_shutdown_abort_capability os w1 = (pr, w2)"
    by (cases "preflight_shutdown_abort_capability os w1")
  obtain n w3 where n: "build_session_name os w2 = (n, w3)" by (cases "build_session_name os w2")
  obtain tr w4 where t: "trace_start os n w3 = (tr, w4)" by (cases "trace_start os n w3")
  obtain sr w5 where s: "call_unit os (Thread (SpawnThread LAYER2_THREAD_NAME)) w4 = (sr, w5)"
    by (cases "call_unit os (Thread (SpawnThread LAYER2_THREAD_NAME)) w4")
  have f3: "control w3 = control w1 \<and> uncounted w3 = uncounted w1 \<and> etw_held (trace w3) = etw_held (trace w1)"
    using preflight_frame [OF p] build_session_name_frame [OF n] by simp
  consider (running) "lb_worker b1 \<noteq> None" | (denied) "lb_worker b1 = None" "pr \<noteq> Cap_Available"
    | (no_trace) m where "lb_worker b1 = None" "pr = Cap_Available" "tr = Inl m"
    | (started) sub where "lb_worker b1 = None" "pr = Cap_Available" "tr = Inr sub"
    by (cases tr) auto
  then show ?thesis
  proof cases
    case running
    with c ok1 show ?thesis by (simp add: local_activate_def)
  next
    case denied
    with c p quiet [of w2] preflight_frame [OF p] show ?thesis
      by (cases pr) (auto simp: local_activate_def local_ok_def local_accounted_def)
  next
    case no_trace
    have "local_ok w0 (b, w) (b1, w4)"
      using no_trace(3) trace_start_outcome [OF t] f3 ok1 by (auto simp: local_ok_def local_accounted_def etw_held_def)
    with no_trace c p n t show ?thesis by (auto simp: local_activate_def local_ok_def local_accounted_def)
  next
    case started
    have "local_ok w0 (b1, w3) (snd (local_activate os (b, w)))"
      using local_start_ok [OF started(1) inv1 t [unfolded started(3)] s, of w0] started c p n t s
      by (cases sr) (simp_all add: local_activate_def)
    with quiet [OF f3] show ?thesis by (rule local_ok_trans)
  qed
qed

lemma local_idle_inactive: "local_inv b \<Longrightarrow> local_idle b \<Longrightarrow> \<not> local_is_active b"
  by (simp add: local_inv_def local_idle_def local_is_active_def)

interpretation local_layer: protection_layer "local_activate os" "local_deactivate os"
    local_is_active local_inv local_idle
proof
  fix b w
  assume inv: "local_inv b"
  note a = local_activate_outcome [OF inv, of w w os] and d = local_deactivate_outcome [OF inv, of os w w]
  from a show "local_inv (fst (snd (local_activate os (b, w))))" by (simp add: local_ok_def)
  from d show "local_inv (fst (local_deactivate os (b, w)))" by (simp add: local_ok_def)
  from d show "local_idle (fst (local_deactivate os (b, w)))" by simp
  from a show "control (snd (snd (local_activate os (b, w)))) = control w" by (simp add: local_ok_def)
  from d show "control (snd (local_deactivate os (b, w))) = control w" by (simp add: local_ok_def)
qed (rule local_idle_inactive)

lemma local_event_ok:
  assumes "local_inv b"
  shows "local_ok w0 (b, w) (local_event os e (b, w))"
proof (cases e)
  case Ev_Activate
  then show ?thesis using local_activate_outcome [OF assms] by simp
next
  case Ev_Deactivate
  then show ?thesis using local_deactivate_outcome [OF assms] by simp
next
  case Ev_Forced_Cleanup
  then show ?thesis using assms by (simp add: local_ok_refl)
next
  case Ev_Worker_Turn
  then show ?thesis using local_turn_ok [OF assms] by simp
qed

lemma local_events_ok: "local_inv b \<Longrightarrow> local_ok w0 (b, w) (fold (local_event os) es (b, w))"
proof (induction es arbitrary: b w)
  case (Cons e es)
  obtain b1 w1 where e: "local_event os e (b, w) = (b1, w1)" by (cases "local_event os e (b, w)")
  with local_event_ok [OF Cons.prems, of w0 w os e] have ok: "local_ok w0 (b, w) (b1, w1)" by simp
  with Cons.IH [of b1 w1] e show ?case by (auto intro: local_ok_trans simp: local_ok_def)
qed (simp add: local_ok_refl)

lemma local_default_inv [simp]: "local_inv local_default" "local_accounted w (local_default, w)"
  by (auto simp: local_inv_def local_default_def local_accounted_def held_sessions_def held_consumers_def)

text \<open>C12. Layer 2 under every interleaving of the main thread's calls with the worker's turns,
  whatever Windows answers: it reports active only while its worker is inside
  \<^verbatim>\<open>ProcessTrace\<close>; it counts exactly the shutdowns Windows aborted; beyond what was held before
  it holds at most the ETW session and the consumer of its live worker, and those Windows refused
  to stop or close when last asked; and a deactivation whose join returns, however far startup or
  the worker got, leaves no worker behind, no session whose last stop request was not refused, and
  no consumer whose last close request was not refused.\<close>

theorem local_layer_sound:
  assumes "fold (local_event os) es (local_default, w) = (b, w')"
    and "local_deactivate os (b, w') = (b'', w'')"
  shows "(local_is_active b \<longrightarrow> (\<exists>k. lb_worker b = Some k \<and> lw_phase k = Polling)) \<and>
         etw_sessions (trace w') \<subseteq> etw_sessions (trace w) \<union> own_sessions b \<union> refused_stops (trace w') \<and>
         etw_consumers (trace w') \<subseteq> etw_consumers (trace w) \<union> own_consumers b \<union> refused_closes (trace w') \<and>
         b'' = local_default \<and>
         etw_sessions (trace w'') \<subseteq> etw_sessions (trace w) \<union> refused_stops (trace w'') \<and>
         etw_consumers (trace w'') \<subseteq> etw_consumers (trace w) \<union> refused_closes (trace w'') \<and>
         blocked_event_count w'' - blocked_event_count w =
           of_nat (shutdowns_aborted (trace w'')) - of_nat (shutdowns_aborted (trace w))"
proof -
  have ok: "local_ok w (local_default, w) (b, w')"
    using local_events_ok [OF local_default_inv(1), of w w os es] assms(1) by simp
  then have inv: "local_inv b" "local_accounted w (b, w')" by (simp_all add: local_ok_def)
  have d: "local_idle b''" "local_ok w (b, w') (b'', w'')"
    using local_deactivate_outcome [OF inv(1), of os w' w] assms(2) by simp_all
  have inv'': "local_inv b''" "local_accounted w (b'', w'')" "uncounted w'' = uncounted w"
    using d(2) ok inv(2) by (simp_all add: local_ok_def)
  have "b'' = local_default"
    using d(1) inv''(1) by (cases b'') (simp add: local_idle_def local_inv_def local_default_def)
  moreover have "blocked_event_count w'' - blocked_event_count w =
      of_nat (shutdowns_aborted (trace w'')) - of_nat (shutdowns_aborted (trace w))"
    using inv''(3) by (simp add: uncounted_def algebra_simps)
  moreover have "own_sessions b'' = {}" "own_consumers b'' = {}"
    using d(1) by (simp_all add: local_idle_def own_sessions_def own_consumers_def)
  moreover have "local_is_active b \<longrightarrow> (\<exists>k. lb_worker b = Some k \<and> lw_phase k = Polling)"
    using inv(1) by (simp add: local_inv_def local_is_active_def)
  ultimately show ?thesis
    using inv(2) inv''(2) by (simp add: local_accounted_def held_sessions_def held_consumers_def Diff_subset_conv) blast
qed

theorem local_layer_sound_witness:
  "\<exists>b w' b'' w''. fold (local_event quiet_os) [Ev_Activate, Ev_Worker_Turn] (local_default, initial_world) = (b, w') \<and>
     local_is_active b \<and> local_deactivate quiet_os (b, w') = (b'', w'') \<and> b'' = local_default \<and>
     etw_sessions (trace w'') \<subseteq> refused_stops (trace w'') \<and> etw_consumers (trace w'') \<subseteq> refused_closes (trace w'')"
proof -
  obtain b w' where run: "fold (local_event quiet_os) [Ev_Activate, Ev_Worker_Turn]
      (local_default, initial_world) = (b, w')" by (metis surj_pair)
  obtain b'' w'' where d: "local_deactivate quiet_os (b, w') = (b'', w'')" by (cases "local_deactivate quiet_os (b, w')")
  have "local_is_active (fst (fold (local_event quiet_os) [Ev_Activate, Ev_Worker_Turn]
      (local_default, initial_world)))"
    by (simp add: local_activate_def cleanup_finished_worker_def local_default_def
        preflight_shutdown_abort_capability_def enable_shutdown_privilege_def with_guard_def and_then_def
        call_eqs Let_def quiet_os_def initial_world_def build_session_name_def trace_start_def call_status_eq
        invalid_processtrace_handle_def local_worker_turn_def set_local_worker_def raw_handle_def handle_new_def
        local_is_active_def ERROR_NOT_ALL_ASSIGNED_def)
  then have "local_is_active b" by (simp only: run fst_conv)
  with local_layer_sound [OF run d] run d show ?thesis by (auto simp: initial_world_def)
qed

end
