(* ===== verification/Coordinator.thy ===== *)
theory Coordinator
  imports Sleep_Layer Shutdown_Layer Remote_Layer Update_Layer Local_Layer
begin

text \<open>
  \<^verbatim>\<open>blocker/mod.rs\<close>: \<^verbatim>\<open>BlockerCoordinator\<close>, which owns the five layers and switches them
  together. The order of the calls is the source's: activation local, update, remote, sleep,
  shutdown; deactivation shutdown, sleep, remote, update, local.

  The lemmas show, for every operating system and every interleaving with the three worker
  threads: the mode, the block reason and \<^verbatim>\<open>BLOCKER_ACTIVE\<close> always agree; Allow mode means
  that no layer holds anything; a failed switch to Block is rolled back completely; and how
  a failed switch to Allow leaves the layers.
\<close>

definition DEFAULT_SHUTDOWN_BLOCK_REASON :: string where
  "DEFAULT_SHUTDOWN_BLOCK_REASON =
     ''Wardoff is protecting this PC. Use the tray icon or run '' @ [CHR 0x22] @ ''wardoff --allow'' @
     [CHR 0x22] @ '' before shutting down or signing out.''"

record blocker_coordinator =
  bc_mode :: blocker_mode
  bc_shutdown :: shutdown_blocker
  bc_local :: local_shutdown_blocker
  bc_update :: update_reboot_blocker
  bc_remote :: remote_shutdown_blocker
  bc_sleep :: sleep_blocker

type_synonym coord = "blocker_coordinator \<times> world"

subsection \<open>Calling a layer of the coordinator\<close>

definition in_shutdown :: "(shutdown_blocker \<times> world, 'e, 'a) prog \<Rightarrow> (coord, 'e, 'a) prog" where
  "in_shutdown m = (\<lambda>(c, w). let (r, (b, w)) = m (bc_shutdown c, w) in (r, (c\<lparr>bc_shutdown := b\<rparr>, w)))"

definition in_local :: "(local_shutdown_blocker \<times> world, 'e, 'a) prog \<Rightarrow> (coord, 'e, 'a) prog" where
  "in_local m = (\<lambda>(c, w). let (r, (b, w)) = m (bc_local c, w) in (r, (c\<lparr>bc_local := b\<rparr>, w)))"

definition in_update :: "(update_reboot_blocker \<times> world, 'e, 'a) prog \<Rightarrow> (coord, 'e, 'a) prog" where
  "in_update m = (\<lambda>(c, w). let (r, (b, w)) = m (bc_update c, w) in (r, (c\<lparr>bc_update := b\<rparr>, w)))"

definition in_remote :: "(remote_shutdown_blocker \<times> world, 'e, 'a) prog \<Rightarrow> (coord, 'e, 'a) prog" where
  "in_remote m = (\<lambda>(c, w). let (r, (b, w)) = m (bc_remote c, w) in (r, (c\<lparr>bc_remote := b\<rparr>, w)))"

definition in_sleep :: "(sleep_blocker \<times> world, 'e, 'a) prog \<Rightarrow> (coord, 'e, 'a) prog" where
  "in_sleep m = (\<lambda>(c, w). let (r, (b, w)) = m (bc_sleep c, w) in (r, (c\<lparr>bc_sleep := b\<rparr>, w)))"

text \<open>The infallible calls of the four background layers.\<close>

definition do_local :: "(local_shutdown_blocker \<times> world \<Rightarrow> local_shutdown_blocker \<times> world) \<Rightarrow> coord \<Rightarrow> coord" where
  "do_local f = (\<lambda>(c, w). let (b, w) = f (bc_local c, w) in (c\<lparr>bc_local := b\<rparr>, w))"

definition do_update :: "(update_reboot_blocker \<times> world \<Rightarrow> update_reboot_blocker \<times> world) \<Rightarrow> coord \<Rightarrow> coord" where
  "do_update f = (\<lambda>(c, w). let (b, w) = f (bc_update c, w) in (c\<lparr>bc_update := b\<rparr>, w))"

definition do_remote :: "(remote_shutdown_blocker \<times> world \<Rightarrow> remote_shutdown_blocker \<times> world) \<Rightarrow> coord \<Rightarrow> coord" where
  "do_remote f = (\<lambda>(c, w). let (b, w) = f (bc_remote c, w) in (c\<lparr>bc_remote := b\<rparr>, w))"

definition do_sleep :: "(sleep_blocker \<times> world \<Rightarrow> sleep_blocker \<times> world) \<Rightarrow> coord \<Rightarrow> coord" where
  "do_sleep f = (\<lambda>(c, w). let (b, w) = f (bc_sleep c, w) in (c\<lparr>bc_sleep := b\<rparr>, w))"

subsection \<open>Switching the mode\<close>

definition deactivate_allow_mode_layers ::
    "(coord, string, unit) prog \<Rightarrow> (coord \<Rightarrow> coord) \<Rightarrow> (coord \<Rightarrow> coord) \<Rightarrow> (coord \<Rightarrow> coord) \<Rightarrow> (coord \<Rightarrow> coord) \<Rightarrow>
     (coord, string, unit) prog" where
  "deactivate_allow_mode_layers shutdown_off sleep_off remote_off update_off local_off s =
     (let (shutdown_result, s) = shutdown_off s;
          s = sleep_off s;
          s = remote_off s;
          s = update_off s;
          s = local_off s
      in (case shutdown_result of
            Inr _ \<Rightarrow> Inr ()
          | Inl error \<Rightarrow>
              Inl (''Wardoff could not fully switch to Allow mode because Layer 1 could not deactivate: '' @ error),
          s))"

definition rollback_failed_block_activation :: "os \<Rightarrow> string \<Rightarrow> coord \<Rightarrow> string \<times> coord" where
  "rollback_failed_block_activation os error s =
     (let s = do_sleep (sleep_deactivate os) s;
          s = do_remote (remote_deactivate os) s;
          s = do_update (update_deactivate os) s;
          s = do_local (local_deactivate os) s;
          (r, s) = in_shutdown (shutdown_deactivate os) s
      in (case r of
            Inr _ \<Rightarrow>
              ''Wardoff could not switch to Block mode: '' @ error @ ''. Wardoff rolled back safely to Allow mode.''
          | Inl rollback_error \<Rightarrow>
              ''Wardoff could not switch to Block mode: '' @ error @
              ''. Wardoff also failed to roll Layer 1 back to Allow mode: '' @ err_text rollback_error,
          s))"

definition activation_sequence :: "os \<Rightarrow> (coord, string, unit) prog" where
  "activation_sequence os =
     and_then (in_local (local_activate os)) (\<lambda>_.
     and_then (in_update (update_activate os)) (\<lambda>_.
     and_then (in_remote (remote_activate os)) (\<lambda>_.
     and_then (in_sleep (sleep_activate os)) (\<lambda>_.
       map_error (\<lambda>e. ''Layer 1 could not enter Block mode: '' @ err_text e)
         (in_shutdown (shutdown_activate os))))))"

definition activate_block_mode :: "os \<Rightarrow> (coord, string, unit) prog" where
  "activate_block_mode os s =
     (case activation_sequence os s of
        (Inr _, s) \<Rightarrow> (Inr (), s)
      | (Inl error, s) \<Rightarrow> let (message, s) = rollback_failed_block_activation os error s in (Inl message, s))"

definition activate_allow_mode :: "os \<Rightarrow> (coord, string, unit) prog" where
  "activate_allow_mode os =
     deactivate_allow_mode_layers
       (map_error err_text (in_shutdown (shutdown_deactivate os)))
       (do_sleep (sleep_deactivate os))
       (do_remote (remote_deactivate os))
       (do_update (update_deactivate os))
       (do_local (local_deactivate os))"

definition set_mode :: "os \<Rightarrow> blocker_mode \<Rightarrow> (coord, string, bool) prog" where
  "set_mode os mode s =
     (if bc_mode (fst s) = mode then (Inr False, s)
      else case (case mode of Block \<Rightarrow> activate_block_mode os s | Allow \<Rightarrow> activate_allow_mode os s) of
        (Inl error, s) \<Rightarrow> (Inl error, s)
      | (Inr _, (c, w)) \<Rightarrow> (Inr True, (c\<lparr>bc_mode := mode\<rparr>, w)))"

definition coordinator_deactivate :: "os \<Rightarrow> (coord, string, unit) prog" where
  "coordinator_deactivate os = and_then (set_mode os Allow) (\<lambda>_. ok ())"

definition coordinator_shutdown :: "os \<Rightarrow> (coord, string, unit) prog" where
  "coordinator_shutdown os = coordinator_deactivate os"

definition coordinator_mode :: "blocker_coordinator \<Rightarrow> blocker_mode" where
  "coordinator_mode c = bc_mode c"

definition coordinator_layer_status :: "blocker_coordinator \<Rightarrow> layer_status" where
  "coordinator_layer_status c =
     \<lparr>ls_shutdown = shutdown_is_active (bc_shutdown c), ls_local_shutdown = local_is_active (bc_local c),
      ls_update = update_is_active (bc_update c), ls_remote = remote_is_active (bc_remote c),
      ls_sleep = sleep_is_active (bc_sleep c)\<rparr>"

definition blocked_count :: "world \<Rightarrow> u64" where
  "blocked_count w = blocked_event_count w"

definition renew_sleep_requests_after_resume :: "os \<Rightarrow> (coord, string, unit) prog" where
  "renew_sleep_requests_after_resume os s =
     (if bc_mode (fst s) = Block then in_sleep (sleep_renew_after_resume os) s else (Inr (), s))"

definition forced_shutdown_cleanup :: "os \<Rightarrow> coord \<Rightarrow> coord" where
  "forced_shutdown_cleanup os s =
     (let s = do_update (\<lambda>(b, w). (update_begin_forced_shutdown_cleanup b, w)) s;
          s = do_sleep (sleep_begin_forced_shutdown_cleanup os) s;
          (c, w) = do_remote (\<lambda>(b, w). (remote_begin_forced_shutdown_cleanup b, w)) s
      in (c\<lparr>bc_mode := Allow\<rparr>, w))"

text \<open>Dropping a coordinator drops its fields in declaration order.\<close>

definition coordinator_drop :: "os \<Rightarrow> coord \<Rightarrow> world" where
  "coordinator_drop os = (\<lambda>(c, w).
     let w = shutdown_drop os (bc_shutdown c, w);
         w = snd (local_deactivate os (bc_local c, w));
         w = snd (update_deactivate os (bc_update c, w));
         w = snd (remote_deactivate os (bc_remote c, w))
     in snd (sleep_drop os (bc_sleep c, w)))"

definition coordinator_new :: "os \<Rightarrow> string \<Rightarrow> blocker_mode \<Rightarrow> (world, string, blocker_coordinator) prog" where
  "coordinator_new os reason initial_mode w =
     (case shutdown_new os reason w of
        (Inl error, w) \<Rightarrow> (Inl (''Layer 1 could not create its shutdown windows: '' @ err_text error), w)
      | (Inr shutdown_blocker, w) \<Rightarrow>
          (case set_mode os initial_mode
             (\<lparr>bc_mode = Allow, bc_shutdown = shutdown_blocker, bc_local = local_default,
               bc_update = update_default, bc_remote = remote_default, bc_sleep = sleep_blocker_default\<rparr>, w) of
             (Inl error, s) \<Rightarrow> (Inl error, coordinator_drop os s)
           | (Inr _, (c, w)) \<Rightarrow> (Inr c, w)))"

definition create_blocker_coordinator :: "os \<Rightarrow> blocker_mode \<Rightarrow> (world, string, blocker_coordinator) prog" where
  "create_blocker_coordinator os initial_mode = coordinator_new os DEFAULT_SHUTDOWN_BLOCK_REASON initial_mode"

subsection \<open>Invariant\<close>

definition layers_inv :: "blocker_coordinator \<Rightarrow> bool" where
  "layers_inv c \<longleftrightarrow> local_inv (bc_local c) \<and> update_inv (bc_update c) \<and> remote_inv (bc_remote c) \<and>
     sleep_inv (bc_sleep c)"

text \<open>The four background layers hold nothing.\<close>

definition background_idle :: "blocker_coordinator \<Rightarrow> bool" where
  "background_idle c \<longleftrightarrow> local_idle (bc_local c) \<and> update_idle (bc_update c) \<and> remote_idle (bc_remote c) \<and>
     sleep_idle (bc_sleep c)"

definition coord_inv :: "coord \<Rightarrow> bool" where
  "coord_inv s \<longleftrightarrow> layers_inv (fst s) \<and>
     (bc_mode (fst s) = Block \<longleftrightarrow> sd_reason_registered (bc_shutdown (fst s))) \<and>
     (blocker_active (snd s) \<longleftrightarrow> sd_reason_registered (bc_shutdown (fst s))) \<and>
     (bc_mode (fst s) = Allow \<longrightarrow> background_idle (fst s))"

text \<open>What a call into a background layer keeps.\<close>

definition bg_ok :: "coord \<Rightarrow> coord \<Rightarrow> bool" where
  "bg_ok s s' \<longleftrightarrow> layers_inv (fst s') \<and> bc_mode (fst s') = bc_mode (fst s) \<and>
     bc_shutdown (fst s') = bc_shutdown (fst s) \<and> control (snd s') = control (snd s)"

lemma bg_ok_trans: "bg_ok s s' \<Longrightarrow> bg_ok s' s'' \<Longrightarrow> bg_ok s s''"
  by (simp add: bg_ok_def)

lemma bg_ok_inv: "bg_ok s s' \<Longrightarrow> layers_inv (fst s')"
  by (simp add: bg_ok_def)

lemma control_blocker_active: "control w' = control w \<Longrightarrow> blocker_active w' = blocker_active w"
  by (simp add: control_def)

lemma in_background_ok:
  assumes "layers_inv c"
  shows "bg_ok (c, w) (snd (in_local (local_activate os) (c, w)))"
    and "bg_ok (c, w) (snd (in_update (update_activate os) (c, w)))"
    and "bg_ok (c, w) (snd (in_remote (remote_activate os) (c, w)))"
    and "bg_ok (c, w) (snd (in_sleep (sleep_activate os) (c, w)))"
    and "bg_ok (c, w) (snd (in_sleep (sleep_renew_after_resume os) (c, w)))"
proof -
  have l: "local_inv (bc_local c)" and u: "update_inv (bc_update c)" and r: "remote_inv (bc_remote c)"
    and s: "sleep_inv (bc_sleep c)" using assms by (simp_all add: layers_inv_def)
  show "bg_ok (c, w) (snd (in_local (local_activate os) (c, w)))"
    using assms local_layer.activate_inv [OF l, of os w] local_layer.activate_control [OF l, of os w]
    by (simp add: bg_ok_def in_local_def layers_inv_def case_prod_beta Let_def)
  show "bg_ok (c, w) (snd (in_update (update_activate os) (c, w)))"
    using assms update_layer.activate_inv [OF u, of os w] update_layer.activate_control [OF u, of os w]
    by (simp add: bg_ok_def in_update_def layers_inv_def case_prod_beta Let_def)
  show "bg_ok (c, w) (snd (in_remote (remote_activate os) (c, w)))"
    using assms remote_layer.activate_inv [OF r, of os w] remote_layer.activate_control [OF r, of os w]
    by (simp add: bg_ok_def in_remote_def layers_inv_def case_prod_beta Let_def)
  show "bg_ok (c, w) (snd (in_sleep (sleep_activate os) (c, w)))"
    using assms sleep_layer.activate_inv [OF s, of os w] sleep_layer.activate_control [OF s, of os w]
    by (simp add: bg_ok_def in_sleep_def layers_inv_def case_prod_beta Let_def)
  show "bg_ok (c, w) (snd (in_sleep (sleep_renew_after_resume os) (c, w)))"
    using assms sleep_renew_reports [OF s, of os w] statics_control [OF sleep_statics(3) [of os "bc_sleep c" w]]
    by (simp add: bg_ok_def in_sleep_def layers_inv_def case_prod_beta Let_def)
qed

lemma do_background_off:
  assumes "layers_inv c"
  shows "bg_ok (c, w) (do_local (local_deactivate os) (c, w)) \<and> local_idle (bc_local (fst (do_local (local_deactivate os) (c, w))))"
    and "bg_ok (c, w) (do_update (update_deactivate os) (c, w)) \<and> update_idle (bc_update (fst (do_update (update_deactivate os) (c, w))))"
    and "bg_ok (c, w) (do_remote (remote_deactivate os) (c, w)) \<and> remote_idle (bc_remote (fst (do_remote (remote_deactivate os) (c, w))))"
    and "bg_ok (c, w) (do_sleep (sleep_deactivate os) (c, w)) \<and> sleep_idle (bc_sleep (fst (do_sleep (sleep_deactivate os) (c, w))))"
proof -
  have l: "local_inv (bc_local c)" and u: "update_inv (bc_update c)" and r: "remote_inv (bc_remote c)"
    and s: "sleep_inv (bc_sleep c)" using assms by (simp_all add: layers_inv_def)
  show "bg_ok (c, w) (do_local (local_deactivate os) (c, w)) \<and> local_idle (bc_local (fst (do_local (local_deactivate os) (c, w))))"
    using assms local_layer.deactivate_inv [OF l, of os w] local_layer.deactivate_control [OF l, of os w]
      local_layer.deactivate_idle [OF l, of os w]
    by (simp add: bg_ok_def do_local_def layers_inv_def case_prod_beta Let_def)
  show "bg_ok (c, w) (do_update (update_deactivate os) (c, w)) \<and> update_idle (bc_update (fst (do_update (update_deactivate os) (c, w))))"
    using assms update_layer.deactivate_inv [OF u, of os w] update_layer.deactivate_control [OF u, of os w]
      update_layer.deactivate_idle [OF u, of os w]
    by (simp add: bg_ok_def do_update_def layers_inv_def case_prod_beta Let_def)
  show "bg_ok (c, w) (do_remote (remote_deactivate os) (c, w)) \<and> remote_idle (bc_remote (fst (do_remote (remote_deactivate os) (c, w))))"
    using assms remote_layer.deactivate_inv [OF r, of os w] remote_layer.deactivate_control [OF r, of os w]
      remote_layer.deactivate_idle [OF r, of os w]
    by (simp add: bg_ok_def do_remote_def layers_inv_def case_prod_beta Let_def)
  show "bg_ok (c, w) (do_sleep (sleep_deactivate os) (c, w)) \<and> sleep_idle (bc_sleep (fst (do_sleep (sleep_deactivate os) (c, w))))"
    using assms sleep_layer.deactivate_inv [OF s, of os w] sleep_layer.deactivate_control [OF s, of os w]
      sleep_layer.deactivate_idle [OF s, of os w]
    by (simp add: bg_ok_def do_sleep_def layers_inv_def case_prod_beta Let_def)
qed

text \<open>A call into one layer leaves the others alone.\<close>

lemma do_frame [simp]:
  "bc_update (fst (do_local f s)) = bc_update (fst s)" "bc_remote (fst (do_local f s)) = bc_remote (fst s)"
  "bc_sleep (fst (do_local f s)) = bc_sleep (fst s)" "bc_remote (fst (do_update g s)) = bc_remote (fst s)"
  "bc_sleep (fst (do_update g s)) = bc_sleep (fst s)" "bc_sleep (fst (do_remote h s)) = bc_sleep (fst s)"
  by (simp_all add: do_local_def do_update_def do_remote_def case_prod_beta Let_def)

text \<open>Switching all background layers off, in the order both the rollback and Allow use.\<close>

definition background_off :: "os \<Rightarrow> coord \<Rightarrow> coord" where
  "background_off os s =
     do_local (local_deactivate os) (do_update (update_deactivate os)
       (do_remote (remote_deactivate os) (do_sleep (sleep_deactivate os) s)))"

lemma background_off_ok:
  assumes "layers_inv (fst s)"
  shows "bg_ok s (background_off os s) \<and> background_idle (fst (background_off os s))"
proof -
  let ?s1 = "do_sleep (sleep_deactivate os) s"
  let ?s2 = "do_remote (remote_deactivate os) ?s1"
  let ?s3 = "do_update (update_deactivate os) ?s2"
  have 1: "bg_ok s ?s1 \<and> sleep_idle (bc_sleep (fst ?s1))"
    using do_background_off(4) [OF assms, of "snd s" os] by simp
  then have 2: "bg_ok ?s1 ?s2 \<and> remote_idle (bc_remote (fst ?s2))"
    using do_background_off(3) [of "fst ?s1" "snd ?s1" os] by (simp add: bg_ok_def)
  then have 3: "bg_ok ?s2 ?s3 \<and> update_idle (bc_update (fst ?s3))"
    using do_background_off(2) [of "fst ?s2" "snd ?s2" os] by (simp add: bg_ok_def)
  then have 4: "bg_ok ?s3 (background_off os s) \<and> local_idle (bc_local (fst (background_off os s)))"
    using do_background_off(1) [of "fst ?s3" "snd ?s3" os] by (simp add: bg_ok_def background_off_def)
  have "background_idle (fst (background_off os s))"
    using 1 2 3 4 by (simp add: background_idle_def background_off_def)
  with 1 2 3 4 show ?thesis by (auto intro: bg_ok_trans)
qed

subsection \<open>Layer 1 inside the coordinator\<close>

text \<open>The block reason and \<^verbatim>\<open>BLOCKER_ACTIVE\<close> agree.\<close>

definition layer1_agrees :: "coord \<Rightarrow> bool" where
  "layer1_agrees s \<longleftrightarrow> (blocker_active (snd s) \<longleftrightarrow> sd_reason_registered (bc_shutdown (fst s)))"

definition others_kept :: "coord \<Rightarrow> coord \<Rightarrow> bool" where
  "others_kept s s' \<longleftrightarrow> bc_mode (fst s') = bc_mode (fst s) \<and> bc_local (fst s') = bc_local (fst s) \<and>
     bc_update (fst s') = bc_update (fst s) \<and> bc_remote (fst s') = bc_remote (fst s) \<and>
     bc_sleep (fst s') = bc_sleep (fst s)"

lemma in_shutdown_activate:
  assumes "layer1_agrees s" and "in_shutdown (shutdown_activate os) s = (r, s')"
  shows "layer1_agrees s' \<and> others_kept s s' \<and> sd_reason_registered (bc_shutdown (fst s')) = is_ok r"
  using assms by (cases s)
    (auto simp: in_shutdown_def shutdown_activate_def layer1_agrees_def others_kept_def call_eqs Let_def
      split: if_splits option.splits)

lemma in_shutdown_deactivate:
  assumes "layer1_agrees s" and "in_shutdown (shutdown_deactivate os) s = (r, s')"
  shows "layer1_agrees s' \<and> others_kept s s' \<and> sd_reason_registered (bc_shutdown (fst s')) = is_err r \<and>
     (\<not> sd_reason_registered (bc_shutdown (fst s)) \<longrightarrow> r = Inr ())"
  using assms by (cases s)
    (auto simp: in_shutdown_def shutdown_deactivate_def layer1_agrees_def others_kept_def call_eqs Let_def
      split: if_splits option.splits)

lemma bg_ok_layer1: "bg_ok s s' \<Longrightarrow> layer1_agrees s \<Longrightarrow> layer1_agrees s'"
  by (simp add: bg_ok_def layer1_agrees_def control_def)

lemma others_kept_inv: "others_kept s s' \<Longrightarrow> layers_inv (fst s) \<Longrightarrow> layers_inv (fst s')"
  by (simp add: others_kept_def layers_inv_def)

lemma others_kept_idle: "others_kept s s' \<Longrightarrow> background_idle (fst s') = background_idle (fst s)"
  by (simp add: others_kept_def background_idle_def)

subsection \<open>Entering Block mode\<close>

lemma in_sleep_activated:
  assumes "layers_inv (fst s)" and "in_sleep (sleep_activate os) s = (Inr x, s')"
  shows "sleep_is_active (bc_sleep (fst s'))"
proof -
  have "sleep_inv (bc_sleep (fst s))" using assms(1) by (simp add: layers_inv_def)
  from sleep_activate_reports [OF this, of os "snd s"] assms(2) show ?thesis
    by (cases s) (auto simp: in_sleep_def Let_def split: prod.splits)
qed

lemma in_remote_activated:
  assumes "in_remote (remote_activate os) s = (Inr x, s')"
  shows "rb_worker (bc_remote (fst s')) \<noteq> None"
  using remote_activate_outcome(4) [of os "bc_remote (fst s)" "snd s"] assms
  by (cases s) (auto simp: in_remote_def Let_def split: prod.splits)

text \<open>A failed activation stops before Layer 1 is armed; a successful one ends with Layer 1
  armed, the power requests held and the remote worker running.\<close>

lemma activation_sequence_outcome:
  assumes inv: "layers_inv (fst s)" and l1: "layer1_agrees s"
    and idle: "\<not> sd_reason_registered (bc_shutdown (fst s))" and run: "activation_sequence os s = (r, s')"
  shows "layers_inv (fst s') \<and> layer1_agrees s' \<and> bc_mode (fst s') = bc_mode (fst s) \<and>
     sd_reason_registered (bc_shutdown (fst s')) = is_ok r \<and>
     (is_ok r \<longrightarrow> sleep_is_active (bc_sleep (fst s')) \<and> rb_worker (bc_remote (fst s')) \<noteq> None)"
proof -
  obtain r1 s1 where a1: "in_local (local_activate os) s = (r1, s1)" by (cases "in_local (local_activate os) s")
  obtain r2 s2 where a2: "in_update (update_activate os) s1 = (r2, s2)" by (cases "in_update (update_activate os) s1")
  obtain r3 s3 where a3: "in_remote (remote_activate os) s2 = (r3, s3)" by (cases "in_remote (remote_activate os) s2")
  obtain r4 s4 where a4: "in_sleep (sleep_activate os) s3 = (r4, s4)" by (cases "in_sleep (sleep_activate os) s3")
  obtain r5 s5 where a5: "in_shutdown (shutdown_activate os) s4 = (r5, s5)"
    by (cases "in_shutdown (shutdown_activate os) s4")
  have ok1: "bg_ok s s1" using in_background_ok(1) [OF inv, of "snd s" os] a1 by simp
  have ok2: "bg_ok s1 s2" using in_background_ok(2) [OF bg_ok_inv [OF ok1], of "snd s1" os] a2 by simp
  have ok3: "bg_ok s2 s3" using in_background_ok(3) [OF bg_ok_inv [OF ok2], of "snd s2" os] a3 by simp
  have ok4: "bg_ok s3 s4" using in_background_ok(4) [OF bg_ok_inv [OF ok3], of "snd s3" os] a4 by simp
  have t: "bg_ok s s2" "bg_ok s s3" "bg_ok s s4" using ok1 ok2 ok3 ok4 by (blast intro: bg_ok_trans)+
  have stop: ?thesis if "bg_ok s s'" "is_err r"
    using that idle bg_ok_layer1 [OF that(1) l1] by (cases r) (simp_all add: bg_ok_def)
  have worker: "rb_worker (bc_remote (fst s4)) \<noteq> None" if "r3 = Inr x" for x
    using in_remote_activated [OF a3 [unfolded that]] a4 by (cases s3) (auto simp: in_sleep_def Let_def split: prod.splits)
  note seq = activation_sequence_def and_then_def map_error_def
  show ?thesis
  proof (cases "is_ok r1 \<and> is_ok r2 \<and> is_ok r3 \<and> is_ok r4")
    case False
    then have "bg_ok s s' \<and> is_err r"
      using run a1 a2 a3 a4 ok1 t by (cases r1; cases r2; cases r3; cases r4) (auto simp: seq)
    with stop show ?thesis by blast
  next
    case True
    then obtain x1 x2 x3 x4 where ok: "r1 = Inr x1" "r2 = Inr x2" "r3 = Inr x3" "r4 = Inr x4"
      by (auto simp: is_ok_iff)
    have s': "s' = s5" "is_ok r = is_ok r5"
      using run a1 a2 a3 a4 a5 ok by (cases r5; auto simp: seq)+
    note l5 = in_shutdown_activate [OF bg_ok_layer1 [OF t(3) l1] a5]
    have "sleep_is_active (bc_sleep (fst s4))"
      using in_sleep_activated [OF bg_ok_inv [OF ok3]] a4 ok(4) by blast
    with l5 t(3) worker [OF ok(3)] show ?thesis
      using others_kept_inv [of s4 s5] by (simp add: s' bg_ok_def others_kept_def)
  qed
qed

lemma rollback_outcome:
  assumes inv: "layers_inv (fst s)" and l1: "layer1_agrees s"
    and idle: "\<not> sd_reason_registered (bc_shutdown (fst s))"
    and run: "rollback_failed_block_activation os error s = (message, s')"
  shows "layers_inv (fst s') \<and> background_idle (fst s') \<and> layer1_agrees s' \<and>
     \<not> sd_reason_registered (bc_shutdown (fst s')) \<and> bc_mode (fst s') = bc_mode (fst s) \<and>
     message = ''Wardoff could not switch to Block mode: '' @ error @ ''. Wardoff rolled back safely to Allow mode.''"
proof -
  let ?s = "background_off os s"
  have ok: "bg_ok s ?s" "background_idle (fst ?s)" using background_off_ok [OF inv] by blast+
  have off: "\<not> sd_reason_registered (bc_shutdown (fst ?s))" using ok idle by (simp add: bg_ok_def)
  obtain r s1 where d: "in_shutdown (shutdown_deactivate os) ?s = (r, s1)"
    by (cases "in_shutdown (shutdown_deactivate os) ?s")
  note l = in_shutdown_deactivate [OF bg_ok_layer1 [OF ok(1) l1] d]
  with off have r: "r = Inr ()" by simp
  have "s' = s1 \<and> message =
      ''Wardoff could not switch to Block mode: '' @ error @ ''. Wardoff rolled back safely to Allow mode.''"
    using run d r by (simp add: rollback_failed_block_activation_def background_off_def Let_def)
  with l r ok show ?thesis
    using others_kept_inv [of ?s s1] others_kept_idle [of ?s s1] by (auto simp: bg_ok_def others_kept_def)
qed

lemma set_mode_block:
  assumes inv: "coord_inv s" and mode: "bc_mode (fst s) = Allow" and run: "set_mode os Block s = (r, s')"
  shows "coord_inv s' \<and>
     (case r of
        Inr b \<Rightarrow> b \<and> bc_mode (fst s') = Block \<and> sleep_is_active (bc_sleep (fst s')) \<and>
          rb_worker (bc_remote (fst s')) \<noteq> None
      | Inl message \<Rightarrow> bc_mode (fst s') = Allow \<and>
          (\<exists>error. message = ''Wardoff could not switch to Block mode: '' @ error @
             ''. Wardoff rolled back safely to Allow mode.''))"
proof -
  have pre: "layers_inv (fst s)" "layer1_agrees s" "\<not> sd_reason_registered (bc_shutdown (fst s))"
    using inv mode by (simp_all add: coord_inv_def layer1_agrees_def)
  obtain ar s1 where a: "activation_sequence os s = (ar, s1)" by (cases "activation_sequence os s")
  note out = activation_sequence_outcome [OF pre a]
  show ?thesis
  proof (cases ar)
    case (Inr u)
    obtain c1 w1 where s1: "s1 = (c1, w1)" by (cases s1)
    have "r = Inr True \<and> s' = (c1\<lparr>bc_mode := Block\<rparr>, w1)"
      using run a Inr mode s1 by (simp add: set_mode_def activate_block_mode_def)
    with out Inr s1 show ?thesis by (simp add: coord_inv_def layers_inv_def layer1_agrees_def)
  next
    case (Inl e)
    obtain m s2 where rb: "rollback_failed_block_activation os e s1 = (m, s2)"
      by (cases "rollback_failed_block_activation os e s1")
    have failed: "layers_inv (fst s1)" "layer1_agrees s1" "\<not> sd_reason_registered (bc_shutdown (fst s1))"
      using out Inl by simp_all
    note rolled = rollback_outcome [OF failed rb]
    have "r = Inl m \<and> s' = s2"
      using run a Inl mode rb by (simp add: set_mode_def activate_block_mode_def)
    with rolled out mode show ?thesis by (auto simp: coord_inv_def layer1_agrees_def)
  qed
qed

subsection \<open>Entering Allow mode\<close>

lemma set_mode_allow:
  assumes inv: "coord_inv s" and mode: "bc_mode (fst s) = Block" and run: "set_mode os Allow s = (r, s')"
  shows "coord_inv s' \<and> background_idle (fst s') \<and>
     (case r of
        Inr b \<Rightarrow> b \<and> bc_mode (fst s') = Allow
      | Inl message \<Rightarrow> bc_mode (fst s') = Block)"
proof -
  have pre: "layers_inv (fst s)" "layer1_agrees s" using inv by (simp_all add: coord_inv_def layer1_agrees_def)
  obtain sr s1 where d: "in_shutdown (shutdown_deactivate os) s = (sr, s1)"
    by (cases "in_shutdown (shutdown_deactivate os) s")
  note l = in_shutdown_deactivate [OF pre(2) d]
  then have inv1: "layers_inv (fst s1)" using others_kept_inv pre(1) by blast
  have ok: "bg_ok s1 (background_off os s1)" "background_idle (fst (background_off os s1))"
    using background_off_ok [OF inv1] by blast+
  note l2 = bg_ok_layer1 [OF ok(1)]
  obtain c2 w2 where s2: "background_off os s1 = (c2, w2)" by (cases "background_off os s1")
  have eq: "activate_allow_mode os s =
      (case sr of Inr _ \<Rightarrow> Inr () | Inl e \<Rightarrow>
         Inl (''Wardoff could not fully switch to Allow mode because Layer 1 could not deactivate: '' @ err_text e),
       background_off os s1)"
    using d by (cases sr) (simp_all add: activate_allow_mode_def deactivate_allow_mode_layers_def map_error_def
        background_off_def Let_def)
  show ?thesis
  proof (cases sr)
    case (Inr u)
    have "r = Inr True \<and> s' = (c2\<lparr>bc_mode := Allow\<rparr>, w2)"
      using run eq Inr mode s2 by (simp add: set_mode_def)
    with ok l l2 Inr s2 show ?thesis
      by (auto simp: coord_inv_def bg_ok_def layers_inv_def background_idle_def layer1_agrees_def)
  next
    case (Inl e)
    have "is_err r \<and> s' = (c2, w2)"
      using run eq Inl mode s2 by (auto simp: set_mode_def)
    moreover have "bc_mode c2 = Block"
      using l ok s2 mode by (simp add: bg_ok_def others_kept_def)
    ultimately show ?thesis
      using ok l l2 Inl s2 by (cases r) (auto simp: coord_inv_def bg_ok_def layer1_agrees_def)
  qed
qed

lemma set_mode_same: "bc_mode (fst s) = m \<Longrightarrow> set_mode os m s = (Inr False, s)"
  by (simp add: set_mode_def)

lemma set_mode_inv:
  assumes "coord_inv s"
  shows "coord_inv (snd (set_mode os m s))"
proof (cases "bc_mode (fst s) = m")
  case True
  with assms show ?thesis by (simp add: set_mode_same)
next
  case False
  obtain r s' where run: "set_mode os m s = (r, s')" by (cases "set_mode os m s")
  show ?thesis
  proof (cases m)
    case Block
    with False have "bc_mode (fst s) = Allow" by simp
    from set_mode_block [OF assms this] run Block show ?thesis by simp
  next
    case Allow
    with False have "bc_mode (fst s) = Block" by simp
    from set_mode_allow [OF assms this] run Allow show ?thesis by simp
  qed
qed

text \<open>What the application relies on of the blocker: a switch keeps its invariant, and the mode
  afterwards is the requested one exactly if the switch returned \<^verbatim>\<open>Ok\<close>. A client that switches
  and, on trouble elsewhere, tries to switch back is therefore always in one of the two modes.\<close>

locale mode_switch =
  fixes inv :: "'s \<Rightarrow> bool" and mode :: "'s \<Rightarrow> blocker_mode" and switch :: "blocker_mode \<Rightarrow> ('s, 'e, 'a) prog"
  assumes switch_inv: "inv s \<Longrightarrow> inv (snd (switch m s))"
    and switch_mode: "inv s \<Longrightarrow> switch m s = (r, s') \<Longrightarrow> mode s' = (if is_ok r then m else mode s)"
begin

lemma switch_outcome:
  assumes "inv s" and "switch m s = (r, s')"
  shows "inv s' \<and> mode s' = (if is_ok r then m else mode s)"
  using switch_inv [OF assms(1), of m] switch_mode [OF assms] assms(2) by simp

lemma switch_and_back:
  assumes "inv s" and "switch m s = (r, s1)" and "switch (mode s) s1 = (r', s2)"
  shows "inv s2 \<and> mode s2 \<in> {mode s, m} \<and> (is_ok r' \<longrightarrow> mode s2 = mode s)"
  using switch_outcome [OF assms(1,2)] switch_outcome [of s1 "mode s" r' s2] assms(3) by auto

end

interpretation coordinator_modes: mode_switch coord_inv "\<lambda>s. bc_mode (fst s)" "set_mode os" for os
proof unfold_locales
  show "coord_inv (snd (set_mode os m s))" if "coord_inv s" for m s by (rule set_mode_inv [OF that])
  show "bc_mode (fst s') = (if is_ok r then m else bc_mode (fst s))" if "coord_inv s" "set_mode os m s = (r, s')" for s m r s'
  proof (cases "bc_mode (fst s) = m")
    case True
    with that(2) show ?thesis by (auto simp: set_mode_same)
  next
    case False
    show ?thesis
    proof (cases m)
      case Block
      with False have e: "bc_mode (fst s) = Allow" by simp
      have run: "set_mode os Block s = (r, s')" using that(2) Block by simp
      from set_mode_block [OF that(1) e run] e Block show ?thesis by (cases r) simp_all
    next
      case Allow
      with False have e: "bc_mode (fst s) = Block" by simp
      have run: "set_mode os Allow s = (r, s')" using that(2) Allow by simp
      from set_mode_allow [OF that(1) e run] e Allow show ?thesis by (cases r) simp_all
    qed
  qed
qed

subsection \<open>The running coordinator\<close>

text \<open>Everything that can happen to a coordinator until a session end is forced: a mode
  switch, a renewal after resume, a turn of one of the worker threads, a shutdown query, a
  \<^verbatim>\<open>WM_ENDSESSION\<close> that does not report a session end in progress, the registration and removal
  of the application's callbacks. A forced session end (\<^verbatim>\<open>WM_ENDSESSION\<close> with a nonzero
  \<^verbatim>\<open>wParam\<close> while \<^verbatim>\<open>SM_SHUTTINGDOWN\<close> is set) is the one event left out; what it leaves behind is
  the last section.\<close>

inductive coord_step :: "os \<Rightarrow> coord \<Rightarrow> coord \<Rightarrow> bool" for os where
  step_set_mode: "coord_step os s (snd (set_mode os m s))"
| step_renew: "coord_step os s (snd (renew_sleep_requests_after_resume os s))"
| step_local_turn: "coord_step os s (do_local (local_worker_turn os) s)"
| step_update_turn: "coord_step os s (do_update (update_worker_turn os) s)"
| step_remote_turn: "coord_step os s (do_remote (remote_worker_turn os) s)"
| step_query: "coord_step os (c, w) (c, snd (handle_query_end_session os wp lp w))"
| step_end_session:
    "\<not> should_run_end_session_cleanup wp (fst (is_shutdown_or_session_end_in_progress os w)) \<Longrightarrow>
       coord_step os (c, w) (snd (handle_end_session os (forced_shutdown_cleanup os) hwnd wp (c, w)))"
| step_register: "coord_step os (c, w) (c, set_power_broadcast_callback (set_end_session_cleanup_callback w))"
| step_unregister: "coord_step os (c, w) (c, clear_power_broadcast_callback (clear_end_session_cleanup_callback w))"

inductive_cases coord_stepE: "coord_step os s s'"

lemma query_frame: "control (snd (handle_query_end_session os wp lp w)) = control w"
  by (simp add: handle_query_end_session_def Let_def)

lemma query_answer: "fst (handle_query_end_session os wp lp w) = (if blocker_active w then 0 else 1)"
  by (simp add: handle_query_end_session_def Let_def)

lemma bg_step_inv:
  assumes "coord_inv s" and "bg_ok s s'" and "bc_mode (fst s) = Allow \<Longrightarrow> background_idle (fst s')"
  shows "coord_inv s'"
  using assms by (auto simp: coord_inv_def bg_ok_def control_def)

lemma turns_ok:
  assumes "layers_inv c"
  shows "bg_ok (c, w) (do_local (local_worker_turn os) (c, w))"
    and "bg_ok (c, w) (do_update (update_worker_turn os) (c, w))"
    and "bg_ok (c, w) (do_remote (remote_worker_turn os) (c, w))"
proof -
  have l: "local_inv (bc_local c)" and u: "update_inv (bc_update c)" and r: "remote_inv (bc_remote c)"
    using assms by (simp_all add: layers_inv_def)
  have update_control: "control (snd (update_worker_turn os (bc_update c, w))) = control w"
    using update_turn_keeps [OF u, of w w os] by (intro statics_control) (simp add: update_turn_ok_def)
  show "bg_ok (c, w) (do_local (local_worker_turn os) (c, w))"
    using assms local_turn_ok [OF l, of w w os]
    by (simp add: bg_ok_def do_local_def layers_inv_def local_ok_def case_prod_beta Let_def)
  show "bg_ok (c, w) (do_update (update_worker_turn os) (c, w))"
    using assms update_turn_keeps [OF u, of w w os] update_control
    by (simp add: bg_ok_def do_update_def layers_inv_def update_turn_ok_def case_prod_beta Let_def)
  show "bg_ok (c, w) (do_remote (remote_worker_turn os) (c, w))"
    using assms remote_turn_inv [OF r, of os w]
    by (simp add: bg_ok_def do_remote_def layers_inv_def case_prod_beta Let_def)
qed

lemma turns_idle:
  assumes "background_idle c"
  shows "do_local (local_worker_turn os) (c, w) = (c, w)" "do_update (update_worker_turn os) (c, w) = (c, w)"
    "do_remote (remote_worker_turn os) (c, w) = (c, w)"
  using assms
  by (simp_all add: background_idle_def do_local_def do_update_def do_remote_def local_idle_def update_idle_def
      remote_idle_def local_worker_turn_def update_worker_turn_def remote_worker_turn_def)

lemma coord_step_inv:
  assumes "coord_step os s s'" and inv: "coord_inv s"
  shows "coord_inv s'"
  using assms(1)
proof cases
  case (step_set_mode m)
  with set_mode_inv [OF inv] show ?thesis by simp
next
  case step_renew
  show ?thesis
  proof (cases "bc_mode (fst s) = Block")
    case True
    have "layers_inv (fst s)" using inv by (simp add: coord_inv_def)
    then have "bg_ok s s'"
      using in_background_ok(5) [of "fst s" "snd s" os] step_renew True
      by (simp add: renew_sleep_requests_after_resume_def)
    then show ?thesis using True by (intro bg_step_inv [OF inv]) simp_all
  next
    case False
    with inv step_renew show ?thesis by (simp add: renew_sleep_requests_after_resume_def)
  qed
next
  case step_local_turn
  obtain c w where s: "s = (c, w)" by (cases s)
  show ?thesis
    using inv turns_ok(1) [of c w os] turns_idle(1) [of c os w] step_local_turn s
    by (intro bg_step_inv [OF inv]) (simp_all add: coord_inv_def)
next
  case step_update_turn
  obtain c w where s: "s = (c, w)" by (cases s)
  show ?thesis
    using inv turns_ok(2) [of c w os] turns_idle(2) [of c os w] step_update_turn s
    by (intro bg_step_inv [OF inv]) (simp_all add: coord_inv_def)
next
  case step_remote_turn
  obtain c w where s: "s = (c, w)" by (cases s)
  show ?thesis
    using inv turns_ok(3) [of c w os] turns_idle(3) [of c os w] step_remote_turn s
    by (intro bg_step_inv [OF inv]) (simp_all add: coord_inv_def)
next
  case (step_query c w wp lp)
  have "bg_ok s s'" using inv step_query query_frame by (simp add: bg_ok_def coord_inv_def)
  then show ?thesis
    by (rule bg_step_inv [OF inv]) (use inv step_query in \<open>simp add: coord_inv_def\<close>)
next
  case (step_end_session wp w c hwnd)
  then show ?thesis
    using inv by (simp add: handle_end_session_def is_shutdown_or_session_end_in_progress_def call_eqs coord_inv_def)
next
  case (step_register c w)
  with inv show ?thesis
    by (simp add: coord_inv_def set_power_broadcast_callback_def set_end_session_cleanup_callback_def)
next
  case (step_unregister c w)
  with inv show ?thesis
    by (simp add: coord_inv_def clear_power_broadcast_callback_def clear_end_session_cleanup_callback_def)
qed

lemma coord_steps_inv: "(coord_step os)\<^sup>*\<^sup>* s s' \<Longrightarrow> coord_inv s \<Longrightarrow> coord_inv s'"
  by (induction rule: rtranclp_induct) (blast intro: coord_step_inv)+

lemma coordinator_new_inv:
  assumes "coordinator_new os reason m w = (Inr c, w')" and "\<not> blocker_active w"
  shows "coord_inv (c, w') \<and> bc_mode c = m"
proof -
  obtain b w1 where n: "shutdown_new os reason w = (Inr b, w1)"
    using assms(1) by (auto simp: coordinator_new_def split: prod.splits sum.splits)
  then have b: "\<not> sd_reason_registered b" "\<not> blocker_active w1"
    using shutdown_new_outcome [where os = os and reason = reason and w = w] assms(2) by simp_all
  let ?s = "(\<lparr>bc_mode = Allow, bc_shutdown = b, bc_local = local_default, bc_update = update_default,
      bc_remote = remote_default, bc_sleep = sleep_blocker_default\<rparr>, w1)"
  have inv: "coord_inv ?s"
    using b by (simp add: coord_inv_def layers_inv_def background_idle_def remote_inv_def remote_default_def
        sleep_inv_def sleep_blocker_default_def local_idle_def local_default_def update_idle_def update_default_def
        remote_idle_def sleep_idle_def local_inv_def update_inv_def)
  obtain r s1 where run: "set_mode os m ?s = (r, s1)" by (cases "set_mode os m ?s")
  have ok: "is_ok r" "s1 = (c, w')"
    using assms(1) n run by (cases s1; auto simp: coordinator_new_def split: sum.splits)+
  have "coord_inv s1" using set_mode_inv [OF inv, of os m] run by simp
  moreover have "bc_mode (fst s1) = m"
  proof (cases m)
    case Block
    with run set_mode_block [OF inv, of os r s1] ok(1) show ?thesis by (cases r) simp_all
  next
    case Allow
    with run show ?thesis by (auto simp: set_mode_same)
  qed
  ultimately show ?thesis using ok by simp
qed

text \<open>The states a coordinator can be in between its creation and a forced end of the session.\<close>

definition reachable :: "os \<Rightarrow> coord \<Rightarrow> bool" where
  "reachable os s \<longleftrightarrow>
     (\<exists>reason m w c0 w0. coordinator_new os reason m w = (Inr c0, w0) \<and> \<not> blocker_active w \<and>
        (coord_step os)\<^sup>*\<^sup>* (c0, w0) s)"

lemma reachable_inv: "reachable os s \<Longrightarrow> coord_inv s"
  unfolding reachable_def using coordinator_new_inv coord_steps_inv by blast

definition all_layers_off :: layer_status where
  "all_layers_off = \<lparr>ls_shutdown = False, ls_local_shutdown = False, ls_update = False, ls_remote = False, ls_sleep = False\<rparr>"

lemma idle_status:
  assumes "layers_inv c" and "background_idle c"
  shows "coordinator_layer_status c = all_layers_off\<lparr>ls_shutdown := sd_reason_registered (bc_shutdown c)\<rparr>"
  using assms local_idle_inactive update_idle_inactive remote_idle_inactive sleep_layer.idle_inactive
  by (auto simp: coordinator_layer_status_def all_layers_off_def layers_inv_def background_idle_def
      shutdown_is_active_def)

text \<open>C13. Until a session end is forced, the mode is the protection. In every state a coordinator
  can reach between its creation and the first forced session end (nonzero \<^verbatim>\<open>WM_ENDSESSION\<close>
  while \<^verbatim>\<open>SM_SHUTTINGDOWN\<close> is set), whatever Windows answered and however the worker
  threads interleaved, failed switches included: a shutdown query is refused exactly in Block
  mode, Layer 1 reports active exactly in Block mode, and in Allow mode every layer reports
  inactive and holds no worker, no request object, no ETW session.\<close>

theorem mode_is_protection:
  assumes "reachable os (c, w)"
  shows "(fst (handle_query_end_session os wparam lparam w) = 0 \<longleftrightarrow> coordinator_mode c = Block) \<and>
         (shutdown_is_active (bc_shutdown c) \<longleftrightarrow> coordinator_mode c = Block) \<and>
         (coordinator_mode c = Allow \<longrightarrow> coordinator_layer_status c = all_layers_off \<and> background_idle c)"
proof -
  have inv: "coord_inv (c, w)" by (rule reachable_inv [OF assms])
  then have "coordinator_mode c = Allow \<Longrightarrow> coordinator_layer_status c = all_layers_off \<and> background_idle c"
    using idle_status [of c] by (simp add: coord_inv_def coordinator_mode_def all_layers_off_def)
  with inv show ?thesis
    by (auto simp: query_answer coord_inv_def coordinator_mode_def shutdown_is_active_def)
qed

text \<open>What a successful activation made of Layers 2 and 3, which it lets stay off: Layer 2 where
  the abort privilege or the ETW session cannot be had, Layer 3 in a process that is not elevated.\<close>

definition local_available :: "os \<Rightarrow> world \<Rightarrow> bool" where
  "local_available os w =
     (case preflight_shutdown_abort_capability os w of
        (Cap_Available, w1) \<Rightarrow> (let (n, w2) = build_session_name os w1 in is_ok (fst (trace_start os n w2)))
      | _ \<Rightarrow> False)"

definition update_available :: "os \<Rightarrow> world \<Rightarrow> bool" where
  "update_available os w = (fst (is_process_elevated os w) = Inr True)"

lemma local_activate_worker:
  assumes "lb_worker b = None" and "local_activate os (b, w) = (Inr u, (b', w'))"
  shows "lb_worker b' \<noteq> None \<longleftrightarrow> local_available os w"
  using assms
  by (auto simp: local_activate_def local_available_def cleanup_finished_worker_def set_local_worker_def Let_def
      split: prod.splits shutdown_abort_capability.splits sum.splits)

lemma update_activate_worker:
  assumes "ub_worker b = None" and "update_activate os (b, w) = (Inr u, (b', w'))"
  shows "ub_worker b' \<noteq> None \<longleftrightarrow> update_available os w"
  using assms
  by (auto simp: update_activate_def update_available_def Let_def split: prod.splits sum.splits bool.splits if_splits)

lemma activation_sequence_workers:
  assumes idle: "background_idle c" and run: "activation_sequence os (c, w) = (Inr u, s')"
  shows "(lb_worker (bc_local (fst s')) \<noteq> None \<longleftrightarrow> local_available os w) \<and>
     (ub_worker (bc_update (fst s')) \<noteq> None \<longleftrightarrow> update_available os (snd (snd (local_activate os (bc_local c, w)))))"
proof -
  have none: "lb_worker (bc_local c) = None" "ub_worker (bc_update c) = None"
    using idle by (simp_all add: background_idle_def local_idle_def update_idle_def)
  obtain r1 b1 w1 where a1: "local_activate os (bc_local c, w) = (r1, (b1, w1))" by (metis surj_pair)
  obtain r2 b2 w2 where a2: "update_activate os (bc_update c, w1) = (r2, (b2, w2))" by (metis surj_pair)
  let ?s2 = "(c\<lparr>bc_local := b1, bc_update := b2\<rparr>, w2)"
  obtain r3 s3 where a3: "in_remote (remote_activate os) ?s2 = (r3, s3)" by (cases "in_remote (remote_activate os) ?s2")
  obtain r4 s4 where a4: "in_sleep (sleep_activate os) s3 = (r4, s4)" by (cases "in_sleep (sleep_activate os) s3")
  obtain r5 s5 where a5: "in_shutdown (shutdown_activate os) s4 = (r5, s5)"
    by (cases "in_shutdown (shutdown_activate os) s4")
  have ok: "r1 = Inr ()" "r2 = Inr ()" "s' = s5"
    using run a1 a2 a3 a4 a5
    by (cases r1; cases r2; cases r3; cases r4; cases r5;
        simp add: activation_sequence_def and_then_def map_error_def in_local_def in_update_def)+
  have "bc_local (fst s5) = b1 \<and> bc_update (fst s5) = b2"
    using a3 a4 a5 by (auto simp: in_remote_def in_sleep_def in_shutdown_def Let_def split: prod.splits)
  with local_activate_worker [OF none(1) a1 [unfolded ok(1)]] update_activate_worker [OF none(2) a2 [unfolded ok(2)]]
    a1 ok(3) show ?thesis by simp
qed

lemma set_mode_block_workers:
  assumes "coord_inv (c, w)" and "bc_mode c = Allow" and "set_mode os Block (c, w) = (Inr b, (c', w'))"
  shows "(lb_worker (bc_local c') \<noteq> None \<longleftrightarrow> local_available os w) \<and>
     (ub_worker (bc_update c') \<noteq> None \<longleftrightarrow> update_available os (snd (snd (local_activate os (bc_local c, w)))))"
proof -
  obtain r c1 w1 where a: "activation_sequence os (c, w) = (r, (c1, w1))" by (metis surj_pair)
  have "r = Inr ()" "c' = c1\<lparr>bc_mode := Block\<rparr>"
    using assms(2,3) a by (cases r; auto simp: set_mode_def activate_block_mode_def Let_def split: prod.splits)+
  with activation_sequence_workers [of c os w] a assms(1,2) show ?thesis by (simp add: coord_inv_def)
qed

text \<open>C14. Switching to Block is all or nothing. From every Allow state reachable before a forced
  session end, \<^verbatim>\<open>set_mode(Block)\<close> either returns \<^verbatim>\<open>Ok(true)\<close> with everything armed: Layer 1
  answers shutdown queries, the power requests are held, the remote worker is started, the local
  worker is started exactly if the abort privilege and an ETW session could be had, and the update
  worker exactly if the process is elevated; or it returns \<^verbatim>\<open>Err\<close> with every layer off again, the
  mode still Allow and the message that says so: the branch of the rollback that reports a
  Layer 1 that could not be rolled back is never taken.\<close>

theorem block_is_all_or_nothing:
  assumes "reachable os (c, w)" and "coordinator_mode c = Allow" and "set_mode os Block (c, w) = (r, (c', w'))"
  shows "case r of
      Inr changed \<Rightarrow> changed \<and> coordinator_mode c' = Block \<and> blocker_active w' \<and>
        sleep_is_active (bc_sleep c') \<and> rb_worker (bc_remote c') \<noteq> None \<and>
        (lb_worker (bc_local c') \<noteq> None \<longleftrightarrow> local_available os w) \<and>
        (ub_worker (bc_update c') \<noteq> None \<longleftrightarrow>
           update_available os (snd (snd (local_activate os (bc_local c, w)))))
    | Inl message \<Rightarrow> coordinator_mode c' = Allow \<and> \<not> blocker_active w' \<and>
        coordinator_layer_status c' = all_layers_off \<and> background_idle c' \<and>
        (\<exists>error. message = ''Wardoff could not switch to Block mode: '' @ error @
           ''. Wardoff rolled back safely to Allow mode.'')"
proof -
  have mode: "bc_mode (fst (c, w)) = Allow" using assms(2) by (simp add: coordinator_mode_def)
  note out = set_mode_block [OF reachable_inv [OF assms(1)] mode assms(3)]
  show ?thesis
  proof (cases r)
    case (Inr b)
    have "blocker_active w'" using out Inr by (auto simp: coord_inv_def)
    with Inr out set_mode_block_workers [OF reachable_inv [OF assms(1)] _ assms(3) [unfolded Inr]] mode
    show ?thesis by (simp add: coordinator_mode_def)
  next
    case (Inl m)
    have inv: "layers_inv c'" "background_idle c'" "\<not> sd_reason_registered (bc_shutdown c')" "\<not> blocker_active w'"
      using out Inl by (auto simp: coord_inv_def)
    with out Inl idle_status [OF inv(1,2)] show ?thesis
      by (simp add: coordinator_mode_def all_layers_off_def)
  qed
qed

text \<open>C15. A failed switch to Allow leaves a Block mode without its background layers. When
  Windows refuses to remove the block reason, \<^verbatim>\<open>set_mode(Allow)\<close> returns \<^verbatim>\<open>Err\<close> and the mode
  stays Block with Layer 1 armed, but the sleep, remote, update and local layers are already
  off; asking for Block again is then answered \<^verbatim>\<open>Ok(false)\<close> and re-arms nothing.\<close>

theorem failed_allow_disarms_background:
  assumes "reachable os (c, w)" and "coordinator_mode c = Block" and "set_mode os Allow (c, w) = (Inl e, (c', w'))"
  shows "coordinator_mode c' = Block \<and> blocker_active w' \<and>
         coordinator_layer_status c' = all_layers_off\<lparr>ls_shutdown := True\<rparr> \<and>
         set_mode os Block (c', w') = (Inr False, (c', w'))"
proof -
  have mode: "bc_mode (fst (c, w)) = Block" using assms(2) by (simp add: coordinator_mode_def)
  have out: "coord_inv (c', w')" "background_idle c'" "bc_mode c' = Block"
    using set_mode_allow [OF reachable_inv [OF assms(1)] mode assms(3)] by simp_all
  then have "layers_inv c'" "sd_reason_registered (bc_shutdown c')" "blocker_active w'"
    by (simp_all add: coord_inv_def)
  with idle_status [of c'] out show ?thesis by (simp add: coordinator_mode_def set_mode_same)
qed

text \<open>An operating system on which everything works except the removal of the block reason.\<close>

definition sticky_reason_os :: os where
  "sticky_reason_os h c =
     (case c of
        Window (ShutdownBlockReasonDestroy _) \<Rightarrow>
          (quiet_os h c)\<lparr>r_err := Some \<lparr>err_code = 5, err_text = ''denied''\<rparr>\<rparr>
      | _ \<Rightarrow> quiet_os h c)"

lemmas coordinator_eval = coordinator_new_def shutdown_new_def and_then_def map_error_def current_instance_def
  register_window_class_def create_message_window_def create_session_window_def
  register_suspend_resume_notification_def set_mode_def activate_block_mode_def activation_sequence_def
  in_local_def in_update_def in_remote_def in_sleep_def in_shutdown_def local_activate_def
  cleanup_finished_worker_def local_default_def preflight_shutdown_abort_capability_def
  enable_shutdown_privilege_def with_guard_def call_eqs Let_def initial_world_def build_session_name_def
  trace_start_def call_status_eq invalid_processtrace_handle_def set_local_worker_def update_activate_def
  update_default_def is_process_elevated_def remote_activate_def remote_default_def sleep_activate_def
  sleep_blocker_default_def requests_activate_def requests_is_active_def request_types_enum set_loop_Cons
  api_defs sleep_is_active_def shutdown_activate_def ERROR_NOT_ALL_ASSIGNED_def power_requests_default_def

lemma sticky_replies:
  "r_err (sticky_reason_os h c) =
     (case c of Window (ShutdownBlockReasonDestroy _) \<Rightarrow> Some \<lparr>err_code = 5, err_text = ''denied''\<rparr> | _ \<Rightarrow> None)"
  "r_num (sticky_reason_os h c) = 7"
  by (simp_all add: sticky_reason_os_def quiet_os_def split: sys_call.split window_call.split)

lemma sticky_starts: "is_ok (fst (coordinator_new sticky_reason_os ''x'' Block initial_world))"
  by (simp add: coordinator_eval sticky_replies)

lemma sticky_run:
  obtains c w where "reachable sticky_reason_os (c, w)" "coordinator_mode c = Block"
proof -
  obtain c w where n: "coordinator_new sticky_reason_os ''x'' Block initial_world = (Inr c, w)"
    using sticky_starts by (cases "coordinator_new sticky_reason_os ''x'' Block initial_world") (auto simp: is_ok_iff)
  have off: "\<not> blocker_active initial_world" by (simp add: initial_world_def)
  from n off have "reachable sticky_reason_os (c, w)" unfolding reachable_def by blast
  moreover have "coordinator_mode c = Block" using coordinator_new_inv [OF n off] by (simp add: coordinator_mode_def)
  ultimately show thesis by (rule that)
qed

lemma sticky_allow_fails:
  assumes "coord_inv s" and "bc_mode (fst s) = Block"
  obtains e s' where "set_mode sticky_reason_os Allow s = (Inl e, s')"
proof -
  have reg: "sd_reason_registered (bc_shutdown (fst s))" using assms by (simp add: coord_inv_def)
  obtain e s1 where "in_shutdown (shutdown_deactivate sticky_reason_os) s = (Inl e, s1)"
    using reg by (cases s) (auto simp: in_shutdown_def shutdown_deactivate_def call_eqs sticky_replies)
  then have "is_err (fst (set_mode sticky_reason_os Allow s))"
    using assms(2) by (simp add: set_mode_def activate_allow_mode_def deactivate_allow_mode_layers_def map_error_def Let_def)
  then show thesis
    using that by (cases "set_mode sticky_reason_os Allow s"; cases "fst (set_mode sticky_reason_os Allow s)") auto
qed

theorem mode_is_protection_witness:
  "\<exists>c w. reachable sticky_reason_os (c, w) \<and> fst (handle_query_end_session sticky_reason_os 0 0 w) = 0"
proof -
  obtain c w where r: "reachable sticky_reason_os (c, w)" "coordinator_mode c = Block" by (rule sticky_run)
  with mode_is_protection [OF r(1), of 0 0] show ?thesis by blast
qed

theorem failed_allow_disarms_background_witness:
  "\<exists>c w e. reachable sticky_reason_os (c, w) \<and> coordinator_mode c = Block \<and>
     (\<exists>c' w'. set_mode sticky_reason_os Allow (c, w) = (Inl e, (c', w')) \<and> coordinator_mode c' = Block \<and>
        \<not> ls_sleep (coordinator_layer_status c') \<and> set_mode sticky_reason_os Block (c', w') = (Inr False, (c', w')))"
proof -
  obtain c w where r: "reachable sticky_reason_os (c, w)" "coordinator_mode c = Block" by (rule sticky_run)
  obtain e c' w' where a: "set_mode sticky_reason_os Allow (c, w) = (Inl e, (c', w'))"
    using sticky_allow_fails [OF reachable_inv [OF r(1)]] r(2) by (auto simp: coordinator_mode_def)
  note f = failed_allow_disarms_background [OF r a]
  then have "\<not> ls_sleep (coordinator_layer_status c')" by (simp add: all_layers_off_def)
  with f r a show ?thesis by blast
qed

theorem block_is_all_or_nothing_witness:
  "\<exists>c w r c' w'. reachable sticky_reason_os (c, w) \<and> coordinator_mode c = Allow \<and>
     set_mode sticky_reason_os Block (c, w) = (r, (c', w')) \<and> (is_ok r \<longleftrightarrow> coordinator_mode c' = Block)"
proof -
  have "is_ok (fst (coordinator_new sticky_reason_os ''x'' Allow initial_world))"
    by (simp add: coordinator_eval sticky_replies)
  then obtain c w where n: "coordinator_new sticky_reason_os ''x'' Allow initial_world = (Inr c, w)"
    by (cases "coordinator_new sticky_reason_os ''x'' Allow initial_world") (auto simp: is_ok_iff)
  have off: "\<not> blocker_active initial_world" by (simp add: initial_world_def)
  have r: "reachable sticky_reason_os (c, w)" unfolding reachable_def using n off by blast
  have m: "coordinator_mode c = Allow" using coordinator_new_inv [OF n off] by (simp add: coordinator_mode_def)
  obtain res c' w' where s: "set_mode sticky_reason_os Block (c, w) = (res, (c', w'))" by (metis surj_pair)
  from block_is_all_or_nothing [OF r m s] have "is_ok res \<longleftrightarrow> coordinator_mode c' = Block"
    by (cases res) simp_all
  with r m s show ?thesis by blast
qed

subsection \<open>After a forced session end\<close>

lemma forced_cleanup_state:
  assumes "layers_inv (fst s)"
  shows "layers_inv (fst (forced_shutdown_cleanup os s)) \<and> bc_mode (fst (forced_shutdown_cleanup os s)) = Allow \<and>
     bc_shutdown (fst (forced_shutdown_cleanup os s)) = bc_shutdown (fst s) \<and>
     control (snd (forced_shutdown_cleanup os s)) = control (snd s) \<and>
     bc_remote (fst (forced_shutdown_cleanup os s)) = remote_begin_forced_shutdown_cleanup (bc_remote (fst s))"
proof -
  obtain c w where s: "s = (c, w)" by (cases s)
  have "sleep_inv (bc_sleep c)" using assms s by (simp add: layers_inv_def)
  note off = sleep_layer.deactivate_inv [OF this] sleep_layer.deactivate_control [OF this]
  show ?thesis
    using assms s off update_forced_keeps(1) [of "bc_update c"] remote_forced_inv [of "bc_remote c"]
    by (simp add: forced_shutdown_cleanup_def do_update_def do_sleep_def do_remote_def layers_inv_def
        sleep_begin_forced_shutdown_cleanup_def case_prod_beta Let_def)
qed

text \<open>A Layer 1 that already has its block reason is not armed again.\<close>

lemma activation_registered:
  assumes inv: "layers_inv (fst s)" and reg: "sd_reason_registered (bc_shutdown (fst s))"
    and run: "activation_sequence os s = (Inr u, s')"
  shows "control (snd s') = control (snd s) \<and> bc_shutdown (fst s') = bc_shutdown (fst s) \<and>
     (\<forall>k. rb_worker (bc_remote (fst s)) = Some k \<longrightarrow> rb_worker (bc_remote (fst s')) = Some k)"
proof -
  obtain r1 s1 where a1: "in_local (local_activate os) s = (r1, s1)" by (cases "in_local (local_activate os) s")
  obtain r2 s2 where a2: "in_update (update_activate os) s1 = (r2, s2)" by (cases "in_update (update_activate os) s1")
  obtain r3 s3 where a3: "in_remote (remote_activate os) s2 = (r3, s3)" by (cases "in_remote (remote_activate os) s2")
  obtain r4 s4 where a4: "in_sleep (sleep_activate os) s3 = (r4, s4)" by (cases "in_sleep (sleep_activate os) s3")
  have ok1: "bg_ok s s1" using in_background_ok(1) [OF inv, of "snd s" os] a1 by simp
  have ok2: "bg_ok s1 s2" using in_background_ok(2) [OF bg_ok_inv [OF ok1], of "snd s1" os] a2 by simp
  have ok3: "bg_ok s2 s3" using in_background_ok(3) [OF bg_ok_inv [OF ok2], of "snd s2" os] a3 by simp
  have ok4: "bg_ok s3 s4" using in_background_ok(4) [OF bg_ok_inv [OF ok3], of "snd s3" os] a4 by simp
  have ok: "bg_ok s s4" using ok1 ok2 ok3 ok4 by (blast intro: bg_ok_trans)
  have "bc_remote (fst s2) = bc_remote (fst s)" "bc_remote (fst s4) = bc_remote (fst s3)"
    using a1 a2 a4 by (auto simp: in_local_def in_update_def in_sleep_def Let_def split: prod.splits)
  moreover have "rb_worker (bc_remote (fst s3)) = Some k" if "rb_worker (bc_remote (fst s2)) = Some k" for k
    using a3 that by (cases s2) (auto simp: in_remote_def remote_activate_def Let_def)
  moreover have "s' = s4"
    using run a1 a2 a3 a4 ok reg
    by (cases r1; cases r2; cases r3; cases r4; cases s4)
      (auto simp: activation_sequence_def and_then_def map_error_def in_shutdown_def shutdown_activate_def bg_ok_def)
  ultimately show ?thesis using ok by (simp add: bg_ok_def)
qed

lemma end_session_outcome:
  assumes "wparam \<noteq> 0" and "r_num (os (trace w) (Window GetSystemMetrics_ShuttingDown)) \<noteq> 0"
    and "end_session_cleanup_callback w" and "\<not> end_session_cleanup_started w"
  obtains w' where "snd (handle_end_session os cb hwnd wparam (a, w)) = cb (a, w')" "\<not> blocker_active w'"
  using assms that
  by (simp add: handle_end_session_def is_shutdown_or_session_end_in_progress_def should_run_end_session_cleanup_def
      call_eqs Let_def)

text \<open>C16. Block mode is not restored by a switch after a forced session end. When Windows ends
  the session while the coordinator is in Block mode, the window procedure clears
  \<^verbatim>\<open>BLOCKER_ACTIVE\<close> and the cleanup puts the mode to Allow, but Layer 1 still records its
  block reason as registered and the remote worker handle stays in place with its stop queued.
  If the process then lives on and \<^verbatim>\<open>set_mode(Block)\<close> succeeds, it returns \<^verbatim>\<open>Ok(true)\<close> and
  reports Block with an active Layer 1, and yet shutdown queries are answered with \<^verbatim>\<open>TRUE\<close> and
  no new remote worker was started.\<close>

theorem block_after_forced_end_is_unarmed:
  assumes "reachable os (c, w)" and "coordinator_mode c = Block"
    and "end_session_cleanup_callback w" and "\<not> end_session_cleanup_started w" and "wparam \<noteq> 0"
    and "r_num (os (trace w) (Window GetSystemMetrics_ShuttingDown)) \<noteq> 0"
    and "snd (handle_end_session os (forced_shutdown_cleanup os) hwnd wparam (c, w)) = s1"
    and "set_mode os Block s1 = (Inr changed, (c2, w2))"
  shows "changed \<and> coordinator_mode c2 = Block \<and> shutdown_is_active (bc_shutdown c2) \<and>
         fst (handle_query_end_session os wp lp w2) = 1 \<and>
         (\<forall>k. rb_worker (bc_remote c) = Some k \<longrightarrow>
            (\<exists>k'. rb_worker (bc_remote c2) = Some k' \<and> rw_stop_queued k'))"
proof -
  obtain w' where e: "s1 = forced_shutdown_cleanup os (c, w')" "\<not> blocker_active w'"
    using end_session_outcome [where os = os and w = w, OF assms(5,6,3,4)] assms(7) by metis
  have inv: "layers_inv c" "sd_reason_registered (bc_shutdown c)"
    using reachable_inv [OF assms(1)] assms(2) by (auto simp: coord_inv_def coordinator_mode_def)
  have f: "layers_inv (fst s1)" "bc_mode (fst s1) = Allow" "sd_reason_registered (bc_shutdown (fst s1))"
    "\<not> blocker_active (snd s1)" "bc_remote (fst s1) = remote_begin_forced_shutdown_cleanup (bc_remote c)"
    using forced_cleanup_state [of "(c, w')" os] inv e by (simp_all add: control_def)
  obtain r s2 where a: "activation_sequence os s1 = (r, s2)" by (cases "activation_sequence os s1")
  have ok: "changed" "r = Inr ()" "(c2, w2) = ((fst s2)\<lparr>bc_mode := Block\<rparr>, snd s2)"
    using assms(8) a f(2)
    by (cases r; cases s2; auto simp: set_mode_def activate_block_mode_def Let_def split: prod.splits)+
  note b = activation_registered [OF f(1,3) a [unfolded ok(2)]]
  then have "\<not> blocker_active w2" using f(4) ok(3) by (simp add: control_def)
  moreover have "\<exists>k'. rb_worker (bc_remote c2) = Some k' \<and> rw_stop_queued k'" if "rb_worker (bc_remote c) = Some k" for k
    using b f(5) ok(3) that by (simp add: remote_begin_forced_shutdown_cleanup_def)
  ultimately show ?thesis
    using ok b f(3) by (simp add: query_answer coordinator_mode_def shutdown_is_active_def)
qed

text \<open>The same on an operating system where every call succeeds: there the switch to Block
  after the forced end does succeed.\<close>

lemma quiet_replies: "r_err (quiet_os h c) = None" "r_num (quiet_os h c) = 7"
  by (simp_all add: quiet_os_def)

lemma granted_activation:
  assumes granted: "\<And>h c. r_err (os h c) = None" "\<And>h c. r_num (os h c) = 7"
  shows "is_ok (fst (activation_sequence os s))"
proof -
  have l: "is_ok (fst (in_local (local_activate os) s))" for s
    by (cases s)
      (simp add: in_local_def local_activate_def preflight_shutdown_abort_capability_def
        enable_shutdown_privilege_def with_guard_def and_then_def call_eqs granted Let_def
        build_session_name_def trace_start_def call_status_eq invalid_processtrace_handle_def
        ERROR_NOT_ALL_ASSIGNED_def case_prod_beta)
  have u: "is_ok (fst (in_update (update_activate os) s))" for s
    by (cases s)
      (simp add: in_update_def update_activate_def is_process_elevated_def with_guard_def and_then_def call_eqs
        granted Let_def)
  have r: "is_ok (fst (in_remote (remote_activate os) s))" for s
    by (cases s) (simp add: in_remote_def remote_activate_def call_eqs granted Let_def)
  have p: "is_ok (fst (in_sleep (sleep_activate os) s))" for s
    by (cases s)
      (simp add: in_sleep_def sleep_activate_def requests_activate_def request_types_enum set_loop_Cons
        api_defs map_error_def call_eqs granted Let_def case_prod_beta)
  have d: "is_ok (fst (in_shutdown (shutdown_activate os) s))" for s
    by (cases s) (simp add: in_shutdown_def shutdown_activate_def call_eqs granted Let_def)
  have chain: "is_ok (fst (and_then m f s))" if "\<And>s. is_ok (fst (m s))" "\<And>x s. is_ok (fst (f x s))"
    for m :: "(coord, string, 'x) prog" and f :: "'x \<Rightarrow> (coord, string, 'y) prog" and s
    using that(1) [of s] that(2) by (cases "m s") (auto simp: and_then_def is_ok_iff)
  show ?thesis
    unfolding activation_sequence_def by (intro chain l u r p) (simp add: d)
qed

lemmas quiet_activation = granted_activation [of quiet_os, OF quiet_replies]

lemma granted_new:
  assumes granted: "\<And>h c. r_err (os h c) = None" "\<And>h c. r_num (os h c) = 7"
  shows "is_ok (fst (coordinator_new os reason mode w))"
proof -
  have "is_ok (fst (shutdown_new os reason w))"
    by (simp add: shutdown_new_def and_then_def current_instance_def register_window_class_def create_message_window_def
        create_session_window_def register_suspend_resume_notification_def call_eqs granted)
  then obtain b w1 where n: "shutdown_new os reason w = (Inr b, w1)"
    by (cases "shutdown_new os reason w") (auto simp: is_ok_iff)
  let ?s = "(\<lparr>bc_mode = Allow, bc_shutdown = b, bc_local = local_default, bc_update = update_default,
      bc_remote = remote_default, bc_sleep = sleep_blocker_default\<rparr>, w1)"
  have "is_ok (fst (set_mode os mode ?s))"
  proof (cases mode)
    case Block
    obtain r c2 w2 where a: "activation_sequence os ?s = (r, (c2, w2))" by (metis prod.exhaust)
    then have "r = Inr ()" using granted_activation [where os = os and s = ?s, OF granted] by (cases r) auto
    with a Block show ?thesis by (simp add: set_mode_def activate_block_mode_def)
  qed (simp add: set_mode_same)
  with n show ?thesis
    by (auto simp: coordinator_new_def split: prod.split sum.split)
qed

theorem block_after_forced_end_is_unarmed_witness:
  "\<exists>c w s1 c2 w2. reachable quiet_os (c, w) \<and> coordinator_mode c = Block \<and>
     snd (handle_end_session quiet_os (forced_shutdown_cleanup quiet_os) 7 1 (c, w)) = s1 \<and>
     set_mode quiet_os Block s1 = (Inr True, (c2, w2)) \<and> coordinator_mode c2 = Block \<and>
     fst (handle_query_end_session quiet_os 0 0 w2) = 1"
proof -
  have off: "\<not> blocker_active initial_world" by (simp add: initial_world_def)
  have "is_ok (fst (coordinator_new quiet_os ''x'' Block initial_world))"
    by (simp add: coordinator_eval quiet_replies)
  then obtain c w0 where n: "coordinator_new quiet_os ''x'' Block initial_world = (Inr c, w0)"
    by (cases "coordinator_new quiet_os ''x'' Block initial_world") (auto simp: is_ok_iff)
  define w where "w = set_power_broadcast_callback (set_end_session_cleanup_callback w0)"
  have "(coord_step quiet_os)\<^sup>*\<^sup>* (c, w0) (c, w)" unfolding w_def by (rule r_into_rtranclp) (rule step_register)
  then have r: "reachable quiet_os (c, w)" unfolding reachable_def using n off by blast
  have m: "coordinator_mode c = Block" using coordinator_new_inv [OF n off] by (simp add: coordinator_mode_def)
  have cb: "end_session_cleanup_callback w" "\<not> end_session_cleanup_started w"
    by (simp_all add: w_def set_power_broadcast_callback_def set_end_session_cleanup_callback_def)
  obtain s1 where s1: "snd (handle_end_session quiet_os (forced_shutdown_cleanup quiet_os) 7 1 (c, w)) = s1" by simp
  have one: "(1 :: u64) \<noteq> 0" "r_num (quiet_os (trace w) (Window GetSystemMetrics_ShuttingDown)) \<noteq> 0"
    by (simp_all add: quiet_replies)
  obtain w' where "s1 = forced_shutdown_cleanup quiet_os (c, w')"
    using end_session_outcome [where os = quiet_os and w = w and wparam = 1, OF one cb] s1 by metis
  then have allow: "bc_mode (fst s1) = Allow"
    by (simp add: forced_shutdown_cleanup_def do_update_def do_sleep_def do_remote_def case_prod_beta Let_def)
  obtain a c3 w3 where seq: "activation_sequence quiet_os s1 = (a, (c3, w3))"
    by (metis prod.exhaust)
  then have "a = Inr ()" using quiet_activation [of s1] by (cases a) auto
  then have "set_mode quiet_os Block s1 = (Inr True, (c3\<lparr>bc_mode := Block\<rparr>, w3))"
    using seq allow by (simp add: set_mode_def activate_block_mode_def)
  then obtain c2 w2 where s2: "set_mode quiet_os Block s1 = (Inr True, (c2, w2))" by blast
  from block_after_forced_end_is_unarmed [OF r m cb one s1 s2, of 0 0] r m s1 s2 show ?thesis by blast
qed

end
