(* ===== verification/Cli.thy ===== *)
theory Cli
  imports Blocker_Types
begin

text \<open>
  \<^verbatim>\<open>cli.rs\<close>: the parsed command line (\<^verbatim>\<open>WardoffCli\<close>), the action it asks for
  (\<^verbatim>\<open>RequestedAction\<close>) and the status payload (\<^verbatim>\<open>StatusOutput\<close>).

  Argument parsing itself is \<^verbatim>\<open>clap\<close>'s; what the source declares to it is the table of
  conflicting flags on the struct's fields. \<open>cli_accepts\<close> is that table: the flag
  combinations \<^verbatim>\<open>clap\<close> lets through given the \<^verbatim>\<open>conflicts_with_all\<close> and \<^verbatim>\<open>requires\<close>
  attributes. \<^verbatim>\<open>usize\<close> is 64 bits wide.
\<close>

datatype requested_action =
    Act_Default
  | Act_Block
  | Act_Allow
  | Act_Status
  | Act_Hide
  | Act_Autostart bool
  | Act_Log u64

datatype cli_autostart_state = On | Off

record wardoff_cli =
  cli_block :: bool
  cli_allow :: bool
  cli_status :: bool
  cli_hide :: bool
  cli_autostart :: "cli_autostart_state option"
  cli_log :: bool
  cli_tail :: "u64 option"
  cli_elevated_relaunch :: bool
  cli_detached_runtime :: bool

datatype status_state = St_Block | St_Allow | St_Inactive

record status_output =
  so_state :: status_state
  so_layers :: "layer_status option"
  so_uptime_seconds :: "u64 option"
  so_blocked_count :: "u64 option"

definition is_read_only :: "requested_action \<Rightarrow> bool" where
  "is_read_only a = (case a of Act_Status \<Rightarrow> True | Act_Log _ \<Rightarrow> True | _ \<Rightarrow> False)"

text \<open>\<^verbatim>\<open>DEFAULT_TAIL_LINE_COUNT\<close> and \<^verbatim>\<open>MAX_TAIL_LINE_COUNT\<close> of \<^verbatim>\<open>logger/mod.rs\<close>.\<close>

definition default_tail_line_count :: u64 where
  "default_tail_line_count = 20"

definition max_tail_line_count :: u64 where
  "max_tail_line_count = 100000"

definition requested_action :: "wardoff_cli \<Rightarrow> requested_action" where
  "requested_action cli =
     (if cli_allow cli then Act_Allow
      else if cli_status cli then Act_Status
      else if cli_hide cli then Act_Hide
      else if cli_block cli then Act_Block
      else case cli_autostart cli of
        Some autostart \<Rightarrow> Act_Autostart (autostart = On)
      | None \<Rightarrow>
          if cli_log cli
          then Act_Log (case cli_tail cli of Some n \<Rightarrow> n | None \<Rightarrow> default_tail_line_count)
          else Act_Default)"

text \<open>The conflict table of the \<^verbatim>\<open>#[arg(...)]\<close> attributes.\<close>

definition cli_accepts :: "wardoff_cli \<Rightarrow> bool" where
  "cli_accepts cli \<longleftrightarrow>
     (cli_block cli \<longrightarrow> \<not> cli_allow cli \<and> \<not> cli_status cli \<and> cli_autostart cli = None \<and> \<not> cli_log cli) \<and>
     (cli_allow cli \<longrightarrow> \<not> cli_block cli \<and> \<not> cli_status cli \<and> \<not> cli_hide cli \<and>
        cli_autostart cli = None \<and> \<not> cli_log cli) \<and>
     (cli_status cli \<longrightarrow> \<not> cli_block cli \<and> \<not> cli_allow cli \<and> \<not> cli_hide cli \<and>
        cli_autostart cli = None \<and> \<not> cli_log cli) \<and>
     (cli_hide cli \<longrightarrow> \<not> cli_allow cli \<and> \<not> cli_status cli \<and> cli_autostart cli = None \<and> \<not> cli_log cli) \<and>
     (cli_autostart cli \<noteq> None \<longrightarrow> \<not> cli_block cli \<and> \<not> cli_allow cli \<and> \<not> cli_status cli \<and>
        \<not> cli_hide cli \<and> \<not> cli_log cli) \<and>
     (cli_log cli \<longrightarrow> \<not> cli_block cli \<and> \<not> cli_allow cli \<and> \<not> cli_status cli \<and> \<not> cli_hide cli \<and>
        cli_autostart cli = None) \<and>
     (cli_tail cli \<noteq> None \<longrightarrow> cli_log cli)"

definition is_internal_elevated_relaunch :: "wardoff_cli \<Rightarrow> bool" where
  "is_internal_elevated_relaunch cli = cli_elevated_relaunch cli"

definition is_internal_detached_runtime :: "wardoff_cli \<Rightarrow> bool" where
  "is_internal_detached_runtime cli = cli_detached_runtime cli"

fun status_state_of :: "blocker_mode \<Rightarrow> status_state" where
  "status_state_of Block = St_Block"
| "status_state_of Allow = St_Allow"

definition status_active :: "blocker_mode \<Rightarrow> layer_status \<Rightarrow> u64 \<Rightarrow> u64 \<Rightarrow> status_output" where
  "status_active mode layers uptime blocked =
     \<lparr>so_state = status_state_of mode, so_layers = Some layers,
      so_uptime_seconds = Some uptime, so_blocked_count = Some blocked\<rparr>"

definition status_inactive :: status_output where
  "status_inactive =
     \<lparr>so_state = St_Inactive, so_layers = None, so_uptime_seconds = None, so_blocked_count = None\<rparr>"

text \<open>What the flags mean taken one by one, with no order among them: the reading a user of
  \<^verbatim>\<open>--help\<close> has. \<open>--block --hide\<close> is hidden Block startup.\<close>

definition cli_means :: "wardoff_cli \<Rightarrow> requested_action \<Rightarrow> bool" where
  "cli_means cli a =
     (case a of
        Act_Allow \<Rightarrow> cli_allow cli
      | Act_Status \<Rightarrow> cli_status cli
      | Act_Hide \<Rightarrow> cli_hide cli
      | Act_Block \<Rightarrow> cli_block cli \<and> \<not> cli_hide cli
      | Act_Autostart b \<Rightarrow> cli_autostart cli = Some (if b then On else Off)
      | Act_Log n \<Rightarrow> cli_log cli \<and>
          (cli_tail cli = Some n \<or> cli_tail cli = None \<and> n = default_tail_line_count)
      | Act_Default \<Rightarrow> \<not> cli_allow cli \<and> \<not> cli_status cli \<and> \<not> cli_hide cli \<and> \<not> cli_block cli \<and>
          cli_autostart cli = None \<and> \<not> cli_log cli)"

lemma cli_accepts_cases:
  assumes "cli_accepts cli"
  obtains (allow) "cli_allow cli" "\<not> cli_status cli" "\<not> cli_hide cli" "\<not> cli_block cli"
      "cli_autostart cli = None" "\<not> cli_log cli"
  | (status) "\<not> cli_allow cli" "cli_status cli" "\<not> cli_hide cli" "\<not> cli_block cli"
      "cli_autostart cli = None" "\<not> cli_log cli"
  | (hide) "\<not> cli_allow cli" "\<not> cli_status cli" "cli_hide cli"
      "cli_autostart cli = None" "\<not> cli_log cli"
  | (block) "\<not> cli_allow cli" "\<not> cli_status cli" "\<not> cli_hide cli" "cli_block cli"
      "cli_autostart cli = None" "\<not> cli_log cli"
  | (autostart) b where "\<not> cli_allow cli" "\<not> cli_status cli" "\<not> cli_hide cli" "\<not> cli_block cli"
      "cli_autostart cli = Some (if b then On else Off)" "\<not> cli_log cli"
  | (log) "\<not> cli_allow cli" "\<not> cli_status cli" "\<not> cli_hide cli" "\<not> cli_block cli"
      "cli_autostart cli = None" "cli_log cli"
  | (default) "\<not> cli_allow cli" "\<not> cli_status cli" "\<not> cli_hide cli" "\<not> cli_block cli"
      "cli_autostart cli = None" "\<not> cli_log cli"
proof (cases "cli_autostart cli")
  case None
  with assms show thesis
    unfolding cli_accepts_def by (metis that(1-4,6,7))
next
  case (Some s)
  then have "cli_autostart cli = Some (if s = On then On else Off)" by (cases s) simp_all
  with Some assms show thesis
    unfolding cli_accepts_def by (metis option.distinct(1) that(5))
qed

lemma cli_means_iff:
  assumes "cli_accepts cli"
  shows "cli_means cli a \<longleftrightarrow> a = requested_action cli"
  using assms
proof (cases rule: cli_accepts_cases)
  case (autostart b)
  then show ?thesis
    by (cases a; cases b) (auto simp: cli_means_def requested_action_def)
next
  case log
  then show ?thesis
    by (cases a; cases "cli_tail cli") (auto simp: cli_means_def requested_action_def)
qed (cases a; simp add: cli_means_def requested_action_def)+

lemma read_only_iff:
  assumes "cli_accepts cli"
  shows "is_read_only (requested_action cli) \<longleftrightarrow> cli_status cli \<or> cli_log cli"
  using assms by (cases rule: cli_accepts_cases) (simp_all add: requested_action_def is_read_only_def)

text \<open>C1. For every flag combination the declared conflict table lets through, the action
  the \<^verbatim>\<open>if\<close>-chain of \<^verbatim>\<open>requested_action\<close> picks is the one and only action the flags mean, so
  the order of the chain decides nothing but \<^verbatim>\<open>--block --hide\<close>; and the action is
  read-only exactly when \<^verbatim>\<open>--status\<close> or \<^verbatim>\<open>--log\<close> was given.\<close>

theorem requested_action_is_the_meaning:
  assumes "cli_accepts cli"
  shows "(cli_means cli a \<longleftrightarrow> a = requested_action cli) \<and>
         (is_read_only (requested_action cli) \<longleftrightarrow> cli_status cli \<or> cli_log cli)"
  using assms by (simp add: cli_means_iff read_only_iff)

theorem requested_action_is_the_meaning_witness:
  "cli_means \<lparr>cli_block = True, cli_allow = False, cli_status = False, cli_hide = True,
      cli_autostart = None, cli_log = False, cli_tail = None,
      cli_elevated_relaunch = False, cli_detached_runtime = True\<rparr> Act_Hide"
  using requested_action_is_the_meaning
    [of "\<lparr>cli_block = True, cli_allow = False, cli_status = False, cli_hide = True,
      cli_autostart = None, cli_log = False, cli_tail = None,
      cli_elevated_relaunch = False, cli_detached_runtime = True\<rparr>" Act_Hide]
  by (simp add: cli_accepts_def requested_action_def)

end
