(* ===== verification/Ipc_Protocol.thy ===== *)
theory Ipc_Protocol
  imports Cli
begin

text \<open>
  The wire types of \<^verbatim>\<open>ipc.rs\<close>: the mode, the requests and the replies that cross the named
  pipes, and the way a client can fail. Their JSON text is \<^verbatim>\<open>serde_json\<close>'s work and stays a
  parameter where it is used.
\<close>

datatype pipe_mode = Pipe_Block | Pipe_Allow

datatype ipc_request =
    SetMode pipe_mode
  | SetAutostart bool
  | Status
  | ShutdownServer

datatype ipc_response =
    Resp_Ok
  | Resp_Status status_output
  | Resp_Error string

datatype client_error = Unavailable | Transport string

fun blocker_mode_of :: "pipe_mode \<Rightarrow> blocker_mode" where
  "blocker_mode_of Pipe_Block = Block"
| "blocker_mode_of Pipe_Allow = Allow"

lemma blocker_mode_of_inject [simp]: "blocker_mode_of m = blocker_mode_of n \<longleftrightarrow> m = n"
  by (cases m; cases n) simp_all

end
