(* ===== verification/Runtime_Policy.thy ===== *)
theory Runtime_Policy
  imports Ipc_Protocol
begin

text \<open>
  \<^verbatim>\<open>runtime_policy.rs\<close>: the pure decisions of startup and of the running application.
  A branch that is \<^verbatim>\<open>unreachable!()\<close> in the source (a panic) is \<open>None\<close> here, so that
  "never panics" is a statement.
\<close>

datatype tray_surface = Surface_Visible | Surface_Hidden | Surface_Headless

record runtime_options =
  initial_mode :: blocker_mode
  tray_surface :: tray_surface

datatype pending_wake_restore =
    PendingSuspend power_action
  | WaitingForResume power_action

fun pending_action :: "pending_wake_restore \<Rightarrow> power_action" where
  "pending_action (PendingSuspend a) = a"
| "pending_action (WaitingForResume a) = a"

definition mark_system_suspended :: "pending_wake_restore \<Rightarrow> pending_wake_restore" where
  "mark_system_suspended p = WaitingForResume (pending_action p)"

fun runtime_options_for :: "requested_action \<Rightarrow> runtime_options option" where
  "runtime_options_for Act_Default = Some \<lparr>initial_mode = Block, tray_surface = Surface_Visible\<rparr>"
| "runtime_options_for Act_Block = Some \<lparr>initial_mode = Block, tray_surface = Surface_Headless\<rparr>"
| "runtime_options_for Act_Allow = Some \<lparr>initial_mode = Allow, tray_surface = Surface_Visible\<rparr>"
| "runtime_options_for Act_Hide = Some \<lparr>initial_mode = Block, tray_surface = Surface_Hidden\<rparr>"
| "runtime_options_for (Act_Autostart _) = None"
| "runtime_options_for Act_Status = None"
| "runtime_options_for (Act_Log _) = None"

fun ipc_request_for :: "requested_action \<Rightarrow> ipc_request option" where
  "ipc_request_for Act_Default = Some (SetMode Pipe_Block)"
| "ipc_request_for Act_Block = Some (SetMode Pipe_Block)"
| "ipc_request_for Act_Hide = Some (SetMode Pipe_Block)"
| "ipc_request_for Act_Allow = Some (SetMode Pipe_Allow)"
| "ipc_request_for (Act_Autostart enabled) = Some (SetAutostart enabled)"
| "ipc_request_for Act_Status = None"
| "ipc_request_for (Act_Log _) = None"

fun pending_wake_restore_for_tray_power_action ::
    "blocker_mode \<Rightarrow> power_action \<Rightarrow> pending_wake_restore option" where
  "pending_wake_restore_for_tray_power_action Block PA_Sleep = Some (PendingSuspend PA_Sleep)"
| "pending_wake_restore_for_tray_power_action Block PA_Hibernate = Some (PendingSuspend PA_Hibernate)"
| "pending_wake_restore_for_tray_power_action _ _ = None"

fun pending_wake_restore_ready_for_resume ::
    "pending_wake_restore option \<Rightarrow> power_action option" where
  "pending_wake_restore_ready_for_resume (Some (PendingSuspend a)) = Some a"
| "pending_wake_restore_ready_for_resume (Some (WaitingForResume a)) = Some a"
| "pending_wake_restore_ready_for_resume None = None"

definition resolved_autostart_state_for_tray :: "bool option \<Rightarrow> bool res \<Rightarrow> bool res" where
  "resolved_autostart_state_for_tray previous actual =
     (case actual of
        Inr actual_state \<Rightarrow> Inr actual_state
      | Inl error \<Rightarrow> (case previous of Some p \<Rightarrow> Inr p | None \<Rightarrow> Inl error))"

lemma pending_action_mark [simp]: "pending_action (mark_system_suspended p) = pending_action p"
  by (simp add: mark_system_suspended_def)

lemma ready_for_resume_eq:
  "pending_wake_restore_ready_for_resume p = map_option pending_action p"
  by (cases p rule: pending_wake_restore_ready_for_resume.cases) simp_all

lemma pending_for_tray_eq:
  "pending_wake_restore_for_tray_power_action m a =
     (if m = Block \<and> a \<in> {PA_Sleep, PA_Hibernate} then Some (PendingSuspend a) else None)"
  by (cases m; cases a) simp_all

text \<open>A secondary command and a primary start agree on the mode: for every action that
  can launch a runtime, the \<^verbatim>\<open>SetMode\<close> request forwarded to a running primary asks for
  exactly the mode a fresh primary would start in. The two policy tables panic only on
  actions dispatched before them: the launch table on read-only and autostart actions, the
  request table on read-only ones.\<close>

theorem launch_and_forward_agree:
  "map_option initial_mode (runtime_options_for a) =
     (case ipc_request_for a of Some (SetMode m) \<Rightarrow> Some (blocker_mode_of m) | _ \<Rightarrow> None) \<and>
   (runtime_options_for a = None \<longleftrightarrow> is_read_only a \<or> (\<exists>b. a = Act_Autostart b)) \<and>
   (ipc_request_for a = None \<longleftrightarrow> is_read_only a)"
  by (cases a) (simp_all add: is_read_only_def)

end
