(* ===== verification/Logger.thy ===== *)
theory Logger
  imports Cli World
begin

text \<open>
  The structured log (\<^verbatim>\<open>logger/mod.rs\<close>): a writer thread that appends JSON lines to
  \<^verbatim>\<open>wardoff.jsonl\<close>, rotates it through \<^verbatim>\<open>wardoff.1.jsonl\<close> and \<^verbatim>\<open>wardoff.2.jsonl\<close>, and the
  reader behind \<^verbatim>\<open>wardoff --log\<close>.

  The disk is explicit: a map from paths to nodes. A path is its list of components below the
  volume root. Every call of \<^verbatim>\<open>std::fs\<close> may fail: \<open>le_fault\<close> says, for the n-th call, with
  which text, and how many bytes a failing \<^verbatim>\<open>write_all\<close> had written by then. The error kinds
  \<^verbatim>\<open>NotFound\<close> and \<^verbatim>\<open>AlreadyExists\<close> are the disk's own answers. \<open>le_json\<close> is
  \<^verbatim>\<open>serde_json::to_string\<close>, \<open>le_display\<close> is \<^verbatim>\<open>Path::display\<close>, \<open>le_local_app_data\<close> is the
  directory the environment names. Other processes do not touch the managed paths between two
  calls.
\<close>

subsection \<open>The disk\<close>

type_synonym path = "string list"

datatype node_kind = Kind_File | Kind_Dir | Kind_Other

record node =
  nd_kind :: node_kind
  nd_attributes :: u32
  nd_content :: string

datatype io_kind = Io_NotFound | Io_AlreadyExists | Io_Other

record io_error =
  io_kind :: io_kind
  io_text :: string

record log_env =
  le_fault :: "nat \<Rightarrow> (string \<times> nat) option"
  le_kind_text :: "io_kind \<Rightarrow> string"
  le_display :: "path \<Rightarrow> string"
  le_json :: "log_record \<Rightarrow> string res"
  le_local_app_data :: path

record disk =
  dk_files :: "path \<rightharpoonup> node"
  dk_ticks :: nat

type_synonym ('e, 'a) io = "(disk, 'e, 'a) prog"

definition natural_error :: "log_env \<Rightarrow> io_kind \<Rightarrow> io_error" where
  "natural_error env k = \<lparr>io_kind = k, io_text = le_kind_text env k\<rparr>"

text \<open>One call: it fails as the fault oracle says (leaving what \<open>partial\<close> says behind), or
  behaves as \<open>m\<close>.\<close>

definition io_call :: "log_env \<Rightarrow> (nat \<Rightarrow> disk \<Rightarrow> disk) \<Rightarrow> (io_error, 'a) io \<Rightarrow> (io_error, 'a) io" where
  "io_call env partial m d =
     (let d' = d\<lparr>dk_ticks := dk_ticks d + 1\<rparr>
      in case le_fault env (dk_ticks d) of
           Some (t, k) \<Rightarrow> (Inl \<lparr>io_kind = Io_Other, io_text = t\<rparr>, partial k d')
         | None \<Rightarrow> m d')"

definition no_effect :: "nat \<Rightarrow> disk \<Rightarrow> disk" where
  "no_effect k d = d"

definition is_folder :: "disk \<Rightarrow> path \<Rightarrow> bool" where
  "is_folder d p = (p = [] \<or> (case dk_files d p of Some n \<Rightarrow> nd_kind n = Kind_Dir | None \<Rightarrow> False))"

definition symlink_metadata :: "log_env \<Rightarrow> path \<Rightarrow> (io_error, node) io" where
  "symlink_metadata env p = io_call env no_effect (\<lambda>d.
     case dk_files d p of Some n \<Rightarrow> (Inr n, d) | None \<Rightarrow> (Inl (natural_error env Io_NotFound), d))"

definition fs_remove_file :: "log_env \<Rightarrow> path \<Rightarrow> (io_error, unit) io" where
  "fs_remove_file env p = io_call env no_effect (\<lambda>d.
     case dk_files d p of
       None \<Rightarrow> (Inl (natural_error env Io_NotFound), d)
     | Some n \<Rightarrow>
         if nd_kind n = Kind_Dir then (Inl (natural_error env Io_Other), d)
         else (Inr (), d\<lparr>dk_files := (dk_files d)(p := None)\<rparr>))"

definition fs_rename :: "log_env \<Rightarrow> path \<Rightarrow> path \<Rightarrow> (io_error, unit) io" where
  "fs_rename env p q = io_call env no_effect (\<lambda>d.
     case dk_files d p of
       None \<Rightarrow> (Inl (natural_error env Io_NotFound), d)
     | Some n \<Rightarrow>
         if is_folder d q then (Inl (natural_error env Io_Other), d)
         else (Inr (), d\<lparr>dk_files := (dk_files d)(p := None, q := Some n)\<rparr>))"

definition fs_create_dir :: "log_env \<Rightarrow> path \<Rightarrow> (io_error, unit) io" where
  "fs_create_dir env p = io_call env no_effect (\<lambda>d.
     if dk_files d p \<noteq> None then (Inl (natural_error env Io_AlreadyExists), d)
     else if is_folder d (butlast p)
     then (Inr (), d\<lparr>dk_files := (dk_files d)(p \<mapsto> \<lparr>nd_kind = Kind_Dir, nd_attributes = 16, nd_content = []\<rparr>)\<rparr>)
     else (Inl (natural_error env Io_NotFound), d))"

text \<open>Opening with \<^verbatim>\<open>FILE_FLAG_OPEN_REPARSE_POINT\<close> opens the node itself; a plain open of a
  directory is refused.\<close>

definition fs_open_read :: "log_env \<Rightarrow> path \<Rightarrow> (io_error, unit) io" where
  "fs_open_read env p = io_call env no_effect (\<lambda>d.
     case dk_files d p of
       None \<Rightarrow> (Inl (natural_error env Io_NotFound), d)
     | Some n \<Rightarrow> if nd_kind n = Kind_Dir then (Inl (natural_error env Io_Other), d) else (Inr (), d))"

definition fs_open_append :: "log_env \<Rightarrow> path \<Rightarrow> (io_error, unit) io" where
  "fs_open_append env p = io_call env no_effect (\<lambda>d.
     case dk_files d p of
       None \<Rightarrow>
         if is_folder d (butlast p)
         then (Inr (), d\<lparr>dk_files := (dk_files d)(p \<mapsto> \<lparr>nd_kind = Kind_File, nd_attributes = 32, nd_content = []\<rparr>)\<rparr>)
         else (Inl (natural_error env Io_NotFound), d)
     | Some n \<Rightarrow> if nd_kind n = Kind_Dir then (Inl (natural_error env Io_Other), d) else (Inr (), d))"

definition append_bytes :: "path \<Rightarrow> string \<Rightarrow> disk \<Rightarrow> disk" where
  "append_bytes p bs d =
     d\<lparr>dk_files := (dk_files d)(p := map_option (\<lambda>n. n\<lparr>nd_content := nd_content n @ bs\<rparr>) (dk_files d p))\<rparr>"

definition file_write_all :: "log_env \<Rightarrow> path \<Rightarrow> string \<Rightarrow> (io_error, unit) io" where
  "file_write_all env p bs =
     io_call env (\<lambda>k. append_bytes p (take k bs)) (\<lambda>d. (Inr (), append_bytes p bs d))"

definition file_flush :: "log_env \<Rightarrow> (io_error, unit) io" where
  "file_flush env = io_call env no_effect (ok ())"

subsection \<open>Paths\<close>

definition DEFAULT_LOG_FILE_NAME :: string where "DEFAULT_LOG_FILE_NAME = ''wardoff.jsonl''"
definition MAX_LOG_BYTES :: nat where "MAX_LOG_BYTES = 5 * 1024 * 1024"
definition MAX_LOG_FILES :: nat where "MAX_LOG_FILES = 3"
definition WRITER_THREAD_NAME :: string where "WRITER_THREAD_NAME = ''wardoff-structured-logger''"

definition default_log_path :: "log_env \<Rightarrow> path" where
  "default_log_path env = le_local_app_data env @ [''Wardoff'', ''logs'', DEFAULT_LOG_FILE_NAME]"

definition path_parent :: "path \<Rightarrow> path option" where
  "path_parent p = (if p = [] then None else Some (butlast p))"

text \<open>\<^verbatim>\<open>Path::file_stem\<close> and \<^verbatim>\<open>Path::extension\<close>: the file name is cut at its last dot, unless
  that dot is its first character.\<close>

definition before_last_dot :: "string \<Rightarrow> string" where
  "before_last_dot name = rev (tl (dropWhile (\<lambda>c. c \<noteq> CHR ''.'') (rev name)))"

definition after_last_dot :: "string \<Rightarrow> string" where
  "after_last_dot name = rev (takeWhile (\<lambda>c. c \<noteq> CHR ''.'') (rev name))"

definition file_stem :: "path \<Rightarrow> string option" where
  "file_stem p =
     (if p = [] then None
      else Some (if before_last_dot (last p) = [] then last p else before_last_dot (last p)))"

definition file_extension :: "path \<Rightarrow> string option" where
  "file_extension p =
     (if p = [] \<or> before_last_dot (last p) = [] then None else Some (after_last_dot (last p)))"

definition rotated_log_path :: "path \<Rightarrow> nat \<Rightarrow> path" where
  "rotated_log_path base index =
     (let parent = (case path_parent base of Some p \<Rightarrow> p | None \<Rightarrow> []);
          stem = (case file_stem base of Some s \<Rightarrow> s | None \<Rightarrow> ''wardoff'');
          extension = (case file_extension base of Some e \<Rightarrow> e | None \<Rightarrow> ''jsonl'')
      in parent @ [stem @ ''.'' @ show_nat index @ ''.'' @ extension])"

definition log_paths_oldest_to_newest :: "path \<Rightarrow> path list" where
  "log_paths_oldest_to_newest base =
     map (rotated_log_path base) (rev [1..<MAX_LOG_FILES]) @ [base]"

subsection \<open>Validation\<close>

definition FILE_ATTRIBUTE_REPARSE_POINT :: u32 where "FILE_ATTRIBUTE_REPARSE_POINT = 1024"

definition has_reparse_point :: "node \<Rightarrow> bool" where
  "has_reparse_point n = (and (nd_attributes n) FILE_ATTRIBUTE_REPARSE_POINT \<noteq> 0)"

definition validate_plain_directory :: "log_env \<Rightarrow> path \<Rightarrow> node \<Rightarrow> unit res" where
  "validate_plain_directory env p n =
     (if has_reparse_point n
      then Inl (''Wardoff refused to follow a reparse point at managed log directory '' @ le_display env p @ ''.'')
      else if nd_kind n \<noteq> Kind_Dir
      then Inl (''Wardoff expected a directory at managed log path '' @ le_display env p @ ''.'')
      else Inr ())"

definition validate_plain_file :: "log_env \<Rightarrow> path \<Rightarrow> node \<Rightarrow> unit res" where
  "validate_plain_file env p n =
     (if has_reparse_point n
      then Inl (''Wardoff refused to follow a reparse point at managed log file '' @ le_display env p @ ''.'')
      else if nd_kind n \<noteq> Kind_File
      then Inl (''Wardoff expected a plain file at managed log path '' @ le_display env p @ ''.'')
      else Inr ())"

text \<open>A pure check inside a program.\<close>

definition checked :: "'e + 'a \<Rightarrow> ('s, 'e, 'a) prog" where
  "checked r s = (r, s)"

definition validate_open_plain_file :: "log_env \<Rightarrow> path \<Rightarrow> (string, unit) io" where
  "validate_open_plain_file env p =
     and_then
       (map_error (\<lambda>e. ''Wardoff could not inspect '' @ le_display env p @ '': '' @ io_text e) (symlink_metadata env p))
       (\<lambda>n. checked (validate_plain_file env p n))"

definition log_file_metadata_if_exists :: "log_env \<Rightarrow> path \<Rightarrow> (string, node option) io" where
  "log_file_metadata_if_exists env p d =
     (case symlink_metadata env p d of
        (Inr n, d) \<Rightarrow> and_then (checked (validate_plain_file env p n)) (\<lambda>_. ok (Some n)) d
      | (Inl e, d) \<Rightarrow>
          if io_kind e = Io_NotFound then (Inr None, d)
          else (Inl (''Wardoff could not inspect '' @ le_display env p @ '' before rotation: '' @ io_text e), d))"

definition open_plain_log_file_for_read :: "log_env \<Rightarrow> path \<Rightarrow> (string, unit) io" where
  "open_plain_log_file_for_read env p =
     and_then (map_error (\<lambda>e. ''Wardoff could not open '' @ le_display env p @ '': '' @ io_text e) (fs_open_read env p))
       (\<lambda>_. validate_open_plain_file env p)"

definition open_plain_log_file_for_append :: "log_env \<Rightarrow> path \<Rightarrow> (string, unit) io" where
  "open_plain_log_file_for_append env p =
     and_then (map_error (\<lambda>e. ''Wardoff could not open '' @ le_display env p @ '': '' @ io_text e) (fs_open_append env p))
       (\<lambda>_. validate_open_plain_file env p)"

definition ensure_managed_directory_component :: "log_env \<Rightarrow> path \<Rightarrow> path \<Rightarrow> (string, unit) io" where
  "ensure_managed_directory_component env parent p d =
     (case symlink_metadata env p d of
        (Inr n, d) \<Rightarrow> (validate_plain_directory env p n, d)
      | (Inl e, d) \<Rightarrow>
          if io_kind e = Io_NotFound then
            and_then
              (\<lambda>d. case fs_create_dir env p d of
                     (Inr u, d) \<Rightarrow> (Inr u, d)
                   | (Inl ce, d) \<Rightarrow>
                       if io_kind ce = Io_AlreadyExists then (Inr (), d)
                       else (Inl (''Wardoff could not create managed log directory '' @ le_display env p @
                                  '' under '' @ le_display env parent @ '': '' @ io_text ce), d))
              (\<lambda>_. and_then
                 (map_error (\<lambda>e. ''Wardoff could not inspect managed log directory '' @ le_display env p @
                    '' after creation: '' @ io_text e) (symlink_metadata env p))
                 (\<lambda>n. checked (validate_plain_directory env p n))) d
          else (Inl (''Wardoff could not inspect managed log directory '' @ le_display env p @ '': '' @ io_text e), d))"

definition ensure_managed_log_directory :: "log_env \<Rightarrow> path \<Rightarrow> (string, unit) io" where
  "ensure_managed_log_directory env p =
     (case path_parent p of
        None \<Rightarrow> fail (''Wardoff could not resolve the parent directory for '' @ le_display env p @ ''.'')
      | Some log_directory \<Rightarrow>
     (case path_parent log_directory of
        None \<Rightarrow> fail (''Wardoff could not resolve the managed log root for '' @ le_display env p @ ''.'')
      | Some wardoff_directory \<Rightarrow>
     (case path_parent wardoff_directory of
        None \<Rightarrow> fail (''Wardoff could not resolve the LOCALAPPDATA parent for '' @ le_display env p @ ''.'')
      | Some local_app_data \<Rightarrow>
          and_then (ensure_managed_directory_component env local_app_data wardoff_directory)
            (\<lambda>_. ensure_managed_directory_component env wardoff_directory log_directory))))"

subsection \<open>Rotation and writing\<close>

definition remove_file_if_exists :: "log_env \<Rightarrow> path \<Rightarrow> (string, unit) io" where
  "remove_file_if_exists env p =
     and_then (log_file_metadata_if_exists env p)
       (\<lambda>m. case m of
          None \<Rightarrow> ok ()
        | Some _ \<Rightarrow> \<lambda>d.
            (case fs_remove_file env p d of
               (Inr u, d) \<Rightarrow> (Inr u, d)
             | (Inl e, d) \<Rightarrow>
                 if io_kind e = Io_NotFound then (Inr (), d)
                 else (Inl (''Wardoff could not remove '' @ le_display env p @ '': '' @ io_text e), d)))"

definition rename_if_exists :: "log_env \<Rightarrow> path \<Rightarrow> path \<Rightarrow> (string, unit) io" where
  "rename_if_exists env p q =
     and_then (log_file_metadata_if_exists env p)
       (\<lambda>m. case m of
          None \<Rightarrow> ok ()
        | Some _ \<Rightarrow>
            and_then (log_file_metadata_if_exists env q) (\<lambda>_ d.
              (case fs_rename env p q d of
                 (Inr u, d) \<Rightarrow> (Inr u, d)
               | (Inl e, d) \<Rightarrow>
                   if io_kind e = Io_NotFound then (Inr (), d)
                   else (Inl (''Wardoff could not rotate '' @ le_display env p @ '' to '' @ le_display env q @
                              '': '' @ io_text e), d))))"

fun rename_loop :: "log_env \<Rightarrow> path \<Rightarrow> nat list \<Rightarrow> (string, unit) io" where
  "rename_loop env p [] = ok ()"
| "rename_loop env p (i # is) =
     and_then (rename_if_exists env (rotated_log_path p i) (rotated_log_path p (i + 1)))
       (\<lambda>_. rename_loop env p is)"

definition rotate_logs :: "log_env \<Rightarrow> path \<Rightarrow> (string, unit) io" where
  "rotate_logs env p =
     (let highest_rotated_index = MAX_LOG_FILES - 1
      in if highest_rotated_index = 0 then remove_file_if_exists env p
         else
           and_then (remove_file_if_exists env (rotated_log_path p highest_rotated_index)) (\<lambda>_.
           and_then (rename_loop env p (rev [1..<highest_rotated_index])) (\<lambda>_.
           rename_if_exists env p (rotated_log_path p 1))))"

definition rotate_if_needed :: "log_env \<Rightarrow> path \<Rightarrow> nat \<Rightarrow> (string, unit) io" where
  "rotate_if_needed env p incoming_bytes =
     and_then (log_file_metadata_if_exists env p)
       (\<lambda>m. let current_size = (case m of Some n \<Rightarrow> length (nd_content n) | None \<Rightarrow> 0)
            in if current_size + incoming_bytes \<le> MAX_LOG_BYTES then ok () else rotate_logs env p)"

definition line_feed :: char where "line_feed = CHR 0x0A"
definition carriage_return :: char where "carriage_return = CHR 0x0D"

definition append_line :: "log_env \<Rightarrow> path \<Rightarrow> string \<Rightarrow> (string, unit) io" where
  "append_line env p line =
     and_then (map_error (\<lambda>e. ''Wardoff could not write '' @ le_display env p @ '': '' @ io_text e)
                 (file_write_all env p line)) (\<lambda>_.
     and_then (map_error (\<lambda>e. ''Wardoff could not finish writing '' @ le_display env p @ '': '' @ io_text e)
                 (file_write_all env p [line_feed])) (\<lambda>_.
     map_error (\<lambda>e. ''Wardoff could not flush '' @ le_display env p @ '': '' @ io_text e) (file_flush env)))"

definition serialize_record :: "log_env \<Rightarrow> log_record \<Rightarrow> string res" where
  "serialize_record env r =
     (case le_json env r of Inl e \<Rightarrow> Inl (''Wardoff could not serialize a log record: '' @ e) | Inr l \<Rightarrow> Inr l)"

definition write_record :: "log_env \<Rightarrow> path \<Rightarrow> log_record \<Rightarrow> (string, unit) io" where
  "write_record env p r =
     and_then (ensure_managed_log_directory env p) (\<lambda>_.
     and_then (checked (serialize_record env r)) (\<lambda>line.
     and_then (rotate_if_needed env p (length line + 1)) (\<lambda>_.
     and_then (open_plain_log_file_for_append env p) (\<lambda>_.
     append_line env p line))))"

text \<open>The writer thread: it takes commands in order, ignores a failed write (it only reports it
  on stderr) and ends at \<^verbatim>\<open>Shutdown\<close>. Applied to the commands still queued once the sender
  stops.\<close>

fun run_writer_loop :: "log_env \<Rightarrow> path \<Rightarrow> log_command list \<Rightarrow> disk \<Rightarrow> disk" where
  "run_writer_loop env p [] d = d"
| "run_writer_loop env p (Record r # cs) d = run_writer_loop env p cs (snd (write_record env p r d))"
| "run_writer_loop env p (Log_Shutdown # cs) d = d"

subsection \<open>Reading the newest lines\<close>

text \<open>\<^verbatim>\<open>BufRead::lines\<close>: cut at line feeds, drop one carriage return before each; a last
  unterminated line counts. A line that is not UTF-8 is an error.\<close>

definition strip_cr :: "string \<Rightarrow> string" where
  "strip_cr l = (if l \<noteq> [] \<and> last l = carriage_return then butlast l else l)"

fun lines_from :: "string \<Rightarrow> string \<Rightarrow> string list" where
  "lines_from acc [] = (if acc = [] then [] else [rev acc])"
| "lines_from acc (c # cs) =
     (if c = line_feed then strip_cr (rev acc) # lines_from [] cs else lines_from (c # acc) cs)"

definition lines_of :: "string \<Rightarrow> string list" where
  "lines_of content = lines_from [] content"

definition byte_in :: "nat \<Rightarrow> nat \<Rightarrow> char \<Rightarrow> bool" where
  "byte_in lo hi c = (lo \<le> of_char c \<and> of_char c \<le> hi)"

text \<open>\<^verbatim>\<open>str::from_utf8\<close>: well-formed UTF-8 (no overlong forms, no surrogates, at most
  U+10FFFF).\<close>

fun utf8_valid :: "string \<Rightarrow> bool" where
  "utf8_valid [] = True"
| "utf8_valid (a # cs) =
     (if byte_in 0 0x7F a then utf8_valid cs
      else case cs of
        [] \<Rightarrow> False
      | b # cs \<Rightarrow>
          if byte_in 0xC2 0xDF a then byte_in 0x80 0xBF b \<and> utf8_valid cs
          else case cs of
            [] \<Rightarrow> False
          | c # cs \<Rightarrow>
              if byte_in 0xE0 0xEF a then
                (if byte_in 0xE0 0xE0 a then byte_in 0xA0 0xBF b
                 else if byte_in 0xED 0xED a then byte_in 0x80 0x9F b
                 else byte_in 0x80 0xBF b) \<and> byte_in 0x80 0xBF c \<and> utf8_valid cs
              else case cs of
                [] \<Rightarrow> False
              | e # cs \<Rightarrow>
                  byte_in 0xF0 0xF4 a \<and>
                  (if byte_in 0xF0 0xF0 a then byte_in 0x90 0xBF b
                   else if byte_in 0xF4 0xF4 a then byte_in 0x80 0x8F b
                   else byte_in 0x80 0xBF b) \<and>
                  byte_in 0x80 0xBF c \<and> byte_in 0x80 0xBF e \<and> utf8_valid cs)"

definition read_line :: "log_env \<Rightarrow> path \<Rightarrow> string \<Rightarrow> (string, string) io" where
  "read_line env p l =
     map_error (\<lambda>e. ''Wardoff could not read '' @ le_display env p @ '': '' @ io_text e)
       (io_call env no_effect (\<lambda>d. (if utf8_valid l then Inr l else Inl (natural_error env Io_Other), d)))"

definition try_reserve :: "log_env \<Rightarrow> path \<Rightarrow> (string, unit) io" where
  "try_reserve env p =
     map_error (\<lambda>e. ''Wardoff could not reserve memory for recent log lines while reading '' @
         le_display env p @ '': '' @ io_text e) (io_call env no_effect (ok ()))"

fun collect_lines :: "log_env \<Rightarrow> path \<Rightarrow> nat \<Rightarrow> string list \<Rightarrow> string list \<Rightarrow> (string, string list) io" where
  "collect_lines env p limit [] recent = ok recent"
| "collect_lines env p limit (l # ls) recent =
     and_then (read_line env p l) (\<lambda>line.
     and_then (if length recent = limit then ok (tl recent)
               else and_then (try_reserve env p) (\<lambda>_. ok recent)) (\<lambda>recent.
     collect_lines env p limit ls (recent @ [line])))"

definition file_lines :: "path \<Rightarrow> disk \<Rightarrow> string list" where
  "file_lines p d = (case dk_files d p of Some n \<Rightarrow> lines_of (nd_content n) | None \<Rightarrow> [])"

fun read_files :: "log_env \<Rightarrow> nat \<Rightarrow> path list \<Rightarrow> string list \<Rightarrow> (string, string list) io" where
  "read_files env limit [] recent = ok recent"
| "read_files env limit (p # ps) recent =
     and_then (log_file_metadata_if_exists env p) (\<lambda>m.
       case m of
         None \<Rightarrow> read_files env limit ps recent
       | Some _ \<Rightarrow>
           and_then (open_plain_log_file_for_read env p) (\<lambda>_.
           and_then (\<lambda>d. collect_lines env p limit (file_lines p d) recent d) (\<lambda>recent.
           read_files env limit ps recent)))"

definition read_recent_lines_from_path :: "log_env \<Rightarrow> path \<Rightarrow> u64 \<Rightarrow> (string, string list) io" where
  "read_recent_lines_from_path env base limit =
     (if limit > max_tail_line_count
      then fail (''The --tail value cannot exceed '' @ show_nat (unat max_tail_line_count) @ '' lines.'')
      else if limit = 0 then ok []
      else read_files env (unat limit) (log_paths_oldest_to_newest base) [])"

definition read_recent_lines :: "log_env \<Rightarrow> u64 \<Rightarrow> (string, string list) io" where
  "read_recent_lines env limit = read_recent_lines_from_path env (default_log_path env) limit"


subsection \<open>The writer thread and its handle\<close>

text \<open>\<^verbatim>\<open>WRITER_HANDLE\<close> (unset, set with the join handle, or set with the handle taken) and the
  disk the writer works on. \<^verbatim>\<open>LOG_COMMANDS\<close> is in the world.\<close>

datatype writer_handle = Handle_Unset | Handle_Present | Handle_Taken

record log_sink =
  sk_handle :: writer_handle
  sk_disk :: disk

definition initialize_structured_logging :: "os \<Rightarrow> (log_sink \<times> world, string, unit) prog" where
  "initialize_structured_logging os = (\<lambda>(sk, w).
     case log_commands w of
       Some _ \<Rightarrow> (Inr (), (sk, w))
     | None \<Rightarrow>
         (case call_unit os (Thread (SpawnThread WRITER_THREAD_NAME)) w of
            (Inl e, w) \<Rightarrow>
              (Inl (''Wardoff could not start its structured log writer thread: '' @ err_text e), (sk, w))
          | (Inr _, w) \<Rightarrow>
              (Inr (), (sk\<lparr>sk_handle := (if sk_handle sk = Handle_Unset then Handle_Present else sk_handle sk)\<rparr>,
                        w\<lparr>log_commands := Some \<lparr>lc_queue = [], lc_receiver = True\<rparr>\<rparr>))))"

definition structured_logging_initialized :: "world \<Rightarrow> bool" where
  "structured_logging_initialized w = (log_commands w \<noteq> None)"

text \<open>One turn of the writer: it receives and handles one command, or is blocked in
  \<^verbatim>\<open>recv\<close>. At \<^verbatim>\<open>Shutdown\<close> it ends, dropping the receiver and whatever is still queued.\<close>

definition writer_turn :: "log_env \<Rightarrow> log_sink \<times> world \<Rightarrow> log_sink \<times> world" where
  "writer_turn env = (\<lambda>(sk, w).
     case log_commands w of
       None \<Rightarrow> (sk, w)
     | Some ch \<Rightarrow>
         if \<not> lc_receiver ch then (sk, w)
         else case lc_queue ch of
           [] \<Rightarrow> (sk, w)
         | Record r # cs \<Rightarrow>
             (sk\<lparr>sk_disk := snd (write_record env (default_log_path env) r (sk_disk sk))\<rparr>,
              w\<lparr>log_commands := Some (ch\<lparr>lc_queue := cs\<rparr>)\<rparr>)
         | Log_Shutdown # cs \<Rightarrow>
             (sk, w\<lparr>log_commands := Some \<lparr>lc_queue = [], lc_receiver = False\<rparr>\<rparr>))"

text \<open>Stopping: queue \<^verbatim>\<open>Shutdown\<close>, then join, i.e. let the writer work off its queue.\<close>

definition writer_join :: "log_env \<Rightarrow> log_sink \<times> world \<Rightarrow> log_sink \<times> world" where
  "writer_join env = (\<lambda>(sk, w).
     case log_commands w of
       None \<Rightarrow> (sk, w)
     | Some ch \<Rightarrow>
         (sk\<lparr>sk_disk := (if lc_receiver ch then run_writer_loop env (default_log_path env) (lc_queue ch) (sk_disk sk)
                         else sk_disk sk)\<rparr>,
          w\<lparr>log_commands := Some \<lparr>lc_queue = [], lc_receiver = False\<rparr>\<rparr>))"

definition shutdown_structured_logging :: "os \<Rightarrow> log_env \<Rightarrow> log_sink \<times> world \<Rightarrow> log_sink \<times> world" where
  "shutdown_structured_logging os env = (\<lambda>(sk, w).
     let w = (case log_commands w of
                None \<Rightarrow> w | Some ch \<Rightarrow> w\<lparr>log_commands := Some (log_send Log_Shutdown ch)\<rparr>)
     in case sk_handle sk of
          Handle_Present \<Rightarrow>
            let (sk, w) = writer_join env (sk\<lparr>sk_handle := Handle_Taken\<rparr>, w);
                (_, w) = call_unit os (Thread (JoinThread WRITER_THREAD_NAME)) w
            in (sk, w)
        | _ \<Rightarrow> (sk, w))"

subsection \<open>Paths are distinct\<close>

lemma path_parent_Some: "p \<noteq> [] \<Longrightarrow> path_parent p = Some (butlast p)"
  by (simp add: path_parent_def)

lemma dropWhile_dot_length: "before_last_dot s \<noteq> [] \<Longrightarrow> length (before_last_dot s) + 1 + length (after_last_dot s) = length s"
proof -
  assume "before_last_dot s \<noteq> []"
  then have d: "dropWhile (\<lambda>c. c \<noteq> CHR ''.'') (rev s) \<noteq> []"
    unfolding before_last_dot_def by (metis list.sel(2) rev.simps(1))
  have "length (takeWhile (\<lambda>c. c \<noteq> CHR ''.'') (rev s)) + length (dropWhile (\<lambda>c. c \<noteq> CHR ''.'') (rev s)) = length s"
    by (metis length_append length_rev takeWhile_dropWhile_id)
  with d show ?thesis by (cases "dropWhile (\<lambda>c. c \<noteq> CHR ''.'') (rev s)") (simp_all add: before_last_dot_def after_last_dot_def)
qed

lemma rotated_not_base: "rotated_log_path base i \<noteq> base"
proof (cases "base = []")
  case True then show ?thesis by (simp add: rotated_log_path_def Let_def)
next
  case False
  have "length (last (rotated_log_path base i)) > length (last base)"
    using False dropWhile_dot_length [of "last base"]
    by (cases "before_last_dot (last base) = []") (simp_all add: rotated_log_path_def Let_def file_stem_def file_extension_def)
  then show ?thesis by auto
qed

lemma rotated_inject [simp]: "rotated_log_path base i = rotated_log_path base j \<longleftrightarrow> i = j"
  by (auto simp: rotated_log_path_def Let_def)

definition rotated_paths :: "path \<Rightarrow> path list" where
  "rotated_paths base = [rotated_log_path base 2, rotated_log_path base 1]"

lemma log_paths_eq: "log_paths_oldest_to_newest base = [rotated_log_path base 2, rotated_log_path base 1, base]"
  by (simp add: log_paths_oldest_to_newest_def MAX_LOG_FILES_def upt_rec)

lemma rotate_logs_eq:
  "rotate_logs env p =
     and_then (remove_file_if_exists env (rotated_log_path p 2)) (\<lambda>_.
     and_then (rename_if_exists env (rotated_log_path p 1) (rotated_log_path p 2)) (\<lambda>_.
     rename_if_exists env p (rotated_log_path p 1)))"
  by (simp add: rotate_logs_def MAX_LOG_FILES_def upt_rec and_then_assoc numeral_2_eq_2)

subsection \<open>What the calls leave alone\<close>

definition plain_file :: "node \<Rightarrow> bool" where
  "plain_file n \<longleftrightarrow> \<not> has_reparse_point n \<and> nd_kind n = Kind_File"

definition plain_dir :: "node \<Rightarrow> bool" where
  "plain_dir n \<longleftrightarrow> \<not> has_reparse_point n \<and> nd_kind n = Kind_Dir"

lemma validate_plain_file_ok [simp]: "is_ok (validate_plain_file env p n) = plain_file n"
  by (simp add: validate_plain_file_def plain_file_def)

lemma validate_plain_directory_ok [simp]: "is_ok (validate_plain_directory env p n) = plain_dir n"
  by (simp add: validate_plain_directory_def plain_dir_def)

lemma checked_apply [simp, prog_simps]: "checked r s = (r, s)"
  by (simp add: checked_def)

lemma symlink_metadata_files [simp, frame]: "dk_files (snd (symlink_metadata env p d)) = dk_files d"
  by (simp add: symlink_metadata_def io_call_def no_effect_def Let_def split: option.split)

lemma symlink_metadata_outcome:
  "symlink_metadata env p d = (Inr n, d') \<Longrightarrow> dk_files d' = dk_files d \<and> dk_files d p = Some n"
  "symlink_metadata env p d = (Inl e, d') \<Longrightarrow> dk_files d' = dk_files d \<and> (io_kind e = Io_NotFound \<longrightarrow> dk_files d p = None)"
  by (auto simp: symlink_metadata_def io_call_def no_effect_def natural_error_def Let_def split: option.splits)

lemma metadata_outcome:
  assumes "log_file_metadata_if_exists env p d = (r, d')"
  shows "dk_files d' = dk_files d" and "r = Inr m \<Longrightarrow> m = dk_files d p"
    and "r = Inr (Some n) \<Longrightarrow> plain_file n"
proof -
  obtain q e where s: "symlink_metadata env p d = (q, e)" by (cases "symlink_metadata env p d")
  have "dk_files d' = dk_files d \<and> (\<forall>m. r = Inr m \<longrightarrow> m = dk_files d p) \<and> (\<forall>n. r = Inr (Some n) \<longrightarrow> plain_file n)"
  proof (cases q)
    case (Inl er)
    with s symlink_metadata_outcome(2) [of env p d er e] assms show ?thesis
      by (auto simp: log_file_metadata_if_exists_def split: if_splits)
  next
    case (Inr x)
    with s symlink_metadata_outcome(1) [of env p d x e] assms validate_plain_file_ok [of env p x] show ?thesis
      by (cases "validate_plain_file env p x") (auto simp: log_file_metadata_if_exists_def and_then_def)
  qed
  then show "dk_files d' = dk_files d" "r = Inr m \<Longrightarrow> m = dk_files d p" "r = Inr (Some n) \<Longrightarrow> plain_file n" by blast+
qed

lemma metadata_files [simp, frame]: "dk_files (snd (log_file_metadata_if_exists env p d)) = dk_files d"
  using metadata_outcome(1) [of env p d] by (metis prod.collapse)


text \<open>The two-part outcome of an operation whose failures are mapped: shared by removal, rename
  and creation.\<close>

lemma remove_outcome:
  assumes "fs_remove_file env p d = (r, d')"
  shows "dk_files d' = dk_files d \<and> is_err r \<or> r = Inr () \<and> dk_files d' = (dk_files d)(p := None)"
  using assms
  by (auto simp: fs_remove_file_def io_call_def no_effect_def Let_def split: option.splits if_splits prod.splits)

lemma rename_outcome:
  assumes "fs_rename env p q d = (r, d')" and "dk_files d p = Some n"
  shows "(\<exists>e. r = Inl e \<and> io_kind e \<noteq> Io_NotFound \<and> dk_files d' = dk_files d) \<or>
         r = Inr () \<and> dk_files d' = (dk_files d)(p := None, q := Some n)"
  using assms
  by (auto simp: fs_rename_def io_call_def no_effect_def natural_error_def Let_def split: option.splits if_splits prod.splits)

lemma create_dir_outcome:
  assumes "fs_create_dir env p d = (r, d')"
  shows "dk_files d' = dk_files d \<or>
         dk_files d p = None \<and> dk_files d' = (dk_files d)(p \<mapsto> \<lparr>nd_kind = Kind_Dir, nd_attributes = 16, nd_content = []\<rparr>)"
  using assms
  by (auto simp: fs_create_dir_def io_call_def no_effect_def Let_def split: option.splits if_splits prod.splits)

lemma open_append_outcome:
  assumes "fs_open_append env p d = (r, d')"
  shows "dk_files d' = dk_files d \<and> (r = Inr () \<longrightarrow> dk_files d p \<noteq> None) \<or>
         dk_files d p = None \<and> dk_files d' = (dk_files d)(p \<mapsto> \<lparr>nd_kind = Kind_File, nd_attributes = 32, nd_content = []\<rparr>)"
  using assms
  by (auto simp: fs_open_append_def io_call_def no_effect_def Let_def split: option.splits if_splits prod.splits)

lemma write_all_outcome:
  assumes "file_write_all env p bs d = (r, d')"
  shows "\<exists>k. dk_files d' = dk_files (append_bytes p (take k bs) d) \<and> (r = Inr () \<longrightarrow> take k bs = bs)"
proof -
  have a: "dk_files (append_bytes p x (d\<lparr>dk_ticks := t\<rparr>)) = dk_files (append_bytes p x d)" for x t
    by (simp add: append_bytes_def)
  show ?thesis
  proof (cases "le_fault env (dk_ticks d)")
    case None
    with assms a show ?thesis by (auto simp: file_write_all_def io_call_def Let_def intro!: exI [of _ "length bs"])
  next
    case (Some tk)
    with assms a show ?thesis by (auto simp: file_write_all_def io_call_def Let_def split: prod.splits)
  qed
qed

lemma flush_files [simp, frame]: "dk_files (snd (file_flush env d)) = dk_files d"
  by (simp add: file_flush_def io_call_def no_effect_def Let_def split: option.split)

lemma validate_open_files [simp, frame]: "dk_files (snd (validate_open_plain_file env p d)) = dk_files d"
proof -
  obtain r e where "symlink_metadata env p d = (r, e)" by (cases "symlink_metadata env p d")
  with symlink_metadata_files [of env p d] show ?thesis
    by (cases r) (simp_all add: validate_open_plain_file_def and_then_def map_error_def)
qed

lemma validate_open_ok:
  assumes "validate_open_plain_file env p d = (Inr u, d')"
  shows "\<exists>n. dk_files d p = Some n \<and> plain_file n"
proof -
  obtain n e where n: "symlink_metadata env p d = (Inr n, e)" and v: "validate_plain_file env p n = Inr u"
    using assms by (auto simp: validate_open_plain_file_def and_then_Inr_iff)
  from v validate_plain_file_ok [of env p n] symlink_metadata_outcome(1) [OF n] show ?thesis by simp
qed

text \<open>After a successful rotation check, the incoming bytes fit.\<close>

lemma rename_ok_gone:
  assumes "rename_if_exists env p q d = (Inr u, d')" and "p \<noteq> q"
  shows "dk_files d' p = None"
proof -
  obtain r e where m: "log_file_metadata_if_exists env p d = (r, e)" by (cases "log_file_metadata_if_exists env p d")
  obtain r2 e2 where m2: "log_file_metadata_if_exists env q e = (r2, e2)" by (cases "log_file_metadata_if_exists env q e")
  obtain x e3 where f: "fs_rename env p q e2 = (x, e3)" by (cases "fs_rename env p q e2")
  note out = metadata_outcome [OF m] and out2 = metadata_outcome [OF m2]
  have "dk_files e2 p = dk_files d p" "dk_files e p = dk_files d p" using out(1) out2(1) by simp_all
  with assms m m2 out(2) rename_outcome [OF f] show ?thesis
    by (cases r; cases "projr r"; cases r2; cases x; use f in \<open>auto simp: rename_if_exists_def and_then_def split: if_splits\<close>)
qed

lemma rotate_if_needed_fits:
  assumes "rotate_if_needed env base k d = (Inr u, d')"
  shows "(case dk_files d' base of Some n \<Rightarrow> length (nd_content n) | None \<Rightarrow> 0) + k \<le> max MAX_LOG_BYTES k"
proof -
  obtain m e where m: "log_file_metadata_if_exists env base d = (Inr m, e)"
    and c: "(let current_size = (case m of Some n \<Rightarrow> length (nd_content n) | None \<Rightarrow> 0)
             in if current_size + k \<le> MAX_LOG_BYTES then ok () else rotate_logs env base) e = (Inr u, d')"
    using assms by (auto simp: rotate_if_needed_def and_then_Inr_iff)
  note out = metadata_outcome [OF m]
  show ?thesis
  proof (cases "(case m of Some n \<Rightarrow> length (nd_content n) | None \<Rightarrow> 0) + k \<le> MAX_LOG_BYTES")
    case True
    with c have "d' = e" by simp
    with out(1,2) True show ?thesis by auto
  next
    case False
    with c have "rotate_logs env base e = (Inr u, d')" by simp
    then have "dk_files d' base = None"
      using rename_ok_gone rotated_not_base by (auto simp: rotate_logs_eq and_then_Inr_iff) metis
    then show ?thesis by simp
  qed
qed

lemma open_plain_append_ok:
  assumes "open_plain_log_file_for_append env p d = (Inr u, d')"
  shows "\<exists>n. dk_files d' p = Some n \<and> plain_file n \<and>
    length (nd_content n) \<le> (case dk_files d p of Some n \<Rightarrow> length (nd_content n) | None \<Rightarrow> 0)"
proof -
  obtain e where o: "fs_open_append env p d = (Inr (), e)" and v: "validate_open_plain_file env p e = (Inr u, d')"
    using assms by (auto simp: open_plain_log_file_for_append_def and_then_Inr_iff)
  from validate_open_files [of env p e] v have "dk_files d' = dk_files e" by simp
  with validate_open_ok [OF v] open_append_outcome [OF o] show ?thesis by (auto split: option.split)
qed

subsection \<open>Invariants of the managed files\<close>

text \<open>What a property of the files must tolerate to survive any write, failed or not: the creation
  of the two managed directories, the inner one only inside a plain outer one; and, only while both
  are plain directories (no junction, link or other reparse point), the removal and the moves of
  plain log files among the managed paths, the creation of the log file, and an append to it that
  stays within the size \<open>B\<close>.\<close>

definition managed_dirs :: "path \<Rightarrow> path set" where
  "managed_dirs base = {butlast base, butlast (butlast base)}"

definition plain_dir_at :: "(path \<rightharpoonup> node) \<Rightarrow> path \<Rightarrow> bool" where
  "plain_dir_at f p = (case f p of Some n \<Rightarrow> plain_dir n | None \<Rightarrow> False)"

definition dirs_plain :: "path \<Rightarrow> (path \<rightharpoonup> node) \<Rightarrow> bool" where
  "dirs_plain base f \<longleftrightarrow> base \<noteq> [] \<and> plain_dir_at f (butlast base) \<and> plain_dir_at f (butlast (butlast base))"

abbreviation fresh_dir :: node where
  "fresh_dir \<equiv> \<lparr>nd_kind = Kind_Dir, nd_attributes = 16, nd_content = []\<rparr>"

abbreviation fresh_file :: node where
  "fresh_file \<equiv> \<lparr>nd_kind = Kind_File, nd_attributes = 32, nd_content = []\<rparr>"

lemma log_path_length: "base \<noteq> [] \<Longrightarrow> p \<in> set (log_paths_oldest_to_newest base) \<Longrightarrow> length p = length base"
  by (auto simp: log_paths_eq rotated_log_path_def path_parent_def Let_def)

lemma butlast_ne: "xs \<noteq> [] \<Longrightarrow> butlast xs \<noteq> xs"
  by (cases xs rule: rev_cases) simp_all

lemma dirs_plain_upd:
  assumes "dirs_plain base f" and "p \<in> set (log_paths_oldest_to_newest base)"
  shows "dirs_plain base (f(p := x))"
proof -
  have base: "base \<noteq> []" using assms(1) by (simp add: dirs_plain_def)
  then have 1: "length (butlast base) < length p" using log_path_length [OF base assms(2)] by (cases base) simp_all
  then have 2: "length (butlast (butlast base)) < length p" unfolding length_butlast by linarith
  from 1 have "p \<noteq> butlast base" by (rule contrapos_pn) simp
  moreover from 2 have "p \<noteq> butlast (butlast base)" by (rule contrapos_pn) simp
  ultimately show ?thesis using assms(1) by (auto simp: dirs_plain_def plain_dir_at_def)
qed

text \<open>A managed directory that passed its check is a plain directory, and only it can have changed.\<close>

lemma component_plain:
  assumes "ensure_managed_directory_component env parent p d = (Inr u, d')"
  shows "plain_dir_at (dk_files d') p \<and> (\<forall>q. q \<noteq> p \<longrightarrow> dk_files d' q = dk_files d q)"
proof -
  obtain r e where m: "symlink_metadata env p d = (r, e)" by (cases "symlink_metadata env p d")
  show ?thesis
  proof (cases r)
    case (Inr n)
    with m assms have "validate_plain_directory env p n = Inr u" "d' = e"
      by (simp_all add: ensure_managed_directory_component_def)
    with symlink_metadata_outcome(1) [of env p d n e] m Inr validate_plain_directory_ok [of env p n]
    show ?thesis by (simp add: plain_dir_at_def)
  next
    case (Inl er)
    obtain c e1 where f: "fs_create_dir env p e = (c, e1)" by (cases "fs_create_dir env p e")
    obtain r2 e2 where m2: "symlink_metadata env p e1 = (r2, e2)" by (cases "symlink_metadata env p e1")
    obtain n where n: "r2 = Inr n" "validate_plain_directory env p n = Inr u" "d' = e2"
      using m m2 f Inl assms
      by (cases r2) (auto simp: ensure_managed_directory_component_def and_then_def map_error_def split: sum.splits if_splits)
    have "dk_files e = dk_files d" using m symlink_metadata_files [of env p d] by simp
    with symlink_metadata_outcome(1) [of env p e1 n e2] m2 n validate_plain_directory_ok [of env p n] create_dir_outcome [OF f]
    show ?thesis by (auto simp: plain_dir_at_def)
  qed
qed

lemma ensured_split:
  assumes "ensure_managed_log_directory env base d = (Inr u, d')"
  obtains parent d1 where "butlast base \<noteq> []" "butlast base \<noteq> butlast (butlast base)"
    "ensure_managed_directory_component env parent (butlast (butlast base)) d = (Inr (), d1)"
    "ensure_managed_directory_component env (butlast (butlast base)) (butlast base) d1 = (Inr u, d')"
proof -
  from assms have b: "base \<noteq> []" "butlast base \<noteq> []" "butlast (butlast base) \<noteq> []"
    by (auto simp: ensure_managed_log_directory_def path_parent_def split: if_splits)
  then have "butlast base \<noteq> butlast (butlast base)" using butlast_ne [of "butlast base"] by metis
  with assms b that show thesis
    by (auto simp: ensure_managed_log_directory_def path_parent_def and_then_Inr_iff)
qed

lemma ensured_dirs_plain:
  assumes "ensure_managed_log_directory env base d = (Inr u, d')"
  shows "dirs_plain base (dk_files d')"
proof -
  obtain parent d1 where b: "butlast base \<noteq> []" "butlast base \<noteq> butlast (butlast base)"
    and c: "ensure_managed_directory_component env parent (butlast (butlast base)) d = (Inr (), d1)"
      "ensure_managed_directory_component env (butlast (butlast base)) (butlast base) d1 = (Inr u, d')"
    using assms by (rule ensured_split)
  from component_plain [OF c(1)] component_plain [OF c(2)] b show ?thesis
    by (auto simp: dirs_plain_def plain_dir_at_def)
qed

lemma io_step:
  assumes "P (dk_files (snd (m d)))"
    and "\<And>x d'. m d = (Inr x, d') \<Longrightarrow> P (dk_files d') \<Longrightarrow> P (dk_files (snd (k x d')))"
  shows "P (dk_files (snd (and_then m k d)))"
  using assms by (cases "m d"; cases "fst (m d)") (auto simp: and_then_def)

lemma rotated_managed: "q \<in> set (rotated_paths base) \<Longrightarrow> q \<in> set (log_paths_oldest_to_newest base)"
  by (auto simp: rotated_paths_def log_paths_eq)

locale log_invariant =
  fixes I :: "(path \<rightharpoonup> node) \<Rightarrow> bool" and base :: path and B :: nat
  assumes capacity: "MAX_LOG_BYTES \<le> B"
    and drop_file: "I f \<Longrightarrow> dirs_plain base f \<Longrightarrow> p \<in> set (log_paths_oldest_to_newest base) \<Longrightarrow>
          f p = Some n \<Longrightarrow> plain_file n \<Longrightarrow> I (f(p := None))"
    and move_file: "I f \<Longrightarrow> dirs_plain base f \<Longrightarrow> p \<in> set (log_paths_oldest_to_newest base) \<Longrightarrow>
          q \<in> set (rotated_paths base) \<Longrightarrow> f p = Some n \<Longrightarrow> plain_file n \<Longrightarrow> (\<forall>m. f q = Some m \<longrightarrow> plain_file m) \<Longrightarrow>
          I (f(p := None, q := Some n))"
    and make_dir: "I f \<Longrightarrow> p \<in> managed_dirs base \<Longrightarrow> f p = None \<Longrightarrow>
          (p = butlast base \<longrightarrow> plain_dir_at f (butlast (butlast base))) \<Longrightarrow> I (f(p \<mapsto> fresh_dir))"
    and make_file: "I f \<Longrightarrow> dirs_plain base f \<Longrightarrow> f base = None \<Longrightarrow> I (f(base \<mapsto> fresh_file))"
    and extend_file: "I f \<Longrightarrow> dirs_plain base f \<Longrightarrow> f base = Some n \<Longrightarrow> plain_file n \<Longrightarrow>
          length (nd_content n) + length bs \<le> B \<Longrightarrow> I (f(base \<mapsto> n\<lparr>nd_content := nd_content n @ bs\<rparr>))"
begin

text \<open>The property together with the plainness of the directories: what every call after their
  check starts from and keeps.\<close>

definition J :: "(path \<rightharpoonup> node) \<Rightarrow> bool" where
  "J f \<longleftrightarrow> I f \<and> dirs_plain base f"

lemma J_drop: "J f \<Longrightarrow> p \<in> set (log_paths_oldest_to_newest base) \<Longrightarrow> f p = Some n \<Longrightarrow> plain_file n \<Longrightarrow> J (f(p := None))"
  using drop_file dirs_plain_upd by (simp add: J_def)

lemma J_move: "J f \<Longrightarrow> p \<in> set (log_paths_oldest_to_newest base) \<Longrightarrow> q \<in> set (rotated_paths base) \<Longrightarrow>
    f p = Some n \<Longrightarrow> plain_file n \<Longrightarrow> (\<forall>m. f q = Some m \<longrightarrow> plain_file m) \<Longrightarrow> J (f(p := None, q := Some n))"
  using move_file dirs_plain_upd rotated_managed by (simp add: J_def)

lemma J_make: "J f \<Longrightarrow> f base = None \<Longrightarrow> J (f(base \<mapsto> fresh_file))"
  using make_file dirs_plain_upd [of base f base] by (simp add: J_def log_paths_eq)

lemma J_extend: "J f \<Longrightarrow> f base = Some n \<Longrightarrow> plain_file n \<Longrightarrow> length (nd_content n) + length bs \<le> B \<Longrightarrow>
    J (f(base \<mapsto> n\<lparr>nd_content := nd_content n @ bs\<rparr>))"
  using extend_file dirs_plain_upd [of base f base] by (simp add: J_def log_paths_eq)

lemma remove_keeps:
  assumes "J (dk_files d)" and "p \<in> set (log_paths_oldest_to_newest base)"
  shows "J (dk_files (snd (remove_file_if_exists env p d)))"
proof -
  obtain r e where m: "log_file_metadata_if_exists env p d = (r, e)" by (cases "log_file_metadata_if_exists env p d")
  note out = metadata_outcome [OF m]
  obtain q e' where f: "fs_remove_file env p e = (q, e')" by (cases "fs_remove_file env p e")
  have "J (dk_files e')" if "r = Inr (Some n)" for n
    using remove_outcome [OF f] out(1) out(2) [OF that] out(3) [OF that] assms J_drop [of "dk_files d" p n] by auto
  then show ?thesis
    using m f assms(1) out(1)
    by (auto simp: remove_file_if_exists_def and_then_def split: sum.split option.split)
qed

lemma rename_keeps:
  assumes "J (dk_files d)" and "p \<in> set (log_paths_oldest_to_newest base)" and "q \<in> set (rotated_paths base)"
  shows "J (dk_files (snd (rename_if_exists env p q d)))"
proof -
  obtain r e where m: "log_file_metadata_if_exists env p d = (r, e)" by (cases "log_file_metadata_if_exists env p d")
  obtain r2 e2 where m2: "log_file_metadata_if_exists env q e = (r2, e2)" by (cases "log_file_metadata_if_exists env q e")
  obtain x e3 where f: "fs_rename env p q e2 = (x, e3)" by (cases "fs_rename env p q e2")
  note out = metadata_outcome [OF m] and out2 = metadata_outcome [OF m2]
  have files: "dk_files e = dk_files d" "dk_files e2 = dk_files d" using out(1) out2(1) by simp_all
  have "J (dk_files e3)" if r: "r = Inr (Some n)" and r2: "r2 = Inr k" for n k
  proof -
    have p: "dk_files d p = Some n" "plain_file n" using out(2) [OF r] out(3) [OF r] by simp_all
    have "\<forall>m. dk_files d q = Some m \<longrightarrow> plain_file m"
      using out2(2) [OF r2] out2(3) r2 files by auto
    then show ?thesis
      using rename_outcome [OF f, of n] p files assms J_move [OF assms(1-3) p] by auto
  qed
  then show ?thesis
    using m m2 f assms(1) files
    by (auto simp: rename_if_exists_def and_then_def split: sum.split option.split)
qed

lemmas and_then_step = io_step [where P = J]

lemma rotate_keeps: "J (dk_files d) \<Longrightarrow> J (dk_files (snd (rotate_logs env base d)))"
  unfolding rotate_logs_eq
  by (intro and_then_step remove_keeps rename_keeps) (auto simp: log_paths_eq rotated_paths_def)

lemma rotate_if_needed_keeps: "J (dk_files d) \<Longrightarrow> J (dk_files (snd (rotate_if_needed env base k d)))"
  unfolding rotate_if_needed_def
  by (intro and_then_step) (auto simp: Let_def intro: rotate_keeps)

lemma component_keeps:
  assumes "I (dk_files d)" and "p \<in> managed_dirs base"
    and "p = butlast base \<longrightarrow> plain_dir_at (dk_files d) (butlast (butlast base))"
  shows "I (dk_files (snd (ensure_managed_directory_component env parent p d)))"
proof -
  obtain r e where m: "symlink_metadata env p d = (r, e)" by (cases "symlink_metadata env p d")
  with symlink_metadata_files [of env p d] have fe: "dk_files e = dk_files d" by simp
  obtain c e1 where f: "fs_create_dir env p e = (c, e1)" by (cases "fs_create_dir env p e")
  have "I (dk_files e1)" using create_dir_outcome [OF f] fe assms make_dir by auto
  moreover obtain r2 e2 where m2: "symlink_metadata env p e1 = (r2, e2)" by (cases "symlink_metadata env p e1")
  moreover have "dk_files e2 = dk_files e1" using m2 symlink_metadata_files [of env p e1] by simp
  ultimately show ?thesis
    using m f fe assms(1)
    by (auto simp: ensure_managed_directory_component_def and_then_def map_error_def split: sum.split)
qed

lemma directories_keep:
  assumes "I (dk_files d)"
  shows "I (dk_files (snd (ensure_managed_log_directory env base d)))"
proof (cases "base = [] \<or> butlast base = [] \<or> butlast (butlast base) = []")
  case True
  with assms show ?thesis by (auto simp: ensure_managed_log_directory_def path_parent_def)
next
  case False
  then have ne: "butlast (butlast base) \<noteq> butlast base" using butlast_ne by blast
  have "I (dk_files (snd (and_then
      (ensure_managed_directory_component env (butlast (butlast (butlast base))) (butlast (butlast base)))
      (\<lambda>_. ensure_managed_directory_component env (butlast (butlast base)) (butlast base)) d)))"
  proof (rule io_step [where P = I])
    show "I (dk_files (snd (ensure_managed_directory_component env (butlast (butlast (butlast base))) (butlast (butlast base)) d)))"
      using assms ne by (intro component_keeps) (simp_all add: managed_dirs_def)
  next
    fix x d1
    assume c: "ensure_managed_directory_component env (butlast (butlast (butlast base))) (butlast (butlast base)) d = (Inr x, d1)"
      and i: "I (dk_files d1)"
    from component_plain [OF c] i
    show "I (dk_files (snd (ensure_managed_directory_component env (butlast (butlast base)) (butlast base) d1)))"
      by (intro component_keeps) (simp_all add: managed_dirs_def)
  qed
  with False show ?thesis by (simp add: ensure_managed_log_directory_def path_parent_def)
qed

lemma directories_plain:
  "I (dk_files d) \<Longrightarrow> ensure_managed_log_directory env base d = (Inr u, d') \<Longrightarrow> J (dk_files d')"
  using directories_keep [of d env] ensured_dirs_plain [of env base d u d'] by (simp add: J_def)

lemma append_keeps:
  assumes "J (dk_files d)" and "dk_files d base = Some n" and "plain_file n" and "length (nd_content n) + length bs \<le> B"
  shows "J (dk_files (append_bytes base (take k bs) d))"
  using J_extend [OF assms(1-3), of "take k bs"] assms(2,4) by (simp add: append_bytes_def)

lemma write_all_keeps:
  assumes "J (dk_files d)" and "dk_files d base = Some n" and "plain_file n" and "length (nd_content n) + length bs \<le> B"
  shows "J (dk_files (snd (file_write_all env base bs d)))"
proof -
  obtain r d' where w: "file_write_all env base bs d = (r, d')" by (cases "file_write_all env base bs d")
  obtain k where "dk_files d' = dk_files (append_bytes base (take k bs) d)" using write_all_outcome [OF w] by blast
  with append_keeps [OF assms, of k] w show ?thesis by simp
qed

lemma append_line_keeps:
  assumes a: "J (dk_files d)" "dk_files d base = Some n" "plain_file n" "length (nd_content n) + (length l + 1) \<le> B"
  shows "J (dk_files (snd (append_line env base l d)))"
  unfolding append_line_def
proof (intro and_then_step)
  show "J (dk_files (snd (map_error g (file_write_all env base l) d)))" for g
    using write_all_keeps [OF a(1-3), of l] a(4) by simp
next
  fix x d1 and g :: "io_error \<Rightarrow> string" and g' :: "io_error \<Rightarrow> string"
  assume w: "map_error g (file_write_all env base l) d = (Inr x, d1)" and i: "J (dk_files d1)"
  from w obtain k where "dk_files d1 = dk_files (append_bytes base (take k l) d)" "take k l = l"
    using write_all_outcome [of env base l d "Inr ()" d1] by auto
  then have f: "dk_files d1 base = Some (n\<lparr>nd_content := nd_content n @ l\<rparr>)" by (simp add: append_bytes_def a(2))
  have p: "plain_file (n\<lparr>nd_content := nd_content n @ l\<rparr>)"
    using a(3) by (simp add: plain_file_def has_reparse_point_def)
  have "length (nd_content (n\<lparr>nd_content := nd_content n @ l\<rparr>)) + length [line_feed] \<le> B" using a(4) by simp
  from write_all_keeps [OF i f p this]
  show "J (dk_files (snd (map_error g' (file_write_all env base [line_feed]) d1)))" by simp
qed simp

lemma open_keeps:
  assumes "J (dk_files d)"
  shows "J (dk_files (snd (open_plain_log_file_for_append env base d)))"
proof -
  obtain r e where o: "fs_open_append env base d = (r, e)" by (cases "fs_open_append env base d")
  have "J (dk_files e)" using open_append_outcome [OF o] assms J_make by auto
  with o validate_open_files [of env base e] show ?thesis
    by (cases r) (simp_all add: open_plain_log_file_for_append_def and_then_def map_error_def)
qed

lemma write_tail_keeps:
  assumes "J (dk_files d)" and "\<And>l. le_json env r = Inr l \<Longrightarrow> length l + 1 \<le> B"
  shows "J (dk_files (snd (and_then (checked (serialize_record env r)) (\<lambda>line.
     and_then (rotate_if_needed env base (length line + 1)) (\<lambda>_.
     and_then (open_plain_log_file_for_append env base) (\<lambda>_.
     append_line env base line))) d)))"
proof (intro and_then_step)
  fix l d2 u3 d3 u4 d4
  assume "checked (serialize_record env r) d = (Inr l, d2)"
    and rot: "rotate_if_needed env base (length l + 1) d2 = (Inr u3, d3)"
    and op: "open_plain_log_file_for_append env base d3 = (Inr u4, d4)" and i4: "J (dk_files d4)"
  then have "le_json env r = Inr l" by (auto simp: serialize_record_def split: sum.splits)
  then have "max MAX_LOG_BYTES (length l + 1) \<le> B" using capacity assms(2) by simp
  moreover obtain n where n: "dk_files d4 base = Some n" "plain_file n"
    "length (nd_content n) \<le> (case dk_files d3 base of Some n \<Rightarrow> length (nd_content n) | None \<Rightarrow> 0)"
    using open_plain_append_ok [OF op] by blast
  ultimately have "length (nd_content n) + (length l + 1) \<le> B" using rotate_if_needed_fits [OF rot] by linarith
  then show "J (dk_files (snd (append_line env base l d4)))" by (rule append_line_keeps [OF i4 n(1,2)])
qed (use assms(1) in \<open>auto intro: rotate_if_needed_keeps open_keeps\<close>)

lemma write_record_keeps:
  assumes "I (dk_files d)" and "\<And>l. le_json env r = Inr l \<Longrightarrow> length l + 1 \<le> B"
  shows "I (dk_files (snd (write_record env base r d)))"
  unfolding write_record_def
proof (rule io_step [where P = I])
  show "I (dk_files (snd (ensure_managed_log_directory env base d)))" by (rule directories_keep [OF assms(1)])
next
  fix u d1
  assume "ensure_managed_log_directory env base d = (Inr u, d1)"
  from write_tail_keeps [OF directories_plain [OF assms(1) this] assms(2)]
  show "I (dk_files (snd (and_then (checked (serialize_record env r)) (\<lambda>line.
     and_then (rotate_if_needed env base (length line + 1)) (\<lambda>_.
     and_then (open_plain_log_file_for_append env base) (\<lambda>_.
     append_line env base line))) d1)))" by (simp add: J_def)
qed

lemma writer_loop_keeps:
  assumes "I (dk_files d)" and "\<And>r l. Record r \<in> set cs \<Longrightarrow> le_json env r = Inr l \<Longrightarrow> length l + 1 \<le> B"
  shows "I (dk_files (run_writer_loop env base cs d))"
  using assms
proof (induction cs arbitrary: d)
  case (Cons c cs)
  show ?case
  proof (cases c)
    case (Record r)
    have "I (dk_files (snd (write_record env base r d)))"
      using Cons.prems Record by (intro write_record_keeps) auto
    with Cons Record show ?thesis by auto
  qed (use Cons in auto)
qed simp

end


subsection \<open>Only managed plain files are touched, and they stay small\<close>

definition line_bytes :: "log_env \<Rightarrow> log_command \<Rightarrow> nat" where
  "line_bytes env c =
     (case c of Record r \<Rightarrow> (case le_json env r of Inr l \<Rightarrow> length l + 1 | Inl _ \<Rightarrow> 0) | Log_Shutdown \<Rightarrow> 0)"

definition longest_line :: "log_env \<Rightarrow> log_command list \<Rightarrow> nat" where
  "longest_line env cs = fold max (map (line_bytes env) cs) 0"

lemma fold_max_bound: "(\<forall>x \<in> set xs. x \<le> fold max xs k) \<and> k \<le> fold max xs (k :: nat)"
proof (induction xs arbitrary: k)
  case (Cons x xs)
  from Cons [of "max x k"] show ?case by simp
qed simp

lemma longest_line_bound: "Record r \<in> set cs \<Longrightarrow> le_json env r = Inr l \<Longrightarrow> length l + 1 \<le> longest_line env cs"
  using fold_max_bound [of "map (line_bytes env) cs" 0]
  by (force simp: longest_line_def line_bytes_def)

definition managed_paths :: "path \<Rightarrow> path set" where
  "managed_paths base = set (log_paths_oldest_to_newest base) \<union> managed_dirs base"

text \<open>Relative to the files \<open>f0\<close> at the start: nothing outside the managed paths changed, and
  every folder, link or other reparse point that was there still is.\<close>

definition foreign_kept :: "(path \<rightharpoonup> node) \<Rightarrow> path \<Rightarrow> (path \<rightharpoonup> node) \<Rightarrow> bool" where
  "foreign_kept f0 base f \<longleftrightarrow>
     (\<forall>p. p \<notin> managed_paths base \<longrightarrow> f p = f0 p) \<and>
     (\<forall>p n. f0 p = Some n \<longrightarrow> \<not> plain_file n \<longrightarrow> f p = Some n)"

definition sizes_within :: "nat \<Rightarrow> path \<Rightarrow> (path \<rightharpoonup> node) \<Rightarrow> bool" where
  "sizes_within B base f \<longleftrightarrow> (\<forall>p \<in> set (log_paths_oldest_to_newest base). \<forall>n. f p = Some n \<longrightarrow> length (nd_content n) \<le> B)"

lemma foreign_kept_upd:
  assumes "foreign_kept f0 base f" and "p \<in> managed_paths base" and "\<And>n. f p = Some n \<Longrightarrow> plain_file n"
  shows "foreign_kept f0 base (f(p := x))"
  using assms unfolding foreign_kept_def by (metis fun_upd_apply)

interpretation foreign: log_invariant "foreign_kept f0 base" base "max MAX_LOG_BYTES B" for f0 base B
proof unfold_locales
  fix f p q n
  assume f: "foreign_kept f0 base f" and p: "p \<in> set (log_paths_oldest_to_newest base)" "f p = Some n" "plain_file n"
  then have *: "foreign_kept f0 base (f(p := None))" by (intro foreign_kept_upd) (auto simp: managed_paths_def)
  then show "foreign_kept f0 base (f(p := None))" .
  assume "q \<in> set (rotated_paths base)" "\<forall>m. f q = Some m \<longrightarrow> plain_file m"
  then show "foreign_kept f0 base (f(p := None, q := Some n))"
    using rotated_managed by (intro foreign_kept_upd [OF *]) (auto simp: managed_paths_def split: if_splits)
qed (auto intro!: foreign_kept_upd simp: managed_paths_def log_paths_eq)

interpretation sizes: log_invariant "sizes_within (max MAX_LOG_BYTES B) base" base "max MAX_LOG_BYTES B" for base B
  by unfold_locales (auto simp: sizes_within_def dest: rotated_managed)

text \<open>The changes the writer is allowed to make, one at a time: a missing managed directory is
  created (\<^verbatim>\<open>logs\<close> only inside a plain \<^verbatim>\<open>Wardoff\<close>); and while both managed directories are plain
  directories, so that a path through them leads nowhere else, a plain log file is removed or moved
  to a rotated name that is free or holds a plain file, the log file is created where nothing is, or
  a plain log file grows at its end.\<close>

inductive writer_step :: "path \<Rightarrow> (path \<rightharpoonup> node) \<Rightarrow> (path \<rightharpoonup> node) \<Rightarrow> bool" for base where
  step_make_dir: "p \<in> managed_dirs base \<Longrightarrow> f p = None \<Longrightarrow>
    (p = butlast base \<longrightarrow> plain_dir_at f (butlast (butlast base))) \<Longrightarrow> writer_step base f (f(p \<mapsto> fresh_dir))"
| step_drop: "dirs_plain base f \<Longrightarrow> p \<in> set (log_paths_oldest_to_newest base) \<Longrightarrow> f p = Some n \<Longrightarrow> plain_file n \<Longrightarrow>
    writer_step base f (f(p := None))"
| step_move: "dirs_plain base f \<Longrightarrow> p \<in> set (log_paths_oldest_to_newest base) \<Longrightarrow> q \<in> set (rotated_paths base) \<Longrightarrow>
    f p = Some n \<Longrightarrow> plain_file n \<Longrightarrow> (\<forall>m. f q = Some m \<longrightarrow> plain_file m) \<Longrightarrow>
    writer_step base f (f(p := None, q := Some n))"
| step_make_file: "dirs_plain base f \<Longrightarrow> f base = None \<Longrightarrow> writer_step base f (f(base \<mapsto> fresh_file))"
| step_extend: "dirs_plain base f \<Longrightarrow> f base = Some n \<Longrightarrow> plain_file n \<Longrightarrow>
    writer_step base f (f(base \<mapsto> n\<lparr>nd_content := nd_content n @ bs\<rparr>))"

interpretation steps: log_invariant "(writer_step base)\<^sup>*\<^sup>* f0" base "max MAX_LOG_BYTES B" for f0 base B
  by unfold_locales (auto intro: rtranclp.rtrancl_into_rtrancl writer_step.intros)

text \<open>C17. Whatever is queued and whatever fails, every change the log writer makes to the disk is
  one of the steps above, so none is made through a managed directory that is a junction, link or
  other reparse point, and none to a log file that is not a plain file; and altogether nothing
  outside its two directories and three files changes, and a link, junction, other reparse point or
  directory found at a managed path is left as it was. A hard link to a file elsewhere is a plain
  file to these checks (as \<^verbatim>\<open>docs/SECURITY_AUDIT.md\<close> says): the claim is about paths, not about the
  file behind such a link.\<close>

theorem writer_touches_only_plain_managed_files:
  "(writer_step base)\<^sup>*\<^sup>* (dk_files d) (dk_files (run_writer_loop env base cs d)) \<and>
   foreign_kept (dk_files d) base (dk_files (run_writer_loop env base cs d))"
proof
  show "(writer_step base)\<^sup>*\<^sup>* (dk_files d) (dk_files (run_writer_loop env base cs d))"
    by (rule steps.writer_loop_keeps [where B = "longest_line env cs"])
      (use longest_line_bound in \<open>force simp: le_max_iff_disj\<close>)+
  show "foreign_kept (dk_files d) base (dk_files (run_writer_loop env base cs d))"
  proof (rule foreign.writer_loop_keeps [where B = "longest_line env cs"])
    show "foreign_kept (dk_files d) base (dk_files d)" by (simp add: foreign_kept_def)
  qed (use longest_line_bound in \<open>force simp: le_max_iff_disj\<close>)
qed

text \<open>C18. The log stays bounded. However many records are written and whichever calls fail,
  each of the at most three files holds at most 5 MiB, or the longest single record where that
  is more.\<close>

theorem log_files_bounded:
  assumes "sizes_within MAX_LOG_BYTES base (dk_files d)"
  shows "length (log_paths_oldest_to_newest base) = 3 \<and>
         sizes_within (max MAX_LOG_BYTES (longest_line env cs)) base (dk_files (run_writer_loop env base cs d))"
proof
  show "length (log_paths_oldest_to_newest base) = 3" by (simp add: log_paths_eq)
  have "sizes_within (max MAX_LOG_BYTES (longest_line env cs)) base (dk_files d)"
    using assms by (fastforce simp: sizes_within_def)
  then show "sizes_within (max MAX_LOG_BYTES (longest_line env cs)) base (dk_files (run_writer_loop env base cs d))"
    by (rule sizes.writer_loop_keeps) (use longest_line_bound in \<open>force simp: le_max_iff_disj\<close>)
qed

definition sample_env :: log_env where
  "sample_env =
     \<lparr>le_fault = (\<lambda>_. None), le_kind_text = (\<lambda>_. ''failed''), le_display = concat,
      le_json = (\<lambda>r. Inr (lr_event r)), le_local_app_data = [''local'']\<rparr>"

definition sample_record :: "string \<Rightarrow> log_record" where
  "sample_record e = \<lparr>lr_timestamp = [], lr_event = e, lr_source = [], lr_action = [], lr_success = True\<rparr>"

definition sample_disk :: disk where
  "sample_disk = \<lparr>dk_files = [[''local''] \<mapsto> \<lparr>nd_kind = Kind_Dir, nd_attributes = 16, nd_content = []\<rparr>], dk_ticks = 0\<rparr>"

theorem log_files_bounded_witness:
  "sizes_within (max MAX_LOG_BYTES 6) (default_log_path sample_env)
     (dk_files (run_writer_loop sample_env (default_log_path sample_env)
        [Record (sample_record ''hello''), Log_Shutdown] sample_disk))"
proof -
  have "sizes_within MAX_LOG_BYTES (default_log_path sample_env) (dk_files sample_disk)"
    by (simp add: sizes_within_def sample_disk_def)
  from log_files_bounded [OF this, of sample_env "[Record (sample_record ''hello''), Log_Shutdown]"]
  moreover have "longest_line sample_env [Record (sample_record ''hello''), Log_Shutdown] = 6"
    by (simp add: longest_line_def line_bytes_def sample_env_def sample_record_def)
  ultimately show ?thesis by (simp only:)
qed


subsection \<open>The newest lines\<close>

definition last_n :: "nat \<Rightarrow> 'a list \<Rightarrow> 'a list" where
  "last_n n xs = drop (length xs - n) xs"

lemma last_n_short [simp]: "length xs \<le> n \<Longrightarrow> last_n n xs = xs"
  by (simp add: last_n_def)

lemma length_last_n [simp]: "length (last_n n xs) = min n (length xs)"
  by (simp add: last_n_def)

lemma last_n_append: "last_n n (last_n n xs @ ys) = last_n n (xs @ ys)"
proof (cases "length xs \<le> n")
  case False
  then have "drop (length ys) (drop (length xs - n) xs) @ drop (length ys - n) ys =
      drop (length xs + length ys - n) xs @ drop (length ys - n) ys"
    by (simp add: drop_drop add.commute)
  with False show ?thesis by (simp add: last_n_def)
qed simp

lemma last_n_snoc:
  assumes "0 < n" and "length xs \<le> n"
  shows "last_n n (xs @ [x]) = (if length xs = n then tl xs else xs) @ [x]"
  using assms by (cases xs) (auto simp: last_n_def drop_Cons')

definition all_lines :: "path \<Rightarrow> disk \<Rightarrow> string list" where
  "all_lines base d = concat (map (\<lambda>p. file_lines p d) (log_paths_oldest_to_newest base))"

lemma file_lines_cong: "dk_files d' = dk_files d \<Longrightarrow> file_lines p d' = file_lines p d"
  by (simp add: file_lines_def)

lemma read_line_outcome:
  assumes "read_line env p l d = (r, d')"
  shows "dk_files d' = dk_files d" and "r = Inr x \<Longrightarrow> x = l"
  using assms
  by (auto simp: read_line_def map_error_def io_call_def no_effect_def Let_def split: option.splits if_splits)

lemma try_reserve_files [simp]: "dk_files (snd (try_reserve env p d)) = dk_files d"
  by (simp add: try_reserve_def io_call_def no_effect_def Let_def split: option.split)

lemma open_read_files [simp]: "dk_files (snd (open_plain_log_file_for_read env p d)) = dk_files d"
proof -
  have "dk_files (snd (fs_open_read env p d)) = dk_files d"
    by (simp add: fs_open_read_def io_call_def no_effect_def Let_def split: option.split)
  then show ?thesis
    by (cases "fs_open_read env p d"; cases "fst (fs_open_read env p d)")
      (auto simp: open_plain_log_file_for_read_def and_then_def map_error_def)
qed

lemma collect_lines_outcome:
  assumes "collect_lines env p limit ls recent d = (r, d')" and "0 < limit" and "length recent \<le> limit"
  shows "dk_files d' = dk_files d \<and> (\<forall>out. r = Inr out \<longrightarrow> out = last_n limit (recent @ ls))"
  using assms
proof (induction ls arbitrary: recent d)
  case (Cons l ls)
  obtain r1 d1 where l: "read_line env p l d = (r1, d1)" by (cases "read_line env p l d")
  note o1 = read_line_outcome [OF l]
  show ?case
  proof (cases r1)
    case (Inl e)
    with Cons.prems(1) l o1(1) show ?thesis by (auto simp: and_then_def)
  next
    case (Inr x)
    define push where "push = (if length recent = limit then ok (tl recent) else and_then (try_reserve env p) (\<lambda>_. ok recent))"
    obtain r2 d2 where m: "push d1 = (r2, d2)" by (cases "push d1")
    have o2: "dk_files d2 = dk_files d1" "\<And>y. r2 = Inr y \<Longrightarrow> y = (if length recent = limit then tl recent else recent)"
      using m try_reserve_files [of env p d1]
      by (cases "try_reserve env p d1"; cases "fst (try_reserve env p d1)"; auto simp: push_def and_then_def split: if_splits)+
    have c: "collect_lines env p limit (l # ls) recent d =
        and_then push (\<lambda>recent. collect_lines env p limit ls (recent @ [l])) d1"
      using l Inr o1(2) by (simp add: and_then_def push_def)
    show ?thesis
    proof (cases r2)
      case (Inl e)
      with c m Cons.prems(1) o1(1) o2(1) show ?thesis by (auto simp: and_then_def)
    next
      case (Inr y)
      have y: "y @ [l] = last_n limit (recent @ [l])"
        using o2(2) [OF Inr] last_n_snoc [OF Cons.prems(2,3), of l] by simp
      have "collect_lines env p limit ls (y @ [l]) d2 = (r, d')"
        using c m Inr Cons.prems(1) by (simp add: and_then_def)
      moreover have "length (y @ [l]) \<le> limit" by (simp add: y)
      ultimately have "dk_files d' = dk_files d2 \<and> (\<forall>out. r = Inr out \<longrightarrow> out = last_n limit ((y @ [l]) @ ls))"
        by (rule Cons.IH [OF _ Cons.prems(2)])
      with y o1(1) o2(1) last_n_append [of limit "recent @ [l]" ls] show ?thesis by simp
    qed
  qed
qed auto

lemma read_files_outcome:
  assumes "read_files env limit ps recent d = (r, d')" and "0 < limit" and "length recent \<le> limit"
  shows "dk_files d' = dk_files d \<and>
         (\<forall>out. r = Inr out \<longrightarrow> out = last_n limit (recent @ concat (map (\<lambda>p. file_lines p d) ps)))"
  using assms
proof (induction ps arbitrary: recent d)
  case (Cons p ps)
  obtain r1 d1 where m: "log_file_metadata_if_exists env p d = (r1, d1)" by (cases "log_file_metadata_if_exists env p d")
  note o1 = metadata_outcome [OF m]
  have fl: "file_lines q d1 = file_lines q d" for q by (rule file_lines_cong [OF o1(1)])
  consider (err) e where "r1 = Inl e" | (absent) "r1 = Inr None" | (there) n where "r1 = Inr (Some n)"
    by (cases r1; cases "projr r1") simp_all
  then show ?case
  proof cases
    case err
    with m Cons.prems o1(1) show ?thesis by (auto simp: and_then_def)
  next
    case absent
    with m Cons.prems have "read_files env limit ps recent d1 = (r, d')" by (simp add: and_then_def)
    from Cons.IH [OF this Cons.prems(2,3)] o1(1) o1(2) [OF absent] fl show ?thesis by (simp add: file_lines_def)
  next
    case there
    obtain r2 d2 where op: "open_plain_log_file_for_read env p d1 = (r2, d2)" by (cases "open_plain_log_file_for_read env p d1")
    with open_read_files [of env p d1] o1(1) have f2: "dk_files d2 = dk_files d" by simp
    obtain r3 d3 where col: "collect_lines env p limit (file_lines p d2) recent d2 = (r3, d3)"
      by (cases "collect_lines env p limit (file_lines p d2) recent d2")
    note o3 = collect_lines_outcome [OF col Cons.prems(2,3)]
    have f3: "dk_files d3 = dk_files d" using o3 f2 by simp
    have run: "read_files env limit (p # ps) recent d =
        (case r2 of Inl e \<Rightarrow> (Inl e, d2) | Inr _ \<Rightarrow>
          (case r3 of Inl e \<Rightarrow> (Inl e, d3) | Inr recent \<Rightarrow> read_files env limit ps recent d3))"
      using m there op col by (simp add: and_then_def split: sum.split)
    show ?thesis
    proof (cases "\<exists>u y. r2 = Inr u \<and> r3 = Inr y")
      case True
      then obtain y where y: "r3 = Inr y" "read_files env limit ps y d3 = (r, d')" using run Cons.prems(1) by auto
      then have y2: "y = last_n limit (recent @ file_lines p d)" using o3 by (simp add: file_lines_cong [OF f2])
      have "length y \<le> limit" by (simp add: y2)
      note ih = Cons.IH [OF y(2) Cons.prems(2) this]
      have "concat (map (\<lambda>p. file_lines p d3) ps) = concat (map (\<lambda>p. file_lines p d) ps)" by (simp add: file_lines_cong [OF f3])
      with ih y2 f3 last_n_append [of limit "recent @ file_lines p d" "concat (map (\<lambda>p. file_lines p d) ps)"]
      show ?thesis by simp
    qed (use run Cons.prems(1) f2 f3 in \<open>auto split: sum.splits\<close>)
  qed
qed auto


subsection \<open>A disk without faults\<close>

definition healthy :: "log_env \<Rightarrow> bool" where
  "healthy env \<longleftrightarrow> (\<forall>t. le_fault env t = None)"

definition readable :: "path \<Rightarrow> disk \<Rightarrow> bool" where
  "readable base d = list_all (\<lambda>p. case dk_files d p of None \<Rightarrow> True
     | Some n \<Rightarrow> plain_file n \<and> list_all utf8_valid (lines_of (nd_content n))) (log_paths_oldest_to_newest base)"

lemma readable_iff:
  "readable base d \<longleftrightarrow>
     (\<forall>p \<in> set (log_paths_oldest_to_newest base). \<forall>n. dk_files d p = Some n \<longrightarrow>
        plain_file n \<and> (\<forall>l \<in> set (lines_of (nd_content n)). utf8_valid l))"
  by (auto simp: readable_def list_all_iff split: option.split)

definition ticked :: "disk \<Rightarrow> disk" where
  "ticked d = d\<lparr>dk_ticks := dk_ticks d + 1\<rparr>"

lemma ticked_files [simp]: "dk_files (ticked d) = dk_files d"
  by (simp add: ticked_def)

lemma healthy_io [prog_simps]: "healthy env \<Longrightarrow> io_call env partial m d = m (ticked d)"
  by (simp add: healthy_def io_call_def ticked_def)

lemma healthy_metadata [prog_simps]:
  "healthy env \<Longrightarrow> dk_files d p = None \<Longrightarrow> log_file_metadata_if_exists env p d = (Inr None, ticked d)"
  "healthy env \<Longrightarrow> dk_files d p = Some n \<Longrightarrow> plain_file n \<Longrightarrow>
     log_file_metadata_if_exists env p d = (Inr (Some n), ticked d)"
  by (simp_all add: log_file_metadata_if_exists_def symlink_metadata_def healthy_io natural_error_def
      validate_plain_file_def plain_file_def and_then_def)

lemma healthy_validate_open:
  "healthy env \<Longrightarrow> dk_files d p = Some n \<Longrightarrow> plain_file n \<Longrightarrow> validate_open_plain_file env p d = (Inr (), ticked d)"
  by (simp add: validate_open_plain_file_def symlink_metadata_def healthy_io map_error_def
      validate_plain_file_def plain_file_def and_then_def)

lemma healthy_open_read:
  "healthy env \<Longrightarrow> dk_files d p = Some n \<Longrightarrow> plain_file n \<Longrightarrow>
     open_plain_log_file_for_read env p d = (Inr (), ticked (ticked d))"
  using healthy_validate_open [of env "ticked d" p n]
  by (simp add: open_plain_log_file_for_read_def fs_open_read_def healthy_io map_error_def plain_file_def and_then_def)

lemma healthy_collect:
  "healthy env \<Longrightarrow> \<forall>l \<in> set ls. utf8_valid l \<Longrightarrow> is_ok (fst (collect_lines env p limit ls recent d))"
  by (induction ls arbitrary: recent d)
    (simp_all add: read_line_def try_reserve_def healthy_io map_error_def no_effect_def and_then_def)

lemma healthy_read_files:
  assumes "healthy env" and "0 < limit" and "length recent \<le> limit"
    and "\<forall>p \<in> set ps. \<forall>n. dk_files d p = Some n \<longrightarrow> plain_file n \<and> (\<forall>l \<in> set (lines_of (nd_content n)). utf8_valid l)"
  shows "is_ok (fst (read_files env limit ps recent d))"
  using assms
proof (induction ps arbitrary: recent d)
  case (Cons p ps)
  show ?case
  proof (cases "dk_files d p")
    case None
    with Cons show ?thesis by (simp add: healthy_metadata and_then_def)
  next
    case (Some n)
    let ?d = "ticked (ticked (ticked d))"
    have n: "plain_file n" "\<forall>l \<in> set (file_lines p ?d). utf8_valid l"
      using Cons.prems(4) Some by (auto simp: file_lines_def)
    obtain r d' where c: "collect_lines env p limit (file_lines p ?d) recent ?d = (r, d')"
      by (cases "collect_lines env p limit (file_lines p ?d) recent ?d")
    with healthy_collect [OF Cons.prems(1) n(2), of p limit recent ?d] obtain y where y: "r = Inr y"
      by (auto simp: is_ok_iff)
    note out = collect_lines_outcome [OF c Cons.prems(2,3)]
    have "is_ok (fst (read_files env limit ps y d'))"
      using out y Cons.prems by (intro Cons.IH) auto
    moreover have "read_files env limit (p # ps) recent d = read_files env limit ps y d'"
      using healthy_metadata(2) [OF Cons.prems(1) Some n(1)] healthy_open_read [of env "ticked d" p n] Cons.prems(1) Some n(1) c y
      by (simp add: and_then_def)
    ultimately show ?thesis by simp
  qed
qed simp

lemma recent_lines_outcome:
  assumes "read_recent_lines_from_path env base limit d = (r, d')"
  shows "dk_files d' = dk_files d \<and>
         (\<forall>out. r = Inr out \<longrightarrow> out = last_n (unat limit) (all_lines base d)) \<and>
         (limit > max_tail_line_count \<longrightarrow> is_err r \<and> d' = d) \<and>
         (healthy env \<and> readable base d \<and> limit \<le> max_tail_line_count \<longrightarrow> is_ok r)"
proof -
  consider (over) "limit > max_tail_line_count" | (zero) "limit \<le> max_tail_line_count" "limit = 0"
    | (read) "limit \<le> max_tail_line_count" "limit \<noteq> 0" by fastforce
  then show ?thesis
  proof cases
    case over
    with assms show ?thesis by (auto simp: read_recent_lines_from_path_def)
  next
    case zero
    with assms show ?thesis by (auto simp: read_recent_lines_from_path_def last_n_def)
  next
    case read
    then have run: "read_files env (unat limit) (log_paths_oldest_to_newest base) [] d = (r, d')"
      using assms by (simp add: read_recent_lines_from_path_def leD)
    have pos: "0 < unat limit" using read(2) by (simp add: unat_gt_0)
    have "is_ok (fst (read_files env (unat limit) (log_paths_oldest_to_newest base) [] d))"
      if "healthy env" "readable base d"
      using that pos by (intro healthy_read_files) (auto simp: readable_iff)
    with read_files_outcome [OF run pos] run read show ?thesis by (auto simp: all_lines_def)
  qed
qed

text \<open>C19. \<^verbatim>\<open>wardoff --log --tail n\<close> prints the newest lines. The bounded buffer that is filled
  while reading the rotated files in order ends as exactly the last \<open>n\<close> of all retained lines,
  the reader changes no file, a count above the limit is refused before the disk is looked at,
  and on a working disk with plain UTF-8 files reading does succeed.\<close>

theorem tail_is_newest_lines:
  assumes "read_recent_lines_from_path env base limit d = (r, d')"
  shows "dk_files d' = dk_files d \<and>
         (\<forall>out. r = Inr out \<longrightarrow> out = last_n (unat limit) (all_lines base d)) \<and>
         (limit > max_tail_line_count \<longrightarrow> is_err r \<and> d' = d) \<and>
         (healthy env \<and> readable base d \<and> limit \<le> max_tail_line_count \<longrightarrow> is_ok r)"
  by (rule recent_lines_outcome [OF assms])

definition two_file_disk :: disk where
  "two_file_disk = \<lparr>dk_files =
     [default_log_path sample_env \<mapsto> \<lparr>nd_kind = Kind_File, nd_attributes = 32, nd_content = ''three'' @ [line_feed]\<rparr>,
      rotated_log_path (default_log_path sample_env) 1 \<mapsto>
        \<lparr>nd_kind = Kind_File, nd_attributes = 32, nd_content = ''one'' @ [carriage_return, line_feed] @ ''two'' @ [line_feed]\<rparr>],
      dk_ticks = 0\<rparr>"

theorem tail_is_newest_lines_witness:
  "fst (read_recent_lines_from_path sample_env (default_log_path sample_env) 2 two_file_disk) = Inr [''two'', ''three''] \<and>
   is_err (fst (read_recent_lines_from_path sample_env (default_log_path sample_env) 100001 two_file_disk))"
proof
  obtain r d' where r: "read_recent_lines_from_path sample_env (default_log_path sample_env) 2 two_file_disk = (r, d')"
    by (cases "read_recent_lines_from_path sample_env (default_log_path sample_env) 2 two_file_disk")
  have lines: "all_lines (default_log_path sample_env) two_file_disk = [''one'', ''two'', ''three'']" by code_simp
  have h: "healthy sample_env" by (simp add: healthy_def sample_env_def)
  have rd: "readable (default_log_path sample_env) two_file_disk" by code_simp
  have "(2 :: u64) \<le> max_tail_line_count" by (simp add: max_tail_line_count_def)
  with tail_is_newest_lines [OF r] h rd lines
  show "fst (read_recent_lines_from_path sample_env (default_log_path sample_env) 2 two_file_disk) = Inr [''two'', ''three'']"
    by (auto simp: r is_ok_iff last_n_def)
  obtain r2 d2 where r2: "read_recent_lines_from_path sample_env (default_log_path sample_env) 100001 two_file_disk = (r2, d2)"
    by (cases "read_recent_lines_from_path sample_env (default_log_path sample_env) 100001 two_file_disk")
  from tail_is_newest_lines [OF r2]
  show "is_err (fst (read_recent_lines_from_path sample_env (default_log_path sample_env) 100001 two_file_disk))"
    by (simp add: r2 max_tail_line_count_def)
qed


subsection \<open>Writing on a disk without faults\<close>

definition ready :: "path \<Rightarrow> disk \<Rightarrow> bool" where
  "ready base d \<longleftrightarrow>
     3 \<le> length base \<and>
     (case dk_files d (butlast base) of Some n \<Rightarrow> plain_dir n | None \<Rightarrow> False) \<and>
     (case dk_files d (butlast (butlast base)) of Some n \<Rightarrow> plain_dir n | None \<Rightarrow> False) \<and>
     list_all (\<lambda>p. case dk_files d p of None \<Rightarrow> True | Some n \<Rightarrow> plain_file n) (log_paths_oldest_to_newest base) \<and>
     (case dk_files d base of None \<Rightarrow> True | Some n \<Rightarrow> nd_content n = [] \<or> last (nd_content n) = line_feed)"

lemma healthy_component:
  "healthy env \<Longrightarrow> dk_files d p = Some n \<Longrightarrow> plain_dir n \<Longrightarrow>
     ensure_managed_directory_component env parent p d = (Inr (), ticked d)"
  by (simp add: ensure_managed_directory_component_def symlink_metadata_def healthy_io validate_plain_directory_def plain_dir_def)

lemma healthy_directories:
  assumes "healthy env" and "ready base d"
  shows "ensure_managed_log_directory env base d = (Inr (), ticked (ticked d))"
proof -
  have "3 \<le> length base" using assms(2) by (simp add: ready_def)
  then have ne: "base \<noteq> []" "butlast base \<noteq> []" "butlast (butlast base) \<noteq> []"
    using length_butlast [of base] length_butlast [of "butlast base"] by (auto simp del: length_butlast)
  obtain m n where "dk_files d (butlast base) = Some m" "plain_dir m"
    "dk_files d (butlast (butlast base)) = Some n" "plain_dir n"
    using assms(2) by (auto simp: ready_def split: option.splits)
  with ne assms(1) show ?thesis
    by (simp add: ensure_managed_log_directory_def path_parent_def and_then_def healthy_component)
qed

lemma healthy_remove:
  assumes "healthy env" and "\<And>n. dk_files d p = Some n \<Longrightarrow> plain_file n"
  shows "\<exists>d'. remove_file_if_exists env p d = (Inr (), d') \<and> dk_files d' = (dk_files d)(p := None)"
proof (cases "dk_files d p")
  case None
  with assms(1) show ?thesis by (auto simp: remove_file_if_exists_def and_then_def healthy_metadata fun_upd_idem)
next
  case (Some n)
  with assms show ?thesis
    by (auto simp: remove_file_if_exists_def and_then_def healthy_metadata fs_remove_file_def healthy_io plain_file_def)
qed

lemma healthy_rename:
  assumes "healthy env" and "p \<noteq> q" and "\<And>n. dk_files d p = Some n \<Longrightarrow> plain_file n" and "dk_files d q = None" and "q \<noteq> []"
  shows "\<exists>d'. rename_if_exists env p q d = (Inr (), d') \<and> dk_files d' = (dk_files d)(p := None, q := dk_files d p)"
proof (cases "dk_files d p")
  case None
  with assms(1,4) have "rename_if_exists env p q d = (Inr (), ticked d)"
    by (simp add: rename_if_exists_def and_then_def healthy_metadata)
  moreover have "(dk_files d)(p := None, q := dk_files d p) = dk_files d" using None assms(4) by auto
  ultimately show ?thesis by simp
next
  case (Some n)
  with assms show ?thesis
    by (auto simp: rename_if_exists_def and_then_def healthy_metadata fs_rename_def healthy_io is_folder_def)
qed

lemma rotated_nonempty [simp]: "rotated_log_path base i \<noteq> []"
  by (simp add: rotated_log_path_def Let_def)

lemma healthy_rotate:
  assumes "healthy env" and plain: "\<And>p n. p \<in> set (log_paths_oldest_to_newest base) \<Longrightarrow> dk_files d p = Some n \<Longrightarrow> plain_file n"
  shows "\<exists>d'. rotate_logs env base d = (Inr (), d') \<and>
    dk_files d' = (dk_files d)(rotated_log_path base 2 := dk_files d (rotated_log_path base 1),
                               rotated_log_path base 1 := dk_files d base, base := None)"
proof -
  let ?p1 = "rotated_log_path base 1" and ?p2 = "rotated_log_path base 2"
  note ne = rotated_not_base [of base 1] rotated_not_base [of base 2]
  obtain d1 where d1: "remove_file_if_exists env ?p2 d = (Inr (), d1)" "dk_files d1 = (dk_files d)(?p2 := None)"
    using healthy_remove [OF assms(1), of d ?p2] plain by (auto simp: log_paths_eq)
  obtain d2 where d2: "rename_if_exists env ?p1 ?p2 d1 = (Inr (), d2)"
    "dk_files d2 = (dk_files d1)(?p1 := None, ?p2 := dk_files d1 ?p1)"
    using healthy_rename [OF assms(1), of ?p1 ?p2 d1] d1(2) plain by (auto simp: log_paths_eq)
  obtain d3 where d3: "rename_if_exists env base ?p1 d2 = (Inr (), d3)"
    "dk_files d3 = (dk_files d2)(base := None, ?p1 := dk_files d2 base)"
    using healthy_rename [OF assms(1), of base ?p1 d2] d1(2) d2(2) plain ne by (auto simp: log_paths_eq)
  have "rotate_logs env base d = (Inr (), d3)" using d1(1) d2(1) d3(1) by (simp add: rotate_logs_eq and_then_def)
  moreover have "dk_files d3 = (dk_files d)(?p2 := dk_files d ?p1, ?p1 := dk_files d base, base := None)"
    using ne by (auto simp: d1(2) d2(2) d3(2) fun_eq_iff)
  ultimately show ?thesis by blast
qed

lemma healthy_append:
  assumes "healthy env"
  shows "\<exists>d'. append_line env p l d = (Inr (), d') \<and> dk_files d' = dk_files (append_bytes p (l @ [line_feed]) d)"
  using assms
  by (auto simp: append_line_def and_then_def map_error_def file_write_all_def file_flush_def healthy_io append_bytes_def
      option.map_comp comp_def)

lemma healthy_open_append:
  assumes "healthy env" and "\<And>n. dk_files d p = Some n \<Longrightarrow> plain_file n" and "is_folder d (butlast p)"
  shows "\<exists>d'. open_plain_log_file_for_append env p d = (Inr (), d') \<and>
    dk_files d' = (dk_files d)(p := Some (case dk_files d p of Some n \<Rightarrow> n
      | None \<Rightarrow> \<lparr>nd_kind = Kind_File, nd_attributes = 32, nd_content = []\<rparr>))"
proof (cases "dk_files d p")
  case (Some n)
  with assms healthy_validate_open [of env "ticked d" p n] show ?thesis
    by (auto simp: open_plain_log_file_for_append_def fs_open_append_def and_then_def map_error_def healthy_io plain_file_def
        fun_upd_idem)
next
  case None
  let ?n = "\<lparr>nd_kind = Kind_File, nd_attributes = 32, nd_content = []\<rparr>"
  let ?d = "(ticked d)\<lparr>dk_files := (dk_files d)(p \<mapsto> ?n)\<rparr>"
  have "plain_file ?n" by (simp add: plain_file_def has_reparse_point_def FILE_ATTRIBUTE_REPARSE_POINT_def)
  with healthy_validate_open [of env ?d p ?n] assms(1) have "validate_open_plain_file env p ?d = (Inr (), ticked ?d)" by simp
  moreover have "is_folder (ticked d) (butlast p)" using assms(3) by (simp add: is_folder_def)
  ultimately show ?thesis using None assms(1)
    by (auto simp: open_plain_log_file_for_append_def fs_open_append_def and_then_def map_error_def healthy_io)
qed


lemma lines_from_cut: "lines_from acc (s @ line_feed # t) = lines_from acc (s @ [line_feed]) @ lines_from [] t"
  by (induction s arbitrary: acc) simp_all

lemma lines_from_line: "line_feed \<notin> set l \<Longrightarrow> lines_from acc (l @ [line_feed]) = [strip_cr (rev acc @ l)]"
  by (induction l arbitrary: acc) auto

lemma lines_of_append:
  assumes "content = [] \<or> last content = line_feed" and "line_feed \<notin> set l" and "l = [] \<or> last l \<noteq> carriage_return"
  shows "lines_of (content @ l @ [line_feed]) = lines_of content @ [l]"
proof -
  have one: "lines_from [] (l @ [line_feed]) = [l]" using lines_from_line [OF assms(2), of "[]"] assms(3) by (auto simp: strip_cr_def)
  show ?thesis
  proof (cases "content = []")
    case False
    with assms(1) obtain s where "content = s @ [line_feed]" by (metis append_butlast_last_id)
    with one lines_from_cut [of "[]" s "l @ [line_feed]"] show ?thesis by (simp add: lines_of_def)
  qed (use one in \<open>simp add: lines_of_def\<close>)
qed

definition current_size :: "path \<Rightarrow> disk \<Rightarrow> nat" where
  "current_size p d = (case dk_files d p of Some n \<Rightarrow> length (nd_content n) | None \<Rightarrow> 0)"

text \<open>The lines retained when a line of \<open>k\<close> bytes arrives: a rotation forgets the oldest file.\<close>

definition retained :: "path \<Rightarrow> nat \<Rightarrow> disk \<Rightarrow> string list" where
  "retained base k d =
     (if current_size base d + k \<le> MAX_LOG_BYTES then all_lines base d
      else drop (length (file_lines (rotated_log_path base 2) d)) (all_lines base d))"

lemma healthy_rotate_if_needed:
  assumes "healthy env" and "ready base d"
  shows "\<exists>d'. rotate_if_needed env base k d = (Inr (), d') \<and>
    (if current_size base d + k \<le> MAX_LOG_BYTES then dk_files d' = dk_files d
     else dk_files d' = (dk_files d)(rotated_log_path base 2 := dk_files d (rotated_log_path base 1),
                               rotated_log_path base 1 := dk_files d base, base := None))"
proof -
  have plain: "p \<in> set (log_paths_oldest_to_newest base) \<Longrightarrow> dk_files d p = Some n \<Longrightarrow> plain_file n" for p n
    using assms(2) by (auto simp: ready_def list_all_iff split: option.splits)
  have m: "log_file_metadata_if_exists env base d = (Inr (dk_files d base), ticked d)"
    using plain [of base] assms(1) by (cases "dk_files d base") (simp_all add: healthy_metadata log_paths_eq)
  have size: "(case dk_files d base of Some n \<Rightarrow> length (nd_content n) | None \<Rightarrow> 0) = current_size base d"
    by (simp add: current_size_def)
  show ?thesis
  proof (cases "current_size base d + k \<le> MAX_LOG_BYTES")
    case True
    with m size show ?thesis by (simp add: rotate_if_needed_def and_then_def)
  next
    case False
    with m size healthy_rotate [OF assms(1), of base "ticked d"] plain show ?thesis
      by (auto simp: rotate_if_needed_def and_then_def)
  qed
qed

lemma healthy_write:
  assumes "healthy env" and "ready base d" and "le_json env r = Inr l"
    and "line_feed \<notin> set l" and "l = [] \<or> last l \<noteq> carriage_return"
  shows "\<exists>d' f n. write_record env base r d = (Inr (), d') \<and> dk_files d' = f(base \<mapsto> n) \<and> plain_file n \<and>
     (if current_size base d + (length l + 1) \<le> MAX_LOG_BYTES
      then f = dk_files d \<and> lines_of (nd_content n) = file_lines base d @ [l]
      else f = (dk_files d)(rotated_log_path base 2 := dk_files d (rotated_log_path base 1),
                            rotated_log_path base 1 := dk_files d base, base := None) \<and>
           lines_of (nd_content n) = [l])"
proof -
  let ?d2 = "ticked (ticked d)"
  have r2: "ready base ?d2" and cs: "current_size base ?d2 = current_size base d"
    using assms(2) by (simp_all add: ready_def current_size_def)
  obtain d3 where d3: "rotate_if_needed env base (length l + 1) ?d2 = (Inr (), d3)"
    "if current_size base d + (length l + 1) \<le> MAX_LOG_BYTES then dk_files d3 = dk_files d
     else dk_files d3 = (dk_files d)(rotated_log_path base 2 := dk_files d (rotated_log_path base 1),
                               rotated_log_path base 1 := dk_files d base, base := None)"
    using healthy_rotate_if_needed [OF assms(1) r2, of "length l + 1"] cs by auto
  have same: "dk_files d3 base = None \<or> dk_files d base = dk_files d3 base" using d3(2) by (auto split: if_splits)
  have plain: "plain_file n" and ends: "nd_content n = [] \<or> last (nd_content n) = line_feed"
    if "dk_files d base = Some n" for n
    using that assms(2) by (simp_all add: ready_def log_paths_eq)
  have "base \<noteq> []" using assms(2) by (auto simp: ready_def)
  then have "length (butlast base) < length base" "length (butlast base) < length (rotated_log_path base i)" for i
    by (simp_all add: rotated_log_path_def path_parent_def Let_def)
  then have "butlast base \<noteq> base" "butlast base \<noteq> rotated_log_path base i" for i by (metis less_irrefl)+
  then have "dk_files d3 (butlast base) = dk_files d (butlast base)" using d3(2) by (simp split: if_splits)
  then have fold: "is_folder d3 (butlast base)"
    using assms(2) by (auto simp: ready_def is_folder_def plain_dir_def split: option.splits)
  define n where "n = (case dk_files d3 base of Some n \<Rightarrow> n | None \<Rightarrow> \<lparr>nd_kind = Kind_File, nd_attributes = 32, nd_content = []\<rparr>)"
  obtain d4 where d4: "open_plain_log_file_for_append env base d3 = (Inr (), d4)" "dk_files d4 = (dk_files d3)(base \<mapsto> n)"
    using healthy_open_append [OF assms(1), of d3 base] fold same plain by (auto simp: n_def)
  obtain d5 where d5: "append_line env base l d4 = (Inr (), d5)"
    "dk_files d5 = (dk_files d3)(base \<mapsto> n\<lparr>nd_content := nd_content n @ l @ [line_feed]\<rparr>)"
    using healthy_append [OF assms(1), of base l d4] d4(2) by (auto simp: append_bytes_def)
  have "write_record env base r d = (Inr (), d5)"
    using healthy_directories [OF assms(1,2)] d3(1) d4(1) d5(1) assms(3)
    by (simp add: write_record_def and_then_def serialize_record_def)
  moreover have "plain_file (n\<lparr>nd_content := nd_content n @ l @ [line_feed]\<rparr>)"
    using same plain by (auto simp: n_def plain_file_def has_reparse_point_def FILE_ATTRIBUTE_REPARSE_POINT_def split: option.split)
  moreover have "lines_of (nd_content n @ l @ [line_feed]) = file_lines base d3 @ [l]"
  proof -
    have "nd_content n = [] \<or> last (nd_content n) = line_feed"
      using same ends by (cases "dk_files d3 base") (auto simp: n_def)
    then have "lines_of (nd_content n @ l @ [line_feed]) = lines_of (nd_content n) @ [l]"
      by (rule lines_of_append [OF _ assms(4,5)])
    then show ?thesis by (cases "dk_files d3 base") (simp_all add: n_def file_lines_def lines_of_def)
  qed
  ultimately show ?thesis using d3(2) d5(2)
    by (intro exI [of _ d5] exI [of _ "dk_files d3"] exI [of _ "n\<lparr>nd_content := nd_content n @ l @ [line_feed]\<rparr>"])
      (auto simp: file_lines_def split: if_splits)
qed

lemma all_lines_eq:
  "all_lines base d = file_lines (rotated_log_path base 2) d @ file_lines (rotated_log_path base 1) d @ file_lines base d"
  by (simp add: all_lines_def log_paths_eq)

lemma healthy_write_lines:
  assumes "healthy env" and "ready base d" and "readable base d" and "le_json env r = Inr l"
    and "line_feed \<notin> set l" and "l = [] \<or> last l \<noteq> carriage_return" and "utf8_valid l"
  shows "\<exists>d'. write_record env base r d = (Inr (), d') \<and> readable base d' \<and>
     all_lines base d' = retained base (length l + 1) d @ [l]"
proof -
  obtain d' f n where w: "write_record env base r d = (Inr (), d')" and f: "dk_files d' = f(base \<mapsto> n)" and p: "plain_file n"
    and cs: "if current_size base d + (length l + 1) \<le> MAX_LOG_BYTES
      then f = dk_files d \<and> lines_of (nd_content n) = file_lines base d @ [l]
      else f = (dk_files d)(rotated_log_path base 2 := dk_files d (rotated_log_path base 1),
                            rotated_log_path base 1 := dk_files d base, base := None) \<and>
           lines_of (nd_content n) = [l]"
    using healthy_write [OF assms(1,2,4-6)] by blast
  note ne = rotated_not_base [of base 1] rotated_not_base [of base 2]
  have u: "utf8_valid x" if "p \<in> set (log_paths_oldest_to_newest base)" "x \<in> set (file_lines p d)" for p x
    using assms(3) that by (cases "dk_files d p") (auto simp: readable_iff file_lines_def)
  have pl: "plain_file n" if "p \<in> set (log_paths_oldest_to_newest base)" "dk_files d p = Some n" for p n
    using assms(3) that by (auto simp: readable_iff)
  have "readable base d' \<and> all_lines base d' = retained base (length l + 1) d @ [l]"
  proof (cases "current_size base d + (length l + 1) \<le> MAX_LOG_BYTES")
    case True
    with cs f have fs: "dk_files d' = (dk_files d)(base \<mapsto> n)" "lines_of (nd_content n) = file_lines base d @ [l]" by auto
    have "readable base d'"
      using u [of base] assms(3,7) p ne by (auto simp: readable_iff log_paths_eq fs)
    then show ?thesis using True fs ne by (simp add: all_lines_eq retained_def file_lines_def)
  next
    case False
    with cs f have fs: "dk_files d' = (dk_files d)(rotated_log_path base 2 := dk_files d (rotated_log_path base 1),
        rotated_log_path base 1 := dk_files d base, base \<mapsto> n)" "lines_of (nd_content n) = [l]" by auto
    have "readable base d'"
      using assms(3,7) p ne by (auto simp: readable_iff log_paths_eq fs)
    then show ?thesis using False fs ne by (simp add: all_lines_eq retained_def file_lines_def)
  qed
  with w show ?thesis by blast
qed

text \<open>C20. What is logged can be read back. On a working disk, and for a serializer that keeps a
  record on one line, \<^verbatim>\<open>write_record\<close> succeeds and a following \<^verbatim>\<open>--log --tail n\<close> returns the
  last \<open>n\<close> lines of what was retained followed by exactly that record; when the file was full, the
  oldest rotated file, and nothing else, is forgotten.\<close>

theorem log_round_trip:
  assumes "healthy env" and "ready base d" and "readable base d" and "le_json env r = Inr line"
    and "line_feed \<notin> set line" and "line = [] \<or> last line \<noteq> carriage_return" and "utf8_valid line"
    and "limit \<le> max_tail_line_count"
  shows "fst (write_record env base r d) = Inr () \<and>
         fst (read_recent_lines_from_path env base limit (snd (write_record env base r d))) =
           Inr (last_n (unat limit) (retained base (length line + 1) d @ [line]))"
proof -
  obtain d' where w: "write_record env base r d = (Inr (), d')" "readable base d'"
    "all_lines base d' = retained base (length line + 1) d @ [line]"
    using healthy_write_lines [OF assms(1-7)] by blast
  obtain q d2 where q: "read_recent_lines_from_path env base limit d' = (q, d2)"
    by (cases "read_recent_lines_from_path env base limit d'")
  from recent_lines_outcome [OF q] assms(1,8) w q show ?thesis by (auto simp: is_ok_iff)
qed

definition ready_disk :: disk where
  "ready_disk = \<lparr>dk_files =
     [[''local'', ''Wardoff''] \<mapsto> \<lparr>nd_kind = Kind_Dir, nd_attributes = 16, nd_content = []\<rparr>,
      [''local'', ''Wardoff'', ''logs''] \<mapsto> \<lparr>nd_kind = Kind_Dir, nd_attributes = 16, nd_content = []\<rparr>,
      default_log_path sample_env \<mapsto> \<lparr>nd_kind = Kind_File, nd_attributes = 32, nd_content = ''old'' @ [line_feed]\<rparr>],
      dk_ticks = 0\<rparr>"

theorem log_round_trip_witness:
  "fst (read_recent_lines_from_path sample_env (default_log_path sample_env) 5
     (snd (write_record sample_env (default_log_path sample_env) (sample_record ''new'') ready_disk))) =
   Inr [''old'', ''new'']"
proof -
  have h: "healthy sample_env" by (simp add: healthy_def sample_env_def)
  have r: "ready (default_log_path sample_env) ready_disk" "readable (default_log_path sample_env) ready_disk" by code_simp+
  have j: "le_json sample_env (sample_record ''new'') = Inr ''new''" by (simp add: sample_env_def sample_record_def)
  have l: "line_feed \<notin> set ''new''" "''new'' = [] \<or> last ''new'' \<noteq> carriage_return" "utf8_valid ''new''" by code_simp+
  have k: "(5 :: u64) \<le> max_tail_line_count" by (simp add: max_tail_line_count_def)
  have "all_lines (default_log_path sample_env) ready_disk = [''old'']" "current_size (default_log_path sample_env) ready_disk = 4"
    by code_simp+
  then have "retained (default_log_path sample_env) (length ''new'' + 1) ready_disk = [''old'']"
    by (simp add: retained_def MAX_LOG_BYTES_def)
  with log_round_trip [OF h r j l k] show ?thesis by (simp add: last_n_def)
qed


subsection \<open>The writer thread implements synchronous logging\<close>

text \<open>While the program runs, any thread may log and the writer may take a turn, in any order.\<close>

datatype sink_event = Ev_Log string event_source string bool | Ev_Writer

fun sink_step :: "os \<Rightarrow> log_env \<Rightarrow> sink_event \<Rightarrow> log_sink \<times> world \<Rightarrow> log_sink \<times> world" where
  "sink_step os env (Ev_Log e s a b) (sk, w) = (sk, log_event os e s a b w)"
| "sink_step os env Ev_Writer s = writer_turn env s"

text \<open>The specification: each record is written when it is logged.\<close>

fun logged :: "os \<Rightarrow> world \<Rightarrow> sink_event list \<Rightarrow> log_record list" where
  "logged os w [] = []"
| "logged os w (Ev_Log e s a b # es) = log_record_new os w e s a b # logged os w es"
| "logged os w (Ev_Writer # es) = logged os w es"

definition write_all_records :: "log_env \<Rightarrow> log_record list \<Rightarrow> disk \<Rightarrow> disk" where
  "write_all_records env rs d = fold (\<lambda>r d. snd (write_record env (default_log_path env) r d)) rs d"

lemma writer_loop_records:
  "run_writer_loop env (default_log_path env) (map Record rs @ Log_Shutdown # cs) d = write_all_records env rs d"
  by (induction rs arbitrary: d) (simp_all add: write_all_records_def)

text \<open>The simulation: the disk, once the queued records are written to it, is the disk of the
  specification.\<close>

definition simulates :: "os \<Rightarrow> log_env \<Rightarrow> world \<Rightarrow> disk \<Rightarrow> log_sink \<times> world \<Rightarrow> bool" where
  "simulates os env w0 d = (\<lambda>(sk, w).
     trace w = trace w0 \<and> sk_handle sk = Handle_Present \<and>
     (\<exists>q. log_commands w = Some \<lparr>lc_queue = map Record q, lc_receiver = True\<rparr> \<and>
          write_all_records env q (sk_disk sk) = d))"

lemma simulates_step:
  assumes "simulates os env w0 d (sk, w)"
  shows "simulates os env w0 (write_all_records env (logged os w0 [ev]) d) (sink_step os env ev (sk, w))"
proof (cases ev)
  case (Ev_Log e s a b)
  from assms obtain q where q: "log_commands w = Some \<lparr>lc_queue = map Record q, lc_receiver = True\<rparr>"
    "write_all_records env q (sk_disk sk) = d" "trace w = trace w0" "sk_handle sk = Handle_Present"
    by (auto simp: simulates_def)
  have "log_record_new os w e s a b = log_record_new os w0 e s a b" using q(3) by (simp add: log_record_new_def)
  moreover have "map Record q @ [Record r] = map Record (q @ [r])" for r by simp
  ultimately have "log_commands (log_event os e s a b w) =
      Some \<lparr>lc_queue = map Record (q @ [log_record_new os w0 e s a b]), lc_receiver = True\<rparr>"
    using q(1) by (simp add: log_event_def log_send_def)
  with q(2-4) Ev_Log show ?thesis
    by (auto simp: simulates_def write_all_records_def intro!: exI [of _ "q @ [log_record_new os w0 e s a b]"])
next
  case Ev_Writer
  from assms obtain q where q: "log_commands w = Some \<lparr>lc_queue = map Record q, lc_receiver = True\<rparr>"
    "write_all_records env q (sk_disk sk) = d" "trace w = trace w0" "sk_handle sk = Handle_Present"
    by (auto simp: simulates_def)
  then show ?thesis
    using Ev_Writer by (cases q) (auto simp: simulates_def writer_turn_def write_all_records_def)
qed

lemma logged_Cons: "logged os w (ev # es) = logged os w [ev] @ logged os w es"
  by (cases ev) simp_all

lemma simulates_run:
  "simulates os env w0 d s \<Longrightarrow>
     simulates os env w0 (write_all_records env (logged os w0 es) d) (fold (sink_step os env) es s)"
proof (induction es arbitrary: d s)
  case Nil
  then show ?case by (simp add: write_all_records_def)
next
  case (Cons ev es)
  obtain sk w where "s = (sk, w)" by (cases s)
  with Cons.IH [OF simulates_step] Cons.prems have
    "simulates os env w0 (write_all_records env (logged os w0 es) (write_all_records env (logged os w0 [ev]) d))
       (fold (sink_step os env) es (sink_step os env ev s))" by simp
  then show ?case by (subst logged_Cons) (simp add: write_all_records_def)
qed

text \<open>C21. Asynchronous logging loses nothing. From \<^verbatim>\<open>initialize_structured_logging\<close> to
  \<^verbatim>\<open>shutdown_structured_logging\<close>, however log calls and writer turns interleave, the disk ends
  as if every record had been written synchronously, once, in the order logged; the shutdown
  returns with the writer gone, later events are dropped, and a second shutdown does nothing.\<close>

theorem async_logging_is_synchronous:
  assumes "log_commands w = None" and "sk_handle sk = Handle_Unset"
    and "initialize_structured_logging os (sk, w) = (Inr (), s0)"
    and "shutdown_structured_logging os env (fold (sink_step os env) es s0) = (sk2, w2)"
  shows "sk_disk sk2 = write_all_records env (logged os (snd s0) es) (sk_disk sk) \<and>
         log_commands w2 = Some \<lparr>lc_queue = [], lc_receiver = False\<rparr> \<and>
         log_event os e s a b w2 = w2 \<and> writer_turn env (sk2, w2) = (sk2, w2) \<and>
         shutdown_structured_logging os env (sk2, w2) = (sk2, w2)"
proof -
  obtain sk0 w0 where s0: "s0 = (sk0, w0)" by (cases s0)
  have i: "log_commands w0 = Some \<lparr>lc_queue = [], lc_receiver = True\<rparr>" "sk_handle sk0 = Handle_Present"
    "sk_disk sk0 = sk_disk sk"
    using assms(1-3) by (auto simp: s0 initialize_structured_logging_def call_unit_cases split: option.splits)
  then have "simulates os env w0 (sk_disk sk) (sk0, w0)"
    by (auto simp: simulates_def write_all_records_def)
  then have run: "simulates os env w0 (write_all_records env (logged os w0 es) (sk_disk sk)) (fold (sink_step os env) es (sk0, w0))"
    by (rule simulates_run)
  obtain sk1 w1 where s1: "fold (sink_step os env) es (sk0, w0) = (sk1, w1)" by (cases "fold (sink_step os env) es (sk0, w0)")
  from run obtain q where q: "log_commands w1 = Some \<lparr>lc_queue = map Record q, lc_receiver = True\<rparr>"
    "write_all_records env q (sk_disk sk1) = write_all_records env (logged os w0 es) (sk_disk sk)" "sk_handle sk1 = Handle_Present"
    by (auto simp: simulates_def s1)
  have e: "sk2 = sk1\<lparr>sk_handle := Handle_Taken, sk_disk := write_all_records env q (sk_disk sk1)\<rparr>"
    "log_commands w2 = Some \<lparr>lc_queue = [], lc_receiver = False\<rparr>"
    using assms(4) q(1,3) by (auto simp: s0 s1 shutdown_structured_logging_def writer_join_def log_send_def
        writer_loop_records call_unit_cases Let_def)
  have "log_event os e s a b w2 = w2" "writer_turn env (sk2, w2) = (sk2, w2)"
    "shutdown_structured_logging os env (sk2, w2) = (sk2, w2)"
    using e by (auto simp: log_event_def log_send_def writer_turn_def shutdown_structured_logging_def Let_def)
  with e q(2) s0 show ?thesis by simp
qed

theorem async_logging_is_synchronous_witness:
  "\<exists>s0 sk2 w2.
     initialize_structured_logging quiet_os (\<lparr>sk_handle = Handle_Unset, sk_disk = ready_disk\<rparr>, initial_world) = (Inr (), s0) \<and>
     shutdown_structured_logging quiet_os sample_env
       (fold (sink_step quiet_os sample_env)
          [Ev_Log ''a'' Src_Cli ''x'' True, Ev_Writer, Ev_Log ''b'' Src_Cli ''y'' True] s0) = (sk2, w2) \<and>
     sk_disk sk2 = write_all_records sample_env
       [log_record_new quiet_os (snd s0) ''a'' Src_Cli ''x'' True, log_record_new quiet_os (snd s0) ''b'' Src_Cli ''y'' True]
       ready_disk"
proof -
  let ?sk = "\<lparr>sk_handle = Handle_Unset, sk_disk = ready_disk\<rparr>"
  have c: "log_commands initial_world = None" "sk_handle ?sk = Handle_Unset" by (simp_all add: initial_world_def)
  obtain s0 where i: "initialize_structured_logging quiet_os (?sk, initial_world) = (Inr (), s0)"
    by (auto simp: initialize_structured_logging_def c call_unit_cases quiet_os_def)
  let ?es = "[Ev_Log ''a'' Src_Cli ''x'' True, Ev_Writer, Ev_Log ''b'' Src_Cli ''y'' True]"
  obtain sk2 w2 where s: "shutdown_structured_logging quiet_os sample_env (fold (sink_step quiet_os sample_env) ?es s0) = (sk2, w2)"
    by (cases "shutdown_structured_logging quiet_os sample_env (fold (sink_step quiet_os sample_env) ?es s0)")
  from async_logging_is_synchronous [OF c i s] have
    "sk_disk sk2 = write_all_records sample_env (logged quiet_os (snd s0) ?es) ready_disk" by simp
  with i s show ?thesis by (intro exI [of _ s0] exI [of _ sk2] exI [of _ w2]) simp
qed

end
