(* ===== verification/Retry.thy ===== *)
theory Retry
  imports World
begin

text \<open>
  The bounded retry loops of the program: \<^verbatim>\<open>for attempt in 0..n\<close> with an early \<^verbatim>\<open>return\<close>.
  \<open>for_attempts\<close> is that loop; its body answers \<open>Some r\<close> to return \<open>r\<close> and \<open>None\<close> to go on.
  The locale \<open>bounded_retry\<close> is the contract the loops of \<^verbatim>\<open>instance.rs\<close> and \<^verbatim>\<open>ipc.rs\<close>
  satisfy: one try per round, a sleep only between rounds, and a last round that returns. Its
  lemmas bound the tries and the time slept, and show that the loop returns.
\<close>

function for_attempts :: "(nat \<Rightarrow> 's \<Rightarrow> 'r option \<times> 's) \<Rightarrow> nat \<Rightarrow> nat \<Rightarrow> 's \<Rightarrow> 'r option \<times> 's" where
  "for_attempts body k n s =
     (if k < n then
        (case body k s of
           (Some r, s) \<Rightarrow> (Some r, s)
         | (None, s) \<Rightarrow> for_attempts body (k + 1) n s)
      else (None, s))"
  by pat_completeness auto
termination
  by (relation "measure (\<lambda>(_, k, n, _). n - k)") auto

declare for_attempts.simps [simp del]

text \<open>A loop that returned did so in one of its rounds, reached through rounds that went on.\<close>

lemma for_attempts_final:
  assumes "for_attempts body k n w = (Some r, w')" and "J w"
    and "\<And>i v v'. J v \<Longrightarrow> body i v = (None, v') \<Longrightarrow> J v'"
  shows "\<exists>i v. k \<le> i \<and> i < n \<and> J v \<and> body i v = (Some r, w')"
  using assms
proof (induction "n - k" arbitrary: k w rule: less_induct)
  case less
  obtain q v where b: "body k w = (q, v)" by (cases "body k w")
  have k: "k < n" using less.prems(1) by (auto simp: for_attempts.simps [of body k] split: if_splits)
  show ?case
  proof (cases q)
    case (Some x)
    with b less.prems(1) k have "body k w = (Some r, w')" by (simp add: for_attempts.simps [of body k])
    with k less.prems(2) show ?thesis by blast
  next
    case None
    with b less.prems(1) k have "for_attempts body (k + 1) n v = (Some r, w')"
      by (simp add: for_attempts.simps [of body k])
    moreover have "J v" using less.prems(2,3) b None by blast
    moreover have "n - (k + 1) < n - k" using k by simp
    ultimately obtain i u where "k + 1 \<le> i" "i < n" "J u" "body i u = (Some r, w')"
      using less.hyps [of "k + 1" v] less.prems(3) by blast
    then show ?thesis by (intro exI [of _ i] exI [of _ u]) simp
  qed
qed

subsection \<open>Ledgers of tries and sleeps\<close>

text \<open>Durations and instants are in nanoseconds.\<close>

fun slept :: "history \<Rightarrow> nat" where
  "slept [] = 0"
| "slept ((c, r) # h) = (case c of Thread (ThreadSleep d) \<Rightarrow> d + slept h | _ \<Rightarrow> slept h)"

definition tries :: "(sys_call \<Rightarrow> bool) \<Rightarrow> history \<Rightarrow> nat" where
  "tries P h = length (filter (\<lambda>cr. P (fst cr)) h)"

lemma tries_Cons [simp]: "tries P ((c, r) # h) = (if P c then Suc (tries P h) else tries P h)"
  by (simp add: tries_def)

text \<open>Calls that neither sleep nor count as a try.\<close>

definition idle_call :: "(sys_call \<Rightarrow> bool) \<Rightarrow> sys_call \<Rightarrow> bool" where
  "idle_call P c \<longleftrightarrow> \<not> P c \<and> (case c of Thread (ThreadSleep _) \<Rightarrow> False | _ \<Rightarrow> True)"

lemma idle_tries: "only_calls (idle_call P) w w' \<Longrightarrow> tries P (trace w') = tries P (trace w)"
  by (erule only_calls_ledger) (simp add: idle_call_def)

lemma idle_slept: "only_calls (idle_call P) w w' \<Longrightarrow> slept (trace w') = slept (trace w)"
  by (erule only_calls_ledger) (auto simp: idle_call_def split: sys_call.splits thread_call.splits)

text \<open>The clock: \<^verbatim>\<open>Instant::now\<close> never goes back and \<^verbatim>\<open>thread::sleep\<close> sleeps at least as long
  as asked. \<open>clock_low\<close> is the time that must have been reached after a history.\<close>

fun clock_low :: "history \<Rightarrow> nat" where
  "clock_low [] = 0"
| "clock_low ((c, r) # h) =
     (case c of
        Thread InstantNow \<Rightarrow> r_num r
      | Thread (ThreadSleep d) \<Rightarrow> clock_low h + d
      | _ \<Rightarrow> clock_low h)"

definition honest_clock :: "os \<Rightarrow> bool" where
  "honest_clock os \<longleftrightarrow> (\<forall>h. clock_low h \<le> r_num (os h (Thread InstantNow)))"

locale bounded_retry =
  fixes body :: "nat \<Rightarrow> 's \<Rightarrow> 'r option \<times> 's" and n :: nat and delay :: nat
    and is_try :: "sys_call \<Rightarrow> bool" and hist :: "'s \<Rightarrow> history"
  assumes positive: "0 < n"
    and one_try: "k < n \<Longrightarrow> body k w = (r, w') \<Longrightarrow> tries is_try (hist w') \<le> tries is_try (hist w) + 1"
    and last_returns: "body (n - 1) w = (r, w') \<Longrightarrow> r \<noteq> None"
    and sleeps: "k < n \<Longrightarrow> body k w = (r, w') \<Longrightarrow>
          slept (hist w') \<le> slept (hist w) + (if r = None then delay else 0)"
begin

lemma from_round:
  assumes "k < n" and "for_attempts body k n w = (r, w')"
  shows "r \<noteq> None \<and> tries is_try (hist w') \<le> tries is_try (hist w) + (n - k) \<and>
         slept (hist w') \<le> slept (hist w) + (n - 1 - k) * delay"
  using assms
proof (induction "n - k" arbitrary: k w rule: less_induct)
  case less
  obtain q v where b: "body k w = (q, v)" by (cases "body k w")
  note t = one_try [OF less.prems(1) b] and s = sleeps [OF less.prems(1) b]
  show ?case
  proof (cases q)
    case (Some x)
    with b less.prems have "r = Some x" "w' = v" by (simp_all add: for_attempts.simps [of body k])
    with t s Some less.prems(1) show ?thesis by auto
  next
    case None
    then have k: "Suc k < n" using last_returns b less.prems(1) by (metis Suc_lessI diff_Suc_1)
    with b None less.prems have "for_attempts body (Suc k) n v = (r, w')"
      by (simp add: for_attempts.simps [of body k])
    from less.hyps [OF _ k this] less.prems(1)
    have ih: "r \<noteq> None" "tries is_try (hist w') \<le> tries is_try (hist v) + (n - Suc k)"
      "slept (hist w') \<le> slept (hist v) + (n - 1 - Suc k) * delay" by auto
    have "n - 1 - k = Suc (n - 1 - Suc k)" using k by simp
    then have "(n - 1 - k) * delay = delay + (n - 1 - Suc k) * delay" by simp
    with ih t s None k show ?thesis by auto
  qed
qed

lemma returns:
  assumes "for_attempts body 0 n w = (r, w')"
  shows "r \<noteq> None \<and> tries is_try (hist w') \<le> tries is_try (hist w) + n \<and>
         slept (hist w') \<le> slept (hist w) + (n - 1) * delay"
  using from_round [OF positive assms] by simp

end

end
