(* ===== verification/Instance.thy ===== *)
theory Instance
  imports Abort Retry
begin

text \<open>
  One primary runtime per session: the names of \<^verbatim>\<open>session_scope.rs\<close> and the mutex claim of
  \<^verbatim>\<open>instance.rs\<close>. An \<^verbatim>\<open>unreachable!\<close> is modelled as an error whose text starts with
  \<open>panic\<close>.
\<close>

subsection \<open>\<^verbatim>\<open>session_scope.rs\<close>\<close>

definition MUTEX_NAME_PREFIX :: string where
  "MUTEX_NAME_PREFIX = ''Local'' @ [CHR 0x5C] @ ''WardoffInstance-Session-''"

definition pipe_root :: string where
  "pipe_root = [CHR 0x5C, CHR 0x5C, CHR ''.'', CHR 0x5C] @ ''pipe'' @ [CHR 0x5C]"

definition CONTROL_PIPE_PATH_PREFIX :: string where
  "CONTROL_PIPE_PATH_PREFIX = pipe_root @ ''WardoffControl-Session-''"

definition STATUS_PIPE_PATH_PREFIX :: string where
  "STATUS_PIPE_PATH_PREFIX = pipe_root @ ''WardoffStatus-Session-''"

definition current_session_id :: "os \<Rightarrow> (world, string, u32) prog" where
  "current_session_id os =
     and_then (map_error (\<lambda>e. ''Wardoff could not query its process token for the current session ID: '' @ err_text e)
         (call_num os (Token (OpenProcessToken TOKEN_QUERY)))) (\<lambda>token.
       with_guard os token (\<lambda>w.
         let (r, w) = syscall os (Instance (GetTokenSessionId token)) w in
         case r_err r of
           Some e \<Rightarrow>
             (Inl (''Wardoff could not read its current session ID from the process token: '' @ err_text e), w)
         | None \<Rightarrow>
             if length (r_bytes r) \<noteq> 4
             then (Inl (''Wardoff received an unexpected session-ID size ('' @ show_nat (length (r_bytes r)) @
                        '') from the process token.''), w)
             else (Inr (of_nat (r_num r)), w)))"

definition mutex_name_for_session :: "u32 \<Rightarrow> string" where
  "mutex_name_for_session session_id = MUTEX_NAME_PREFIX @ show_nat (unat session_id)"

definition control_pipe_path_for_session :: "u32 \<Rightarrow> string" where
  "control_pipe_path_for_session session_id = CONTROL_PIPE_PATH_PREFIX @ show_nat (unat session_id)"

definition status_pipe_path_for_session :: "u32 \<Rightarrow> string" where
  "status_pipe_path_for_session session_id = STATUS_PIPE_PATH_PREFIX @ show_nat (unat session_id)"

definition current_mutex_name :: "os \<Rightarrow> (world, string, string) prog" where
  "current_mutex_name os = and_then (current_session_id os) (\<lambda>s. ok (mutex_name_for_session s))"

definition current_control_pipe_path :: "os \<Rightarrow> (world, string, string) prog" where
  "current_control_pipe_path os = and_then (current_session_id os) (\<lambda>s. ok (control_pipe_path_for_session s))"

definition current_status_pipe_path :: "os \<Rightarrow> (world, string, string) prog" where
  "current_status_pipe_path os = and_then (current_session_id os) (\<lambda>s. ok (status_pipe_path_for_session s))"

subsection \<open>\<^verbatim>\<open>instance.rs\<close>\<close>

text \<open>The guard is the handle it closes when dropped.\<close>

datatype instance_claim = Claim_Primary nat | Claim_Secondary

datatype claim_disposition = Disp_Primary | Disp_Secondary

definition classify_create_claim :: "bool \<Rightarrow> claim_disposition" where
  "classify_create_claim already_exists = (if already_exists then Disp_Secondary else Disp_Primary)"

definition is_mutex_access_denied :: "os \<Rightarrow> win_error \<Rightarrow> bool" where
  "is_mutex_access_denied os error \<longleftrightarrow>
     err_code error = E_ACCESSDENIED \<or> err_code error = hresult_from_win32 os ERROR_ACCESS_DENIED"

definition classify_access_denied_probe :: "string \<Rightarrow> win_error \<Rightarrow> win_error + unit \<Rightarrow> claim_disposition res" where
  "classify_access_denied_probe mutex_name create_error open_result =
     (case open_result of
        Inr _ \<Rightarrow> Inr Disp_Secondary
      | Inl open_error \<Rightarrow>
          Inl (''Wardoff could not create or open its single-instance mutex ('' @ mutex_name @
            ''). The environment or an existing owner may be restricting access. CreateMutexExW: '' @
            err_text create_error @ ''; OpenMutexW probe: '' @ err_text open_error))"

definition open_mutex_probe :: "os \<Rightarrow> string \<Rightarrow> (world, win_error, unit) prog" where
  "open_mutex_probe os mutex_name =
     and_then (call_num os (Instance (OpenMutexW mutex_name)))
       (\<lambda>handle w. (Inr (), snd (call_unit os (Token (CloseHandle handle)) w)))"

definition claim_mutex :: "os \<Rightarrow> string \<Rightarrow> (world, string, instance_claim) prog" where
  "claim_mutex os mutex_name w =
     (case call_num os (Instance (CreateMutexExW mutex_name)) w of
        (Inr handle, w) \<Rightarrow>
          let (last_error, w) = call_value os (Token GetLastError) w in
          if classify_create_claim ((of_nat last_error :: u32) = ERROR_ALREADY_EXISTS) = Disp_Secondary
          then (Inr Claim_Secondary, snd (call_unit os (Token (CloseHandle handle)) w))
          else (Inr (Claim_Primary handle), w)
      | (Inl create_error, w) \<Rightarrow>
          if is_mutex_access_denied os create_error then
            let (open_result, w) = open_mutex_probe os mutex_name w in
            (case classify_access_denied_probe mutex_name create_error open_result of
               Inl message \<Rightarrow> (Inl message, w)
             | Inr Disp_Primary \<Rightarrow> (Inl ''panic: access-denied probe cannot produce primary'', w)
             | Inr Disp_Secondary \<Rightarrow> (Inr Claim_Secondary, w))
          else
            (Inl (''Wardoff could not create or open its single-instance mutex ('' @ mutex_name @ ''): '' @
                  err_text create_error), w))"

definition claim_primary_instance :: "os \<Rightarrow> (world, string, instance_claim) prog" where
  "claim_primary_instance os = and_then (current_mutex_name os) (claim_mutex os)"

definition is_primary :: "instance_claim \<Rightarrow> bool" where
  "is_primary claim = (case claim of Claim_Primary _ \<Rightarrow> True | Claim_Secondary \<Rightarrow> False)"

definition claim_attempt :: "os \<Rightarrow> nat \<Rightarrow> nat \<Rightarrow> nat \<Rightarrow> world \<Rightarrow> instance_claim res option \<times> world" where
  "claim_attempt os attempts delay attempt w =
     (case claim_primary_instance os w of
        (Inl e, w) \<Rightarrow> (Some (Inl e), w)
      | (Inr claim, w) \<Rightarrow>
          if is_primary claim \<or> attempt + 1 = attempts then (Some (Inr claim), w)
          else (None, snd (call_unit os (Thread (ThreadSleep delay)) w)))"

definition claim_primary_instance_with_retry ::
    "os \<Rightarrow> nat \<Rightarrow> nat \<Rightarrow> (world, string, instance_claim) prog" where
  "claim_primary_instance_with_retry os attempts delay w =
     (let attempts = max attempts 1 in
      case for_attempts (claim_attempt os attempts delay) 0 attempts w of
        (Some r, w) \<Rightarrow> (r, w)
      | (None, w) \<Rightarrow> (Inl ''panic: the retry loop always returns on its final attempt'', w))"

text \<open>\<^verbatim>\<open>Drop for InstanceGuard\<close>\<close>

definition instance_guard_drop :: "os \<Rightarrow> nat \<Rightarrow> world \<Rightarrow> world" where
  "instance_guard_drop os handle w = handle_guard_drop os handle w"


subsection \<open>Names\<close>

lemma unat_inject: "unat (s :: u32) = unat t \<longleftrightarrow> s = t"
  by (auto intro: unsigned_word_eqI)

text \<open>The kernel names of a session belong to it alone: the mutex, control-pipe and
  status-pipe names of any two sessions differ unless the sessions and the kinds are the same.\<close>

lemma session_names_distinct:
  "(mutex_name_for_session s = mutex_name_for_session t \<longleftrightarrow> s = t) \<and>
   (control_pipe_path_for_session s = control_pipe_path_for_session t \<longleftrightarrow> s = t) \<and>
   (status_pipe_path_for_session s = status_pipe_path_for_session t \<longleftrightarrow> s = t) \<and>
   mutex_name_for_session s \<noteq> control_pipe_path_for_session t \<and>
   mutex_name_for_session s \<noteq> status_pipe_path_for_session t \<and>
   control_pipe_path_for_session s \<noteq> status_pipe_path_for_session t"
  by (simp add: mutex_name_for_session_def control_pipe_path_for_session_def status_pipe_path_for_session_def
      MUTEX_NAME_PREFIX_def CONTROL_PIPE_PATH_PREFIX_def STATUS_PIPE_PATH_PREFIX_def pipe_root_def unat_inject)

subsection \<open>Calls and handles of a claim\<close>

text \<open>Reading the session id.\<close>

fun session_call :: "sys_call \<Rightarrow> bool" where
  "session_call (Token _) = True"
| "session_call (Instance c) = (case c of GetTokenSessionId _ \<Rightarrow> True | _ \<Rightarrow> False)"
| "session_call _ = False"

lemma session_id_calls: "only_calls session_call w (snd (current_session_id os w))"
  by (auto simp: current_session_id_def with_guard_def handle_guard_drop_def and_then_def map_error_def call_eqs
      Let_def case_prod_beta split: option.splits sum.splits)

lemma session_id_handles [simp]: "valid_handles os (trace (snd (current_session_id os w))) = valid_handles os (trace w)"
  by (auto simp: current_session_id_def with_guard_def and_then_def map_error_def call_eqs
      Let_def case_prod_beta valid_handles_Cons invalid_not_held split: option.splits sum.splits)

lemma names_snd [simp]:
  "snd (current_mutex_name os w) = snd (current_session_id os w)"
  "snd (current_control_pipe_path os w) = snd (current_session_id os w)"
  "snd (current_status_pipe_path os w) = snd (current_session_id os w)"
  by (cases "current_session_id os w"; cases "fst (current_session_id os w)";
      simp add: current_mutex_name_def current_control_pipe_path_def current_status_pipe_path_def and_then_def)+

fun creates_mutex :: "sys_call \<Rightarrow> bool" where
  "creates_mutex (Instance c) = (case c of CreateMutexExW _ \<Rightarrow> True | _ \<Rightarrow> False)"
| "creates_mutex _ = False"

lemma session_call_idle: "session_call c \<Longrightarrow> idle_call creates_mutex c"
  by (cases c) (auto simp: idle_call_def split: instance_call.splits)

lemma session_id_idle: "only_calls (idle_call creates_mutex) w (snd (current_session_id os w))"
  by (rule only_calls_mono [OF session_id_calls session_call_idle])

text \<open>What a claim on a named mutex did.\<close>

definition guard_handles :: "os \<Rightarrow> string + instance_claim \<Rightarrow> nat multiset" where
  "guard_handles os r =
     (case r of Inr (Claim_Primary h) \<Rightarrow> if is_invalid os h then {#} else {#h#} | _ \<Rightarrow> {#})"

lemma claim_mutex_outcome:
  assumes "claim_mutex os name w = (r, w')"
  shows "tries creates_mutex (trace w') = tries creates_mutex (trace w) + 1"
    and "slept (trace w') = slept (trace w)"
    and "valid_handles os (trace w') = valid_handles os (trace w) + guard_handles os r"
  using assms
  by (auto simp: claim_mutex_def open_mutex_probe_def classify_create_claim_def classify_access_denied_probe_def
      and_then_def call_eqs Let_def valid_handles_Cons invalid_not_held guard_handles_def
      split: option.splits if_splits)

lemma claim_outcome:
  assumes "claim_primary_instance os w = (r, w')"
  shows "tries creates_mutex (trace w') \<le> tries creates_mutex (trace w) + 1"
    and "slept (trace w') = slept (trace w)"
    and "valid_handles os (trace w') = valid_handles os (trace w) + guard_handles os r"
proof -
  obtain n v where n: "current_mutex_name os w = (n, v)" by (cases "current_mutex_name os w")
  have v: "v = snd (current_session_id os w)" using names_snd(1) [of os w] n by simp
  note s = idle_tries [OF session_id_idle, of os w] idle_slept [OF session_id_idle, of os w] session_id_handles [of os w]
  have "tries creates_mutex (trace w') \<le> tries creates_mutex (trace w) + 1 \<and> slept (trace w') = slept (trace w) \<and>
    valid_handles os (trace w') = valid_handles os (trace w) + guard_handles os r"
  proof (cases n)
    case (Inl e)
    with assms n v s show ?thesis by (auto simp: claim_primary_instance_def and_then_def guard_handles_def)
  next
    case (Inr x)
    with assms n have "claim_mutex os x v = (r, w')" by (simp add: claim_primary_instance_def and_then_def)
    from claim_mutex_outcome [OF this] v s show ?thesis by simp
  qed
  then show "tries creates_mutex (trace w') \<le> tries creates_mutex (trace w) + 1"
    "slept (trace w') = slept (trace w)"
    "valid_handles os (trace w') = valid_handles os (trace w) + guard_handles os r" by blast+
qed

subsection \<open>The retry loop\<close>

lemma claim_attempt_outcome:
  assumes "claim_attempt os attempts delay k w = (q, w')"
  shows "tries creates_mutex (trace w') \<le> tries creates_mutex (trace w) + 1"
    and "slept (trace w') \<le> slept (trace w) + (if q = None then delay else 0)"
    and "Suc k = attempts \<Longrightarrow> q \<noteq> None"
    and "valid_handles os (trace w') = valid_handles os (trace w) + (case q of Some r \<Rightarrow> guard_handles os r | None \<Rightarrow> {#})"
proof -
  obtain r v where c: "claim_primary_instance os w = (r, v)" by (cases "claim_primary_instance os w")
  note o = claim_outcome [OF c]
  show "tries creates_mutex (trace w') \<le> tries creates_mutex (trace w) + 1"
    "slept (trace w') \<le> slept (trace w) + (if q = None then delay else 0)"
    "Suc k = attempts \<Longrightarrow> q \<noteq> None"
    "valid_handles os (trace w') = valid_handles os (trace w) + (case q of Some r \<Rightarrow> guard_handles os r | None \<Rightarrow> {#})"
    using assms c o
    by (auto simp: claim_attempt_def call_eqs valid_handles_Cons is_primary_def guard_handles_def
        split: sum.splits if_splits instance_claim.splits)
qed

interpretation claim_retry: bounded_retry "claim_attempt os (max attempts 1) delay" "max attempts 1" delay creates_mutex trace
  for os attempts delay
  by unfold_locales (use claim_attempt_outcome in \<open>force+\<close>)


text \<open>The relaunch claim always comes back. \<^verbatim>\<open>claim_primary_instance_with_retry\<close> returns on
  its last round at the latest (its \<^verbatim>\<open>unreachable!\<close> is unreachable), after at most \<open>attempts\<close>
  (at least one) mutex creations and at most \<open>attempts - 1\<close> pauses; it returns \<^verbatim>\<open>Secondary\<close> only
  after the last round, and it keeps no kernel handle but the guard of a primary claim.\<close>

theorem claim_retry_returns:
  assumes "claim_primary_instance_with_retry os attempts delay w = (r, w')"
  shows "tries creates_mutex (trace w') \<le> tries creates_mutex (trace w) + max attempts 1 \<and>
         slept (trace w') \<le> slept (trace w) + (max attempts 1 - 1) * delay \<and>
         valid_handles os (trace w') = valid_handles os (trace w) + guard_handles os r \<and>
         (\<exists>v. claim_primary_instance os v = (r, w') \<and>
           (r = Inr Claim_Secondary \<longrightarrow> claim_attempt os (max attempts 1) delay (max attempts 1 - 1) v = (Some r, w')))"
proof -
  let ?n = "max attempts 1"
  obtain q v where f: "for_attempts (claim_attempt os ?n delay) 0 ?n w = (q, v)"
    by (cases "for_attempts (claim_attempt os ?n delay) 0 ?n w")
  note b = claim_retry.returns [OF f]
  then have q: "q = Some r" "v = w'" using assms f by (auto simp: claim_primary_instance_with_retry_def Let_def)
  have step: "valid_handles os (trace v') = valid_handles os (trace w)"
    if "valid_handles os (trace v) = valid_handles os (trace w)" "claim_attempt os ?n delay i v = (None, v')" for i v v'
    using claim_attempt_outcome(4) [OF that(2)] that(1) by simp
  obtain i u where i: "i < ?n" "valid_handles os (trace u) = valid_handles os (trace w)"
    "claim_attempt os ?n delay i u = (Some r, w')"
    using for_attempts_final [where J = "\<lambda>u. valid_handles os (trace u) = valid_handles os (trace w)",
        OF f [unfolded q] refl] step by blast
  from claim_attempt_outcome(4) [OF i(3)] i(2)
  have h: "valid_handles os (trace w') = valid_handles os (trace w) + guard_handles os r" by simp
  have "claim_primary_instance os u = (r, w')" "r = Inr Claim_Secondary \<Longrightarrow> i = ?n - 1"
    using i(3) by (auto simp: claim_attempt_def is_primary_def split: prod.splits sum.splits if_splits)
  with b h q i(3) show ?thesis by blast
qed

theorem claim_retry_returns_witness:
  "\<exists>r w'. claim_primary_instance_with_retry quiet_os 20 100000000 initial_world = (r, w') \<and>
     tries creates_mutex (trace w') \<le> 20 \<and> slept (trace w') \<le> 1900000000"
proof -
  obtain r w' where c: "claim_primary_instance_with_retry quiet_os 20 100000000 initial_world = (r, w')"
    by (cases "claim_primary_instance_with_retry quiet_os 20 100000000 initial_world")
  from claim_retry_returns [OF c] have "tries creates_mutex (trace w') \<le> 20" "slept (trace w') \<le> 1900000000"
    by (simp_all add: initial_world_def tries_def)
  with c show ?thesis by blast
qed

subsection \<open>Mutual exclusion\<close>

text \<open>The mutex handles that are open, as the kernel keeps them.\<close>

fun held_mutexes :: "history \<Rightarrow> (string \<times> nat) set" where
  "held_mutexes [] = {}"
| "held_mutexes ((c, r) # h) =
     (case c of
        Instance (CreateMutexExW m) \<Rightarrow> (if r_err r = None then insert (m, r_num r) (held_mutexes h) else held_mutexes h)
      | Instance (OpenMutexW m) \<Rightarrow> (if r_err r = None then insert (m, r_num r) (held_mutexes h) else held_mutexes h)
      | Token (CloseHandle n) \<Rightarrow> {mk \<in> held_mutexes h. snd mk \<noteq> n}
      | _ \<Rightarrow> held_mutexes h)"

text \<open>What \<^verbatim>\<open>CreateMutexExW\<close> documents: creating a mutex whose name is in use opens it and sets
  the last error to \<^verbatim>\<open>ERROR_ALREADY_EXISTS\<close>. What the kernel guarantees of handles: a new one
  is none that is open. And the session of a process does not change.\<close>

definition mutex_semantics :: "os \<Rightarrow> bool" where
  "mutex_semantics os \<longleftrightarrow>
     (\<forall>h m r k. (m, k) \<in> held_mutexes h \<longrightarrow> r_err r = None \<longrightarrow>
        r_num (os ((Instance (CreateMutexExW m), r) # h) (Token GetLastError)) = 183)"

definition fresh_tokens :: "os \<Rightarrow> bool" where
  "fresh_tokens os \<longleftrightarrow>
     (\<forall>h a m k. (m, k) \<in> held_mutexes h \<longrightarrow> r_num (os h (Token (OpenProcessToken a))) \<noteq> k)"

definition session_fixed :: "os \<Rightarrow> nat \<Rightarrow> bool" where
  "session_fixed os s \<longleftrightarrow> (\<forall>h t. r_num (os h (Instance (GetTokenSessionId t))) = s)"

lemma held_kept:
  assumes "only_calls (\<lambda>c. c \<noteq> Token (CloseHandle k)) w w'" and "(m, k) \<in> held_mutexes (trace w)"
  shows "(m, k) \<in> held_mutexes (trace w')"
proof -
  have "(m, k) \<in> held_mutexes (new @ h)"
    if "\<forall>cr \<in> set new. fst cr \<noteq> Token (CloseHandle k)" "(m, k) \<in> held_mutexes h" for new :: history and h
    using that by (induction new) (auto split: sys_call.split instance_call.split token_call.split)
  with assms show ?thesis by (auto simp: only_calls_def)
qed

lemma session_id_keeps_mutex:
  assumes "fresh_tokens os" and "(m, k) \<in> held_mutexes (trace w)"
  shows "(m, k) \<in> held_mutexes (trace (snd (current_session_id os w)))"
proof -
  have "r_num (os (trace w) (Token (OpenProcessToken TOKEN_QUERY))) \<noteq> k"
    using assms by (auto simp: fresh_tokens_def)
  with assms(2) show ?thesis
    by (auto simp: current_session_id_def with_guard_def handle_guard_drop_def and_then_def map_error_def call_eqs
        Let_def case_prod_beta split: option.splits sum.splits)
qed

lemma mutex_name_fixed:
  assumes "session_fixed os s" and "current_mutex_name os w = (Inr n, w')"
  shows "n = mutex_name_for_session (of_nat s)"
  using assms
  by (auto simp: session_fixed_def current_mutex_name_def current_session_id_def with_guard_def and_then_def map_error_def
      call_eqs Let_def case_prod_beta split: option.splits sum.splits if_splits)

lemma claim_primary_mutex:
  assumes "session_fixed os s" and "claim_primary_instance os w = (Inr (Claim_Primary k), w')"
  shows "(mutex_name_for_session (of_nat s), k) \<in> held_mutexes (trace w')"
proof -
  obtain n v where n: "current_mutex_name os w = (Inr n, v)" and c: "claim_mutex os n v = (Inr (Claim_Primary k), w')"
    using assms(2) by (auto simp: claim_primary_instance_def and_then_Inr_iff)
  from c have "(n, k) \<in> held_mutexes (trace w')"
    by (auto simp: claim_mutex_def open_mutex_probe_def classify_create_claim_def classify_access_denied_probe_def
        and_then_def call_eqs Let_def split: option.splits if_splits)
  with mutex_name_fixed [OF assms(1) n] show ?thesis by simp
qed

lemma claim_when_held:
  assumes "mutex_semantics os" and "fresh_tokens os" and "session_fixed os s"
    and "(mutex_name_for_session (of_nat s), k) \<in> held_mutexes (trace w)"
    and "claim_primary_instance os w = (Inr claim, w')"
  shows "claim = Claim_Secondary"
proof -
  obtain n v where n: "current_mutex_name os w = (Inr n, v)" and c: "claim_mutex os n v = (Inr claim, w')"
    using assms(5) by (auto simp: claim_primary_instance_def and_then_Inr_iff)
  have v: "v = snd (current_session_id os w)" using names_snd(1) [of os w] n by simp
  have "(n, k) \<in> held_mutexes (trace v)"
    using session_id_keeps_mutex [OF assms(2,4)] mutex_name_fixed [OF assms(3) n] v by simp
  then have "r_num (os ((Instance (CreateMutexExW n), r) # trace v) (Token GetLastError)) = 183" if "r_err r = None" for r
    using assms(1) that by (auto simp: mutex_semantics_def)
  with c show ?thesis
    by (auto simp: claim_mutex_def open_mutex_probe_def classify_create_claim_def classify_access_denied_probe_def
        and_then_def call_eqs Let_def ERROR_ALREADY_EXISTS_def split: option.splits if_splits)
qed

text \<open>C24. One primary runtime per session. As long as the guard of a primary claim is not
  dropped, whatever else happens meanwhile on the machine, every other claim in that session
  fails or is \<^verbatim>\<open>Secondary\<close>.\<close>

theorem single_primary_per_session:
  assumes "mutex_semantics os" and "fresh_tokens os" and "session_fixed os s"
    and "claim_primary_instance os w = (Inr (Claim_Primary guard), w1)"
    and "only_calls (\<lambda>c. c \<noteq> Token (CloseHandle guard)) w1 w2"
    and "claim_primary_instance os w2 = (Inr claim, w3)"
  shows "claim = Claim_Secondary"
  using claim_when_held [OF assms(1-3) held_kept [OF assms(5) claim_primary_mutex [OF assms(3,4)]] assms(6)] .

text \<open>A kernel with one session that behaves as documented.\<close>

definition kernel_os :: os where
  "kernel_os h c =
     \<lparr>r_err = None,
      r_num = (case c of
          Token GetLastError \<Rightarrow>
            (case h of (Instance (CreateMutexExW m), r) # h' \<Rightarrow> (if \<exists>k. (m, k) \<in> held_mutexes h' then 183 else 0) | _ \<Rightarrow> 0)
        | Token (OpenProcessToken _) \<Rightarrow> Suc (\<Sum>k \<in> snd ` held_mutexes h. k)
        | Instance (GetTokenSessionId _) \<Rightarrow> 1
        | Instance (CreateMutexExW _) \<Rightarrow> length h
        | _ \<Rightarrow> 0),
      r_text = [], r_bytes = [0, 0, 0, 0], r_events = []\<rparr>"


lemma finite_held: "finite (held_mutexes h)"
  by (induction h rule: held_mutexes.induct) (auto split: sys_call.split instance_call.split token_call.split)

lemma kernel_os_documented: "mutex_semantics kernel_os" "fresh_tokens kernel_os" "session_fixed kernel_os 1"
proof -
  show "mutex_semantics kernel_os" by (auto simp: mutex_semantics_def kernel_os_def)
  show "session_fixed kernel_os 1" by (simp add: session_fixed_def kernel_os_def)
  have "k \<le> (\<Sum>k \<in> snd ` held_mutexes h. k)" if "(m, k) \<in> held_mutexes h" for h m k
    using that by (intro member_le_sum) (auto simp: finite_held image_iff intro: bexI [of _ "(m, k)"])
  then show "fresh_tokens kernel_os" by (fastforce simp: fresh_tokens_def kernel_os_def)
qed

lemmas claim_eval = claim_primary_instance_def current_mutex_name_def current_session_id_def with_guard_def
  handle_guard_drop_def claim_mutex_def open_mutex_probe_def classify_create_claim_def and_then_def map_error_def
  call_eqs Let_def case_prod_beta

theorem single_primary_per_session_witness:
  "\<exists>guard w1 w3. claim_primary_instance kernel_os initial_world = (Inr (Claim_Primary guard), w1) \<and>
     claim_primary_instance kernel_os w1 = (Inr Claim_Secondary, w3)"
proof -
  obtain g w1 where a: "claim_primary_instance kernel_os initial_world = (Inr (Claim_Primary g), w1)"
    by (simp add: claim_eval kernel_os_def is_invalid_def initial_world_def ERROR_ALREADY_EXISTS_def)
  have "is_ok (fst (claim_primary_instance kernel_os w1))"
    by (simp add: claim_eval kernel_os_def is_invalid_def)
  then obtain c w3 where b: "claim_primary_instance kernel_os w1 = (Inr c, w3)"
    by (cases "claim_primary_instance kernel_os w1") (auto simp: is_ok_iff)
  from single_primary_per_session [OF kernel_os_documented a only_calls_refl b] a b show ?thesis by blast
qed

end
