(* ===== verification/Ipc_Client.thy ===== *)
theory Ipc_Client
  imports Instance Ipc_Protocol Logger Windows_Util
begin

text \<open>
  The client side of \<^verbatim>\<open>ipc.rs\<close>: connecting to the control and status pipes with bounded retries,
  sending a request and reading its reply. JSON is \<^verbatim>\<open>serde_json\<close>'s work: \<open>ipc_codec\<close> holds its
  functions for the wire types, and the text of a \<^verbatim>\<open>Utf8Error\<close>. A pipe opened as a \<^verbatim>\<open>File\<close> is closed when it goes out of scope
  (\<open>with_file\<close>).
\<close>

definition PIPE_CONNECT_ATTEMPTS :: nat where "PIPE_CONNECT_ATTEMPTS = 20"
definition PIPE_CONNECT_DELAY :: nat where "PIPE_CONNECT_DELAY = 100000000"

definition ERROR_FILE_NOT_FOUND_raw :: u32 where "ERROR_FILE_NOT_FOUND_raw = 2"
definition ERROR_PATH_NOT_FOUND_raw :: u32 where "ERROR_PATH_NOT_FOUND_raw = 3"
definition ERROR_PIPE_BUSY :: u32 where "ERROR_PIPE_BUSY = 231"

record ipc_codec =
  request_to_json :: "ipc_request \<Rightarrow> string res"
  request_from_json :: "string \<Rightarrow> ipc_request res"
  response_to_json :: "ipc_response \<Rightarrow> string res"
  response_from_json :: "string \<Rightarrow> ipc_response res"
  status_to_json :: "status_output \<Rightarrow> string res"
  status_from_json :: "string \<Rightarrow> status_output res"
  utf8_error_text :: "string \<Rightarrow> string"

subsection \<open>\<^verbatim>\<open>str::trim_end\<close>\<close>

definition ascii_space :: "char \<Rightarrow> bool" where
  "ascii_space c \<longleftrightarrow> (9 \<le> (of_char c :: nat) \<and> of_char c \<le> (13 :: nat)) \<or> c = CHR '' ''"

text \<open>The Unicode white space of two and three UTF-8 bytes.\<close>

definition space2 :: "char \<Rightarrow> char \<Rightarrow> bool" where
  "space2 a b \<longleftrightarrow> a = CHR 0xC2 \<and> (b = CHR 0x85 \<or> b = CHR 0xA0)"

definition space3 :: "char \<Rightarrow> char \<Rightarrow> char \<Rightarrow> bool" where
  "space3 a b c \<longleftrightarrow>
     a = CHR 0xE1 \<and> b = CHR 0x9A \<and> c = CHR 0x80 \<or>
     a = CHR 0xE2 \<and> b = CHR 0x80 \<and> (byte_in 0x80 0x8A c \<or> c = CHR 0xA8 \<or> c = CHR 0xA9 \<or> c = CHR 0xAF) \<or>
     a = CHR 0xE2 \<and> b = CHR 0x81 \<and> c = CHR 0x9F \<or>
     a = CHR 0xE3 \<and> b = CHR 0x80 \<and> c = CHR 0x80"

fun strip_spaces :: "string \<Rightarrow> string" where
  "strip_spaces [] = []"
| "strip_spaces (c # cs) =
     (if ascii_space c then strip_spaces cs
      else case cs of
        [] \<Rightarrow> [c]
      | b # bs \<Rightarrow>
          if space2 b c then strip_spaces bs
          else case bs of
            [] \<Rightarrow> [c, b]
          | a # as \<Rightarrow> if space3 a b c then strip_spaces as else c # cs)"

definition trim_end :: "string \<Rightarrow> string" where
  "trim_end s = rev (strip_spaces (rev s))"

subsection \<open>Connecting\<close>

definition with_file :: "os \<Rightarrow> nat \<Rightarrow> (world, 'e, 'a) prog \<Rightarrow> (world, 'e, 'a) prog" where
  "with_file os handle m w = (let (r, w) = m w in (r, snd (call_unit os (Token (CloseHandle handle)) w)))"

context call_frame
begin

lemma keeps_with_file:
  assumes "keeps m" and "allowed (Token (CloseHandle h))"
  shows "keeps (with_file os h m)"
proof (rule keepsI)
  fix w
  obtain r w1 where m: "m w = (r, w1)" by (rule prod.exhaust)
  from keeps_result [OF assms(1) m] m R_call [OF assms(2), of w1 os] show "R w (snd (with_file os h m w))"
    by (auto simp: with_file_def intro: R_trans)
qed

end

definition pipe_retry_delay :: "nat \<Rightarrow> nat option \<Rightarrow> nat option" where
  "pipe_retry_delay attempt remaining =
     (if attempt + 1 \<ge> PIPE_CONNECT_ATTEMPTS then None
      else
        let delay = (case remaining of None \<Rightarrow> PIPE_CONNECT_DELAY | Some r \<Rightarrow> min r PIPE_CONNECT_DELAY)
        in if delay \<noteq> 0 then Some delay else None)"

definition wait_before_pipe_retry :: "os \<Rightarrow> nat \<Rightarrow> nat option \<Rightarrow> world \<Rightarrow> bool \<times> world" where
  "wait_before_pipe_retry os attempt connect_deadline w =
     (let (remaining, w) =
        (case connect_deadline of
           None \<Rightarrow> (None, w)
         | Some deadline \<Rightarrow> let (now, w) = call_value os (Thread InstantNow) w in (Some (deadline - now), w))
      in case pipe_retry_delay attempt remaining of
           Some delay \<Rightarrow> (True, snd (call_unit os (Thread (ThreadSleep delay)) w))
         | None \<Rightarrow> (False, w))"

definition is_missing :: "u32 option \<Rightarrow> bool" where
  "is_missing code \<longleftrightarrow> code = Some ERROR_FILE_NOT_FOUND_raw \<or> code = Some ERROR_PATH_NOT_FOUND_raw"

definition final_connect_error :: "string \<Rightarrow> u32 option \<Rightarrow> client_error" where
  "final_connect_error path last_error_code =
     (if is_missing last_error_code then Unavailable
      else if last_error_code = Some ERROR_PIPE_BUSY
      then Transport (''Wardoff found a primary instance, but '' @ path @ '' stayed busy.'')
      else Transport (''Wardoff could not connect to '' @ path @ ''.''))"

definition control_pipe_access_denied_message :: string where
  "control_pipe_access_denied_message = ''Wardoff could not send that control command to the active primary runtime. Non-elevated shells can control an elevated Wardoff runtime only for the same interactive Windows user. If Wardoff is running as a different user, close that runtime or relaunch the command from the matching account.''"

definition map_connect_error :: "string \<Rightarrow> bool \<Rightarrow> win_error \<Rightarrow> u32 option \<Rightarrow> client_error" where
  "map_connect_error path is_control_pipe error raw_code =
     (if is_missing raw_code then Unavailable
      else if raw_code = Some ERROR_ACCESS_DENIED \<and> is_control_pipe
      then Transport control_pipe_access_denied_message
      else if raw_code = Some ERROR_PIPE_BUSY
      then Transport (''Wardoff found a primary instance, but '' @ path @ '' is busy: '' @ err_text error)
      else Transport (''Wardoff could not connect to '' @ path @ '': '' @ err_text error))"

text \<open>One round of \<^verbatim>\<open>connect_control_pipe\<close> (\<open>is_control\<close>) and \<^verbatim>\<open>connect_status_pipe\<close>: the two
  differ in the access they open with and in one error message.\<close>

definition connect_round :: "os \<Rightarrow> string \<Rightarrow> bool \<Rightarrow> nat option \<Rightarrow> nat \<Rightarrow> u32 option \<times> world \<Rightarrow>
    (client_error + nat) option \<times> (u32 option \<times> world)" where
  "connect_round os path is_control connect_deadline attempt = (\<lambda>(last_error_code, w).
     case call_num os (Pipe (OpenPipe path is_control)) w of
       (Inr pipe, w) \<Rightarrow> (Some (Inr pipe), (last_error_code, w))
     | (Inl error, w) \<Rightarrow>
         let raw_code = Some (err_code error);
             (retry, w) = (if is_missing raw_code \<or> raw_code = Some ERROR_PIPE_BUSY
                           then wait_before_pipe_retry os attempt connect_deadline w else (False, w))
         in if retry then (None, (raw_code, w))
            else (Some (Inl (map_connect_error path is_control error raw_code)), (raw_code, w)))"

definition connect_pipe :: "os \<Rightarrow> bool \<Rightarrow> string \<Rightarrow> nat option \<Rightarrow> (world, client_error, nat) prog" where
  "connect_pipe os is_control path connect_deadline w =
     (case for_attempts (connect_round os path is_control connect_deadline) 0 PIPE_CONNECT_ATTEMPTS (None, w) of
        (Some r, (_, w)) \<Rightarrow> (r, w)
      | (None, (last_error_code, w)) \<Rightarrow> (Inl (final_connect_error path last_error_code), w))"

definition connect_control_pipe :: "os \<Rightarrow> string \<Rightarrow> nat option \<Rightarrow> (world, client_error, nat) prog" where
  "connect_control_pipe os = connect_pipe os True"

definition connect_status_pipe :: "os \<Rightarrow> string \<Rightarrow> nat option \<Rightarrow> (world, client_error, nat) prog" where
  "connect_status_pipe os = connect_pipe os False"

subsection \<open>Requests\<close>

definition pipe_write :: "os \<Rightarrow> nat \<Rightarrow> string \<Rightarrow> (string \<Rightarrow> client_error) \<Rightarrow> (world, client_error, unit) prog" where
  "pipe_write os pipe bytes message =
     map_error (\<lambda>e. message (err_text e)) (call_unit os (Pipe (WriteAll pipe bytes)))"

definition read_reply :: "os \<Rightarrow> nat \<Rightarrow> (string \<Rightarrow> client_error) \<Rightarrow> client_error \<Rightarrow> (string \<Rightarrow> client_error + 'a) \<Rightarrow>
    (world, client_error, 'a) prog" where
  "read_reply os pipe read_message no_reply decode =
     and_then (map_error (\<lambda>e. read_message (err_text e)) (call_text os (Pipe (ReadLine pipe))))
       (\<lambda>line. if line = [] then fail no_reply else checked (decode (trim_end line)))"

definition decode_with :: "('a \<Rightarrow> 'b res) \<Rightarrow> string \<Rightarrow> 'a \<Rightarrow> client_error + 'b" where
  "decode_with from_json message line =
     (case from_json line of Inl e \<Rightarrow> Inl (Transport (message @ e)) | Inr v \<Rightarrow> Inr v)"

text \<open>The conversation over a connected control pipe.\<close>

definition exchange :: "os \<Rightarrow> ipc_codec \<Rightarrow> string \<Rightarrow> nat \<Rightarrow> ipc_request \<Rightarrow> (world, client_error, ipc_response) prog" where
  "exchange os codec path pipe request =
     and_then (checked (decode_with (request_to_json codec) ''Wardoff could not serialize its IPC request: '' request))
       (\<lambda>payload.
     and_then (pipe_write os pipe payload (\<lambda>e. Transport (''Wardoff could not write to '' @ path @ '': '' @ e))) (\<lambda>_.
     and_then (pipe_write os pipe [line_feed]
       (\<lambda>e. Transport (''Wardoff could not finish writing to '' @ path @ '': '' @ e))) (\<lambda>_.
     and_then (map_error (\<lambda>e. Transport (''Wardoff could not flush '' @ path @ '': '' @ err_text e))
       (call_unit os (Pipe (FlushFile pipe)))) (\<lambda>_.
     read_reply os pipe (\<lambda>e. Transport (''Wardoff could not read the reply from '' @ path @ '': '' @ e))
       (Transport (''Wardoff did not receive any reply from '' @ path @ ''.''))
       (decode_with (response_from_json codec) (''Wardoff received malformed IPC JSON from '' @ path @ '': ''))))))"

definition send_request_with_connect_deadline ::
    "os \<Rightarrow> ipc_codec \<Rightarrow> ipc_request \<Rightarrow> nat option \<Rightarrow> (world, client_error, ipc_response) prog" where
  "send_request_with_connect_deadline os codec request connect_deadline =
     and_then (map_error Transport (current_control_pipe_path os)) (\<lambda>path.
     and_then (connect_control_pipe os path connect_deadline) (\<lambda>pipe.
     with_file os pipe (exchange os codec path pipe request)))"

definition send_request :: "os \<Rightarrow> ipc_codec \<Rightarrow> ipc_request \<Rightarrow> (world, client_error, ipc_response) prog" where
  "send_request os codec request = send_request_with_connect_deadline os codec request None"

definition send_status_request_with_connect_deadline ::
    "os \<Rightarrow> ipc_codec \<Rightarrow> nat \<Rightarrow> (world, client_error, ipc_response) prog" where
  "send_status_request_with_connect_deadline os codec connect_deadline =
     send_request_with_connect_deadline os codec Status (Some connect_deadline)"

definition read_status :: "os \<Rightarrow> ipc_codec \<Rightarrow> nat option \<Rightarrow> (world, client_error, status_output) prog" where
  "read_status os codec connect_deadline =
     and_then (map_error Transport (current_status_pipe_path os)) (\<lambda>path.
     and_then (connect_status_pipe os path connect_deadline) (\<lambda>pipe.
     with_file os pipe (
       read_reply os pipe (\<lambda>e. Transport (''Wardoff could not read the status reply from '' @ path @ '': '' @ e))
         (Transport (''Wardoff did not receive any status reply from '' @ path @ ''.''))
         (decode_with (status_from_json codec) (''Wardoff received malformed status JSON from '' @ path @ '': '')))))"


subsection \<open>Connecting is bounded\<close>

fun opens_pipe :: "sys_call \<Rightarrow> bool" where
  "opens_pipe (Pipe c) = (case c of OpenPipe _ _ \<Rightarrow> True | _ \<Rightarrow> False)"
| "opens_pipe _ = False"

text \<open>What may still be slept before the deadline, on top of what was slept.\<close>

definition sleep_budget :: "nat option \<Rightarrow> history \<Rightarrow> nat" where
  "sleep_budget deadline h = slept h + (case deadline of Some t \<Rightarrow> t - clock_low h | None \<Rightarrow> 0)"

lemma wait_outcome:
  assumes "wait_before_pipe_retry os attempt deadline w = (again, w')"
  shows "only_calls (\<lambda>c. \<exists>t. c = Thread t) w w'"
    and "slept (trace w') \<le> slept (trace w) + (if again then PIPE_CONNECT_DELAY else 0)"
    and "again \<Longrightarrow> attempt + 1 < PIPE_CONNECT_ATTEMPTS"
  using assms
  by (auto simp: wait_before_pipe_retry_def pipe_retry_delay_def call_eqs Let_def split: option.splits if_splits)

lemma wait_budget:
  assumes "wait_before_pipe_retry os attempt deadline w = (again, w')" and "honest_clock os" and "deadline \<noteq> None"
  shows "sleep_budget deadline (trace w') \<le> sleep_budget deadline (trace w)"
proof -
  have "clock_low (trace w) \<le> r_num (os (trace w) (Thread InstantNow))"
    using assms(2) by (simp add: honest_clock_def)
  with assms(1,3) show ?thesis
    by (auto simp: wait_before_pipe_retry_def pipe_retry_delay_def call_eqs Let_def sleep_budget_def
        split: option.splits if_splits)
qed

definition pipe_handle :: "client_error + nat \<Rightarrow> nat multiset" where
  "pipe_handle r = (case r of Inr pipe \<Rightarrow> {#pipe#} | Inl _ \<Rightarrow> {#})"

lemma thread_call_ledgers:
  assumes "only_calls (\<lambda>c. \<exists>t. c = Thread t) w w'"
  shows "tries opens_pipe (trace w') = tries opens_pipe (trace w)" and "open_handles (trace w') = open_handles (trace w)"
  using assms by (auto intro!: only_calls_ledger [where f = "tries opens_pipe", OF assms] only_calls_ledger [where f = open_handles, OF assms])

lemma connect_round_outcome:
  assumes "connect_round os path is_control deadline k s = (q, s')"
  shows "tries opens_pipe (trace (snd s')) \<le> tries opens_pipe (trace (snd s)) + 1"
    and "slept (trace (snd s')) \<le> slept (trace (snd s)) + (if q = None then PIPE_CONNECT_DELAY else 0)"
    and "k = PIPE_CONNECT_ATTEMPTS - 1 \<Longrightarrow> q \<noteq> None"
    and "open_handles (trace (snd s')) = open_handles (trace (snd s)) + (case q of Some r \<Rightarrow> pipe_handle r | None \<Rightarrow> {#})"
    and "honest_clock os \<Longrightarrow> deadline \<noteq> None \<Longrightarrow>
           sleep_budget deadline (trace (snd s')) \<le> sleep_budget deadline (trace (snd s))"
    and "only_calls (\<lambda>c. opens_pipe c \<or> (\<exists>t. c = Thread t)) (snd s) (snd s')"
proof -
  obtain l w where s: "s = (l, w)" by (cases s)
  let ?w1 = "snd (syscall os (Pipe (OpenPipe path is_control)) w)"
  obtain again w2 where wt: "wait_before_pipe_retry os k deadline ?w1 = (again, w2)"
    by (cases "wait_before_pipe_retry os k deadline ?w1")
  note o = wait_outcome [OF wt] and t = thread_call_ledgers [OF wait_outcome(1) [OF wt]]
  have b: "sleep_budget deadline (trace ?w1) = sleep_budget deadline (trace w)"
    by (simp add: sleep_budget_def split: option.split)
  have "only_calls (\<lambda>c. opens_pipe c \<or> (\<exists>t. c = Thread t)) w ?w1" by auto
  moreover have "only_calls (\<lambda>c. opens_pipe c \<or> (\<exists>t. c = Thread t)) ?w1 w2" by (rule only_calls_mono [OF o(1)]) simp
  ultimately have "only_calls (\<lambda>c. opens_pipe c \<or> (\<exists>t. c = Thread t)) w w2" "only_calls (\<lambda>c. opens_pipe c \<or> (\<exists>t. c = Thread t)) w ?w1"
    by (blast intro: only_calls_trans)+
  then show "tries opens_pipe (trace (snd s')) \<le> tries opens_pipe (trace (snd s)) + 1"
    "slept (trace (snd s')) \<le> slept (trace (snd s)) + (if q = None then PIPE_CONNECT_DELAY else 0)"
    "k = PIPE_CONNECT_ATTEMPTS - 1 \<Longrightarrow> q \<noteq> None"
    "open_handles (trace (snd s')) = open_handles (trace (snd s)) + (case q of Some r \<Rightarrow> pipe_handle r | None \<Rightarrow> {#})"
    "only_calls (\<lambda>c. opens_pipe c \<or> (\<exists>t. c = Thread t)) (snd s) (snd s')"
    using assms s wt o(2,3) t
    by (auto simp: connect_round_def call_eqs Let_def pipe_handle_def split: option.splits if_splits)
  show "sleep_budget deadline (trace (snd s')) \<le> sleep_budget deadline (trace (snd s))"
    if "honest_clock os" "deadline \<noteq> None"
    using assms s wt wait_budget [OF wt that] b
    by (auto simp: connect_round_def call_eqs Let_def split: option.splits if_splits)
qed

interpretation connect_retry: bounded_retry "connect_round os path is_control deadline" PIPE_CONNECT_ATTEMPTS
    PIPE_CONNECT_DELAY opens_pipe "trace \<circ> snd" for os path is_control deadline
proof unfold_locales
  show "0 < PIPE_CONNECT_ATTEMPTS" by (simp add: PIPE_CONNECT_ATTEMPTS_def)
qed (use connect_round_outcome in \<open>force+\<close>)

text \<open>The result of a connection comes from one of its rounds.\<close>

lemma connect_outcome:
  assumes "connect_pipe os is_control path deadline w = (r, w')"
  shows "tries opens_pipe (trace w') \<le> tries opens_pipe (trace w) + PIPE_CONNECT_ATTEMPTS"
    and "slept (trace w') \<le> slept (trace w) + (PIPE_CONNECT_ATTEMPTS - 1) * PIPE_CONNECT_DELAY"
    and "open_handles (trace w') = open_handles (trace w) + pipe_handle r"
    and "honest_clock os \<Longrightarrow> deadline \<noteq> None \<Longrightarrow> sleep_budget deadline (trace w') \<le> sleep_budget deadline (trace w)"
    and "only_calls (\<lambda>c. opens_pipe c \<or> (\<exists>t. c = Thread t)) w w'"
proof -
  let ?b = "connect_round os path is_control deadline"
  obtain q s where f: "for_attempts ?b 0 PIPE_CONNECT_ATTEMPTS (None, w) = (q, s)"
    by (cases "for_attempts ?b 0 PIPE_CONNECT_ATTEMPTS (None, w)")
  note b = connect_retry.returns [OF f]
  then obtain l where q: "q = Some r" "s = (l, w')" using assms f by (cases s) (auto simp: connect_pipe_def)
  show "tries opens_pipe (trace w') \<le> tries opens_pipe (trace w) + PIPE_CONNECT_ATTEMPTS"
    "slept (trace w') \<le> slept (trace w) + (PIPE_CONNECT_ATTEMPTS - 1) * PIPE_CONNECT_DELAY"
    using b q by simp_all
  define J where "J u \<longleftrightarrow> open_handles (trace (snd u)) = open_handles (trace w) \<and>
      only_calls (\<lambda>c. opens_pipe c \<or> (\<exists>t. c = Thread t)) w (snd u) \<and>
      (honest_clock os \<longrightarrow> deadline \<noteq> None \<longrightarrow> sleep_budget deadline (trace (snd u)) \<le> sleep_budget deadline (trace w))"
    for u :: "u32 option \<times> world"
  have j0: "J (None, w)" by (simp add: J_def)
  have step: "J v'" if "J v" "?b i v = (None, v')" for i v v'
    using that(1) connect_round_outcome(4-6) [OF that(2)] unfolding J_def
    by (auto intro: only_calls_trans order_trans)
  obtain i u where u: "J u" "?b i u = (Some r, (l, w'))"
    using for_attempts_final [where J = J, OF f [unfolded q] j0] step by blast
  note o = connect_round_outcome(4-6) [OF u(2)]
  show "open_handles (trace w') = open_handles (trace w) + pipe_handle r" using o(1) u(1) by (simp add: J_def)
  show "only_calls (\<lambda>c. opens_pipe c \<or> (\<exists>t. c = Thread t)) w w'"
    using o(3) u(1) unfolding J_def by (auto intro: only_calls_trans)
  show "sleep_budget deadline (trace w') \<le> sleep_budget deadline (trace w)" if "honest_clock os" "deadline \<noteq> None"
    using o(2) [OF that] u(1) that unfolding J_def by (auto intro: order_trans)
qed

text \<open>C25. Looking for the primary runtime is bounded. A connection attempt opens its pipe at most
  20 times and pauses at most 19 times 100 ms in all; with a deadline, on a clock that does not go
  back, the pauses together never exceed the time that was left; the only handle it keeps is the
  connected pipe.\<close>

theorem pipe_connect_bounded:
  assumes "connect_pipe os is_control path deadline w = (r, w')" and "honest_clock os"
  shows "tries opens_pipe (trace w') \<le> tries opens_pipe (trace w) + 20 \<and>
         slept (trace w') \<le> slept (trace w) + 1900000000 \<and>
         (\<forall>t. deadline = Some t \<longrightarrow> slept (trace w') \<le> slept (trace w) + (t - clock_low (trace w))) \<and>
         open_handles (trace w') = open_handles (trace w) + (case r of Inr pipe \<Rightarrow> {#pipe#} | Inl _ \<Rightarrow> {#})"
proof -
  have "slept (trace w') \<le> slept (trace w) + (t - clock_low (trace w))" if "deadline = Some t" for t
    using connect_outcome(4) [OF assms] that by (simp add: sleep_budget_def)
  with connect_outcome(1-3) [OF assms(1)] show ?thesis
    by (simp add: PIPE_CONNECT_ATTEMPTS_def PIPE_CONNECT_DELAY_def pipe_handle_def)
qed

text \<open>A machine without a running primary: every open reports a missing pipe, and the clock only
  advances by sleeping.\<close>

definition absent_os :: os where
  "absent_os h c =
     \<lparr>r_err = (case c of Pipe (OpenPipe _ _) \<Rightarrow> Some \<lparr>err_code = 2, err_text = ''missing''\<rparr> | _ \<Rightarrow> None),
      r_num = (case c of Thread InstantNow \<Rightarrow> clock_low h | _ \<Rightarrow> 7), r_text = [], r_bytes = [], r_events = []\<rparr>"

lemma absent_os_clock: "honest_clock absent_os"
  by (simp add: honest_clock_def absent_os_def)

theorem pipe_connect_bounded_witness:
  "\<exists>r w'. connect_pipe absent_os False ''p'' (Some 250000000) initial_world = (r, w') \<and>
     slept (trace w') \<le> 250000000 \<and> tries opens_pipe (trace w') \<le> 20"
proof -
  obtain r w' where c: "connect_pipe absent_os False ''p'' (Some 250000000) initial_world = (r, w')"
    by (cases "connect_pipe absent_os False ''p'' (Some 250000000) initial_world")
  from pipe_connect_bounded [OF c absent_os_clock] have "slept (trace w') \<le> 250000000" "tries opens_pipe (trace w') \<le> 20"
    by (simp_all add: initial_world_def tries_def)
  with c show ?thesis by blast
qed


subsection \<open>What a request puts on the wire\<close>

fun is_write :: "sys_call \<Rightarrow> bool" where
  "is_write (Pipe c) = (case c of WriteAll _ _ \<Rightarrow> True | _ \<Rightarrow> False)"
| "is_write _ = False"

text \<open>The bytes successfully written to pipes, in order.\<close>

fun written :: "history \<Rightarrow> string" where
  "written [] = []"
| "written ((c, r) # h) =
     (case c of Pipe (WriteAll p bs) \<Rightarrow> (if r_err r = None then written h @ bs else written h) | _ \<Rightarrow> written h)"

lemma unwritten: "only_calls (\<lambda>c. \<not> is_write c) w w' \<Longrightarrow> written (trace w') = written (trace w)"
  by (erule only_calls_ledger) (auto split: sys_call.split pipe_call.split)

lemma exchange_outcome:
  assumes "exchange os codec path pipe request w = (r, w')"
  shows "r \<noteq> Inl Unavailable" and "open_handles (trace w') = open_handles (trace w)"
    and "r = Inr response \<Longrightarrow> \<exists>payload line. request_to_json codec request = Inr payload \<and>
           response_from_json codec (trim_end line) = Inr response \<and>
           written (trace w') = written (trace w) @ payload @ [line_feed]"
  using assms
  by (auto simp: exchange_def pipe_write_def read_reply_def decode_with_def and_then_def map_error_def call_eqs
      call_text_cases split: option.splits sum.splits if_splits)

lemma send_calls:
  assumes "only_calls (\<lambda>c. opens_pipe c \<or> (\<exists>t. c = Thread t)) w w'" shows "only_calls (\<lambda>c. \<not> is_write c) w w'"
  by (rule only_calls_mono [OF assms]) (auto elim: opens_pipe.elims split: pipe_call.splits)

lemma session_unwritten: "only_calls (\<lambda>c. \<not> is_write c) w (snd (current_session_id os w))"
  by (rule only_calls_mono [OF session_id_calls]) (auto elim: session_call.elims)

lemma valid_add: "open_handles h' = open_handles h + M \<Longrightarrow>
    valid_handles os h' = valid_handles os h + {#n \<in># M. \<not> is_invalid os n#}"
  by (simp add: valid_handles_def)

lemma send_outcome:
  assumes "send_request_with_connect_deadline os codec request deadline w = (r, w')"
  shows "valid_handles os (trace w') = valid_handles os (trace w) \<and>
         (r = Inl Unavailable \<longrightarrow> only_calls (\<lambda>c. \<not> is_write c) w w') \<and>
         (\<forall>response. r = Inr response \<longrightarrow> (\<exists>payload line. request_to_json codec request = Inr payload \<and>
            response_from_json codec (trim_end line) = Inr response \<and>
            written (trace w') = written (trace w) @ payload @ [line_feed]))"
proof -
  obtain n v where n: "current_control_pipe_path os w = (n, v)" by (cases "current_control_pipe_path os w")
  have v: "v = snd (current_session_id os w)" using names_snd(2) [of os w] n by simp
  have vh: "valid_handles os (trace v) = valid_handles os (trace w)" and vw: "only_calls (\<lambda>c. \<not> is_write c) w v"
    using v session_unwritten by simp_all
  show ?thesis
  proof (cases n)
    case (Inl e)
    with assms n vh show ?thesis by (auto simp: send_request_with_connect_deadline_def and_then_def map_error_def)
  next
    case (Inr path)
    obtain c u where c: "connect_pipe os True path deadline v = (c, u)" by (cases "connect_pipe os True path deadline v")
    note o = connect_outcome(3,5) [OF c]
    have uw: "only_calls (\<lambda>c. \<not> is_write c) w u" using only_calls_trans [OF vw send_calls [OF o(2)]] .
    show ?thesis
    proof (cases c)
      case (Inl e)
      with assms n Inr c have "r = Inl e" "w' = u"
        by (auto simp: send_request_with_connect_deadline_def connect_control_pipe_def and_then_def map_error_def)
      with Inl o(1) uw vh show ?thesis by (simp add: pipe_handle_def valid_handles_def)
    next
      case pipe: (Inr pipe)
      obtain q x where x: "exchange os codec path pipe request u = (q, x)" by (cases "exchange os codec path pipe request u")
      note ex = exchange_outcome [OF x]
      have r: "r = q" "w' = snd (syscall os (Token (CloseHandle pipe)) x)"
        using assms n Inr c pipe x
        by (auto simp: send_request_with_connect_deadline_def connect_control_pipe_def and_then_def map_error_def
            with_file_def call_eqs)
      have "valid_handles os (trace w') = valid_handles os (trace w)"
        using valid_add [OF o(1), of os] valid_handles_frame [OF ex(2), of os] vh pipe r(2)
        by (simp add: valid_handles_Cons pipe_handle_def invalid_not_held)
      then show ?thesis using ex r unwritten [OF uw] by auto
    qed
  qed
qed

lemma read_reply_handles: "valid_handles os (trace (snd (read_reply os pipe f e g w))) = valid_handles os (trace w)"
  by (simp add: read_reply_def and_then_def map_error_def call_text_cases valid_handles_Cons syscall_def Let_def split: option.split)

lemma read_status_handles: "valid_handles os (trace (snd (read_status os codec deadline w))) = valid_handles os (trace w)"
proof -
  obtain n v where n: "current_status_pipe_path os w = (n, v)" by (rule prod.exhaust)
  have vh: "valid_handles os (trace v) = valid_handles os (trace w)" using names_snd(3) [of os w] n by simp
  show ?thesis
  proof (cases n)
    case (Inl e)
    with n vh show ?thesis by (simp add: read_status_def and_then_def map_error_def)
  next
    case (Inr path)
    obtain c u where c: "connect_pipe os False path deadline v = (c, u)" by (rule prod.exhaust)
    note o = connect_outcome(3) [OF c]
    show ?thesis
    proof (cases c)
      case (Inl e)
      with n Inr c o vh show ?thesis
        by (simp add: read_status_def connect_status_pipe_def and_then_def map_error_def pipe_handle_def valid_handles_def)
    next
      case pipe: (Inr pipe)
      with n Inr c o vh valid_add [OF o, of os] show ?thesis
        by (simp add: read_status_def connect_status_pipe_def and_then_def map_error_def with_file_def pipe_handle_def
            valid_handles_Cons invalid_not_held read_reply_handles case_prod_beta Let_def)
    qed
  qed
qed

text \<open>C26. A request is sent once or not at all. Every outcome of \<^verbatim>\<open>send_request\<close> leaves no handle
  behind; \<^verbatim>\<open>Unavailable\<close>, on which the caller falls back to acting by itself, means that not one
  write was attempted; and a reply means that exactly the request's JSON and one line feed went
  out and that the reply is what the answering line decodes to.\<close>

theorem request_sent_once_or_not_at_all:
  assumes "send_request_with_connect_deadline os codec request deadline w = (r, w')"
  shows "valid_handles os (trace w') = valid_handles os (trace w) \<and>
         (r = Inl Unavailable \<longrightarrow> only_calls (\<lambda>c. \<not> is_write c) w w') \<and>
         (\<forall>response. r = Inr response \<longrightarrow> (\<exists>payload line. request_to_json codec request = Inr payload \<and>
            response_from_json codec (trim_end line) = Inr response \<and>
            written (trace w') = written (trace w) @ payload @ [line_feed]))"
  by (rule send_outcome [OF assms])

definition plain_codec :: ipc_codec where
  "plain_codec = \<lparr>request_to_json = (\<lambda>_. Inr ''req''), request_from_json = (\<lambda>_. Inr Status),
     response_to_json = (\<lambda>_. Inr ''ok''), response_from_json = (\<lambda>_. Inr Resp_Ok),
     status_to_json = (\<lambda>_. Inl ''none''), status_from_json = (\<lambda>_. Inl ''none''),
     utf8_error_text = (\<lambda>_. ''invalid'')\<rparr>"

definition answering_os :: os where
  "answering_os h c = \<lparr>r_err = None, r_num = 7, r_text = ''ok'' @ [line_feed], r_bytes = [0, 0, 0, 0], r_events = []\<rparr>"

theorem request_sent_once_or_not_at_all_witness:
  "\<exists>w'. send_request_with_connect_deadline answering_os plain_codec Status None initial_world = (Inr Resp_Ok, w') \<and>
     written (trace w') = ''req'' @ [line_feed]"
proof -
  have "fst (send_request_with_connect_deadline answering_os plain_codec Status None initial_world) = Inr Resp_Ok"
    by (simp add: send_request_with_connect_deadline_def current_control_pipe_path_def current_session_id_def with_guard_def
        handle_guard_drop_def connect_control_pipe_def connect_pipe_def for_attempts.simps [of _ 0] connect_round_def
        PIPE_CONNECT_ATTEMPTS_def with_file_def exchange_def pipe_write_def read_reply_def decode_with_def and_then_def
        map_error_def call_eqs call_text_cases answering_os_def plain_codec_def Let_def case_prod_beta)
  then obtain w' where s: "send_request_with_connect_deadline answering_os plain_codec Status None initial_world = (Inr Resp_Ok, w')"
    by (cases "send_request_with_connect_deadline answering_os plain_codec Status None initial_world") simp
  from request_sent_once_or_not_at_all [OF s] have "written (trace w') = ''req'' @ [line_feed]"
    by (auto simp: plain_codec_def initial_world_def)
  with s show ?thesis by blast
qed

end
