(* ===== verification/Ipc_Server.thy ===== *)
theory Ipc_Server
  imports Ipc_Client
begin

text \<open>
  The server side of \<^verbatim>\<open>ipc.rs\<close>: the control and status pipe workers, the bounded read of a
  request, the hand-over to the application thread, startup and shutdown.

  A worker is a state machine (\<open>server_phase\<close>): it accepts a client, then waits for the
  application's answer, then accepts the next. \<^verbatim>\<open>mpsc\<close> channels are explicit: \<open>ipc_queue\<close> is
  the channel to the application thread, with for each request whether its sender still awaits
  the answer. The read loop has fuel; \<open>Stuck\<close> is the phase of a worker that ran out of it, and
  the lemmas show that on an honest clock it is never reached.
\<close>

subsection \<open>Constants\<close>

definition IPC_SERVER_THREAD_NAME :: string where "IPC_SERVER_THREAD_NAME = ''wardoff-ipc-server''"
definition STATUS_SERVER_THREAD_NAME :: string where "STATUS_SERVER_THREAD_NAME = ''wardoff-status-server''"
definition MAX_REQUEST_BYTES :: nat where "MAX_REQUEST_BYTES = 4096"
definition REQUEST_READ_TIMEOUT :: nat where "REQUEST_READ_TIMEOUT = 1000000000"
definition REQUEST_READ_POLL_DELAY :: nat where "REQUEST_READ_POLL_DELAY = 10000000"
definition INITIAL_PIPE_CLAIM_ATTEMPTS :: nat where "INITIAL_PIPE_CLAIM_ATTEMPTS = 10"
definition INITIAL_PIPE_CLAIM_DELAY :: nat where "INITIAL_PIPE_CLAIM_DELAY = 100000000"
definition IPC_WAKE_MESSAGE :: u32 where "IPC_WAKE_MESSAGE = 0x8001"
definition ERROR_NO_DATA :: u32 where "ERROR_NO_DATA = 232"
definition ERROR_BROKEN_PIPE :: u32 where "ERROR_BROKEN_PIPE = 109"
definition ERROR_PIPE_CONNECTED :: u32 where "ERROR_PIPE_CONNECTED = 535"
definition ERROR_INSUFFICIENT_BUFFER :: u32 where "ERROR_INSUFFICIENT_BUFFER = 122"

definition CONTROL_PIPE_SECURITY_SDDL_PREFIX :: string where
  "CONTROL_PIPE_SECURITY_SDDL_PREFIX = ''D:P(A;;GA;;;SY)(A;;GA;;;BA)(A;;GRGW;;;''"

definition CONTROL_PIPE_SECURITY_SDDL_SUFFIX :: string where
  "CONTROL_PIPE_SECURITY_SDDL_SUFFIX = '')S:(ML;;NW;;;ME)''"

subsection \<open>Access control of the control pipe\<close>

definition current_process_user_sid_string :: "os \<Rightarrow> string \<Rightarrow> (world, string, string) prog" where
  "current_process_user_sid_string os path =
     and_then (map_error (\<lambda>e. ''Wardoff could not query its process token for '' @ path @ '': '' @ err_text e)
         (call_num os (Token (OpenProcessToken TOKEN_QUERY)))) (\<lambda>token.
       with_guard os token (\<lambda>w.
         let (required_length, w) = call_value os (Security (GetTokenUserSize token)) w;
             (probe_error, w) = call_value os (Token GetLastError) w
         in if required_length = 0 \<or> (of_nat probe_error :: u32) \<noteq> ERROR_INSUFFICIENT_BUFFER
            then (Inl (''Wardoff could not determine the token-user size for '' @ path @ '' (Win32 error '' @
                       show_nat probe_error @ '').''), w)
            else
              and_then (map_error (\<lambda>e. ''Wardoff could not read its process token user for '' @ path @ '': '' @ err_text e)
                  (call_num os (Security (GetTokenUser token required_length)))) (\<lambda>sid.
                if sid = 0 then fail (''Wardoff could not read a token-user SID for '' @ path @ ''.'')
                else
                  and_then (map_error (\<lambda>e. ''Wardoff could not stringify its token-user SID for '' @ path @ '': '' @ err_text e)
                      (call_text os (Security (ConvertSidToStringSidW sid)))) (\<lambda>string_sid w.
                    let w = snd (call_unit os (Security (LocalFree sid)) w) in
                    if string_sid = []
                    then (Inl (''Wardoff could not stringify a non-empty token-user SID for '' @ path @ ''.''), w)
                    else (Inr string_sid, w))) w))"

definition build_control_pipe_security_sddl :: "string \<Rightarrow> string \<Rightarrow> string res" where
  "build_control_pipe_security_sddl current_user_sid path =
     (if trim_end current_user_sid = []
      then Inl (''Wardoff could not build '' @ path @ '' security attributes because the current-user SID was empty.'')
      else Inr (CONTROL_PIPE_SECURITY_SDDL_PREFIX @ current_user_sid @ CONTROL_PIPE_SECURITY_SDDL_SUFFIX))"

text \<open>The descriptor lives as long as the worker; the \<^verbatim>\<open>LocalFree\<close> of its drop is left out.\<close>

definition build_control_pipe_security_attributes :: "os \<Rightarrow> string \<Rightarrow> (world, string, nat) prog" where
  "build_control_pipe_security_attributes os path =
     and_then (current_process_user_sid_string os path) (\<lambda>sid.
     and_then (checked (build_control_pipe_security_sddl sid path)) (\<lambda>sddl.
     map_error (\<lambda>e. ''Wardoff could not prepare '' @ path @ '' security attributes: '' @ err_text e)
       (call_num os (Pipe (ConvertSecurityDescriptor sddl)))))"

subsection \<open>Pipe instances\<close>

definition create_pipe_instance :: "os \<Rightarrow> string \<Rightarrow> bool \<Rightarrow> (world, string \<times> u32, nat) prog" where
  "create_pipe_instance os path is_control w =
     (case call_num os (Pipe (CreateNamedPipeW path is_control)) w of
        (Inr pipe, w) \<Rightarrow> (Inr pipe, w)
      | (Inl _, w) \<Rightarrow>
          let (error_code, w) = call_value os (Token GetLastError) w;
              (e, w) = call_error os (Token ErrorFromThread) w
          in (Inl (''Wardoff could not create '' @ path @ '': '' @ err_text e, of_nat error_code), w))"

text \<open>The pipe handle is dropped, and so closed, when the client cannot be accepted.\<close>

definition connect_pipe_client :: "os \<Rightarrow> nat \<Rightarrow> string \<Rightarrow> (world, string, nat) prog" where
  "connect_pipe_client os pipe path w =
     (case call_unit os (Pipe (ConnectNamedPipe pipe)) w of
        (Inr _, w) \<Rightarrow> (Inr pipe, w)
      | (Inl error, w) \<Rightarrow>
          let (last_error, w) = call_value os (Token GetLastError) w in
          if (of_nat last_error :: u32) = ERROR_PIPE_CONNECTED then (Inr pipe, w)
          else (Inl (''Wardoff could not accept a client on '' @ path @ '': '' @ err_text error),
                handle_guard_drop os pipe w))"

definition accept_client :: "os \<Rightarrow> string \<Rightarrow> bool \<Rightarrow> (world, string, nat) prog" where
  "accept_client os path is_control =
     and_then (map_error fst (create_pipe_instance os path is_control)) (\<lambda>pipe. connect_pipe_client os pipe path)"

definition is_retryable_initial_pipe_claim_error :: "u32 \<Rightarrow> bool" where
  "is_retryable_initial_pipe_claim_error error_code = (error_code = ERROR_ACCESS_DENIED)"

definition claim_round :: "os \<Rightarrow> string \<Rightarrow> bool \<Rightarrow> nat \<Rightarrow> world \<Rightarrow> (string + nat) option \<times> world" where
  "claim_round os path is_control attempt w =
     (case create_pipe_instance os path is_control w of
        (Inr pipe, w) \<Rightarrow> (Some (Inr pipe), w)
      | (Inl (error, error_code), w) \<Rightarrow>
          if is_retryable_initial_pipe_claim_error error_code \<and> attempt + 1 < INITIAL_PIPE_CLAIM_ATTEMPTS
          then (None, snd (call_unit os (Thread (ThreadSleep INITIAL_PIPE_CLAIM_DELAY)) w))
          else if is_retryable_initial_pipe_claim_error error_code
          then (Some (Inl (''Wardoff could not claim its initial pipe instance on '' @ path @
                  '' within the startup retry window: '' @ error)), w)
          else (Some (Inl error), w))"

definition claim_initial_pipe_instance :: "os \<Rightarrow> string \<Rightarrow> bool \<Rightarrow> (world, string, nat) prog" where
  "claim_initial_pipe_instance os path is_control w =
     (case for_attempts (claim_round os path is_control) 0 INITIAL_PIPE_CLAIM_ATTEMPTS w of
        (Some r, w) \<Rightarrow> (r, w)
      | (None, w) \<Rightarrow> (Inl (''Wardoff could not claim its initial pipe instance on '' @ path @ ''.''), w))"

subsection \<open>Reading a request\<close>

definition incomplete_request_error :: "bool \<Rightarrow> string" where
  "incomplete_request_error is_empty =
     (if is_empty then ''Wardoff received an empty IPC request.''
      else ''Wardoff received an IPC request without a terminating newline.'')"

definition too_long_error :: string where
  "too_long_error = ''Wardoff IPC request exceeds '' @ show_nat MAX_REQUEST_BYTES @ '' bytes.''"

text \<open>What a complete line is parsed to.\<close>

definition parse_request :: "ipc_codec \<Rightarrow> string \<Rightarrow> ipc_request res" where
  "parse_request codec line =
     (if \<not> utf8_valid line then Inl (''Wardoff received malformed IPC JSON: '' @ utf8_error_text codec line)
      else if trim_end line = [] then Inl ''Wardoff received an empty IPC request.''
      else case request_from_json codec (trim_end line) of
        Inl e \<Rightarrow> Inl (''Wardoff received malformed IPC JSON: '' @ e)
      | Inr request \<Rightarrow> Inr request)"

text \<open>Taking in one chunk: either a verdict or the longer line.\<close>

definition take_chunk :: "ipc_codec \<Rightarrow> string \<Rightarrow> string \<Rightarrow> ipc_request res + string" where
  "take_chunk codec line chunk =
     (let newline = line_feed \<in> set chunk;
          taken = (if newline then takeWhile (\<lambda>c. c \<noteq> line_feed) chunk @ [line_feed] else chunk)
      in if length line + length taken > MAX_REQUEST_BYTES then Inl (Inl too_long_error)
         else if newline then Inl (parse_request codec (line @ taken))
         else if length (line @ taken) = MAX_REQUEST_BYTES then Inl (Inl too_long_error)
         else Inr (line @ taken))"

definition chunk_of :: "reply \<Rightarrow> string" where
  "chunk_of r = take 512 (map (\<lambda>b. char_of (unat b)) (r_bytes r))"

fun read_loop :: "nat \<Rightarrow> os \<Rightarrow> ipc_codec \<Rightarrow> nat \<Rightarrow> nat \<Rightarrow> string \<Rightarrow> world \<Rightarrow>
    ipc_request res option \<times> world" where
  "read_loop 0 os codec pipe deadline line w = (None, w)"
| "read_loop (Suc fuel) os codec pipe deadline line w =
     (let (now, w) = call_value os (Thread InstantNow) w in
      if now \<ge> deadline then (Some (Inl ''Wardoff timed out reading an IPC request.''), w)
      else
        let (r, w) = syscall os (Pipe (ReadFile pipe)) w;
            (last_error, w) = call_value os (Token GetLastError) w;
            error_code = (of_nat last_error :: u32)
        in case r_err r of
             None \<Rightarrow>
               if chunk_of r = [] then (Some (Inl (incomplete_request_error (line = []))), w)
               else (case take_chunk codec line (chunk_of r) of
                       Inl verdict \<Rightarrow> (Some verdict, w)
                     | Inr line \<Rightarrow> read_loop fuel os codec pipe deadline line w)
           | Some error \<Rightarrow>
               if error_code = ERROR_NO_DATA then
                 let (now, w) = call_value os (Thread InstantNow) w;
                     w = snd (call_unit os (Thread (ThreadSleep (min REQUEST_READ_POLL_DELAY (deadline - now)))) w)
                 in read_loop fuel os codec pipe deadline line w
               else if error_code = ERROR_BROKEN_PIPE
               then (Some (Inl (incomplete_request_error (line = []))), w)
               else (Some (Inl (''Wardoff could not read an IPC request: '' @ err_text error)), w))"

text \<open>Enough rounds for the longest request in the smallest pieces and for a client that stays
  silent until the deadline.\<close>

definition READ_FUEL :: nat where "READ_FUEL = 4200"

definition read_request_until_deadline ::
    "os \<Rightarrow> ipc_codec \<Rightarrow> nat \<Rightarrow> world \<Rightarrow> ipc_request res option \<times> world" where
  "read_request_until_deadline os codec pipe w =
     (let (now, w) = call_value os (Thread InstantNow) w
      in read_loop READ_FUEL os codec pipe (now + REQUEST_READ_TIMEOUT) [] w)"

text \<open>\<open>SetNamedPipeHandleState pipe True\<close> asks for \<^verbatim>\<open>PIPE_READMODE_BYTE | PIPE_NOWAIT\<close>, with \<open>False\<close> for
  \<^verbatim>\<open>PIPE_READMODE_MESSAGE | PIPE_WAIT\<close>.\<close>

definition read_request :: "os \<Rightarrow> ipc_codec \<Rightarrow> nat \<Rightarrow> world \<Rightarrow> ipc_request res option \<times> world" where
  "read_request os codec pipe w =
     (case call_unit os (Pipe (SetNamedPipeHandleState pipe True)) w of
        (Inl e, w) \<Rightarrow> (Some (Inl (''Wardoff could not bound its IPC request read: '' @ err_text e)), w)
      | (Inr _, w) \<Rightarrow>
          (case read_request_until_deadline os codec pipe w of
             (Some (Inr request), w) \<Rightarrow>
               (case call_unit os (Pipe (SetNamedPipeHandleState pipe False)) w of
                  (Inl e, w) \<Rightarrow> (Some (Inl (''Wardoff could not restore its IPC reply mode: '' @ err_text e)), w)
                | (Inr _, w) \<Rightarrow> (Some (Inr request), w))
           | (result, w) \<Rightarrow> (result, w)))"

subsection \<open>Replies\<close>

definition write_line :: "os \<Rightarrow> nat \<Rightarrow> string \<Rightarrow> string \<Rightarrow> string res \<Rightarrow> (world, string, unit) prog" where
  "write_line os pipe what own payload =
     and_then (checked (case payload of Inl e \<Rightarrow> Inl (''Wardoff could not serialize '' @ what @ '': '' @ e) | Inr p \<Rightarrow> Inr p))
       (\<lambda>payload.
     and_then (map_error (\<lambda>e. ''Wardoff could not write '' @ what @ '': '' @ err_text e)
       (call_unit os (Pipe (WriteAll pipe payload)))) (\<lambda>_.
     and_then (map_error (\<lambda>e. ''Wardoff could not finish '' @ own @ '': '' @ err_text e)
       (call_unit os (Pipe (WriteAll pipe [line_feed])))) (\<lambda>_.
     map_error (\<lambda>e. ''Wardoff could not flush '' @ own @ '': '' @ err_text e)
       (call_unit os (Pipe (FlushFile pipe))))))"

definition write_response :: "os \<Rightarrow> ipc_codec \<Rightarrow> nat \<Rightarrow> ipc_response \<Rightarrow> (world, string, unit) prog" where
  "write_response os codec pipe response = write_line os pipe ''an IPC reply'' ''its IPC reply'' (response_to_json codec response)"

definition write_status_output :: "os \<Rightarrow> ipc_codec \<Rightarrow> nat \<Rightarrow> status_output \<Rightarrow> (world, string, unit) prog" where
  "write_status_output os codec pipe status = write_line os pipe ''a status reply'' ''its status reply'' (status_to_json codec status)"

text \<open>Writing a reply and dropping the pipe.\<close>

definition reply_and_close :: "os \<Rightarrow> ipc_codec \<Rightarrow> nat \<Rightarrow> ipc_response \<Rightarrow> world \<Rightarrow> world" where
  "reply_and_close os codec pipe response w =
     snd (call_unit os (Token (CloseHandle pipe)) (snd (write_response os codec pipe response w)))"

definition close_file :: "os \<Rightarrow> nat \<Rightarrow> world \<Rightarrow> world" where
  "close_file os pipe w = snd (call_unit os (Token (CloseHandle pipe)) w)"

definition wake_ui_thread :: "os \<Rightarrow> nat \<Rightarrow> (world, string, unit) prog" where
  "wake_ui_thread os ui_thread_id =
     map_error (\<lambda>e. ''Wardoff could not wake its UI thread for IPC: '' @ err_text e)
       (call_unit os (Pipe (PostThreadMessageW ui_thread_id IPC_WAKE_MESSAGE)))"


subsection \<open>The channel to the application thread\<close>

text \<open>A request in the channel: which worker sent it, and whether that worker still holds the
  receiving end of its answer.\<close>

datatype server_kind = Control_Server | Status_Server

record pending_request =
  pr_request :: ipc_request
  pr_sender :: server_kind
  pr_awaited :: bool

record ipc_queue =
  iq_pending :: "pending_request list"
  iq_open :: bool

definition enqueue :: "server_kind \<Rightarrow> ipc_request \<Rightarrow> bool \<Rightarrow> ipc_queue \<Rightarrow> ipc_queue" where
  "enqueue sender request awaited q =
     q\<lparr>iq_pending := iq_pending q @ [\<lparr>pr_request = request, pr_sender = sender, pr_awaited = awaited\<rparr>]\<rparr>"

subsection \<open>The control worker\<close>

datatype server_phase = Accepting "nat option" | Awaiting nat | Ended | Stuck

definition control_startup :: "os \<Rightarrow> (world, string, string \<times> nat) prog" where
  "control_startup os =
     and_then (current_control_pipe_path os) (\<lambda>path.
     and_then (build_control_pipe_security_attributes os path) (\<lambda>_.
     and_then (claim_initial_pipe_instance os path True) (\<lambda>pipe. ok (path, pipe))))"

text \<open>The startup report of a worker and its first phase.\<close>

definition run_server_startup :: "os \<Rightarrow> world \<Rightarrow> unit res \<times> (string \<times> server_phase) option \<times> world" where
  "run_server_startup os w =
     (case control_startup os w of
        (Inr (path, pipe), w) \<Rightarrow> (Inr (), Some (path, Accepting (Some pipe)), w)
      | (Inl error, w) \<Rightarrow>
          let message = ''Wardoff stopped its named-pipe control server before startup: '' @ error
          in (Inl message, None, log_event os ''ipc_server_stopped'' Src_Ipc message False w))"

definition control_stopped :: "os \<Rightarrow> string \<Rightarrow> world \<Rightarrow> world" where
  "control_stopped os path w =
     log_event os ''ipc_server_stopped'' Src_Ipc
       (''Wardoff stopped its named-pipe control server on '' @ path @ ''.'') True w"

definition shutting_down :: ipc_response where
  "shutting_down = Resp_Error ''Wardoff is shutting down.''"

text \<open>One round of the loop up to the point where the worker waits for the application.\<close>

definition control_dispatch :: "os \<Rightarrow> ipc_codec \<Rightarrow> nat \<Rightarrow> string \<Rightarrow> nat \<Rightarrow> ipc_request res \<Rightarrow> ipc_queue \<times> world \<Rightarrow>
    server_phase \<times> (ipc_queue \<times> world)" where
  "control_dispatch os codec ui path pipe result = (\<lambda>(q, w).
     case result of
       Inr ShutdownServer \<Rightarrow> (Ended, (q, control_stopped os path (reply_and_close os codec pipe Resp_Ok w)))
     | Inr request \<Rightarrow>
         if \<not> iq_open q then (Ended, (q, control_stopped os path (reply_and_close os codec pipe shutting_down w)))
         else
           (case wake_ui_thread os ui w of
              (Inr _, w) \<Rightarrow> (Awaiting pipe, (enqueue Control_Server request True q, w))
            | (Inl error, w) \<Rightarrow>
                (Accepting None, (enqueue Control_Server request False q,
                   log_event os ''ipc_request_rejected'' Src_Ipc
                     (''Wardoff could not wake its UI thread for IPC: '' @ error) False
                     (reply_and_close os codec pipe (Resp_Error error) w))))
     | Inl error \<Rightarrow>
         (Accepting None, (q,
            log_event os ''ipc_request_rejected'' Src_Ipc (''Wardoff rejected an IPC request: '' @ error) False
              (reply_and_close os codec pipe (Resp_Error error) w))))"

definition control_accept :: "os \<Rightarrow> ipc_codec \<Rightarrow> nat \<Rightarrow> string \<Rightarrow> nat option \<Rightarrow> ipc_queue \<times> world \<Rightarrow>
    server_phase \<times> (ipc_queue \<times> world)" where
  "control_accept os codec ui path initial = (\<lambda>(q, w).
     case (case initial of Some pipe \<Rightarrow> connect_pipe_client os pipe path w | None \<Rightarrow> accept_client os path True w) of
       (Inl error, w) \<Rightarrow>
         (Ended, (q, control_stopped os path
            (log_event os ''ipc_server_stopped'' Src_Ipc
               (''Wardoff stopped its named-pipe control server after an IPC error: '' @ error) False w)))
     | (Inr pipe, w) \<Rightarrow>
         (case read_request os codec pipe w of
            (None, w) \<Rightarrow> (Stuck, (q, w))
          | (Some result, w) \<Rightarrow> control_dispatch os codec ui path pipe result (q, w)))"

text \<open>The answer arrives, or its sender was dropped.\<close>

definition control_reply :: "os \<Rightarrow> ipc_codec \<Rightarrow> string \<Rightarrow> nat \<Rightarrow> ipc_response option \<Rightarrow> world \<Rightarrow> server_phase \<times> world" where
  "control_reply os codec path pipe answer w =
     (case answer of
        Some response \<Rightarrow> (Accepting None, reply_and_close os codec pipe response w)
      | None \<Rightarrow> (Ended, control_stopped os path (reply_and_close os codec pipe shutting_down w)))"

subsection \<open>The status worker\<close>

definition run_status_server_startup :: "os \<Rightarrow> world \<Rightarrow> unit res \<times> (string \<times> server_phase) option \<times> world" where
  "run_status_server_startup os w =
     (case and_then (current_status_pipe_path os) (\<lambda>path.
           and_then (claim_initial_pipe_instance os path False) (\<lambda>pipe. ok (path, pipe))) w of
        (Inr (path, pipe), w) \<Rightarrow> (Inr (), Some (path, Accepting (Some pipe)), w)
      | (Inl error, w) \<Rightarrow>
          let message = ''Wardoff stopped its read-only status pipe before startup: '' @ error
          in (Inl message, None, log_event os ''status_server_stopped'' Src_Ipc message False w))"

definition status_stopped :: "os \<Rightarrow> string \<Rightarrow> world \<Rightarrow> world" where
  "status_stopped os path w =
     log_event os ''status_server_stopped'' Src_Ipc
       (''Wardoff stopped its read-only status pipe on '' @ path @ ''.'') True w"

text \<open>The shutdown flag is read before the accept, under the gate, and again after it.\<close>

definition status_accept :: "os \<Rightarrow> nat \<Rightarrow> string \<Rightarrow> bool \<Rightarrow> bool \<Rightarrow> nat option \<Rightarrow> ipc_queue \<times> world \<Rightarrow>
    server_phase \<times> (ipc_queue \<times> world)" where
  "status_accept os ui path requested_before requested_after initial = (\<lambda>(q, w).
     if requested_before
     then (Ended, (q, status_stopped os path (case initial of Some pipe \<Rightarrow> handle_guard_drop os pipe w | None \<Rightarrow> w)))
     else
       (case (case initial of Some pipe \<Rightarrow> connect_pipe_client os pipe path w | None \<Rightarrow> accept_client os path False w) of
          (Inl error, w) \<Rightarrow>
            (Ended, (q, status_stopped os path
               (log_event os ''status_server_stopped'' Src_Ipc
                  (''Wardoff stopped its read-only status pipe after an IPC error: '' @ error) False w)))
        | (Inr pipe, w) \<Rightarrow>
            if requested_after \<or> \<not> iq_open q then (Ended, (q, status_stopped os path (close_file os pipe w)))
            else
              (case wake_ui_thread os ui w of
                 (Inr _, w) \<Rightarrow> (Awaiting pipe, (enqueue Status_Server Status True q, w))
               | (Inl error, w) \<Rightarrow>
                   (Accepting None, (enqueue Status_Server Status False q,
                      close_file os pipe
                        (log_event os ''status_request_rejected'' Src_Ipc
                           (''Wardoff could not wake its UI thread for a status request: '' @ error) False w))))))"

definition status_reply :: "os \<Rightarrow> ipc_codec \<Rightarrow> string \<Rightarrow> nat \<Rightarrow> ipc_response option \<Rightarrow> world \<Rightarrow> server_phase \<times> world" where
  "status_reply os codec path pipe answer w =
     (case answer of
        Some (Resp_Status status) \<Rightarrow>
          (Accepting None, close_file os pipe (snd (write_status_output os codec pipe status w)))
      | Some (Resp_Error message) \<Rightarrow>
          (Accepting None, close_file os pipe
             (log_event os ''status_request_rejected'' Src_Ipc
                (''Wardoff could not produce a status reply: '' @ message) False w))
      | Some Resp_Ok \<Rightarrow>
          (Accepting None, close_file os pipe
             (log_event os ''status_request_rejected'' Src_Ipc
                ''Wardoff produced an empty reply for its read-only status pipe.'' False w))
      | None \<Rightarrow> (Ended, status_stopped os path (close_file os pipe w)))"

subsection \<open>Startup hand-shake and shutdown\<close>

text \<open>What \<^verbatim>\<open>cleanup_failed_server_startup\<close> does, in order.\<close>

datatype startup_action = Request_Status_Shutdown | Wake_Status_Server | Send_Shutdown_Server | Join_Control | Join_Status

definition cleanup_failed_server_startup :: "bool \<Rightarrow> startup_action list" where
  "cleanup_failed_server_startup control_ready =
     [Request_Status_Shutdown, Wake_Status_Server] @
     (if control_ready then [Send_Shutdown_Server] else []) @ [Join_Control, Join_Status]"

text \<open>The reports received, at most two; a report that never comes (both senders dropped) is the
  end of the list. The result carries the cleanup that was run.\<close>

fun wait_for_reports :: "nat \<Rightarrow> bool \<Rightarrow> (server_kind \<times> unit res) list \<Rightarrow> unit res \<times> startup_action list" where
  "wait_for_reports 0 control_ready reports = (Inr (), [])"
| "wait_for_reports (Suc n) control_ready [] =
     (Inl ''Wardoff could not confirm that both named-pipe servers claimed their initial instances.'',
      cleanup_failed_server_startup control_ready)"
| "wait_for_reports (Suc n) control_ready ((kind, result) # reports) =
     (case result of
        Inl error \<Rightarrow> (Inl error, cleanup_failed_server_startup control_ready)
      | Inr _ \<Rightarrow> wait_for_reports n (control_ready \<or> kind = Control_Server) reports)"

definition wait_for_server_startup :: "(server_kind \<times> unit res) list \<Rightarrow> unit res \<times> startup_action list" where
  "wait_for_server_startup reports = wait_for_reports 2 False reports"

text \<open>The handle the application keeps.\<close>

record ipc_server =
  is_control_join_handle :: bool
  is_status_join_handle :: bool
  is_status_shutdown_requested :: bool

definition wake_status_server :: "os \<Rightarrow> world \<Rightarrow> world" where
  "wake_status_server os w =
     (case current_status_pipe_path os w of
        (Inl _, w) \<Rightarrow> w
      | (Inr path, w) \<Rightarrow>
          (case call_num os (Pipe (OpenPipe path False)) w of
             (Inr pipe, w) \<Rightarrow> close_file os pipe w
           | (Inl _, w) \<Rightarrow> w))"

definition ipc_begin_shutdown :: "os \<Rightarrow> ipc_server \<times> world \<Rightarrow> ipc_server \<times> world" where
  "ipc_begin_shutdown os = (\<lambda>(srv, w). (srv\<lparr>is_status_shutdown_requested := True\<rparr>, wake_status_server os w))"

definition ipc_join_control :: "os \<Rightarrow> (ipc_server \<times> world, string, unit) prog" where
  "ipc_join_control os = (\<lambda>(srv, w).
     if is_control_join_handle srv then
       (case call_unit os (Thread (JoinThread IPC_SERVER_THREAD_NAME)) w of
          (Inr _, w) \<Rightarrow> (Inr (), (srv\<lparr>is_control_join_handle := False\<rparr>, w))
        | (Inl _, w) \<Rightarrow> (Inl ''Wardoff IPC server thread panicked during shutdown.'', (srv\<lparr>is_control_join_handle := False\<rparr>, w)))
     else (Inr (), (srv, w)))"

definition ipc_join_status :: "os \<Rightarrow> (ipc_server \<times> world, string, unit) prog" where
  "ipc_join_status os = (\<lambda>(srv, w).
     if is_status_join_handle srv then
       (case call_unit os (Thread (JoinThread STATUS_SERVER_THREAD_NAME)) w of
          (Inr _, w) \<Rightarrow> (Inr (), (srv\<lparr>is_status_join_handle := False\<rparr>, w))
        | (Inl _, w) \<Rightarrow> (Inl ''Wardoff status server thread panicked during shutdown.'', (srv\<lparr>is_status_join_handle := False\<rparr>, w)))
     else (Inr (), (srv, w)))"

definition stop_request :: "client_error + ipc_response \<Rightarrow> unit res" where
  "stop_request r =
     (case r of
        Inr Resp_Ok \<Rightarrow> Inr ()
      | Inl Unavailable \<Rightarrow> Inr ()
      | Inr (Resp_Error message) \<Rightarrow> Inl (''Wardoff could not stop its IPC server cleanly: '' @ message)
      | Inr (Resp_Status _) \<Rightarrow> Inl ''Wardoff received an unexpected status payload while stopping its IPC server.''
      | Inl (Transport message) \<Rightarrow> Inl message)"

definition ipc_shutdown :: "os \<Rightarrow> ipc_codec \<Rightarrow> (ipc_server \<times> world, string, unit) prog" where
  "ipc_shutdown os codec s =
     (if \<not> is_control_join_handle (fst s) \<and> \<not> is_status_join_handle (fst s) then (Inr (), s)
      else
        let (srv, w) = ipc_begin_shutdown os s;
            (r, w) = send_request os codec ShutdownServer w
        in case stop_request r of
             Inl message \<Rightarrow> (Inl message, (srv, w))
           | Inr _ \<Rightarrow> and_then (ipc_join_control os) (\<lambda>_. ipc_join_status os) (srv, w))"

text \<open>The effect of each cleanup step; the results are ignored, and the shutdown flag is dropped
  together with the server that was never built.\<close>

fun startup_step :: "os \<Rightarrow> ipc_codec \<Rightarrow> startup_action \<Rightarrow> world \<Rightarrow> world" where
  "startup_step os codec Request_Status_Shutdown w = w"
| "startup_step os codec Wake_Status_Server w = wake_status_server os w"
| "startup_step os codec Send_Shutdown_Server w = snd (send_request os codec ShutdownServer w)"
| "startup_step os codec Join_Control w = snd (call_unit os (Thread (JoinThread IPC_SERVER_THREAD_NAME)) w)"
| "startup_step os codec Join_Status w = snd (call_unit os (Thread (JoinThread STATUS_SERVER_THREAD_NAME)) w)"

text \<open>\<^verbatim>\<open>IpcServer::start\<close>: the reports come from the two workers, in the order they finish.\<close>

definition ipc_start :: "os \<Rightarrow> ipc_codec \<Rightarrow> (server_kind \<times> unit res) list \<Rightarrow> (world, string, ipc_server) prog" where
  "ipc_start os codec reports =
     and_then (current_control_pipe_path os) (\<lambda>control_path.
     and_then (current_status_pipe_path os) (\<lambda>status_path.
     and_then (map_error (\<lambda>e. ''Wardoff could not start its IPC server thread: '' @ err_text e)
       (call_unit os (Thread (SpawnThread IPC_SERVER_THREAD_NAME)))) (\<lambda>_.
     and_then (map_error (\<lambda>e. ''Wardoff could not start its status server thread: '' @ err_text e)
       (call_unit os (Thread (SpawnThread STATUS_SERVER_THREAD_NAME)))) (\<lambda>_.
     and_then (\<lambda>w. let (result, actions) = wait_for_server_startup reports
                   in (result, fold (startup_step os codec) actions w)) (\<lambda>_ w.
       (Inr \<lparr>is_control_join_handle = True, is_status_join_handle = True, is_status_shutdown_requested = False\<rparr>,
        log_event os ''status_server_started'' Src_Ipc
          (''Wardoff started its read-only status pipe on '' @ status_path @ ''.'') True
          (log_event os ''ipc_server_started'' Src_Ipc
             (''Wardoff started its named-pipe control server on '' @ control_path @ ''.'') True w)))))))"


subsection \<open>The read loop ends\<close>

lemma take_chunk_longer:
  assumes "take_chunk codec line chunk = Inr line'" and "chunk \<noteq> []"
  shows "length line < length line' \<and> length line' < MAX_REQUEST_BYTES \<and> line' = line @ chunk \<and> line_feed \<notin> set chunk"
  using assms by (auto simp: take_chunk_def Let_def split: if_splits)

text \<open>Rounds still possible: one per byte that fits, one per poll delay left, and the last.\<close>

definition rounds_left :: "nat \<Rightarrow> string \<Rightarrow> world \<Rightarrow> nat" where
  "rounds_left deadline line w =
     (MAX_REQUEST_BYTES - length line) +
     (deadline - clock_low (trace w) + (REQUEST_READ_POLL_DELAY - 1)) div REQUEST_READ_POLL_DELAY"

lemma rounds_clock:
  "clock_low (trace w) \<le> clock_low (trace w') \<Longrightarrow> rounds_left deadline line w' \<le> rounds_left deadline line w"
  by (simp add: rounds_left_def div_le_mono)

lemma rounds_byte:
  assumes "length line < length line'" and "length line' < MAX_REQUEST_BYTES"
    and "clock_low (trace w) \<le> clock_low (trace w')"
  shows "rounds_left deadline line' w' < rounds_left deadline line w"
proof -
  have "MAX_REQUEST_BYTES - length line' < MAX_REQUEST_BYTES - length line" using assms(1,2) by simp
  then show ?thesis
    unfolding rounds_left_def by (rule add_less_le_mono) (intro div_le_mono add_right_mono diff_le_mono2 assms(3))
qed

lemma rounds_poll:
  assumes "clock_low (trace w) \<le> now" and "now < deadline" and "now \<le> now2"
    and "clock_low (trace w') = now2 + min REQUEST_READ_POLL_DELAY (deadline - now2)"
  shows "rounds_left deadline line w' < rounds_left deadline line w"
proof -
  let ?P = REQUEST_READ_POLL_DELAY
  have P: "0 < ?P" by (simp add: REQUEST_READ_POLL_DELAY_def)
  have "(deadline - clock_low (trace w') + (?P - 1)) div ?P < (deadline - clock_low (trace w) + (?P - 1)) div ?P"
  proof (cases "deadline - now2 \<le> ?P")
    case True
    then have "deadline - clock_low (trace w') = 0" using assms(4) by simp
    then have z: "(deadline - clock_low (trace w') + (?P - 1)) div ?P = 0" using P by simp
    have "?P \<le> deadline - clock_low (trace w) + (?P - 1)" using assms(1,2) P by simp
    then have "0 < (deadline - clock_low (trace w) + (?P - 1)) div ?P" using P by (simp add: div_greater_zero_iff)
    then show ?thesis using z by simp
  next
    case False
    define a b where "a = deadline - clock_low (trace w') + (?P - 1)" and "b = deadline - clock_low (trace w) + (?P - 1)"
    have "a + ?P \<le> b" using False assms by (simp add: a_def b_def)
    then have "(a + ?P) div ?P \<le> b div ?P" by (rule div_le_mono)
    moreover have "(a + ?P) div ?P = Suc (a div ?P)" using div_add_self2 [of ?P a] P by simp
    ultimately show ?thesis by (simp add: a_def b_def)
  qed
  then show ?thesis by (simp add: rounds_left_def)
qed

lemma read_loop_ends:
  assumes "honest_clock os" and "rounds_left deadline line w < fuel" and "length line < MAX_REQUEST_BYTES"
  shows "fst (read_loop fuel os codec pipe deadline line w) \<noteq> None"
  using assms(2,3)
proof (induction fuel arbitrary: line w)
  case (Suc fuel)
  define now where "now = r_num (os (trace w) (Thread InstantNow))"
  define w1 where "w1 = snd (syscall os (Thread InstantNow) w)"
  define r where "r = os (trace w1) (Pipe (ReadFile pipe))"
  define w2 where "w2 = snd (syscall os (Token GetLastError) (snd (syscall os (Pipe (ReadFile pipe)) w1)))"
  define code where "code = (of_nat (r_num (os (trace (snd (syscall os (Pipe (ReadFile pipe)) w1))) (Token GetLastError))) :: u32)"
  have c1: "clock_low (trace w) \<le> now" using assms(1) by (simp add: honest_clock_def now_def)
  have c2: "clock_low (trace w2) = now" by (simp add: w2_def w1_def now_def)
  define now2 where "now2 = r_num (os (trace w2) (Thread InstantNow))"
  have c3: "now \<le> now2" by (metis assms(1) c2 honest_clock_def now2_def)
  define w3 where "w3 = snd (syscall os (Thread (ThreadSleep (min REQUEST_READ_POLL_DELAY (deadline - now2)))) (snd (syscall os (Thread InstantNow) w2)))"
  have c4: "clock_low (trace w3) = now2 + min REQUEST_READ_POLL_DELAY (deadline - now2)"
    by (simp add: w3_def now2_def)
  have eq: "read_loop (Suc fuel) os codec pipe deadline line w =
     (if now \<ge> deadline then (Some (Inl ''Wardoff timed out reading an IPC request.''), w1)
      else case r_err r of
             None \<Rightarrow>
               if chunk_of r = [] then (Some (Inl (incomplete_request_error (line = []))), w2)
               else (case take_chunk codec line (chunk_of r) of
                       Inl verdict \<Rightarrow> (Some verdict, w2)
                     | Inr line \<Rightarrow> read_loop fuel os codec pipe deadline line w2)
           | Some error \<Rightarrow>
               if code = ERROR_NO_DATA then read_loop fuel os codec pipe deadline line w3
               else if code = ERROR_BROKEN_PIPE
               then (Some (Inl (incomplete_request_error (line = []))), w2)
               else (Some (Inl (''Wardoff could not read an IPC request: '' @ err_text error)), w2))"
    unfolding read_loop.simps(2) call_eqs Let_def case_prod_beta fst_conv snd_conv fst_syscall
      now_def w1_def r_def w2_def code_def now2_def w3_def by (rule refl)
  show ?case
  proof (cases "now \<ge> deadline")
    case True
    then show ?thesis unfolding eq by simp
  next
    case False
    have chunk: "fst (read_loop fuel os codec pipe deadline l w2) \<noteq> None"
      if "take_chunk codec line (chunk_of r) = Inr l" "chunk_of r \<noteq> []" for l
    proof (rule Suc.IH)
      note t = take_chunk_longer [OF that]
      have "rounds_left deadline l w2 < rounds_left deadline line w" using t c1 c2 by (intro rounds_byte) auto
      then show "rounds_left deadline l w2 < fuel" using Suc.prems(1) by simp
      show "length l < MAX_REQUEST_BYTES" using t by blast
    qed
    have poll: "fst (read_loop fuel os codec pipe deadline line w3) \<noteq> None"
    proof (rule Suc.IH [OF _ Suc.prems(2)])
      have "rounds_left deadline line w3 < rounds_left deadline line w"
        using False by (intro rounds_poll [OF c1 _ c3 c4]) simp
      then show "rounds_left deadline line w3 < fuel" using Suc.prems(1) by simp
    qed
    show ?thesis unfolding eq using False chunk poll by (auto split: option.split sum.split)
  qed
qed simp

lemma read_request_ends:
  assumes "honest_clock os"
  shows "fst (read_request os codec pipe w) \<noteq> None"
proof -
  have "fst (read_request_until_deadline os codec pipe v) \<noteq> None" for v
  proof -
    let ?now = "r_num (os (trace v) (Thread InstantNow))" and ?v = "snd (syscall os (Thread InstantNow) v)"
    have "fst (read_loop READ_FUEL os codec pipe (?now + REQUEST_READ_TIMEOUT) [] ?v) \<noteq> None"
      by (rule read_loop_ends [OF assms])
        (simp_all add: rounds_left_def MAX_REQUEST_BYTES_def READ_FUEL_def REQUEST_READ_TIMEOUT_def REQUEST_READ_POLL_DELAY_def)
    then show ?thesis by (simp add: read_request_until_deadline_def call_eqs Let_def)
  qed
  note ends = this
  show ?thesis
  proof (cases "call_unit os (Pipe (SetNamedPipeHandleState pipe True)) w")
    case (Pair a v)
    obtain r u where r: "read_request_until_deadline os codec pipe v = (Some r, u)"
      using ends [of v] by (cases "read_request_until_deadline os codec pipe v") auto
    then show ?thesis
      using Pair by (cases a; cases r; cases "call_unit os (Pipe (SetNamedPipeHandleState pipe False)) u";
        cases "fst (call_unit os (Pipe (SetNamedPipeHandleState pipe False)) u)") (simp_all add: read_request_def)
  qed
qed

lemma stall:
  assumes "honest_clock os"
  shows "fst (control_accept os codec ui path initial (q, w)) \<noteq> Stuck"
proof -
  have d: "fst (control_dispatch os codec ui path pipe result s) \<noteq> Stuck" for pipe result s
    by (cases s) (auto simp: control_dispatch_def split: sum.split ipc_request.split prod.split)
  define connected where
    "connected = (case initial of Some pipe \<Rightarrow> connect_pipe_client os pipe path w | None \<Rightarrow> accept_client os path True w)"
  obtain a v where c: "connected = (a, v)" by (cases connected)
  obtain r u where r: "read_request os codec (projr a) v = (Some r, u)"
    using read_request_ends [OF assms, of codec "projr a" v] by (cases "read_request os codec (projr a) v") auto
  show ?thesis
    using c r d unfolding connected_def by (cases a) (simp_all add: control_accept_def)
qed

text \<open>Which calls a client can hold up. \<open>nowait\<close> is the mode a pipe is in (a new pipe instance
  blocks); \<open>read_start\<close> the first clock reading since the pipe was last put into \<^verbatim>\<open>PIPE_NOWAIT\<close>;
  \<open>time_left\<close> what the newest clock reading leaves of the timeout that began then.\<close>

fun nowait :: "nat \<Rightarrow> history \<Rightarrow> bool" where
  "nowait pipe [] = False"
| "nowait pipe ((c, r) # h) =
     (if r_err r \<noteq> None then nowait pipe h
      else case c of
        Pipe (SetNamedPipeHandleState p mode) \<Rightarrow> if p = pipe then mode else nowait pipe h
      | Pipe (CreateNamedPipeW _ _) \<Rightarrow> r_num r \<noteq> pipe \<and> nowait pipe h
      | _ \<Rightarrow> nowait pipe h)"

fun read_start :: "nat \<Rightarrow> history \<Rightarrow> nat option" where
  "read_start pipe [] = None"
| "read_start pipe ((c, r) # h) =
     (if r_err r = None \<and> c = Pipe (SetNamedPipeHandleState pipe True) then None
      else if c = Thread InstantNow \<and> read_start pipe h = None then Some (r_num r)
      else read_start pipe h)"

fun last_clock :: "history \<Rightarrow> nat option" where
  "last_clock ((Thread InstantNow, t) # h) = Some (r_num t)"
| "last_clock _ = None"

definition time_left :: "nat \<Rightarrow> history \<Rightarrow> nat" where
  "time_left pipe h =
     (case (last_clock h, read_start pipe h) of
        (Some now, Some start) \<Rightarrow> start + REQUEST_READ_TIMEOUT - now
      | _ \<Rightarrow> 0)"

text \<open>A call a client cannot turn into a wait: a read only of the one pipe, while it does not block
  and right after a clock reading before the deadline; a pause only up to the deadline.\<close>

definition timely :: "nat \<Rightarrow> history \<Rightarrow> sys_call \<Rightarrow> bool" where
  "timely pipe h c =
     (case c of
        Pipe (ReadFile p) \<Rightarrow> p = pipe \<and> nowait pipe h \<and> 0 < time_left pipe h
      | Thread (ThreadSleep n) \<Rightarrow> n \<le> REQUEST_READ_POLL_DELAY \<and> n \<le> time_left pipe h
      | _ \<Rightarrow> True)"

fun every_call :: "(history \<Rightarrow> sys_call \<Rightarrow> bool) \<Rightarrow> history \<Rightarrow> history \<Rightarrow> bool" where
  "every_call P old [] = True"
| "every_call P old ((c, r) # new) = (P (new @ old) c \<and> every_call P old new)"

definition timely_run :: "nat \<Rightarrow> world \<Rightarrow> world \<Rightarrow> bool" where
  "timely_run pipe w w' \<longleftrightarrow> (\<exists>new. trace w' = new @ trace w \<and> every_call (timely pipe) (trace w) new)"

lemma every_call_append: "every_call P old (b @ a) \<longleftrightarrow> every_call P (a @ old) b \<and> every_call P old a"
  by (induction b rule: every_call.induct [of "\<lambda>_ _ b. every_call P old (b @ a) \<longleftrightarrow> every_call P (a @ old) b \<and> every_call P old a" P old])
     auto

lemma timely_refl: "timely_run pipe w w"
  unfolding timely_run_def by (rule exI [of _ "[]"]) simp

lemma timely_trans: "timely_run pipe w w' \<Longrightarrow> timely_run pipe w' w'' \<Longrightarrow> timely_run pipe w w''"
  unfolding timely_run_def by (metis append.assoc every_call_append)

lemma timely_call: "timely pipe (trace w) c \<Longrightarrow> timely_run pipe w (snd (syscall os c w))"
  unfolding timely_run_def by (rule exI [of _ "[(c, fst (syscall os c w))]"]) simp

text \<open>Calls that neither read from a pipe nor pause.\<close>

fun unhurried :: "sys_call \<Rightarrow> bool" where
  "unhurried (Pipe (ReadFile _)) = False"
| "unhurried (Thread (ThreadSleep _)) = False"
| "unhurried _ = True"

lemma unhurried_timely: "unhurried c \<Longrightarrow> timely pipe h c"
  by (cases c rule: unhurried.cases) (simp_all add: timely_def)

lemma unhurried_run: "only_calls unhurried w w' \<Longrightarrow> timely_run pipe w w'"
proof -
  have "every_call (timely pipe) old new" if "\<forall>cr \<in> set new. unhurried (fst cr)" for old new
    using that by (induction new) (auto intro: unhurried_timely)
  then show "only_calls unhurried w w' \<Longrightarrow> timely_run pipe w w'"
    by (auto simp: only_calls_def timely_run_def)
qed

lemma read_loop_timely:
  assumes "nowait pipe (trace w)" and "read_start pipe (trace w) = Some start"
  shows "timely_run pipe w (snd (read_loop fuel os codec pipe (start + REQUEST_READ_TIMEOUT) line w))"
  using assms
proof (induction fuel arbitrary: line w)
  case (Suc fuel)
  let ?deadline = "start + REQUEST_READ_TIMEOUT"
  let ?read = "Pipe (ReadFile pipe)"
  define now where "now = r_num (os (trace w) (Thread InstantNow))"
  define w1 where "w1 = snd (syscall os (Thread InstantNow) w)"
  define w2 where "w2 = snd (syscall os (Token GetLastError) (snd (syscall os ?read w1)))"
  define now2 where "now2 = r_num (os (trace w2) (Thread InstantNow))"
  define w3 where "w3 = snd (syscall os (Thread InstantNow) w2)"
  define w4 where "w4 = snd (syscall os (Thread (ThreadSleep (min REQUEST_READ_POLL_DELAY (?deadline - now2)))) w3)"
  have clock: "timely_run pipe w w1" "time_left pipe (trace w1) = ?deadline - now"
    using Suc.prems by (auto intro!: timely_call simp: w1_def now_def timely_def time_left_def)
  have heads: "nowait pipe (trace v) \<and> read_start pipe (trace v) = Some start" if "v \<in> {w1, w2, w3, w4}" for v
    using that Suc.prems by (auto simp: w1_def w2_def w3_def w4_def)
  have read: "timely_run pipe w w2" if "now < ?deadline"
  proof -
    have "timely pipe (trace w1) ?read" using that heads [of w1] clock(2) by (simp add: timely_def)
    then have "timely_run pipe w1 (snd (syscall os ?read w1))" by (rule timely_call)
    moreover have "timely_run pipe (snd (syscall os ?read w1)) w2"
      unfolding w2_def by (rule timely_call) (simp add: timely_def)
    ultimately show ?thesis using clock(1) by (blast intro: timely_trans)
  qed
  have pause: "timely_run pipe w2 w4"
  proof -
    have "time_left pipe (trace w3) = ?deadline - now2"
      using heads [of w2] by (simp add: w3_def now2_def time_left_def)
    then have "timely_run pipe w3 w4" unfolding w4_def by (intro timely_call) (simp add: timely_def)
    moreover have "timely_run pipe w2 w3" unfolding w3_def by (rule timely_call) (simp add: timely_def)
    ultimately show ?thesis by (blast intro: timely_trans)
  qed
  have onward: "timely_run pipe w (snd (read_loop fuel os codec pipe ?deadline l v))"
    if "timely_run pipe w v" "v \<in> {w2, w4}" for l v
    using that Suc.IH [of v l] heads [of v] by (blast intro: timely_trans)
  have "snd (read_loop (Suc fuel) os codec pipe ?deadline line w) \<in>
      {w1} \<union> (if now < ?deadline then {w2} \<union> {snd (read_loop fuel os codec pipe ?deadline l v) |l v. v \<in> {w2, w4}} else {})"
    unfolding read_loop.simps(2) call_eqs Let_def case_prod_beta fst_conv snd_conv fst_syscall
    by (auto simp: now_def [symmetric] w1_def [symmetric] w2_def [symmetric] now2_def [symmetric] w3_def [symmetric]
        w4_def [symmetric] split: option.split sum.split)
  then show ?case
    using clock(1) read onward timely_trans [OF read pause] by (auto split: if_splits)
qed (simp add: timely_refl)

lemma write_line_unhurried: "only_calls unhurried w (snd (write_line os pipe what own payload w))"
proof -
  have "calls_frame.keeps unhurried (write_line os pipe what own payload)"
    unfolding write_line_def
    by (intro calls_frame.keeps_and_then calls_frame.keeps_map_error calls_frame.keeps_calls)
      (simp_all add: calls_frame.keeps_def checked_def)
  then show ?thesis by (rule calls_frame.keepsD)
qed

lemma reply_unhurried: "only_calls unhurried w (reply_and_close os codec pipe response w)"
  using write_line_unhurried [of w os pipe] by (auto simp: reply_and_close_def write_response_def)

lemma connect_unhurried: "only_calls unhurried w (snd (connect_pipe_client os pipe path w))"
  by (auto simp: connect_pipe_client_def call_eqs handle_guard_drop_def Let_def split: option.split)

lemma accept_unhurried: "only_calls unhurried w (snd (accept_client os path is_control w))"
proof -
  obtain r w1 where c: "create_pipe_instance os path is_control w = (r, w1)" by (rule prod.exhaust)
  have 1: "only_calls unhurried w w1"
    using c by (auto simp: create_pipe_instance_def call_eqs Let_def split: option.splits)
  with c connect_unhurried [of w1 os] show ?thesis
    by (cases r) (auto simp: accept_client_def and_then_def map_error_def intro: only_calls_trans)
qed

lemma dispatch_unhurried: "only_calls unhurried w (snd (snd (control_dispatch os codec ui path pipe result (q, w))))"
  using reply_unhurried [of w os codec pipe]
  by (auto simp: control_dispatch_def control_stopped_def wake_ui_thread_def map_error_def call_eqs
      split: sum.split ipc_request.split option.split intro: only_calls_trans [OF _ reply_unhurried])

lemma read_request_timely: "timely_run pipe w (snd (read_request os codec pipe w))"
proof -
  let ?set = "Pipe (SetNamedPipeHandleState pipe True)"
  let ?w1 = "snd (syscall os ?set w)"
  let ?w2 = "snd (syscall os (Thread InstantNow) ?w1)"
  let ?start = "r_num (os (trace ?w1) (Thread InstantNow))"
  have 1: "timely_run pipe w ?w1" "timely_run pipe ?w1 ?w2" by (auto intro!: timely_call simp: timely_def)
  show ?thesis
  proof (cases "r_err (os (trace w) ?set)")
    case (Some e)
    with 1 show ?thesis by (simp add: read_request_def call_unit_cases)
  next
    case None
    obtain r w3 where l: "read_loop READ_FUEL os codec pipe (?start + REQUEST_READ_TIMEOUT) [] ?w2 = (r, w3)"
      by (rule prod.exhaust)
    have "timely_run pipe ?w2 w3"
      using read_loop_timely [of pipe ?w2 ?start READ_FUEL os codec "[]"] None l by simp
    then have 3: "timely_run pipe w w3" using 1 by (blast intro: timely_trans)
    have 4: "timely_run pipe w3 (snd (syscall os (Pipe (SetNamedPipeHandleState pipe False)) w3))"
      by (rule timely_call) (simp add: timely_def)
    show ?thesis
      using None l 3 timely_trans [OF 3 4]
      by (auto simp: read_request_def read_request_until_deadline_def call_eqs Let_def split: option.split sum.split)
  qed
qed

lemma control_accept_timely:
  assumes "control_accept os codec ui path initial (q, w) = (phase, (q', w'))"
  shows "\<exists>pipe. timely_run pipe w w'"
proof -
  define connected where
    "connected = (case initial of Some pipe \<Rightarrow> connect_pipe_client os pipe path w | None \<Rightarrow> accept_client os path True w)"
  obtain a v where c: "connected = (a, v)" by (rule prod.exhaust)
  have 1: "only_calls unhurried w v"
    using c connect_unhurried [of w os] accept_unhurried [of w os path True] unfolding connected_def
    by (auto split: option.splits) (metis snd_conv)+
  show ?thesis
  proof (cases a)
    case (Inl e)
    then have "trace w' = trace v" using assms c unfolding connected_def by (auto simp: control_accept_def control_stopped_def)
    then have "only_calls unhurried w w'" using 1 by (simp add: only_calls_def)
    then show ?thesis by (blast intro: unhurried_run)
  next
    case (Inr pipe)
    obtain r u where r: "read_request os codec pipe v = (r, u)" by (rule prod.exhaust)
    have 2: "timely_run pipe w u"
      using unhurried_run [OF 1] read_request_timely [of pipe v os codec] r by (auto intro: timely_trans)
    have "timely_run pipe u w'"
    proof (cases r)
      case None
      then have "w' = u" using assms c Inr r unfolding connected_def by (simp add: control_accept_def)
      then show ?thesis by (simp add: timely_refl)
    next
      case (Some result)
      then have "w' = snd (snd (control_dispatch os codec ui path pipe result (q, u)))"
        using assms c Inr r unfolding connected_def by (simp add: control_accept_def)
      then show ?thesis using unhurried_run [OF dispatch_unhurried] by blast
    qed
    with 2 show ?thesis by (blast intro: timely_trans)
  qed
qed

text \<open>C27. A client cannot stall the control worker. On an honest clock, whatever a client sends
  or does not send, in pieces of any size, the worker's round ends: the request is answered,
  handed to the application or rejected after at most 4200 reads. Every read of that round is a
  read of the accepted pipe while it is in \<^verbatim>\<open>PIPE_NOWAIT\<close> mode, so that none of them waits for the
  client, and is issued only after a clock reading less than \<^verbatim>\<open>REQUEST_READ_TIMEOUT\<close> (one second)
  after the first; every pause ends by that deadline.\<close>

theorem client_cannot_stall_server:
  assumes "honest_clock os" and "control_accept os codec ui path initial (q, w) = (phase, (q', w'))"
  shows "phase \<noteq> Stuck \<and>
         (\<exists>pipe new. trace w' = new @ trace w \<and> every_call (timely pipe) (trace w) new)"
  using stall [OF assms(1), of codec ui path initial q w] control_accept_timely [OF assms(2)] assms(2)
  by (simp add: timely_run_def)

theorem client_cannot_stall_server_witness:
  "\<exists>phase q' w'. control_accept absent_os plain_codec 1 ''p'' (Some 7) (\<lparr>iq_pending = [], iq_open = True\<rparr>, initial_world) =
     (phase, (q', w')) \<and> phase \<noteq> Stuck"
proof -
  obtain phase q' w' where c: "control_accept absent_os plain_codec 1 ''p'' (Some 7)
      (\<lparr>iq_pending = [], iq_open = True\<rparr>, initial_world) = (phase, (q', w'))" by (metis prod.exhaust)
  from client_cannot_stall_server [OF absent_os_clock c] c show ?thesis by blast
qed


subsection \<open>What reaches the application\<close>

fun received :: "nat \<Rightarrow> history \<Rightarrow> string" where
  "received pipe [] = []"
| "received pipe ((c, r) # h) =
     (if c = Pipe (ReadFile pipe) \<and> r_err r = None then received pipe h @ chunk_of r else received pipe h)"

text \<open>The bytes begin with a complete line that is a request.\<close>

definition begins_with_request :: "ipc_codec \<Rightarrow> string \<Rightarrow> ipc_request \<Rightarrow> bool" where
  "begins_with_request codec bytes request \<longleftrightarrow>
     (\<exists>body rest. bytes = body @ [line_feed] @ rest \<and> line_feed \<notin> set body \<and>
        length body + 1 \<le> MAX_REQUEST_BYTES \<and> utf8_valid (body @ [line_feed]) \<and>
        request_from_json codec (trim_end (body @ [line_feed])) = Inr request)"

lemma take_chunk_verdict:
  assumes "take_chunk codec line chunk = Inl (Inr request)" and "line_feed \<notin> set line"
  shows "begins_with_request codec (line @ chunk) request"
proof -
  let ?body = "line @ takeWhile (\<lambda>c. c \<noteq> line_feed) chunk"
  from assms(1) have lf: "line_feed \<in> set chunk"
    and len: "length ?body + 1 \<le> MAX_REQUEST_BYTES" and p: "parse_request codec (?body @ [line_feed]) = Inr request"
    by (auto simp: take_chunk_def Let_def split: if_splits)
  have "dropWhile (\<lambda>c. c \<noteq> line_feed) chunk \<noteq> []" using lf by (simp add: dropWhile_eq_Nil_conv)
  then obtain c rest where d: "dropWhile (\<lambda>c. c \<noteq> line_feed) chunk = c # rest" by (cases "dropWhile (\<lambda>c. c \<noteq> line_feed) chunk") auto
  then have "c = line_feed" using hd_dropWhile [of "\<lambda>c. c \<noteq> line_feed" chunk] by simp
  with d have "line @ chunk = ?body @ [line_feed] @ rest"
    using takeWhile_dropWhile_id [of "\<lambda>c. c \<noteq> line_feed" chunk] by simp
  moreover have "line_feed \<notin> set ?body" using assms(2) by (auto dest: set_takeWhileD)
  moreover have "utf8_valid (?body @ [line_feed])" "request_from_json codec (trim_end (?body @ [line_feed])) = Inr request"
    using p by (auto simp: parse_request_def split: if_splits sum.splits)
  ultimately show ?thesis unfolding begins_with_request_def using len by blast
qed

lemma read_loop_request:
  assumes "read_loop fuel os codec pipe deadline line w = (Some (Inr request), w')" and "line_feed \<notin> set line"
  shows "\<exists>bytes. received pipe (trace w') = received pipe (trace w) @ bytes \<and> begins_with_request codec (line @ bytes) request"
  using assms
proof (induction fuel arbitrary: line w)
  case (Suc fuel)
  define w1 where "w1 = snd (syscall os (Thread InstantNow) w)"
  define r where "r = os (trace w1) (Pipe (ReadFile pipe))"
  define w2 where "w2 = snd (syscall os (Token GetLastError) (snd (syscall os (Pipe (ReadFile pipe)) w1)))"
  define w3 where "w3 = snd (syscall os (Thread (ThreadSleep (min REQUEST_READ_POLL_DELAY
      (deadline - r_num (os (trace w2) (Thread InstantNow)))))) (snd (syscall os (Thread InstantNow) w2)))"
  have h2: "received pipe (trace w2) = received pipe (trace w) @ (if r_err r = None then chunk_of r else [])"
    by (simp add: w2_def w1_def r_def)
  have h3: "received pipe (trace w3) = received pipe (trace w2)" by (simp add: w3_def)
  consider (verdict) "r_err r = None" "take_chunk codec line (chunk_of r) = Inl (Inr request)" "w' = w2"
    | (chunk) l where "r_err r = None" "chunk_of r \<noteq> []" "take_chunk codec line (chunk_of r) = Inr l"
        "read_loop fuel os codec pipe deadline l w2 = (Some (Inr request), w')"
    | (poll) "r_err r \<noteq> None" "read_loop fuel os codec pipe deadline line w3 = (Some (Inr request), w')"
    using Suc.prems(1)
    unfolding read_loop.simps(2) call_eqs Let_def case_prod_beta fst_conv snd_conv fst_syscall
    by (auto simp: w1_def r_def w2_def w3_def incomplete_request_error_def split: if_splits option.splits sum.splits)
  then show ?case
  proof cases
    case verdict
    with h2 take_chunk_verdict [OF verdict(2) Suc.prems(2)] show ?thesis by auto
  next
    case chunk
    note t = take_chunk_longer [OF chunk(3,2)]
    then have "line_feed \<notin> set l" using Suc.prems(2) by simp
    from Suc.IH [OF chunk(4) this] obtain bytes where
      "received pipe (trace w') = received pipe (trace w2) @ bytes" "begins_with_request codec (l @ bytes) request" by blast
    with h2 chunk(1) t show ?thesis by (intro exI [of _ "chunk_of r @ bytes"]) simp
  next
    case poll
    with Suc.IH [OF poll(2) Suc.prems(2)] h2 h3 show ?thesis by simp
  qed
qed simp

lemma read_request_request:
  assumes "read_request os codec pipe w = (Some (Inr request), w')"
  shows "\<exists>bytes. received pipe (trace w') = received pipe (trace w) @ bytes \<and> begins_with_request codec bytes request"
proof -
  define v where "v = snd (syscall os (Pipe (SetNamedPipeHandleState pipe True)) w)"
  obtain r u where r: "read_request_until_deadline os codec pipe v = (r, u)" by (cases "read_request_until_deadline os codec pipe v")
  have "r = Some (Inr request)" "trace w' = (Pipe (SetNamedPipeHandleState pipe False), os (trace u) (Pipe (SetNamedPipeHandleState pipe False))) # trace u"
    using assms r
    by (auto simp: read_request_def call_eqs v_def split: option.splits sum.splits)
  moreover have "received pipe (trace (snd (syscall os (Thread InstantNow) v))) = received pipe (trace w)" by (simp add: v_def)
  ultimately show ?thesis
    using r read_loop_request [of READ_FUEL os codec pipe "r_num (os (trace v) (Thread InstantNow)) + REQUEST_READ_TIMEOUT" "[]"
        "snd (syscall os (Thread InstantNow) v)" request u]
    by (auto simp: read_request_until_deadline_def call_eqs Let_def)
qed


lemma dispatch_queue:
  assumes "control_dispatch os codec ui path pipe result (q, w) = (phase, (q', w'))"
  shows "q' = q \<and> (\<forall>p. phase \<noteq> Awaiting p) \<or>
         (\<exists>request awaited. result = Inr request \<and> request \<noteq> ShutdownServer \<and> iq_open q \<and>
            q' = enqueue Control_Server request awaited q \<and>
            phase = (if awaited then Awaiting pipe else Accepting None))"
  using assms
  by (cases result; cases "projr result"; cases "wake_ui_thread os ui w"; cases "fst (wake_ui_thread os ui w)")
    (auto simp: control_dispatch_def split: if_splits)

lemma reply_received [simp]: "received p (trace (reply_and_close os codec pipe response w)) = received p (trace w)"
  by (simp add: reply_and_close_def write_response_def write_line_def and_then_def map_error_def call_eqs
      split: sum.split option.split)

lemma dispatch_received:
  "received p (trace (snd (snd (control_dispatch os codec ui path pipe result (q, w))))) = received p (trace w)"
  by (cases result; cases "projr result")
    (auto simp: control_dispatch_def control_stopped_def wake_ui_thread_def map_error_def call_eqs split: option.split)

text \<open>C28. Only well-formed requests reach the application. A round of the control worker adds to
  the channel nothing, or one request that the client sent as a first line of at most 4096 bytes
  of UTF-8 that parses to it, and never the internal \<^verbatim>\<open>ShutdownServer\<close>; a round of the status
  worker adds nothing or a \<^verbatim>\<open>Status\<close> request, whatever the client does.\<close>

theorem only_wellformed_requests_reach_application:
  assumes "control_accept os codec ui path initial (q, w) = (phase, (q', w'))"
    and "status_accept os ui' path' before after initial' (q1, w1) = (phase1, (q1', w1'))"
  shows "(q' = q \<or> (\<exists>request awaited pipe bytes. q' = enqueue Control_Server request awaited q \<and>
            request \<noteq> ShutdownServer \<and> received pipe (trace w') = received pipe (trace w) @ bytes \<and>
            begins_with_request codec bytes request)) \<and>
         (q1' = q1 \<or> (\<exists>awaited. q1' = enqueue Status_Server Status awaited q1))"
proof
  show "q1' = q1 \<or> (\<exists>awaited. q1' = enqueue Status_Server Status awaited q1)"
    using assms(2) by (auto simp: status_accept_def split: if_splits prod.splits sum.splits option.splits)
  define connected where
    "connected = (case initial of Some pipe \<Rightarrow> connect_pipe_client os pipe path w | None \<Rightarrow> accept_client os path True w)"
  obtain a v where c: "connected = (a, v)" by (cases connected)
  have recv: "received p (trace v) = received p (trace w)" for p
    using c by (auto simp: connected_def connect_pipe_client_def accept_client_def create_pipe_instance_def and_then_def
        map_error_def handle_guard_drop_def call_eqs Let_def split: option.splits if_splits)
  show "q' = q \<or> (\<exists>request awaited pipe bytes. q' = enqueue Control_Server request awaited q \<and>
            request \<noteq> ShutdownServer \<and> received pipe (trace w') = received pipe (trace w) @ bytes \<and>
            begins_with_request codec bytes request)"
  proof (cases a)
    case (Inl e)
    with c assms(1) show ?thesis by (simp add: connected_def control_accept_def)
  next
    case (Inr pipe)
    obtain r u where r: "read_request os codec pipe v = (r, u)" by (cases "read_request os codec pipe v")
    show ?thesis
    proof (cases r)
      case None
      with c Inr r assms(1) show ?thesis by (simp add: connected_def control_accept_def)
    next
      case (Some result)
      with c Inr r assms(1) have d: "control_dispatch os codec ui path pipe result (q, u) = (phase, (q', w'))"
        by (simp add: connected_def control_accept_def)
      from dispatch_queue [OF d] show ?thesis
      proof
        assume "\<exists>request awaited. result = Inr request \<and> request \<noteq> ShutdownServer \<and> iq_open q \<and>
            q' = enqueue Control_Server request awaited q \<and> phase = (if awaited then Awaiting pipe else Accepting None)"
        then obtain request awaited where e: "result = Inr request" "request \<noteq> ShutdownServer"
          "q' = enqueue Control_Server request awaited q" by blast
        from read_request_request [of os codec pipe v request u] r Some e(1) recv [of pipe]
        obtain bytes where "received pipe (trace u) = received pipe (trace w) @ bytes" "begins_with_request codec bytes request"
          by auto
        moreover have "received pipe (trace w') = received pipe (trace u)"
          using dispatch_received [of pipe os codec ui path pipe result q u] d by simp
        ultimately show ?thesis using e by auto
      qed simp
    qed
  qed
qed

text \<open>A client that sends one line, on a clock that stands still.\<close>

definition one_line_os :: os where
  "one_line_os h c =
     \<lparr>r_err = None, r_num = 7, r_text = [], r_bytes = [115, 10], r_events = []\<rparr>"

theorem only_wellformed_requests_reach_application_witness:
  "\<exists>q' w'. control_accept one_line_os plain_codec 1 ''p'' (Some 7) (\<lparr>iq_pending = [], iq_open = True\<rparr>, initial_world) =
       (Awaiting 7, (q', w')) \<and>
     iq_pending q' = [\<lparr>pr_request = Status, pr_sender = Control_Server, pr_awaited = True\<rparr>]"
proof -
  let ?q = "\<lparr>iq_pending = [], iq_open = True\<rparr>"
  have fuel: "READ_FUEL = Suc 4199" by (simp add: READ_FUEL_def)
  have chunk: "chunk_of (one_line_os h c) = [CHR ''s'', line_feed]" for h c
    by (simp add: chunk_of_def one_line_os_def line_feed_def) code_simp
  have take_chunk: "take_chunk plain_codec [] [CHR ''s'', line_feed] = Inl (Inr Status)" by code_simp
  have os: "r_err (one_line_os h c) = None" "r_num (one_line_os h c) = 7" for h c by (simp_all add: one_line_os_def)
  have "fst (read_loop (Suc n) one_line_os plain_codec 7 1000000007 [] v) = Some (Inr Status)" for n v
    by (simp add: call_eqs Let_def case_prod_beta chunk take_chunk os)
  then have loop: "fst (read_loop READ_FUEL one_line_os plain_codec 7 1000000007 [] v) = Some (Inr Status)" for v
    by (simp only: fuel)
  have rl: "fst (read_request one_line_os plain_codec 7 v) = Some (Inr Status)" for v
    by (simp add: read_request_def read_request_until_deadline_def call_eqs Let_def case_prod_beta loop os REQUEST_READ_TIMEOUT_def)
  obtain u where u: "read_request one_line_os plain_codec 7
      (snd (syscall one_line_os (Pipe (ConnectNamedPipe 7)) initial_world)) = (Some (Inr Status), u)"
    using rl by (metis prod.collapse)
  obtain ph q' w' where c: "control_accept one_line_os plain_codec 1 ''p'' (Some 7) (?q, initial_world) = (ph, (q', w'))"
    by (metis prod.exhaust)
  obtain ph1 q1 w1 where st: "status_accept one_line_os 1 ''s'' False False (Some 7) (?q, initial_world) = (ph1, (q1, w1))"
    by (metis prod.exhaust)
  have "ph = Awaiting 7" "iq_pending q' = [\<lparr>pr_request = Status, pr_sender = Control_Server, pr_awaited = True\<rparr>]"
    using c u by (auto simp: control_accept_def connect_pipe_client_def call_eqs os control_dispatch_def wake_ui_thread_def
        map_error_def enqueue_def)
  with c only_wellformed_requests_reach_application [OF c st] show ?thesis by auto
qed


subsection \<open>Pipe handles\<close>

fun phase_handles :: "server_phase \<Rightarrow> nat multiset" where
  "phase_handles (Accepting (Some pipe)) = {#pipe#}"
| "phase_handles (Awaiting pipe) = {#pipe#}"
| "phase_handles _ = {#}"

text \<open>Besides \<open>H\<close>, the process holds exactly the pipe of the worker's phase.\<close>

definition pipes_accounted :: "os \<Rightarrow> nat multiset \<Rightarrow> server_phase \<Rightarrow> world \<Rightarrow> bool" where
  "pipes_accounted os H phase w \<longleftrightarrow>
     valid_handles os (trace w) = H + {#n \<in># phase_handles phase. \<not> is_invalid os n#}"

lemma valid_single: "valid_handles os h = H + {#n \<in># {#p#}. \<not> is_invalid os n#} \<Longrightarrow> valid_handles os h - {#p#} = H"
  by (cases "is_invalid os p") (simp_all, metis invalid_not_held)

lemma read_loop_handles: "open_handles (trace (snd (read_loop fuel os codec pipe deadline line w))) = open_handles (trace w)"
proof (induction fuel arbitrary: line w)
  case (Suc fuel)
  show ?case
    unfolding read_loop.simps(2) call_eqs Let_def case_prod_beta fst_conv snd_conv fst_syscall
    by (simp add: Suc.IH split: option.split sum.split)
qed simp

lemma read_request_handles: "open_handles (trace (snd (read_request os codec pipe w))) = open_handles (trace w)"
proof -
  have r: "open_handles (trace (snd (read_request_until_deadline os codec pipe v))) = open_handles (trace v)" for v
    by (simp add: read_request_until_deadline_def call_eqs Let_def read_loop_handles)
  obtain a v where s: "call_unit os (Pipe (SetNamedPipeHandleState pipe True)) w = (a, v)"
    by (cases "call_unit os (Pipe (SetNamedPipeHandleState pipe True)) w")
  then have v: "open_handles (trace v) = open_handles (trace w)" using snd_call_unit [of os "Pipe (SetNamedPipeHandleState pipe True)" w] by simp
  obtain b u where b: "read_request_until_deadline os codec pipe v = (b, u)" by (cases "read_request_until_deadline os codec pipe v")
  with r [of v] v have "open_handles (trace u) = open_handles (trace w)" by simp
  with s b v show ?thesis
    by (auto simp: read_request_def call_eqs split: sum.split option.split)
qed

lemma connect_client_handles:
  assumes "connect_pipe_client os pipe path w = (r, w')"
  shows "r = Inr p \<Longrightarrow> p = pipe \<and> valid_handles os (trace w') = valid_handles os (trace w)"
    and "r = Inl e \<Longrightarrow> valid_handles os (trace w') = valid_handles os (trace w) - {#pipe#}"
  using assms by (auto simp: connect_pipe_client_def call_eqs Let_def valid_handles_Cons split: option.splits if_splits)

lemma accept_handles:
  assumes "(case initial of Some pipe \<Rightarrow> connect_pipe_client os pipe path w | None \<Rightarrow> accept_client os path k w) = (r, w')"
    and "pipes_accounted os H (Accepting initial) w"
  shows "r = Inr p \<Longrightarrow> pipes_accounted os H (Awaiting p) w'" and "r = Inl e \<Longrightarrow> valid_handles os (trace w') = H"
proof -
  have "(\<forall>p. r = Inr p \<longrightarrow> pipes_accounted os H (Awaiting p) w') \<and> (\<forall>e. r = Inl e \<longrightarrow> valid_handles os (trace w') = H)"
  proof (cases initial)
    case (Some pipe)
    with assms have c: "connect_pipe_client os pipe path w = (r, w')" by simp
    have "valid_handles os (trace w) = H + {#n \<in># {#pipe#}. \<not> is_invalid os n#}"
      using assms(2) Some by (simp only: pipes_accounted_def phase_handles.simps)
    with connect_client_handles [OF c] valid_single [OF this] show ?thesis by (auto simp: pipes_accounted_def)
  next
    case None
    obtain a v where a: "create_pipe_instance os path k w = (a, v)" by (cases "create_pipe_instance os path k w")
    have v: "valid_handles os (trace v) = H + (case a of Inr p \<Rightarrow> {#n \<in># {#p#}. \<not> is_invalid os n#} | Inl _ \<Rightarrow> {#})"
      using a assms(2) None
      by (auto simp: create_pipe_instance_def call_eqs Let_def valid_handles_Cons pipes_accounted_def split: option.splits)
    show ?thesis
    proof (cases a)
      case (Inl x)
      with assms(1) None a v show ?thesis by (auto simp: accept_client_def and_then_def map_error_def)
    next
      case (Inr pipe)
      with assms(1) None a have c: "connect_pipe_client os pipe path v = (r, w')"
        by (simp add: accept_client_def and_then_def map_error_def)
      have "valid_handles os (trace v) = H + {#n \<in># {#pipe#}. \<not> is_invalid os n#}" using v Inr by simp
      with connect_client_handles [OF c] valid_single [OF this] show ?thesis by (auto simp: pipes_accounted_def)
    qed
  qed
  then show "r = Inr p \<Longrightarrow> pipes_accounted os H (Awaiting p) w'" "r = Inl e \<Longrightarrow> valid_handles os (trace w') = H" by blast+
qed

lemma write_line_handles [simp]: "valid_handles os (trace (snd (write_line os pipe a b c w))) = valid_handles os (trace w)"
  by (simp add: write_line_def and_then_def map_error_def call_eqs valid_handles_Cons split: sum.split option.split)

lemma close_handles:
  assumes "pipes_accounted os H (Awaiting pipe) w"
  shows "valid_handles os (trace (close_file os pipe w)) = H"
    and "valid_handles os (trace (reply_and_close os codec pipe response w)) = H"
  using valid_single [of os "trace w" H pipe] assms
  by (simp_all add: close_file_def reply_and_close_def write_response_def call_eqs valid_handles_Cons pipes_accounted_def)

lemma accounted_log [simp]: "pipes_accounted os H phase (log_event os' e s a b w) = pipes_accounted os H phase w"
  by (simp add: pipes_accounted_def)

lemma accounted_idle: "phase_handles phase = {#} \<Longrightarrow> pipes_accounted os H phase w = (valid_handles os (trace w) = H)"
  by (simp add: pipes_accounted_def)

lemma wake_accounted:
  "pipes_accounted os H phase (snd (wake_ui_thread os ui w)) = pipes_accounted os H phase w"
  by (simp add: wake_ui_thread_def pipes_accounted_def valid_handles_Cons)

lemma dispatch_accounted:
  assumes "pipes_accounted os H (Awaiting pipe) w" and "control_dispatch os codec ui path pipe result (q, w) = (phase, (q', w'))"
  shows "pipes_accounted os H phase w'"
proof -
  obtain a v where wake: "wake_ui_thread os ui w = (a, v)" by (cases "wake_ui_thread os ui w")
  have "pipes_accounted os H (Awaiting pipe) v" using wake_accounted [of os H "Awaiting pipe" ui w] wake assms(1) by simp
  note h = close_handles [OF assms(1)] close_handles [OF this]
  show ?thesis
    using assms(2) wake h \<open>pipes_accounted os H (Awaiting pipe) v\<close>
    by (cases result; cases "projr result"; cases a)
      (auto simp: control_dispatch_def control_stopped_def accounted_idle split: if_splits)
qed

lemma control_accept_accounted:
  assumes "pipes_accounted os H (Accepting initial) w"
    and "control_accept os codec ui path initial (q, w) = (phase, (q', w'))" and "phase \<noteq> Stuck"
  shows "pipes_accounted os H phase w'"
proof -
  define connected where
    "connected = (case initial of Some pipe \<Rightarrow> connect_pipe_client os pipe path w | None \<Rightarrow> accept_client os path True w)"
  obtain a v where c: "connected = (a, v)" by (cases connected)
  note h = accept_handles [OF c [unfolded connected_def] assms(1)]
  show ?thesis
  proof (cases a)
    case (Inl e)
    with c assms(2) h(2) show ?thesis by (auto simp: connected_def control_accept_def control_stopped_def accounted_idle)
  next
    case (Inr p)
    obtain r u where r: "read_request os codec p v = (r, u)" by (cases "read_request os codec p v")
    have "pipes_accounted os H (Awaiting p) u"
      using h(1) [OF Inr] valid_handles_frame [OF read_request_handles [of os codec p v], of os] r by (simp add: pipes_accounted_def)
    with c Inr r assms(2,3) dispatch_accounted [of os H p u codec ui path "the r" q phase q' w'] show ?thesis
      by (cases r) (auto simp: connected_def control_accept_def)
  qed
qed

lemma status_accept_accounted:
  assumes "pipes_accounted os H (Accepting initial) w"
    and "status_accept os ui path before after initial (q, w) = (phase, (q', w'))"
  shows "pipes_accounted os H phase w'"
proof (cases before)
  case True
  have "valid_handles os (trace (case initial of Some pipe \<Rightarrow> handle_guard_drop os pipe w | None \<Rightarrow> w)) = H"
    using assms(1) valid_single [of os "trace w" H] by (cases initial) (simp_all add: pipes_accounted_def)
  with True assms(2) show ?thesis by (auto simp: status_accept_def status_stopped_def accounted_idle)
next
  case False
  define connected where
    "connected = (case initial of Some pipe \<Rightarrow> connect_pipe_client os pipe path w | None \<Rightarrow> accept_client os path False w)"
  obtain a v where c: "connected = (a, v)" by (cases connected)
  note h = accept_handles [OF c [unfolded connected_def] assms(1)]
  show ?thesis
  proof (cases a)
    case (Inl e)
    with c False assms(2) h(2) show ?thesis by (auto simp: connected_def status_accept_def status_stopped_def accounted_idle)
  next
    case (Inr p)
    note hp = h(1) [OF Inr]
    obtain b u where wake: "wake_ui_thread os ui v = (b, u)" by (cases "wake_ui_thread os ui v")
    have hu: "pipes_accounted os H (Awaiting p) u" using wake_accounted [of os H "Awaiting p" ui v] wake hp by simp
    then have "pipes_accounted os H (Awaiting p) (log_event os e s t f u)" for e s t f by simp
    note cl = close_handles(1) [OF hp] close_handles(1) [OF this]
    show ?thesis
    proof (cases "after \<or> \<not> iq_open q")
      case True
      with c False Inr assms(2) cl(1) show ?thesis
        by (auto simp: connected_def status_accept_def status_stopped_def accounted_idle)
    next
      case go: False
      with c False Inr wake assms(2) cl(2) hu show ?thesis
        by (cases b) (auto simp: connected_def status_accept_def accounted_idle)
    qed
  qed
qed

lemma reply_accounted:
  assumes "pipes_accounted os H (Awaiting pipe) w"
  shows "control_reply os codec path pipe answer w = (phase, w') \<Longrightarrow> pipes_accounted os H phase w'"
    and "status_reply os codec path pipe answer w = (phase, w') \<Longrightarrow> pipes_accounted os H phase w'"
proof -
  show "control_reply os codec path pipe answer w = (phase, w') \<Longrightarrow> pipes_accounted os H phase w'"
    using close_handles(2) [OF assms] by (cases answer) (auto simp: control_reply_def control_stopped_def accounted_idle)
  have "pipes_accounted os H (Awaiting pipe) (snd (write_line os pipe a b c w))" for a b c
    using assms by (simp add: pipes_accounted_def)
  then have "pipes_accounted os H (Awaiting pipe) (snd (write_status_output os codec pipe st w))" for st
    by (simp add: write_status_output_def)
  note cl = close_handles(1) [OF assms] close_handles(1) [OF this]
  have "pipes_accounted os H (Awaiting pipe) (log_event os e s t f w)" for e s t f using assms by simp
  note cl2 = close_handles(1) [OF this]
  show "status_reply os codec path pipe answer w = (phase, w') \<Longrightarrow> pipes_accounted os H phase w'"
    using cl cl2 by (cases answer; cases "the answer") (auto simp: status_reply_def status_stopped_def accounted_idle)
qed

text \<open>C29. No pipe instance leaks. In every round and every answer of both workers, whatever
  Windows and the clients do, the process holds besides what it held before exactly the pipe of
  the worker's phase: a rejected, answered or abandoned client's pipe is closed, and an ended worker
  holds none.\<close>

theorem no_pipe_leaks:
  assumes "pipes_accounted os H (Accepting initial) w" and "pipes_accounted os H (Awaiting pipe) w2"
    and "control_accept os codec ui path initial (q, w) = (phase, (q', w'))" and "phase \<noteq> Stuck"
    and "status_accept os ui path before after initial (q, w) = (phase1, (q1', w1'))"
    and "control_reply os codec path pipe answer w2 = (phase2, w2')"
    and "status_reply os codec path pipe answer w2 = (phase3, w3')"
  shows "pipes_accounted os H phase w' \<and> pipes_accounted os H phase1 w1' \<and>
         pipes_accounted os H phase2 w2' \<and> pipes_accounted os H phase3 w3'"
  using control_accept_accounted [OF assms(1,3,4)] status_accept_accounted [OF assms(1,5)]
    reply_accounted [OF assms(2)] assms(6,7) by blast

theorem no_pipe_leaks_witness:
  "\<exists>phase q' w'. control_accept absent_os plain_codec 1 ''p'' (Some 7) (\<lparr>iq_pending = [], iq_open = True\<rparr>,
       initial_world\<lparr>trace := [(Pipe (CreateNamedPipeW ''p'' True), absent_os [] (Pipe (CreateNamedPipeW ''p'' True)))]\<rparr>) =
       (phase, (q', w')) \<and> pipes_accounted absent_os {#} phase w'"
proof -
  let ?w = "initial_world\<lparr>trace := [(Pipe (CreateNamedPipeW ''p'' True), absent_os [] (Pipe (CreateNamedPipeW ''p'' True)))]\<rparr>"
  let ?q = "\<lparr>iq_pending = [], iq_open = True\<rparr>"
  have h: "pipes_accounted absent_os {#} (Accepting (Some 7)) ?w" "pipes_accounted absent_os {#} (Awaiting 7) ?w"
    by (simp_all add: pipes_accounted_def valid_handles_Cons absent_os_def is_invalid_def) (simp_all add: valid_handles_def)
  obtain ph q' w' where c: "control_accept absent_os plain_codec 1 ''p'' (Some 7) (?q, ?w) = (ph, (q', w'))"
    by (metis prod.exhaust)
  obtain ph1 q1 w1 where st: "status_accept absent_os 1 ''p'' True True (Some 7) (?q, ?w) = (ph1, (q1, w1))"
    by (metis prod.exhaust)
  obtain ph2 w2 where c2: "control_reply absent_os plain_codec ''p'' 7 None ?w = (ph2, w2)" by (metis prod.exhaust)
  obtain ph3 w3 where c3: "status_reply absent_os plain_codec ''p'' 7 None ?w = (ph3, w3)" by (metis prod.exhaust)
  have "ph \<noteq> Stuck" using stall [OF absent_os_clock, of plain_codec 1 "''p''" "Some 7" ?q ?w] c by simp
  from no_pipe_leaks [OF h c this st c2 c3] c show ?thesis by blast
qed

subsection \<open>Startup\<close>

text \<open>C30. A failed startup can wait for a worker nobody stops. Startup succeeds exactly when the
  first two reports are successes. Otherwise the cleanup joins the control worker, but it asks that
  worker to stop only if the worker's success was the first report received: when the status
  worker's failure comes first, the join is for a worker that may be serving, and a serving worker
  whose channel is open ends on what it reads from a client only if that is
  \<^verbatim>\<open>ShutdownServer\<close> (a failing accept, or an answer the application drops, ends it too).\<close>

theorem failed_startup_joins_unstopped_control:
  assumes "wait_for_server_startup reports = (r, actions)"
    and "control_dispatch os codec ui path pipe result (q, w) = (phase, s)" and "iq_open q"
  shows "(is_ok r \<longleftrightarrow> 2 \<le> length reports \<and> list_all (\<lambda>(_, result). is_ok result) (take 2 reports)) \<and>
         (is_ok r \<longrightarrow> actions = []) \<and>
         (is_err r \<longrightarrow> Join_Control \<in> set actions \<and>
            (Send_Shutdown_Server \<in> set actions \<longleftrightarrow> (\<exists>rest. reports = (Control_Server, Inr ()) # rest))) \<and>
         (phase = Ended \<longrightarrow> result = Inr ShutdownServer)"
proof (intro conjI)
  have two: "wait_for_reports 2 False reports = (r, actions)" using assms(1) by (simp add: wait_for_server_startup_def)
  then show "is_ok r \<longleftrightarrow> 2 \<le> length reports \<and> list_all (\<lambda>(_, result). is_ok result) (take 2 reports)"
    "is_ok r \<longrightarrow> actions = []"
    "is_err r \<longrightarrow> Join_Control \<in> set actions \<and>
       (Send_Shutdown_Server \<in> set actions \<longleftrightarrow> (\<exists>rest. reports = (Control_Server, Inr ()) # rest))"
    by (cases reports; cases "tl reports";
        auto simp: numeral_2_eq_2 cleanup_failed_server_startup_def split: sum.splits if_splits)+
  show "phase = Ended \<longrightarrow> result = Inr ShutdownServer"
    using assms(2,3) by (cases result; cases "projr result") (auto simp: control_dispatch_def split: prod.splits sum.splits)
qed

theorem failed_startup_joins_unstopped_control_witness:
  "wait_for_server_startup [(Status_Server, Inl ''busy''), (Control_Server, Inr ())] =
     (Inl ''busy'', [Request_Status_Shutdown, Wake_Status_Server, Join_Control, Join_Status]) \<and>
   Send_Shutdown_Server \<notin> set (snd (wait_for_server_startup [(Status_Server, Inl ''busy''), (Control_Server, Inr ())]))"
proof -
  let ?q = "\<lparr>iq_pending = [], iq_open = True\<rparr>"
  have a: "wait_for_server_startup [(Status_Server, Inl ''busy''), (Control_Server, Inr ())] =
     (Inl ''busy'', [Request_Status_Shutdown, Wake_Status_Server, Join_Control, Join_Status])" by code_simp
  obtain ph s where d: "control_dispatch quiet_os plain_codec 1 ''p'' 7 (Inr Status) (?q, initial_world) = (ph, s)"
    by (metis prod.exhaust)
  have "iq_open ?q" by simp
  from failed_startup_joins_unstopped_control [OF a d this] a show ?thesis by simp
qed

end
