(* ===== verification/Tray_Icon.thy ===== *)
theory Tray_Icon
  imports Blocker_Types
begin

text \<open>
  \<^verbatim>\<open>tray/icon.rs\<close>: the two bitmaps of the tray icon. The buffer is written pixel by pixel with
  \<^verbatim>\<open>copy_from_slice\<close>, which panics out of range: \<open>None\<close> here.

  The source computes distances in \<^verbatim>\<open>f32\<close>. The coordinates are multiples of one half below 16, so
  squares and their sum are exact, and the rounded square root compares with \<^verbatim>\<open>9.5\<close> and \<^verbatim>\<open>12.5\<close>
  as the exact one does; the model compares four times the squared distance with \<open>19\<^sup>2\<close> and \<open>25\<^sup>2\<close>.
\<close>

datatype tray_icon_state = Blocked | Allowed

definition ICON_SIZE :: nat where "ICON_SIZE = 32"
definition BORDER_COLOR :: "8 word list" where "BORDER_COLOR = [32, 32, 32, 255]"
definition BLOCKED_FILL :: "8 word list" where "BLOCKED_FILL = [217, 72, 72, 255]"
definition ALLOWED_FILL :: "8 word list" where "ALLOWED_FILL = [52, 168, 83, 255]"

fun icon_fill :: "tray_icon_state \<Rightarrow> 8 word list" where
  "icon_fill Blocked = BLOCKED_FILL"
| "icon_fill Allowed = ALLOWED_FILL"

definition icon_pixel :: "8 word list \<Rightarrow> nat \<Rightarrow> nat \<Rightarrow> 8 word list" where
  "icon_pixel fill x y =
     (let d = (2 * int x - 31)\<^sup>2 + (2 * int y - 31)\<^sup>2
      in if d \<le> 19\<^sup>2 then fill else if d \<le> 25\<^sup>2 then BORDER_COLOR else [0, 0, 0, 0])"

definition put_pixel :: "8 word list \<Rightarrow> nat \<Rightarrow> nat \<Rightarrow> 8 word list option \<Rightarrow> 8 word list option" where
  "put_pixel fill y x rgba = Option.bind rgba (copy_from_slice ((y * ICON_SIZE + x) * 4) (icon_pixel fill x y))"

definition icon_row :: "8 word list \<Rightarrow> nat \<Rightarrow> 8 word list option \<Rightarrow> 8 word list option" where
  "icon_row fill y rgba = fold (put_pixel fill y) [0..<ICON_SIZE] rgba"

definition icon_for_state :: "tray_icon_state \<Rightarrow> 8 word list option" where
  "icon_for_state state =
     fold (icon_row (icon_fill state)) [0..<ICON_SIZE] (Some (replicate (ICON_SIZE * ICON_SIZE * 4) 0))"

definition blocked_icon :: "8 word list option" where "blocked_icon = icon_for_state Blocked"
definition allowed_icon :: "8 word list option" where "allowed_icon = icon_for_state Allowed"

subsection \<open>The image the loops draw\<close>

definition nth_pixel :: "8 word list \<Rightarrow> nat \<Rightarrow> 8 word list" where
  "nth_pixel fill i = icon_pixel fill (i mod ICON_SIZE) (i div ICON_SIZE)"

definition image_prefix :: "8 word list \<Rightarrow> nat \<Rightarrow> 8 word list" where
  "image_prefix fill i = concat (map (nth_pixel fill) [0..<i])"

definition drawn :: "8 word list \<Rightarrow> nat \<Rightarrow> 8 word list" where
  "drawn fill i = image_prefix fill i @ replicate ((ICON_SIZE * ICON_SIZE - i) * 4) 0"

lemma length_pixel: "length fill = 4 \<Longrightarrow> length (icon_pixel fill x y) = 4"
  by (simp add: icon_pixel_def BORDER_COLOR_def Let_def)

lemma length_fill [simp]: "length (icon_fill state) = 4"
  by (cases state) (simp_all add: BLOCKED_FILL_def ALLOWED_FILL_def)

lemma length_prefix: "length fill = 4 \<Longrightarrow> length (image_prefix fill i) = i * 4"
  by (induction i) (simp_all add: image_prefix_def nth_pixel_def length_pixel)

lemma put_pixel_drawn:
  assumes "length fill = 4" and "x < ICON_SIZE" and "y < ICON_SIZE"
  shows "put_pixel fill y x (Some (drawn fill (y * ICON_SIZE + x))) = Some (drawn fill (y * ICON_SIZE + Suc x))"
proof -
  let ?i = "y * ICON_SIZE + x"
  have i: "?i < ICON_SIZE * ICON_SIZE"
    using assms(2,3) mult_le_mono1 [of "Suc y" ICON_SIZE ICON_SIZE] by simp
  have pixel: "icon_pixel fill x y = nth_pixel fill ?i"
    using assms(2) by (simp add: nth_pixel_def)
  have next_prefix: "image_prefix fill (Suc ?i) = image_prefix fill ?i @ nth_pixel fill ?i" by (simp add: image_prefix_def)
  have len: "length (nth_pixel fill ?i) = 4" using assms(1) by (simp add: nth_pixel_def length_pixel)
  obtain k where k: "ICON_SIZE * ICON_SIZE - ?i = Suc k" using i by (cases "ICON_SIZE * ICON_SIZE - ?i") auto
  then have k': "ICON_SIZE * ICON_SIZE - Suc ?i = k" by simp
  have rest: "drop 4 (replicate (Suc k * 4) (0 :: 8 word)) = replicate (k * 4) 0" by simp
  show ?thesis
    unfolding put_pixel_def pixel copy_from_slice_def drawn_def
    using len length_prefix [OF assms(1), of ?i] k k' next_prefix rest by (simp add: drop_append)
qed

lemma icon_row_drawn:
  assumes "length fill = 4" and "y < ICON_SIZE"
  shows "icon_row fill y (Some (drawn fill (y * ICON_SIZE))) = Some (drawn fill (Suc y * ICON_SIZE))"
proof -
  have "fold (put_pixel fill y) [0..<n] (Some (drawn fill (y * ICON_SIZE))) = Some (drawn fill (y * ICON_SIZE + n))"
    if "n \<le> ICON_SIZE" for n
    using that by (induction n) (simp_all add: put_pixel_drawn [OF assms(1) _ assms(2), simplified])
  from this [of ICON_SIZE] show ?thesis by (simp add: icon_row_def add.commute)
qed

text \<open>C31. The icon renderer never writes out of range and draws exactly the intended picture: for
  both states the loops return a buffer of \<^verbatim>\<open>32 * 32 * 4\<close> bytes (the size \<^verbatim>\<open>Icon::from_rgba\<close>
  requires) that is, row by row, the pixels of a disc of the state's colour with a border; the red
  and the green icon differ exactly inside the disc.\<close>

theorem icon_is_the_disc:
  "icon_for_state state = Some (concat (map (\<lambda>i. icon_pixel (icon_fill state) (i mod 32) (i div 32)) [0..<1024])) \<and>
   length (the (icon_for_state state)) = 32 * 32 * 4 \<and>
   (icon_pixel (icon_fill Blocked) x y \<noteq> icon_pixel (icon_fill Allowed) x y \<longleftrightarrow>
      (2 * int x - 31)\<^sup>2 + (2 * int y - 31)\<^sup>2 \<le> 19\<^sup>2)"
proof (intro conjI)
  let ?f = "icon_fill state"
  have "fold (icon_row ?f) [0..<n] (Some (drawn ?f 0)) = Some (drawn ?f (n * ICON_SIZE))" if "n \<le> ICON_SIZE" for n
    using that by (induction n) (simp_all add: icon_row_drawn [simplified])
  from this [of ICON_SIZE] have final: "icon_for_state state = Some (image_prefix ?f (ICON_SIZE * ICON_SIZE))"
    by (simp add: icon_for_state_def drawn_def image_prefix_def)
  then show "icon_for_state state = Some (concat (map (\<lambda>i. icon_pixel ?f (i mod 32) (i div 32)) [0..<1024]))"
    by (simp add: image_prefix_def nth_pixel_def [abs_def] ICON_SIZE_def)
  from final show "length (the (icon_for_state state)) = 32 * 32 * 4"
    by (simp add: length_prefix ICON_SIZE_def)
  show "icon_pixel (icon_fill Blocked) x y \<noteq> icon_pixel (icon_fill Allowed) x y \<longleftrightarrow>
      (2 * int x - 31)\<^sup>2 + (2 * int y - 31)\<^sup>2 \<le> 19\<^sup>2"
    by (simp add: icon_pixel_def BLOCKED_FILL_def ALLOWED_FILL_def Let_def)
qed

end
