(* ===== verification/Tray_Service.thy ===== *)
theory Tray_Service
  imports Shutdown_Layer Tray_Icon Retry
begin

text \<open>
  \<^verbatim>\<open>tray/mod.rs\<close>: the tray controller (icon, tooltip and menu), the tray thread that owns it, and
  the handle through which the application talks to that thread.

  The icon itself belongs to the \<^verbatim>\<open>tray_icon\<close> crate: its calls go to the operating system
  parameter, so what the user sees (\<open>icon_shown\<close>, \<open>tooltip_shown\<close>, \<open>live_icons\<close>) is read off the
  history. The two channels and the crate's global menu-event channel are explicit queues, and the
  thread's loop is cut where it blocks: \<open>tray_work\<close> runs from the top of the loop to
  \<^verbatim>\<open>recv_timeout\<close>, \<open>tray_wait\<close> is what that returns.
\<close>

subsection \<open>Types and constants\<close>

datatype tray_visibility = Visible | Hidden

datatype tray_action =
    Tray_Block | Tray_Allow | Tray_SetAutostart bool | Tray_Shutdown | Tray_Reboot | Tray_Sleep
  | Tray_Hibernate | Tray_Quit

datatype tray_command = Cmd_SetMode blocker_mode | Cmd_SetAutostart bool | Cmd_Shutdown

definition TRAY_THREAD_NAME :: string where "TRAY_THREAD_NAME = ''wardoff-tray''"
definition TRAY_RETRY_INTERVAL :: nat where "TRAY_RETRY_INTERVAL = 2000000000"
definition TRAY_UNAVAILABLE_WARNING_INTERVAL :: nat where "TRAY_UNAVAILABLE_WARNING_INTERVAL = 30000000000"
definition TRAY_ACTION_WAKE_MESSAGE :: u32 where "TRAY_ACTION_WAKE_MESSAGE = 0x8002"
definition WM_QUIT :: u32 where "WM_QUIT = 0x0012"

fun tooltip_for_mode :: "blocker_mode \<Rightarrow> string" where
  "tooltip_for_mode Block = ''Wardoff - Block mode''"
| "tooltip_for_mode Allow = ''Wardoff - Allow mode''"

fun visibility_label :: "tray_visibility \<Rightarrow> string" where
  "visibility_label Visible = ''visible''"
| "visibility_label Hidden = ''hidden''"

record tray_controller =
  tc_icon :: nat
  tc_visibility :: tray_visibility
  tc_block_item :: bool
  tc_allow_item :: bool
  tc_autostart_item :: bool
  tc_autostart_enabled :: bool

subsection \<open>\<^verbatim>\<open>TrayController\<close>\<close>

definition sync_menu_state :: "blocker_mode \<Rightarrow> tray_controller \<Rightarrow> tray_controller" where
  "sync_menu_state mode c = c\<lparr>tc_block_item := mode \<noteq> Block, tc_allow_item := mode \<noteq> Allow\<rparr>"

fun render_icon :: "os \<Rightarrow> blocker_mode \<Rightarrow> (world, string, unit) prog" where
  "render_icon os Block =
     map_error (\<lambda>e. ''Wardoff could not render the blocked tray icon: '' @ err_text e) (call_unit os (Tray (IconFromRgba True)))"
| "render_icon os Allow =
     map_error (\<lambda>e. ''Wardoff could not render the allowed tray icon: '' @ err_text e) (call_unit os (Tray (IconFromRgba False)))"

definition controller_set_mode :: "os \<Rightarrow> blocker_mode \<Rightarrow> (tray_controller \<times> world, string, unit) prog" where
  "controller_set_mode os mode = (\<lambda>(c, w).
     let c = sync_menu_state mode c in
     if tc_visibility c = Hidden then (Inr (), (c, w))
     else
       and_then (on_world (render_icon os mode)) (\<lambda>_.
       and_then (on_world (map_error (\<lambda>e. ''Wardoff could not update the tray icon: '' @ err_text e)
         (call_unit os (Tray (SetTrayIcon (tc_icon c) (mode = Block)))))) (\<lambda>_.
       on_world (map_error (\<lambda>e. ''Wardoff could not update the tray tooltip: '' @ err_text e)
         (call_unit os (Tray (SetTrayTooltip (tc_icon c) (tooltip_for_mode mode))))))) (c, w))"

definition controller_set_autostart :: "bool \<Rightarrow> tray_controller \<Rightarrow> tray_controller" where
  "controller_set_autostart enabled c = c\<lparr>tc_autostart_enabled := enabled, tc_autostart_item := enabled\<rparr>"

definition hide_tray_icon :: "os \<Rightarrow> tray_controller \<Rightarrow> (world, string, unit) prog" where
  "hide_tray_icon os c =
     and_then (map_error (\<lambda>e. ''Wardoff could not hide the tray icon: '' @ err_text e)
       (call_unit os (Tray (SetTrayVisible (tc_icon c) False)))) (\<lambda>_ w.
     (Inr (), log_event os ''tray_visibility_changed'' Src_Tray ''Wardoff hid the tray icon.'' True w))"

text \<open>Dropping a controller drops its \<^verbatim>\<open>TrayIcon\<close>.\<close>

definition controller_drop :: "os \<Rightarrow> tray_controller \<Rightarrow> world \<Rightarrow> world" where
  "controller_drop os c w = snd (call_unit os (Tray (DropTrayIcon (tc_icon c))) w)"

definition controller_finish_new :: "os \<Rightarrow> tray_controller \<Rightarrow> (world, string, tray_controller) prog" where
  "controller_finish_new os c w =
     (case controller_set_mode os Block (c, w) of
        (Inl error, (c, w)) \<Rightarrow> (Inl error, controller_drop os c w)
      | (Inr _, (c, w)) \<Rightarrow>
          (case (if tc_visibility c = Hidden then hide_tray_icon os c w else (Inr (), w)) of
             (Inl error, w) \<Rightarrow> (Inl error, controller_drop os c w)
           | (Inr _, w) \<Rightarrow>
               (Inr c, log_event os ''tray_initialized'' Src_Tray
                  (''Wardoff created a '' @ visibility_label (tc_visibility c) @ '' tray icon.'') True w)))"

definition controller_new :: "os \<Rightarrow> tray_visibility \<Rightarrow> (world, string, tray_controller) prog" where
  "controller_new os visibility =
     and_then (map_error (\<lambda>e. ''Wardoff could not assemble the tray menu: '' @ err_text e)
       (call_unit os (Tray AppendMenuItems))) (\<lambda>_.
     and_then (map_error (\<lambda>e. ''Wardoff could not build the blocked tray icon: '' @ err_text e)
       (call_unit os (Tray (IconFromRgba True)))) (\<lambda>_.
     and_then (map_error (\<lambda>e. ''Wardoff could not create the tray icon: '' @ err_text e)
       (call_num os (Tray (BuildTrayIcon (tooltip_for_mode Block) True)))) (\<lambda>icon.
     controller_finish_new os
       \<lparr>tc_icon = icon, tc_visibility = visibility, tc_block_item = True, tc_allow_item = True,
        tc_autostart_item = False, tc_autostart_enabled = False\<rparr>)))"

definition action_for_menu_id :: "tray_controller \<Rightarrow> string \<Rightarrow> tray_action option" where
  "action_for_menu_id c item =
     (if item = ''wardoff.block'' then Some Tray_Block
      else if item = ''wardoff.allow'' then Some Tray_Allow
      else if item = ''wardoff.autostart'' then Some (Tray_SetAutostart (\<not> tc_autostart_enabled c))
      else if item = ''wardoff.shutdown'' then Some Tray_Shutdown
      else if item = ''wardoff.reboot'' then Some Tray_Reboot
      else if item = ''wardoff.sleep'' then Some Tray_Sleep
      else if item = ''wardoff.hibernate'' then Some Tray_Hibernate
      else if item = ''wardoff.quit'' then Some Tray_Quit
      else None)"

text \<open>\<^verbatim>\<open>drain_actions\<close> on the events waiting in the crate's channel.\<close>

definition drain_actions :: "tray_controller \<Rightarrow> string list \<Rightarrow> tray_action list" where
  "drain_actions c events = List.map_filter (action_for_menu_id c) events"

subsection \<open>The state of the tray thread\<close>

record tray_thread_state =
  ts_visibility :: tray_visibility
  ts_mode :: blocker_mode
  ts_autostart_enabled :: bool
  ts_controller :: "tray_controller option"
  ts_creation_failure_reported :: bool
  ts_waiting_since :: "nat option"
  ts_next_retry_at :: nat
  ts_last_warning_at :: "nat option"

type_synonym tstate = "tray_thread_state \<times> world"

definition apply_current_tray_state :: "os \<Rightarrow> (tstate, string, unit) prog" where
  "apply_current_tray_state os = (\<lambda>(st, w).
     case ts_controller st of
       None \<Rightarrow> (Inr (), (st, w))
     | Some c \<Rightarrow>
         let (r, (c, w)) = controller_set_mode os (ts_mode st) (controller_set_autostart (ts_autostart_enabled st) c, w)
         in (r, (st\<lparr>ts_controller := Some c\<rparr>, w)))"

definition reset_tray_controller :: "os \<Rightarrow> tstate \<Rightarrow> tstate" where
  "reset_tray_controller os = (\<lambda>(st, w).
     let w = (case ts_controller st of Some c \<Rightarrow> controller_drop os c w | None \<Rightarrow> w);
         st = st\<lparr>ts_controller := None, ts_creation_failure_reported := False\<rparr>;
         (st, w) = (if ts_waiting_since st = None
                    then (let (now, w) = call_value os (Thread InstantNow) w in (st\<lparr>ts_waiting_since := Some now\<rparr>, w)) else (st, w));
         (st, w) = (if ts_last_warning_at st = None
                    then (let (now, w) = call_value os (Thread InstantNow) w in (st\<lparr>ts_last_warning_at := Some now\<rparr>, w)) else (st, w));
         (now, w) = call_value os (Thread InstantNow) w
     in (st\<lparr>ts_next_retry_at := now\<rparr>, w))"

definition log_tray_update_failure_and_reset :: "os \<Rightarrow> string \<Rightarrow> tstate \<Rightarrow> tstate" where
  "log_tray_update_failure_and_reset os message = (\<lambda>(st, w).
     reset_tray_controller os (st, log_event os ''tray_update_failed'' Src_Tray message False w))"

definition log_tray_creation_failure :: "os \<Rightarrow> string \<Rightarrow> tstate \<Rightarrow> tstate" where
  "log_tray_creation_failure os error = (\<lambda>(st, w).
     if ts_creation_failure_reported st then (st, w)
     else
       (st\<lparr>ts_creation_failure_reported := True\<rparr>,
        log_event os ''tray_creation_failed'' Src_Tray
          (''Wardoff could not create or refresh its tray icon: '' @ error @
           ''. It will keep retrying every 2 seconds until Explorer accepts the tray icon.'') False w))"

fun debug_mode :: "blocker_mode \<Rightarrow> string" where
  "debug_mode Block = ''Block''"
| "debug_mode Allow = ''Allow''"

text \<open>A command: whether the thread ends, and for \<^verbatim>\<open>SetMode\<close> the result sent back.\<close>

fun handle_tray_command :: "os \<Rightarrow> tray_command \<Rightarrow> tstate \<Rightarrow> bool \<times> unit res option \<times> tstate" where
  "handle_tray_command os (Cmd_SetMode mode) (st, w) =
     (let (result, s) = apply_current_tray_state os (st\<lparr>ts_mode := mode\<rparr>, w);
          s = (case result of
                 Inr _ \<Rightarrow> s
               | Inl error \<Rightarrow>
                   log_tray_update_failure_and_reset os
                     (''Wardoff could not apply the current tray state after changing blocker mode to '' @ debug_mode mode @ '': '' @
                      error @ ''. Resetting the tray controller and retrying tray creation.'') s)
      in (False, Some result, s))"
| "handle_tray_command os (Cmd_SetAutostart enabled) (st, w) =
     (let (result, s) = apply_current_tray_state os (st\<lparr>ts_autostart_enabled := enabled\<rparr>, w);
          s = (case result of
                 Inr _ \<Rightarrow> s
               | Inl error \<Rightarrow>
                   log_tray_update_failure_and_reset os
                     (''Wardoff could not apply the current tray state after changing Start with Windows to '' @
                      (if enabled then ''enabled'' else ''disabled'') @ '': '' @ error @
                      ''. Resetting the tray controller and retrying tray creation.'') s)
      in (False, None, s))"
| "handle_tray_command os Cmd_Shutdown s = (True, None, s)"

definition created_after_retry :: "os \<Rightarrow> tstate \<Rightarrow> tstate" where
  "created_after_retry os = (\<lambda>(st, w).
     case ts_waiting_since st of
       None \<Rightarrow> (st, w)
     | Some waiting_since \<Rightarrow>
         let (now, w) = call_value os (Thread InstantNow) w in
         (st\<lparr>ts_waiting_since := None\<rparr>,
          if now - waiting_since \<ge> TRAY_RETRY_INTERVAL
          then log_event os ''tray_initialized'' Src_Tray
                 ''Wardoff created its tray icon after retrying until Explorer became ready.'' True w
          else w))"

definition try_create_tray_controller :: "os \<Rightarrow> tstate \<Rightarrow> tstate" where
  "try_create_tray_controller os = (\<lambda>(st, w).
     let (now, w) = call_value os (Thread InstantNow) w;
         st = st\<lparr>ts_next_retry_at := now + TRAY_RETRY_INTERVAL\<rparr>
     in case controller_new os (ts_visibility st) w of
          (Inl error, w) \<Rightarrow> log_tray_creation_failure os error (st, w)
        | (Inr c, w) \<Rightarrow>
            (case controller_set_mode os (ts_mode st) (controller_set_autostart (ts_autostart_enabled st) c, w) of
               (Inr _, (c, w)) \<Rightarrow>
                 let (st, w) = created_after_retry os (st, w)
                 in (st\<lparr>ts_last_warning_at := None, ts_controller := Some c\<rparr>, w)
             | (Inl error, (c, w)) \<Rightarrow>
                 let (st, w) = log_tray_creation_failure os error (st, w) in (st, controller_drop os c w)))"

definition warn_if_waiting :: "os \<Rightarrow> tstate \<Rightarrow> tstate" where
  "warn_if_waiting os = (\<lambda>(st, w).
     case ts_last_warning_at st of
       None \<Rightarrow> (st, w)
     | Some last_warning_at \<Rightarrow>
         let (now, w) = call_value os (Thread InstantNow) w in
         if now - last_warning_at \<ge> TRAY_UNAVAILABLE_WARNING_INTERVAL then
           let w = log_event os ''tray_retrying'' Src_Tray
                     ''Wardoff is still waiting for Explorer to accept the tray icon and will keep retrying every 2 seconds.'' False w;
               (now, w) = call_value os (Thread InstantNow) w
           in (st\<lparr>ts_last_warning_at := Some now\<rparr>, w)
         else (st, w))"

definition start_waiting :: "os \<Rightarrow> tstate \<Rightarrow> tstate" where
  "start_waiting os = (\<lambda>(st, w).
     if ts_waiting_since st = None then
       let (since, w) = call_value os (Thread InstantNow) w;
           (warned, w) = call_value os (Thread InstantNow) w
       in (st\<lparr>ts_waiting_since := Some since, ts_last_warning_at := Some warned\<rparr>, w)
     else (st, w))"

definition attempt_tray_creation :: "os \<Rightarrow> tstate \<Rightarrow> tstate" where
  "attempt_tray_creation os s =
     (let (st, w) = start_waiting os s;
          (now, w) = call_value os (Thread InstantNow) w;
          s = (if now \<ge> ts_next_retry_at st then try_create_tray_controller os (st, w) else (st, w))
      in warn_if_waiting os s)"

subsection \<open>The listener for Explorer restarts\<close>

text \<open>The statics \<^verbatim>\<open>TASKBAR_CREATED_WINDOW_CLASS_REGISTERED\<close>, \<^verbatim>\<open>TASKBAR_CREATED_MESSAGE_ID\<close> and
  \<^verbatim>\<open>TASKBAR_CREATED_PENDING\<close>.\<close>

record tray_statics =
  tk_class_registered :: bool
  tk_message_id :: "u32 option"
  tk_pending :: bool

definition register_taskbar_created_window_class :: "os \<Rightarrow> (tray_statics \<times> world, win_error, unit) prog" where
  "register_taskbar_created_window_class os = (\<lambda>(k, w).
     if tk_class_registered k then (Inr (), (k, w))
     else
       let (atom, w) = call_value os (Tray RegisterTrayClass) w in
       if atom = 0 then (let (e, w) = call_error os (Token ErrorFromThread) w in (Inl e, (k, w)))
       else (Inr (), (k\<lparr>tk_class_registered := True\<rparr>, w)))"

definition taskbar_created_message_id :: "os \<Rightarrow> (tray_statics \<times> world, win_error, u32) prog" where
  "taskbar_created_message_id os = (\<lambda>(k, w).
     case tk_message_id k of
       Some message_id \<Rightarrow> (Inr message_id, (k, w))
     | None \<Rightarrow>
         let (n, w) = call_value os (Tray (RegisterWindowMessageW ''TaskbarCreated'')) w;
             message_id = (of_nat n :: u32)
         in if message_id = 0 then (let (e, w) = call_error os (Token ErrorFromThread) w in (Inl e, (k, w)))
            else (Inr message_id, (k\<lparr>tk_message_id := Some message_id\<rparr>, w)))"

definition create_taskbar_created_window :: "os \<Rightarrow> (tray_statics \<times> world, win_error, nat) prog" where
  "create_taskbar_created_window os =
     and_then (on_world (current_instance os)) (\<lambda>hinstance.
     and_then (register_taskbar_created_window_class os) (\<lambda>_.
     and_then (taskbar_created_message_id os) (\<lambda>_.
     on_world (call_num os (Window (CreateWindowExW TaskbarWindow hinstance))))))"

text \<open>The window procedure: what it does for a message and the result it returns.\<close>


definition taskbar_created_window_proc :: "os \<Rightarrow> nat \<Rightarrow> u32 \<Rightarrow> tray_statics \<times> world \<Rightarrow> nat \<times> (tray_statics \<times> world)" where
  "taskbar_created_window_proc os hwnd message = (\<lambda>(k, w).
     if tk_message_id k = Some message then (0, (k\<lparr>tk_pending := True\<rparr>, w))
     else if message = WM_DESTROY then (0, (k, w))
     else let (result, w) = call_value os (Window (DefWindowProcW hwnd message 0 0)) w in (result, (k, w)))"

subsection \<open>The thread\<close>

text \<open>The thread with its channels: commands waiting, menu events waiting in the crate's channel,
  actions sent to the application (and whether it still receives), results sent back.\<close>

record tray_thread =
  tt_state :: tray_thread_state
  tt_statics :: tray_statics
  tt_window :: "nat option"
  tt_commands :: "tray_command list"
  tt_command_sender :: bool
  tt_menu_events :: "string list"
  tt_actions :: "tray_action list"
  tt_action_receiver :: bool
  tt_running :: bool

type_synonym tthread = "tray_thread \<times> world"

text \<open>\<^verbatim>\<open>pump_windows_messages\<close>: the messages for the listener window (none arrive without one);
  the menu clicks the crate saw meanwhile land in its channel.\<close>

definition pump_windows_messages :: "os \<Rightarrow> u32 list \<Rightarrow> string list \<Rightarrow> tthread \<Rightarrow> tthread" where
  "pump_windows_messages os messages clicks = (\<lambda>(t, w).
     let (k, w) = (case tt_window t of
                     None \<Rightarrow> (tt_statics t, w)
                   | Some hwnd \<Rightarrow>
                       fold (\<lambda>m s. if m = WM_QUIT then s else snd (taskbar_created_window_proc os hwnd m s)) messages
                         (tt_statics t, w))
     in (t\<lparr>tt_statics := k, tt_menu_events := tt_menu_events t @ clicks\<rparr>, w))"

definition on_state :: "(tstate \<Rightarrow> tstate) \<Rightarrow> tthread \<Rightarrow> tthread" where
  "on_state f = (\<lambda>(t, w). let (st, w) = f (tt_state t, w) in (t\<lparr>tt_state := st\<rparr>, w))"

definition handle_taskbar_created :: "os \<Rightarrow> tthread \<Rightarrow> tthread" where
  "handle_taskbar_created os = (\<lambda>(t, w).
     if \<not> tk_pending (tt_statics t) then (t, w)
     else
       on_state (reset_tray_controller os)
         (t\<lparr>tt_statics := (tt_statics t)\<lparr>tk_pending := False\<rparr>\<rparr>,
          log_event os ''tray_reinitialize_requested'' Src_Tray
            ''Wardoff detected an Explorer restart and will recreate its tray icon.'' True w))"

definition wake_main_thread_for_tray_action :: "os \<Rightarrow> nat \<Rightarrow> (world, string, unit) prog" where
  "wake_main_thread_for_tray_action os main_thread =
     map_error (\<lambda>e. ''Wardoff could not wake its main thread for a tray action: '' @ err_text e)
       (call_unit os (Pipe (PostThreadMessageW main_thread TRAY_ACTION_WAKE_MESSAGE)))"

definition forward_actions :: "os \<Rightarrow> nat \<Rightarrow> tray_action list \<Rightarrow> tthread \<Rightarrow> tthread" where
  "forward_actions os main_thread actions = (\<lambda>(t, w).
     if actions = [] \<or> \<not> tt_action_receiver t then (t, w)
     else
       (t\<lparr>tt_actions := tt_actions t @ actions\<rparr>,
        case wake_main_thread_for_tray_action os main_thread w of
          (Inr _, w) \<Rightarrow> w
        | (Inl error, w) \<Rightarrow> log_event os ''tray_action_wake_failed'' Src_Tray error False w))"

definition forward_tray_actions :: "os \<Rightarrow> nat \<Rightarrow> tthread \<Rightarrow> tthread" where
  "forward_tray_actions os main_thread = (\<lambda>(t, w).
     case ts_controller (tt_state t) of
       None \<Rightarrow> (t, w)
     | Some c \<Rightarrow> forward_actions os main_thread (drain_actions c (tt_menu_events t)) (t\<lparr>tt_menu_events := []\<rparr>, w))"

text \<open>Returning from \<^verbatim>\<open>run_tray_thread\<close> drops the state (and with it the icon), then the window.\<close>

definition tray_exit :: "os \<Rightarrow> tthread \<Rightarrow> tthread" where
  "tray_exit os = (\<lambda>(t, w).
     let w = (case ts_controller (tt_state t) of Some c \<Rightarrow> controller_drop os c w | None \<Rightarrow> w);
         w = (case tt_window t of Some hwnd \<Rightarrow> destroy_window os hwnd w | None \<Rightarrow> w)
     in (t\<lparr>tt_state := (tt_state t)\<lparr>ts_controller := None\<rparr>, tt_window := None, tt_commands := [], tt_running := False\<rparr>, w))"

text \<open>\<^verbatim>\<open>while let Ok(command) = command_rx.try_recv()\<close>: the results of the \<^verbatim>\<open>SetMode\<close> commands
  handled, oldest first. The commands after a \<^verbatim>\<open>Shutdown\<close> are dropped with the channel.\<close>

fun drain_commands :: "os \<Rightarrow> tray_command list \<Rightarrow> tthread \<Rightarrow> unit res list \<times> tthread" where
  "drain_commands os [] s = ([], s)"
| "drain_commands os (command # commands) (t, w) =
     (let (stop, result, (st, w)) = handle_tray_command os command (tt_state t, w);
          s = (t\<lparr>tt_state := st, tt_commands := commands\<rparr>, w);
          sent = (case result of Some r \<Rightarrow> [r] | None \<Rightarrow> [])
      in if stop then (sent, tray_exit os s)
         else let (results, s) = drain_commands os commands s in (sent @ results, s))"

definition tray_work :: "os \<Rightarrow> nat \<Rightarrow> u32 list \<Rightarrow> string list \<Rightarrow> tthread \<Rightarrow> unit res list \<times> tthread" where
  "tray_work os main_thread messages clicks s =
     (let s = pump_windows_messages os messages clicks s;
          s = handle_taskbar_created os s;
          s = forward_tray_actions os main_thread s;
          (results, s) = drain_commands os (tt_commands (fst s)) s
      in (results,
          if tt_running (fst s) \<and> ts_controller (tt_state (fst s)) = None
          then on_state (attempt_tray_creation os) s else s))"

text \<open>What \<^verbatim>\<open>recv_timeout\<close> returns: the next command, a disconnect, or a timeout.\<close>

definition tray_wait :: "os \<Rightarrow> tthread \<Rightarrow> unit res list \<times> tthread" where
  "tray_wait os = (\<lambda>(t, w).
     case tt_commands t of
       [] \<Rightarrow> ([], if tt_command_sender t then (t, w) else tray_exit os (t, w))
     | command # commands \<Rightarrow>
         let (results, (t', w)) = drain_commands os [command] (t, w)
         in (results, (if tt_running t' then t'\<lparr>tt_commands := commands\<rparr> else t', w)))"

text \<open>\<^verbatim>\<open>spawn_tray_service\<close> and the start of \<^verbatim>\<open>run_tray_thread\<close>.\<close>

definition tray_thread_start :: "os \<Rightarrow> tray_visibility \<Rightarrow> blocker_mode \<Rightarrow> tray_statics \<times> world \<Rightarrow> tthread" where
  "tray_thread_start os visibility mode s =
     (let (window, (k, w)) = (case create_taskbar_created_window os s of
            (Inr hwnd, s) \<Rightarrow> (Some hwnd, s)
          | (Inl error, (k, w)) \<Rightarrow>
              (None, (k, log_event os ''tray_taskbar_restart_listener_unavailable'' Src_Tray
                 (''Wardoff could not create its Explorer restart listener window: '' @ err_text error) False w)));
          (now, w) = call_value os (Thread InstantNow) w
      in (\<lparr>tt_state =
             \<lparr>ts_visibility = visibility, ts_mode = mode, ts_autostart_enabled = False, ts_controller = None,
              ts_creation_failure_reported = False, ts_waiting_since = None, ts_next_retry_at = now,
              ts_last_warning_at = None\<rparr>,
           tt_statics = k, tt_window = window, tt_commands = [], tt_command_sender = True, tt_menu_events = [],
           tt_actions = [], tt_action_receiver = True, tt_running = True\<rparr>, w))"

definition spawn_tray_service :: "os \<Rightarrow> tray_visibility \<Rightarrow> blocker_mode \<Rightarrow> tray_statics \<Rightarrow> (world, string, tray_thread) prog" where
  "spawn_tray_service os visibility mode k w =
     (case call_unit os (Thread (SpawnThread TRAY_THREAD_NAME)) w of
        (Inl e, w) \<Rightarrow> (Inl (''Wardoff could not start its tray thread: '' @ err_text e), w)
      | (Inr _, w) \<Rightarrow> let (t, w) = tray_thread_start os visibility mode (k, w) in (Inr t, w))"

subsection \<open>\<^verbatim>\<open>TrayServiceHandle\<close>\<close>

text \<open>A send reaches the thread while it runs. \<open>AwaitTrayResult\<close> says whether the thread answers
  within \<^verbatim>\<open>TRAY_COMMAND_RESULT_TIMEOUT\<close>; when it does, it has handled the queue up to the
  command; when it does not, the command stays queued.\<close>

definition lost_contact :: string where "lost_contact = ''Wardoff lost contact with its tray thread.''"

definition service_send :: "tray_command \<Rightarrow> (tthread, string, unit) prog" where
  "service_send command = (\<lambda>(t, w).
     if tt_running t then (Inr (), (t\<lparr>tt_commands := tt_commands t @ [command]\<rparr>, w)) else (Inl lost_contact, (t, w)))"

definition await_result :: "os \<Rightarrow> (tthread, string, unit) prog" where
  "await_result os = (\<lambda>(t, w).
     case call_unit os (Tray AwaitTrayResult) w of
       (Inl _, w) \<Rightarrow>
         (Inl ''Wardoff timed out while waiting for the tray thread to apply the latest blocker mode.'', (t, w))
     | (Inr _, w) \<Rightarrow>
         let (results, s) = drain_commands os (tt_commands t) (t, w)
         in (if results = [] \<or> \<not> tt_running (fst s) then Inl lost_contact else last results, s))"

definition service_set_mode :: "os \<Rightarrow> blocker_mode \<Rightarrow> (tthread, string, unit) prog" where
  "service_set_mode os mode = and_then (service_send (Cmd_SetMode mode)) (\<lambda>_. await_result os)"

definition service_set_autostart :: "bool \<Rightarrow> (tthread, string, unit) prog" where
  "service_set_autostart enabled = service_send (Cmd_SetAutostart enabled)"

definition service_drain_actions :: "tray_thread \<Rightarrow> tray_action list \<times> tray_thread" where
  "service_drain_actions t = (tt_actions t, t\<lparr>tt_actions := []\<rparr>)"

text \<open>Joining lets the thread handle what is queued, up to the \<^verbatim>\<open>Shutdown\<close> just sent.\<close>

definition service_shutdown :: "os \<Rightarrow> tthread \<Rightarrow> tthread" where
  "service_shutdown os s =
     (let (t, w) = snd (service_send Cmd_Shutdown s);
          (t, w) = snd (drain_commands os (tt_commands t) (t, w))
      in (t, snd (call_unit os (Thread (JoinThread TRAY_THREAD_NAME)) w)))"

subsection \<open>What the user sees\<close>

fun live_icons :: "history \<Rightarrow> nat multiset" where
  "live_icons [] = {#}"
| "live_icons ((c, r) # h) =
     (case c of
        Tray (BuildTrayIcon _ _) \<Rightarrow> if r_err r = None then add_mset (r_num r) (live_icons h) else live_icons h
      | Tray (DropTrayIcon n) \<Rightarrow> live_icons h - {#n#}
      | _ \<Rightarrow> live_icons h)"

text \<open>The bitmap (\<open>True\<close> is the blocked one) and the tooltip last given to an icon.\<close>

fun icon_shown :: "nat \<Rightarrow> history \<Rightarrow> bool option" where
  "icon_shown n [] = None"
| "icon_shown n ((c, r) # h) =
     (case c of
        Tray (BuildTrayIcon _ b) \<Rightarrow> if r_err r = None \<and> r_num r = n then Some b else icon_shown n h
      | Tray (SetTrayIcon m b) \<Rightarrow> if r_err r = None \<and> m = n then Some b else icon_shown n h
      | _ \<Rightarrow> icon_shown n h)"

fun tooltip_shown :: "nat \<Rightarrow> history \<Rightarrow> string option" where
  "tooltip_shown n [] = None"
| "tooltip_shown n ((c, r) # h) =
     (case c of
        Tray (BuildTrayIcon tip _) \<Rightarrow> if r_err r = None \<and> r_num r = n then Some tip else tooltip_shown n h
      | Tray (SetTrayTooltip m tip) \<Rightarrow> if r_err r = None \<and> m = n then Some tip else tooltip_shown n h
      | _ \<Rightarrow> tooltip_shown n h)"


subsection \<open>The icon matches the state\<close>

definition reflects :: "tray_thread_state \<Rightarrow> tray_controller \<Rightarrow> history \<Rightarrow> bool" where
  "reflects st c h \<longleftrightarrow>
     tc_visibility c = ts_visibility st \<and> tc_block_item c = (ts_mode st = Allow) \<and> tc_allow_item c = (ts_mode st = Block) \<and>
     tc_autostart_item c = ts_autostart_enabled st \<and> tc_autostart_enabled c = ts_autostart_enabled st \<and>
     (ts_visibility st = Visible \<longrightarrow>
        icon_shown (tc_icon c) h = Some (ts_mode st = Block) \<and> tooltip_shown (tc_icon c) h = Some (tooltip_for_mode (ts_mode st)))"

definition icons_owned :: "tstate \<Rightarrow> bool" where
  "icons_owned s \<longleftrightarrow> live_icons (trace (snd s)) = (case ts_controller (fst s) of None \<Rightarrow> {#} | Some c \<Rightarrow> {#tc_icon c#}) \<and>
     (\<forall>c. ts_controller (fst s) = Some c \<longrightarrow> tc_visibility c = ts_visibility (fst s))"

definition state_inv :: "tstate \<Rightarrow> bool" where
  "state_inv s \<longleftrightarrow> icons_owned s \<and> (\<forall>c. ts_controller (fst s) = Some c \<longrightarrow> reflects (fst s) c (trace (snd s)))"

text \<open>The fields only commands change.\<close>

definition wish :: "tray_thread_state \<Rightarrow> tray_visibility \<times> blocker_mode \<times> bool" where
  "wish st = (ts_visibility st, ts_mode st, ts_autostart_enabled st)"

definition icon_call :: "sys_call \<Rightarrow> bool" where
  "icon_call c = (case c of Tray (BuildTrayIcon _ _) \<Rightarrow> True | Tray (SetTrayIcon _ _) \<Rightarrow> True
     | Tray (SetTrayTooltip _ _) \<Rightarrow> True | Tray (DropTrayIcon _) \<Rightarrow> True | _ \<Rightarrow> False)"

definition icons :: "history \<Rightarrow> nat multiset \<times> (nat \<Rightarrow> bool option) \<times> (nat \<Rightarrow> string option)" where
  "icons h = (live_icons h, \<lambda>n. icon_shown n h, \<lambda>n. tooltip_shown n h)"

lemma icons_other [simp]: "\<not> icon_call c \<Longrightarrow> icons ((c, r) # h) = icons h"
  by (auto simp: icons_def icon_call_def fun_eq_iff split: sys_call.splits tray_call.splits)

lemma icons_only: "only_calls (\<lambda>c. \<not> icon_call c) w w' \<Longrightarrow> icons (trace w') = icons (trace w)"
  by (erule only_calls_ledger) simp

lemma icons_eqD:
  assumes "icons h' = icons h"
  shows "live_icons h' = live_icons h" "icon_shown n h' = icon_shown n h" "tooltip_shown n h' = tooltip_shown n h"
  using assms by (auto simp: icons_def fun_eq_iff)

lemma icon_call_simps [simp]:
  "\<not> icon_call (Thread t)" "\<not> icon_call (Window v)" "\<not> icon_call (Token k)" "\<not> icon_call (Pipe p)"
  "\<not> icon_call (Tray AppendMenuItems)" "\<not> icon_call (Tray (IconFromRgba b))" "\<not> icon_call (Tray (SetTrayVisible n b))"
  "\<not> icon_call (Tray RegisterTrayClass)" "\<not> icon_call (Tray (RegisterWindowMessageW s))" "\<not> icon_call (Tray AwaitTrayResult)"
  by (simp_all add: icon_call_def)

lemma state_inv_icons:
  assumes "icons (trace w') = icons (trace w)" and "ts_controller st' = ts_controller st" and "wish st' = wish st"
  shows "state_inv (st', w') = state_inv (st, w)" "icons_owned (st', w') = icons_owned (st, w)"
  using icons_eqD [OF assms(1)] assms(2,3) by (auto simp: state_inv_def icons_owned_def reflects_def wish_def)

lemma set_mode_visible:
  assumes "controller_set_mode os mode (c, w) = (r, (c', w'))"
  shows "c' = sync_menu_state mode c \<and> live_icons (trace w') = live_icons (trace w) \<and>
    (is_ok r \<longrightarrow> tc_visibility c = Visible \<longrightarrow>
       icon_shown (tc_icon c) (trace w') = Some (mode = Block) \<and>
       tooltip_shown (tc_icon c) (trace w') = Some (tooltip_for_mode mode))"
proof (cases "tc_visibility c")
  case Hidden
  with assms show ?thesis by (auto simp: controller_set_mode_def sync_menu_state_def Let_def)
next
  case Visible
  let ?c = "sync_menu_state mode c"
  have fields: "tc_visibility ?c = Visible" "tc_icon ?c = tc_icon c" using Visible by (simp_all add: sync_menu_state_def)
  obtain w1 r1 where render: "render_icon os mode w = (r1, w1)" by (metis prod.exhaust)
  have w1: "w1 = snd (syscall os (Tray (IconFromRgba (mode = Block))) w)"
    using arg_cong [OF render, of snd] by (cases mode) simp_all
  have "icons (trace w1) = icons (trace w)" by (simp add: w1)
  note q = icons_eqD [OF this]
  from assms fields render q(1) show ?thesis
    by (cases r1) (auto simp: controller_set_mode_def Let_def and_then_def on_world_def map_error_def call_eqs q
        split: option.splits sum.splits)
qed

lemma drop_icons [simp]: "live_icons (trace (controller_drop os c w)) = live_icons (trace w) - {#tc_icon c#}"
  by (simp add: controller_drop_def)

lemma hide_icons: "live_icons (trace (snd (hide_tray_icon os c w))) = live_icons (trace w)"
  by (simp add: hide_tray_icon_def and_then_def map_error_def call_eqs split: option.splits)

lemma finish_new_outcome:
  assumes "controller_finish_new os c w = (r, w')"
  shows "case r of
      Inl _ \<Rightarrow> live_icons (trace w') = live_icons (trace w) - {#tc_icon c#}
    | Inr c' \<Rightarrow> live_icons (trace w') = live_icons (trace w) \<and> tc_icon c' = tc_icon c \<and> tc_visibility c' = tc_visibility c"
proof -
  obtain r1 c1 w1 where s: "controller_set_mode os Block (c, w) = (r1, (c1, w1))" by (metis prod.exhaust)
  note shown = set_mode_visible [OF s]
  obtain r2 w2 where hide: "(if tc_visibility c1 = Hidden then hide_tray_icon os c1 w1 else (Inr (), w1)) = (r2, w2)"
    by (metis prod.exhaust)
  then have live: "live_icons (trace w2) = live_icons (trace w1)"
    using hide_icons [of os c1 w1] by (auto split: if_splits)
  from assms s hide show ?thesis
    by (cases r1; cases r2) (use shown live in \<open>auto simp: controller_finish_new_def sync_menu_state_def\<close>)
qed

lemma controller_new_outcome:
  assumes "controller_new os v w = (r, w')"
  shows "case r of
      Inl _ \<Rightarrow> live_icons (trace w') = live_icons (trace w)
    | Inr c \<Rightarrow> live_icons (trace w') = add_mset (tc_icon c) (live_icons (trace w)) \<and> tc_visibility c = v"
  using assms finish_new_outcome
  by (fastforce simp: controller_new_def and_then_def map_error_def call_eqs split: option.splits sum.splits)


lemma state_inv_none:
  "ts_controller st = None \<Longrightarrow> state_inv (st, w) \<longleftrightarrow> live_icons (trace w) = {#}"
  "ts_controller st = None \<Longrightarrow> icons_owned (st, w) \<longleftrightarrow> live_icons (trace w) = {#}"
  by (simp_all add: state_inv_def icons_owned_def)

lemma state_inv_owned: "state_inv s \<Longrightarrow> icons_owned s"
  by (simp add: state_inv_def)

lemma live_only: "icons (trace w') = icons (trace w) \<Longrightarrow> live_icons (trace w') = live_icons (trace w)"
  by (rule icons_eqD)

lemma reset_outcome:
  assumes "reset_tray_controller os (st, w) = (st', w')" and "icons_owned (st, w)"
  shows "state_inv (st', w') \<and> ts_controller st' = None \<and> wish st' = wish st"
proof -
  define w1 where "w1 = (case ts_controller st of Some c \<Rightarrow> controller_drop os c w | None \<Rightarrow> w)"
  have none: "live_icons (trace w1) = {#}"
    using assms(2) by (cases "ts_controller st") (simp_all add: w1_def icons_owned_def)
  from assms(1) have "icons (trace w') = icons (trace w1) \<and> ts_controller st' = None \<and> wish st' = wish st"
    by (auto simp: reset_tray_controller_def w1_def [symmetric] Let_def call_value_eq wish_def split: if_splits)
  with none live_only [of w' w1] show ?thesis by (simp add: state_inv_none)
qed

lemma apply_outcome:
  assumes "apply_current_tray_state os (st, w) = (r, (st', w'))" and "icons_owned (st, w)"
  shows "wish st' = wish st \<and> icons_owned (st', w') \<and> (is_ok r \<longrightarrow> state_inv (st', w')) \<and>
    (ts_controller st' = None \<longleftrightarrow> ts_controller st = None)"
proof (cases "ts_controller st")
  case None
  with assms show ?thesis by (auto simp: apply_current_tray_state_def state_inv_none)
next
  case (Some c)
  let ?c = "controller_set_autostart (ts_autostart_enabled st) c"
  obtain r1 c1 w1 where s: "controller_set_mode os (ts_mode st) (?c, w) = (r1, (c1, w1))" by (metis prod.exhaust)
  from assms(1) Some s have eqs: "r = r1" "st' = st\<lparr>ts_controller := Some c1\<rparr>" "w' = w1"
    by (simp_all add: apply_current_tray_state_def)
  have "tc_icon ?c = tc_icon c" "tc_visibility ?c = tc_visibility c" by (simp_all add: controller_set_autostart_def)
  with set_mode_visible [OF s] assms(2) Some show ?thesis
    by (cases "ts_visibility st"; cases "ts_mode st")
       (auto simp: eqs wish_def icons_owned_def state_inv_def reflects_def sync_menu_state_def controller_set_autostart_def)
qed

text \<open>A command that does not stop the thread sets its own field of the wish and no other.\<close>

fun wish_after :: "tray_command \<Rightarrow> tray_visibility \<times> blocker_mode \<times> bool \<Rightarrow> tray_visibility \<times> blocker_mode \<times> bool" where
  "wish_after (Cmd_SetMode mode) (v, m, a) = (v, mode, a)"
| "wish_after (Cmd_SetAutostart enabled) (v, m, a) = (v, m, enabled)"
| "wish_after Cmd_Shutdown x = x"

lemma update_failure_outcome:
  assumes "log_tray_update_failure_and_reset os message (st, w) = (st', w')" and "icons_owned (st, w)"
  shows "state_inv (st', w') \<and> ts_controller st' = None \<and> wish st' = wish st"
  using reset_outcome [of os st "log_event os ''tray_update_failed'' Src_Tray message False w" st' w'] assms
  by (simp add: log_tray_update_failure_and_reset_def icons_owned_def)

lemma apply_or_reset:
  assumes "apply_current_tray_state os (st, w) = (r, s1)" and "icons_owned (st, w)"
    and "case r of Inr _ \<Rightarrow> s' = s1 | Inl _ \<Rightarrow> \<exists>message. log_tray_update_failure_and_reset os message s1 = s'"
  shows "state_inv s' \<and> wish (fst s') = wish st"
proof -
  obtain st1 w1 where s1: "s1 = (st1, w1)" by (cases s1)
  note a = apply_outcome [OF assms(1) [unfolded s1] assms(2)]
  show ?thesis
  proof (cases r)
    case (Inl error)
    obtain st' w' where s': "s' = (st', w')" by (cases s')
    with assms(3) Inl s1 obtain message where "log_tray_update_failure_and_reset os message (st1, w1) = (st', w')" by auto
    from update_failure_outcome [OF this] a s' show ?thesis by simp
  qed (use a assms(3) s1 in simp)
qed

lemma wish_update [simp]:
  "wish (st\<lparr>ts_mode := mode\<rparr>) = wish_after (Cmd_SetMode mode) (wish st)"
  "wish (st\<lparr>ts_autostart_enabled := enabled\<rparr>) = wish_after (Cmd_SetAutostart enabled) (wish st)"
  "icons_owned (st\<lparr>ts_mode := mode\<rparr>, w) = icons_owned (st, w)"
  "icons_owned (st\<lparr>ts_autostart_enabled := enabled\<rparr>, w) = icons_owned (st, w)"
  by (simp_all add: wish_def icons_owned_def)

lemma handle_command_outcome:
  assumes "handle_tray_command os command (st, w) = (stop, result, (st', w'))" and "state_inv (st, w)"
  shows "state_inv (st', w') \<and> wish st' = wish_after command (wish st) \<and> (stop \<longleftrightarrow> command = Cmd_Shutdown) \<and>
    (result = None \<longleftrightarrow> (\<forall>m. command \<noteq> Cmd_SetMode m))"
proof (cases command)
  case (Cmd_SetMode mode)
  obtain r s1 where a: "apply_current_tray_state os (st\<lparr>ts_mode := mode\<rparr>, w) = (r, s1)" by (metis prod.exhaust)
  have owned: "icons_owned (st\<lparr>ts_mode := mode\<rparr>, w)" using assms(2) by (simp add: state_inv_owned)
  have "case r of Inr _ \<Rightarrow> (st', w') = s1 | Inl _ \<Rightarrow> \<exists>message. log_tray_update_failure_and_reset os message s1 = (st', w')"
    using a assms(1) Cmd_SetMode by (cases r) (auto simp: Let_def)
  from apply_or_reset [OF a owned this] a assms(1) Cmd_SetMode show ?thesis by (auto simp: Let_def)
next
  case (Cmd_SetAutostart enabled)
  obtain r s1 where a: "apply_current_tray_state os (st\<lparr>ts_autostart_enabled := enabled\<rparr>, w) = (r, s1)" by (metis prod.exhaust)
  have owned: "icons_owned (st\<lparr>ts_autostart_enabled := enabled\<rparr>, w)" using assms(2) by (simp add: state_inv_owned)
  have "case r of Inr _ \<Rightarrow> (st', w') = s1 | Inl _ \<Rightarrow> \<exists>message. log_tray_update_failure_and_reset os message s1 = (st', w')"
    using a assms(1) Cmd_SetAutostart by (cases r) (auto simp: Let_def)
  from apply_or_reset [OF a owned this] a assms(1) Cmd_SetAutostart show ?thesis by (auto simp: Let_def)
next
  case Cmd_Shutdown
  with assms show ?thesis by auto
qed

lemma creation_failure_outcome:
  assumes "log_tray_creation_failure os error (st, w) = (st', w')"
  shows "trace w' = trace w \<and> ts_controller st' = ts_controller st \<and> wish st' = wish st"
  using assms by (auto simp: log_tray_creation_failure_def wish_def split: if_splits)

lemma created_outcome:
  assumes "created_after_retry os (st, w) = (st', w')"
  shows "icons (trace w') = icons (trace w) \<and> wish st' = wish st"
  using assms by (auto simp: created_after_retry_def wish_def call_value_eq Let_def split: option.splits if_splits)

lemma try_create_outcome:
  assumes "try_create_tray_controller os (st, w) = (st', w')" and "ts_controller st = None" and "live_icons (trace w) = {#}"
  shows "state_inv (st', w') \<and> wish st' = wish st"
proof -
  define w0 where "w0 = snd (syscall os (Thread InstantNow) w)"
  define st0 where "st0 = st\<lparr>ts_next_retry_at := r_num (os (trace w) (Thread InstantNow)) + TRAY_RETRY_INTERVAL\<rparr>"
  have st0: "ts_controller st0 = None" "wish st0 = wish st" "ts_visibility st0 = ts_visibility st"
    using assms(2) by (simp_all add: st0_def wish_def)
  have live0: "live_icons (trace w0) = {#}" using assms(3) by (simp add: w0_def)
  obtain r1 w1 where n: "controller_new os (ts_visibility st0) w0 = (r1, w1)" by (metis prod.exhaust)
  note new = controller_new_outcome [OF n]
  have body: "try_create_tray_controller os (st, w) =
     (case (r1, w1) of
        (Inl error, w) \<Rightarrow> log_tray_creation_failure os error (st0, w)
      | (Inr c, w) \<Rightarrow>
          (case controller_set_mode os (ts_mode st0) (controller_set_autostart (ts_autostart_enabled st0) c, w) of
             (Inr _, (c, w)) \<Rightarrow>
               let (st, w) = created_after_retry os (st0, w)
               in (st\<lparr>ts_last_warning_at := None, ts_controller := Some c\<rparr>, w)
           | (Inl error, (c, w)) \<Rightarrow>
               let (st, w) = log_tray_creation_failure os error (st0, w) in (st, controller_drop os c w)))"
    unfolding n [symmetric] try_create_tray_controller_def st0_def w0_def by (simp add: call_value_eq Let_def)
  show ?thesis
  proof (cases r1)
    case (Inl error)
    then have "log_tray_creation_failure os error (st0, w1) = (st', w')" using body assms(1) by simp
    from creation_failure_outcome [OF this] st0 new Inl live0 show ?thesis by (simp add: state_inv_none)
  next
    case (Inr c)
    let ?c = "controller_set_autostart (ts_autostart_enabled st0) c"
    obtain r2 c2 w2 where s: "controller_set_mode os (ts_mode st0) (?c, w1) = (r2, (c2, w2))" by (metis prod.exhaust)
    note shown = set_mode_visible [OF s]
    have c: "tc_icon ?c = tc_icon c" "tc_visibility ?c = tc_visibility c" by (simp_all add: controller_set_autostart_def)
    have c2: "tc_icon c2 = tc_icon c" "tc_visibility c2 = ts_visibility st0"
      using shown c new Inr by (simp_all add: sync_menu_state_def)
    have live2: "live_icons (trace w2) = {#tc_icon c#}" using shown new Inr live0 by simp
    show ?thesis
    proof (cases r2)
      case (Inl error)
      obtain st3 w3 where f: "log_tray_creation_failure os error (st0, w2) = (st3, w3)" by (metis prod.exhaust)
      have "st' = st3" "w' = controller_drop os c2 w3" using body assms(1) Inr s Inl f by simp_all
      with creation_failure_outcome [OF f] st0 live2 c2 show ?thesis by (simp add: state_inv_none)
    next
      case (Inr _)
      obtain st3 w3 where f: "created_after_retry os (st0, w2) = (st3, w3)" by (metis prod.exhaust)
      have eqs: "st' = st3\<lparr>ts_last_warning_at := None, ts_controller := Some c2\<rparr>" "w' = w3"
        using body assms(1) \<open>r1 = Inr c\<close> s Inr f by simp_all
      note g = created_outcome [OF f]
      have "wish st3 = wish st0" using g by simp
      then have same: "ts_visibility st3 = ts_visibility st0" "ts_mode st3 = ts_mode st0"
        "ts_autostart_enabled st3 = ts_autostart_enabled st0" by (simp_all add: wish_def)
      have items: "c2 = sync_menu_state (ts_mode st0) ?c" using shown by simp
      have "reflects st' c2 (trace w')"
        using shown c c2 Inr same icons_eqD [OF conjunct1 [OF g]]
        by (cases "ts_mode st0") (auto simp: eqs reflects_def items sync_menu_state_def controller_set_autostart_def)
      moreover have "wish st' = wish st" using g st0 by (simp add: eqs wish_def)
      ultimately show ?thesis
        using live2 c2 same icons_eqD [OF conjunct1 [OF g]] by (simp add: state_inv_def icons_owned_def eqs)
    qed
  qed
qed


lemma attempt_outcome:
  assumes "attempt_tray_creation os (st, w) = (st', w')" and "ts_controller st = None" and "live_icons (trace w) = {#}"
  shows "state_inv (st', w') \<and> wish st' = wish st"
proof -
  obtain st1 w1 where s1: "start_waiting os (st, w) = (st1, w1)" by (metis prod.exhaust)
  then have q1: "icons (trace w1) = icons (trace w) \<and> ts_controller st1 = None \<and> wish st1 = wish st"
    using assms(2) by (auto simp: start_waiting_def call_value_eq Let_def wish_def split: if_splits)
  define w2 where "w2 = snd (syscall os (Thread InstantNow) w1)"
  have live2: "live_icons (trace w2) = {#}" using live_only [of w1 w] q1 assms(3) by (simp add: w2_def)
  obtain st3 w3 where s3: "(if r_num (os (trace w1) (Thread InstantNow)) \<ge> ts_next_retry_at st1
      then try_create_tray_controller os (st1, w2) else (st1, w2)) = (st3, w3)" by (metis prod.exhaust)
  have q3: "state_inv (st3, w3) \<and> wish st3 = wish st"
    using try_create_outcome [of os st1 w2 st3 w3] s3 q1 live2 by (auto simp: state_inv_none split: if_splits)
  have "warn_if_waiting os (st3, w3) = (st', w')"
    using assms(1) unfolding attempt_tray_creation_def s1 prod.case Let_def call_value_eq w2_def [symmetric] s3 .
  then have "icons (trace w') = icons (trace w3) \<and> ts_controller st' = ts_controller st3 \<and> wish st' = wish st3"
    by (auto simp: warn_if_waiting_def call_value_eq Let_def wish_def split: option.splits if_splits)
  with q3 state_inv_icons(1) [of w' w3 st' st3] show ?thesis by simp
qed

definition thread_inv :: "tthread \<Rightarrow> bool" where
  "thread_inv s \<longleftrightarrow> state_inv (tt_state (fst s), snd s) \<and>
     (\<not> tt_running (fst s) \<longrightarrow> ts_controller (tt_state (fst s)) = None)"

lemma proc_icons: "icons (trace (snd (snd (taskbar_created_window_proc os hwnd m (k, w))))) = icons (trace w)"
  by (simp add: taskbar_created_window_proc_def call_value_eq)

lemma pump_outcome:
  assumes "pump_windows_messages os messages clicks (t, w) = (t', w')"
  shows "tt_state t' = tt_state t \<and> tt_running t' = tt_running t \<and> tt_commands t' = tt_commands t \<and>
    tt_actions t' = tt_actions t \<and> tt_action_receiver t' = tt_action_receiver t \<and>
    tt_menu_events t' = tt_menu_events t @ clicks \<and> icons (trace w') = icons (trace w)"
proof -
  let ?f = "\<lambda>hwnd m s. if m = WM_QUIT then s else snd (taskbar_created_window_proc os hwnd m s)"
  have frame: "icons (trace (snd (fold (?f hwnd) messages (k, w)))) = icons (trace w)" for hwnd k
  proof (induction messages arbitrary: k w)
    case (Cons m messages)
    obtain k1 w1 where s: "?f hwnd m (k, w) = (k1, w1)" by (metis prod.exhaust)
    then have "icons (trace w1) = icons (trace w)" using proc_icons [of os hwnd m k w] by (auto split: if_splits)
    with Cons.IH [of k1 w1] show ?case unfolding fold.simps comp_apply s by simp
  qed simp
  obtain k1 w1 where r: "(case tt_window t of None \<Rightarrow> (tt_statics t, w) | Some hwnd \<Rightarrow> fold (?f hwnd) messages (tt_statics t, w)) = (k1, w1)"
    by (rule prod.exhaust)
  have "icons (trace w1) = icons (trace w)"
  proof (cases "tt_window t")
    case (Some hwnd)
    with r have "w1 = snd (fold (?f hwnd) messages (tt_statics t, w))" by simp
    with frame show ?thesis by simp
  qed (use r in simp)
  moreover have "t' = t\<lparr>tt_statics := k1, tt_menu_events := tt_menu_events t @ clicks\<rparr>" "w' = w1"
    using assms unfolding pump_windows_messages_def prod.case r Let_def by simp_all
  ultimately show ?thesis by simp
qed

lemma taskbar_outcome:
  assumes "handle_taskbar_created os (t, w) = (t', w')" and "thread_inv (t, w)"
  shows "thread_inv (t', w') \<and> tt_running t' = tt_running t \<and> tt_commands t' = tt_commands t \<and>
    wish (tt_state t') = wish (tt_state t) \<and> tt_actions t' = tt_actions t \<and> tt_menu_events t' = tt_menu_events t \<and>
    tt_action_receiver t' = tt_action_receiver t"
proof (cases "tk_pending (tt_statics t)")
  case True
  let ?w = "log_event os ''tray_reinitialize_requested'' Src_Tray
            ''Wardoff detected an Explorer restart and will recreate its tray icon.'' True w"
  obtain st1 w1 where s: "reset_tray_controller os (tt_state t, ?w) = (st1, w1)" by (metis prod.exhaust)
  have "icons_owned (tt_state t, ?w)" using assms(2) by (simp add: thread_inv_def state_inv_def icons_owned_def)
  from reset_outcome [OF s this] s assms True show ?thesis
    by (auto simp: handle_taskbar_created_def on_state_def thread_inv_def)
qed (use assms in \<open>simp add: handle_taskbar_created_def\<close>)

lemma forward_outcome:
  assumes "forward_tray_actions os main (t, w) = (t', w')"
  shows "tt_state t' = tt_state t \<and> tt_running t' = tt_running t \<and> tt_commands t' = tt_commands t \<and>
    icons (trace w') = icons (trace w)"
  using assms
  by (auto simp: forward_tray_actions_def forward_actions_def wake_main_thread_for_tray_action_def map_error_def call_eqs
      split: option.splits if_splits)

lemma destroy_icons: "icons (trace (destroy_window os n w)) = icons (trace w)"
  by (simp add: destroy_window_def call_value_eq Let_def)

lemma exit_outcome:
  assumes "tray_exit os (t, w) = (t', w')" and "icons_owned (tt_state t, w)"
  shows "thread_inv (t', w') \<and> \<not> tt_running t' \<and> live_icons (trace w') = {#} \<and> tt_commands t' = [] \<and> tt_window t' = None"
proof -
  define w1 where "w1 = (case ts_controller (tt_state t) of Some c \<Rightarrow> controller_drop os c w | None \<Rightarrow> w)"
  have "live_icons (trace w1) = {#}"
    using assms(2) by (cases "ts_controller (tt_state t)") (simp_all add: w1_def icons_owned_def)
  moreover have "icons (trace w') = icons (trace w1)"
    using assms(1) destroy_icons by (auto simp: tray_exit_def w1_def [symmetric] Let_def split: option.splits)
  ultimately have live: "live_icons (trace w') = {#}" using live_only by metis
  from assms(1) have "t' = t\<lparr>tt_state := (tt_state t)\<lparr>ts_controller := None\<rparr>, tt_window := None, tt_commands := [], tt_running := False\<rparr>"
    by (simp add: tray_exit_def Let_def)
  with live show ?thesis by (simp add: thread_inv_def state_inv_none)
qed

text \<open>What the user will see once the queue is handled.\<close>

definition target :: "tray_thread \<Rightarrow> tray_visibility \<times> blocker_mode \<times> bool" where
  "target t = fold wish_after (tt_commands t) (wish (tt_state t))"

lemma drain_outcome:
  assumes "drain_commands os commands (t, w) = (results, (t', w'))" and "thread_inv (t, w)" and "tt_running t"
  shows "thread_inv (t', w') \<and> (tt_running t' \<longleftrightarrow> Cmd_Shutdown \<notin> set commands) \<and> (commands \<noteq> [] \<longrightarrow> tt_commands t' = []) \<and>
    (\<not> tt_running t' \<longrightarrow> live_icons (trace w') = {#}) \<and>
    (tt_running t' \<longrightarrow> wish (tt_state t') = fold wish_after commands (wish (tt_state t)) \<and> 
       (results = [] \<longleftrightarrow> (\<forall>m. Cmd_SetMode m \<notin> set commands)))"
  using assms
proof (induction commands arbitrary: t w results)
  case (Cons command commands)
  obtain stop result st1 w1 where h: "handle_tray_command os command (tt_state t, w) = (stop, result, (st1, w1))"
    by (metis prod.exhaust)
  have inv: "state_inv (tt_state t, w)" using Cons.prems(2) by (simp add: thread_inv_def)
  note one = handle_command_outcome [OF h inv]
  let ?t = "t\<lparr>tt_state := st1, tt_commands := commands\<rparr>"
  show ?case
  proof (cases "command = Cmd_Shutdown")
    case True
    then have stop: "stop" using one by simp
    from Cons.prems(1) h stop have "tray_exit os (?t, w1) = (t', w')" by simp
    from exit_outcome [OF this] one True show ?thesis by (simp add: state_inv_owned)
  next
    case False
    then have stop: "\<not> stop" using one by simp
    obtain results1 where d: "drain_commands os commands (?t, w1) = (results1, (t', w'))"
      and results: "results = (case result of Some r \<Rightarrow> [r] | None \<Rightarrow> []) @ results1"
      using Cons.prems(1) h stop by (auto split: prod.splits)
    have "thread_inv (?t, w1)" using one Cons.prems(3) by (simp add: thread_inv_def)
    from Cons.IH [OF d this] Cons.prems(3) one False results d show ?thesis
      by (cases result; cases commands) auto
  qed
qed simp


lemma work_outcome:
  assumes "tray_work os main messages clicks (t, w) = (results, (t', w'))" and "thread_inv (t, w)" and "tt_running t"
  shows "thread_inv (t', w') \<and> (tt_running t' \<longleftrightarrow> Cmd_Shutdown \<notin> set (tt_commands t)) \<and>
    (tt_running t' \<longrightarrow> target t' = target t) \<and> tt_commands t' = []"
proof -
  obtain t1 w1 where p: "pump_windows_messages os messages clicks (t, w) = (t1, w1)" by (metis prod.exhaust)
  obtain t2 w2 where b: "handle_taskbar_created os (t1, w1) = (t2, w2)" by (metis prod.exhaust)
  obtain t3 w3 where f: "forward_tray_actions os main (t2, w2) = (t3, w3)" by (metis prod.exhaust)
  obtain results' t4 w4 where d: "drain_commands os (tt_commands t3) (t3, w3) = (results', (t4, w4))" by (metis prod.exhaust)
  note q1 = pump_outcome [OF p]
  have inv1: "thread_inv (t1, w1)"
    using assms(2) q1 state_inv_icons(1) [of w1 w "tt_state t" "tt_state t"] by (simp add: thread_inv_def)
  note q2 = taskbar_outcome [OF b inv1]
  note q3 = forward_outcome [OF f]
  have inv3: "thread_inv (t3, w3)"
    using q2 q3 state_inv_icons(1) [of w3 w2 "tt_state t2" "tt_state t2"] by (simp add: thread_inv_def)
  have run3: "tt_running t3" using q1 q2 q3 assms(3) by simp
  note q4 = drain_outcome [OF d inv3 run3]
  have cmds: "tt_commands t3 = tt_commands t" using q1 q2 q3 by simp
  have wishes: "wish (tt_state t3) = wish (tt_state t)" using q1 q2 q3 by simp
  have empty: "tt_commands t4 = []" using q4 d by (cases "tt_commands t3") auto
  have end_eq: "(t', w') = (if tt_running t4 \<and> ts_controller (tt_state t4) = None
      then on_state (attempt_tray_creation os) (t4, w4) else (t4, w4))"
    using assms(1) unfolding tray_work_def p b f Let_def fst_conv d prod.case by simp
  show ?thesis
  proof (cases "tt_running t4 \<and> ts_controller (tt_state t4) = None")
    case True
    obtain st5 w5 where a: "attempt_tray_creation os (tt_state t4, w4) = (st5, w5)" by (metis prod.exhaust)
    have "live_icons (trace w4) = {#}" using q4 True by (simp add: thread_inv_def state_inv_none)
    from attempt_outcome [OF a _ this] True end_eq a q4 cmds wishes empty show ?thesis
      by (simp add: on_state_def thread_inv_def target_def)
  next
    case False
    with end_eq have "t' = t4" "w' = w4" by (metis prod.inject)+
    with q4 cmds wishes empty show ?thesis by (simp add: target_def)
  qed
qed

lemma tray_wait_outcome:
  assumes "tray_wait os (t, w) = (results, (t', w'))" and "thread_inv (t, w)" and "tt_running t"
  shows "thread_inv (t', w') \<and> (tt_running t' \<longrightarrow> target t' = target t)"
proof (cases "tt_commands t")
  case Nil
  then have "(t', w') = (if tt_command_sender t then (t, w) else tray_exit os (t, w))"
    using assms(1) by (simp add: tray_wait_def)
  with assms(2) exit_outcome [of os t w t' w'] show ?thesis by (auto simp: thread_inv_def state_inv_owned split: if_splits)
next
  case (Cons command commands)
  obtain results1 t1 w1 where d: "drain_commands os [command] (t, w) = (results1, (t1, w1))" by (metis prod.exhaust)
  have eqs: "t' = (if tt_running t1 then t1\<lparr>tt_commands := commands\<rparr> else t1)" "w' = w1"
    using assms(1) Cons d by (simp_all add: tray_wait_def del: drain_commands.simps)
  from drain_outcome [OF d assms(2,3)] Cons show ?thesis by (auto simp: eqs thread_inv_def target_def)
qed

text \<open>Everything that happens to the thread: a pass of its loop, the end of its wait, and what the
  application does with its handle.\<close>

datatype tray_event =
    Tray_Turn "u32 list" "string list" | Tray_Wake | Tray_Send tray_command | Tray_Take | Tray_Hang_Up

fun tray_step :: "os \<Rightarrow> nat \<Rightarrow> tray_event \<Rightarrow> tthread \<Rightarrow> tthread" where
  "tray_step os main (Tray_Turn messages clicks) s =
     (if tt_running (fst s) then snd (tray_work os main messages clicks s) else s)"
| "tray_step os main Tray_Wake s = (if tt_running (fst s) then snd (tray_wait os s) else s)"
| "tray_step os main (Tray_Send command) s = snd (service_send command s)"
| "tray_step os main Tray_Take (t, w) = (snd (service_drain_actions t), w)"
| "tray_step os main Tray_Hang_Up (t, w) = (t\<lparr>tt_command_sender := False, tt_action_receiver := False\<rparr>, w)"

fun commands_sent :: "tray_event list \<Rightarrow> tray_command list" where
  "commands_sent [] = []"
| "commands_sent (Tray_Send c # es) = c # commands_sent es"
| "commands_sent (_ # es) = commands_sent es"

lemma tray_step_outcome:
  assumes "tray_step os main e (t, w) = (t', w')" and "thread_inv (t, w)"
  shows "thread_inv (t', w') \<and> (tt_running t' \<longrightarrow> tt_running t \<and> target t' = fold wish_after (commands_sent [e]) (target t))"
proof (cases e)
  case (Tray_Turn messages clicks)
  obtain results s where r: "tray_work os main messages clicks (t, w) = (results, s)" by (metis prod.exhaust)
  with assms Tray_Turn work_outcome [of os main messages clicks t w results t' w'] show ?thesis
    by (cases "tt_running t") auto
next
  case Tray_Wake
  obtain results s where r: "tray_wait os (t, w) = (results, s)" by (metis prod.exhaust)
  with assms Tray_Wake tray_wait_outcome [of os t w results t' w'] show ?thesis by (cases "tt_running t") auto
next
  case (Tray_Send c)
  with assms show ?thesis by (auto simp: service_send_def thread_inv_def target_def split: if_splits)
qed (use assms in \<open>auto simp: service_drain_actions_def thread_inv_def target_def\<close>)

lemma tray_steps_outcome:
  assumes "fold (tray_step os main) es (t, w) = (t', w')" and "thread_inv (t, w)"
  shows "thread_inv (t', w') \<and> (tt_running t' \<longrightarrow> tt_running t \<and> target t' = fold wish_after (commands_sent es) (target t))"
  using assms
proof (induction es arbitrary: t w)
  case (Cons e es)
  obtain t1 w1 where s: "tray_step os main e (t, w) = (t1, w1)" by (metis prod.exhaust)
  note one = tray_step_outcome [OF s Cons.prems(2)]
  have "fold (tray_step os main) es (t1, w1) = (t', w')" using Cons.prems(1) s by simp
  from Cons.IH [OF this] one show ?case by (cases e) auto
qed simp

lemma thread_start_outcome:
  assumes "tray_thread_start os v mode (k, w) = (t, w')" and "live_icons (trace w) = {#}"
  shows "thread_inv (t, w') \<and> tt_running t \<and> target t = (v, mode, False) \<and> ts_controller (tt_state t) = None"
proof -
  obtain r k1 w1 where c: "create_taskbar_created_window os (k, w) = (r, (k1, w1))" by (metis prod.exhaust)
  then have "icons (trace w1) = icons (trace w)"
    by (auto simp: create_taskbar_created_window_def and_then_def on_world_def current_instance_def call_eqs
        register_taskbar_created_window_class_def taskbar_created_message_id_def Let_def
        split: option.splits if_splits sum.splits)
  then have "live_icons (trace w1) = {#}" using live_only assms(2) by metis
  with assms(1) c show ?thesis
    by (cases r) (auto simp: tray_thread_start_def call_value_eq thread_inv_def state_inv_none target_def wish_def)
qed

text \<open>C32. A tray icon never lies. Whatever the operating system answers and however the thread's
  turns, Explorer restarts, clicks and commands interleave: an icon exists exactly when the thread
  holds a controller (so no ghost icon stays behind, also after the thread ended), its menu and its
  check mark match the thread's mode and autostart state, and a visible icon shows the bitmap and
  the tooltip of that mode. While the thread runs, handling the queued commands leads to exactly
  what the application sent, in order.\<close>

theorem tray_icon_reflects_state:
  assumes "live_icons (trace w) = {#}"
    and "fold (tray_step os main) events (tray_thread_start os visibility mode (k, w)) = (t, w')"
  shows "(case ts_controller (tt_state t) of
            None \<Rightarrow> live_icons (trace w') = {#}
          | Some c \<Rightarrow> tt_running t \<and> live_icons (trace w') = {#tc_icon c#} \<and>
              tc_block_item c = (ts_mode (tt_state t) = Allow) \<and> tc_allow_item c = (ts_mode (tt_state t) = Block) \<and>
              tc_autostart_item c = ts_autostart_enabled (tt_state t) \<and>
              (visibility = Visible \<longrightarrow>
                 icon_shown (tc_icon c) (trace w') = Some (ts_mode (tt_state t) = Block) \<and>
                 tooltip_shown (tc_icon c) (trace w') = Some (tooltip_for_mode (ts_mode (tt_state t))))) \<and>
         (tt_running t \<longrightarrow> target t = fold wish_after (commands_sent events) (visibility, mode, False))"
proof -
  obtain t0 w0 where s: "tray_thread_start os visibility mode (k, w) = (t0, w0)" by (metis prod.exhaust)
  note q0 = thread_start_outcome [OF s assms(1)]
  from assms(2) s tray_steps_outcome [of os main events t0 w0 t w'] q0
  have q: "thread_inv (t, w')" "tt_running t \<longrightarrow> target t = fold wish_after (commands_sent events) (visibility, mode, False)"
    by auto
  have "fst (fold wish_after cs x) = fst x" for cs x
    by (induction cs arbitrary: x) (simp, metis fold_simps(2) prod.collapse tray_command.exhaust wish_after.simps fst_conv)
  then have "tt_running t \<longrightarrow> ts_visibility (tt_state t) = visibility"
    using q(2) by (metis fst_conv target_def wish_def)
  with q show ?thesis
    by (auto simp: thread_inv_def state_inv_def icons_owned_def reflects_def split: option.split)
qed


lemmas tray_eval = tray_thread_start_def create_taskbar_created_window_def register_taskbar_created_window_class_def
  taskbar_created_message_id_def current_instance_def tray_work_def tray_wait_def pump_windows_messages_def
  handle_taskbar_created_def forward_tray_actions_def attempt_tray_creation_def start_waiting_def
  try_create_tray_controller_def controller_new_def controller_finish_new_def controller_set_mode_def
  controller_set_autostart_def sync_menu_state_def created_after_retry_def warn_if_waiting_def on_state_def
  apply_current_tray_state_def service_send_def and_then_def on_world_def map_error_def call_eqs

theorem tray_icon_reflects_state_witness:
  "live_icons (trace initial_world) = {#} \<and>
   ts_mode (tt_state (fst (fold (tray_step quiet_os 1) [Tray_Turn [] [], Tray_Send (Cmd_SetMode Allow), Tray_Wake]
     (tray_thread_start quiet_os Visible Block (\<lparr>tk_class_registered = False, tk_message_id = None, tk_pending = False\<rparr>, initial_world))))) = Allow \<and>
   icon_shown 7 (trace (snd (fold (tray_step quiet_os 1) [Tray_Turn [] [], Tray_Send (Cmd_SetMode Allow), Tray_Wake]
     (tray_thread_start quiet_os Visible Block (\<lparr>tk_class_registered = False, tk_message_id = None, tk_pending = False\<rparr>, initial_world))))) = Some False"
proof -
  let ?s = "fold (tray_step quiet_os 1) [Tray_Turn [] [], Tray_Send (Cmd_SetMode Allow), Tray_Wake]
     (tray_thread_start quiet_os Visible Block (\<lparr>tk_class_registered = False, tk_message_id = None, tk_pending = False\<rparr>, initial_world))"
  have live: "live_icons (trace initial_world) = {#}" by (simp add: initial_world_def)
  have eqs: "map_option tc_icon (ts_controller (tt_state (fst ?s))) = Some 7" "ts_mode (tt_state (fst ?s)) = Allow"
    by (simp_all add: tray_eval quiet_os_def TRAY_RETRY_INTERVAL_def)
  obtain t w' where f: "?s = (t, w')" by (rule prod.exhaust)
  obtain c where c: "ts_controller (tt_state t) = Some c" "tc_icon c = 7" using eqs(1) unfolding f by auto
  from tray_icon_reflects_state [OF live f] have "icon_shown 7 (trace w') = Some (ts_mode (tt_state t) = Block)"
    unfolding c by (simp add: c(2))
  with eqs(2) live show ?thesis unfolding f by simp
qed


subsection \<open>Clicks\<close>

lemma drain_queues:
  assumes "drain_commands os commands (t, w) = (results, (t', w'))"
  shows "tt_menu_events t' = tt_menu_events t \<and> tt_actions t' = tt_actions t"
  using assms
proof (induction commands arbitrary: t w results t' w')
  case (Cons command commands)
  obtain stop result st1 w1 where h: "handle_tray_command os command (tt_state t, w) = (stop, result, (st1, w1))"
    by (metis prod.exhaust)
  let ?t = "t\<lparr>tt_state := st1, tt_commands := commands\<rparr>"
  have exit: "tt_menu_events (fst (tray_exit os s)) = tt_menu_events (fst s) \<and> tt_actions (fst (tray_exit os s)) = tt_actions (fst s)"
    for s by (simp add: tray_exit_def Let_def split: prod.split)
  obtain results1 t1 w2 where d: "drain_commands os commands (?t, w1) = (results1, (t1, w2))" by (metis prod.exhaust)
  from Cons.prems h d have "(t', w') = (if stop then tray_exit os (?t, w1) else (t1, w2))" by (auto split: if_splits)
  then have "t' = (if stop then fst (tray_exit os (?t, w1)) else t1)" by (metis fst_conv)
  with Cons.IH [OF d] exit [of "(?t, w1)"] show ?case by auto
qed simp

lemma taskbar_controller:
  assumes "handle_taskbar_created os (t, w) = (t', w')" and "thread_inv (t, w)"
  shows "ts_controller (tt_state t') = (if tk_pending (tt_statics t) then None else ts_controller (tt_state t))"
proof (cases "tk_pending (tt_statics t)")
  case True
  let ?w = "log_event os ''tray_reinitialize_requested'' Src_Tray
            ''Wardoff detected an Explorer restart and will recreate its tray icon.'' True w"
  obtain st1 w1 where s: "reset_tray_controller os (tt_state t, ?w) = (st1, w1)" by (metis prod.exhaust)
  have "icons_owned (tt_state t, ?w)" using assms(2) by (simp add: thread_inv_def state_inv_def icons_owned_def)
  from reset_outcome [OF s this] s assms(1) True show ?thesis by (auto simp: handle_taskbar_created_def on_state_def)
qed (use assms in \<open>simp add: handle_taskbar_created_def\<close>)

text \<open>No click is lost or doubled. In a turn of the thread, the menu events waiting in the
  crate's channel are, as long as there is an icon and Explorer did not restart, translated in
  order to the actions of Wardoff's own items and sent to the application, which is woken exactly
  once if there were any; the autostart item asks for the opposite of the current state. Without an
  icon the events stay queued.\<close>

theorem clicks_forwarded_once:
  assumes "thread_inv (t, w)" and "tt_action_receiver t"
    and "tray_work os main messages clicks (t, w) = (results, (t', w'))"
    and "pump_windows_messages os messages clicks (t, w) = (t1, w1)"
  shows "case (if tk_pending (tt_statics t1) then None else ts_controller (tt_state t)) of
           None \<Rightarrow> tt_menu_events t' = tt_menu_events t @ clicks \<and> tt_actions t' = tt_actions t
         | Some c \<Rightarrow> tt_menu_events t' = [] \<and> 
             tt_actions t' = tt_actions t @ List.map_filter (action_for_menu_id c) (tt_menu_events t @ clicks) \<and>
             action_for_menu_id c ''wardoff.autostart'' = Some (Tray_SetAutostart (\<not> ts_autostart_enabled (tt_state t))) \<and>
             map fst (trace (snd (forward_tray_actions os main (t1, w1)))) =
               replicate (if List.map_filter (action_for_menu_id c) (tt_menu_events t @ clicks) = [] then 0 else 1)
                 (Pipe (PostThreadMessageW main TRAY_ACTION_WAKE_MESSAGE)) @ map fst (trace w1)"
proof -
  note p = assms(4)
  note q1 = pump_outcome [OF p]
  have inv1: "thread_inv (t1, w1)"
    using assms(1) q1 state_inv_icons(1) [of w1 w "tt_state t" "tt_state t"] by (simp add: thread_inv_def)
  obtain t2 w2 where b: "handle_taskbar_created os (t1, w1) = (t2, w2)" by (metis prod.exhaust)
  obtain t3 w3 where f: "forward_tray_actions os main (t2, w2) = (t3, w3)" by (metis prod.exhaust)
  obtain results' t4 w4 where d: "drain_commands os (tt_commands t3) (t3, w3) = (results', (t4, w4))" by (metis prod.exhaust)
  note q2 = taskbar_outcome [OF b inv1] and q4 = drain_queues [OF d]
  have ctrl: "ts_controller (tt_state t2) = (if tk_pending (tt_statics t1) then None else ts_controller (tt_state t))"
    using taskbar_controller [OF b inv1] q1 by simp
  have "t' = fst (if tt_running t4 \<and> ts_controller (tt_state t4) = None
      then on_state (attempt_tray_creation os) (t4, w4) else (t4, w4))"
    using assms(3) unfolding tray_work_def p b f Let_def fst_conv d prod.case by (metis fst_conv snd_conv)
  then have "tt_menu_events t' = tt_menu_events t4 \<and> tt_actions t' = tt_actions t4"
    by (auto simp: on_state_def split: if_splits prod.splits)
  then have ends: "tt_menu_events t' = tt_menu_events t3" "tt_actions t' = tt_actions t3" using q4 by simp_all
  show ?thesis
  proof (cases "ts_controller (tt_state t2)")
    case None
    then have "t3 = t2" using f by (simp add: forward_tray_actions_def)
    with None ctrl ends q1 q2 show ?thesis by simp
  next
    case (Some c)
    then have quiet: "\<not> tk_pending (tt_statics t1)" and c: "ts_controller (tt_state t) = Some c"
      using ctrl by (auto split: if_splits)
    have c1: "ts_controller (tt_state t1) = Some c" "tt_action_receiver t1" using c q1 assms(2) by simp_all
    have same: "t2 = t1" using b quiet by (simp add: handle_taskbar_created_def)
    have "tc_autostart_enabled c = ts_autostart_enabled (tt_state t)"
      using assms(1) c by (simp add: thread_inv_def state_inv_def reflects_def)
    then have auto_item: "action_for_menu_id c ''wardoff.autostart'' = Some (Tray_SetAutostart (\<not> ts_autostart_enabled (tt_state t)))"
      by (simp add: action_for_menu_id_def)
    have sent: "tt_menu_events t3 = [] \<and>
        tt_actions t3 = tt_actions t1 @ List.map_filter (action_for_menu_id c) (tt_menu_events t1)"
      using f c1 by (auto simp: same forward_tray_actions_def forward_actions_def drain_actions_def split: if_splits)
    have woken: "map fst (trace (snd (forward_tray_actions os main (t1, w1)))) =
        replicate (if List.map_filter (action_for_menu_id c) (tt_menu_events t1) = [] then 0 else 1)
          (Pipe (PostThreadMessageW main TRAY_ACTION_WAKE_MESSAGE)) @ map fst (trace w1)"
      using c1 by (simp add: forward_tray_actions_def forward_actions_def drain_actions_def wake_main_thread_for_tray_action_def
          map_error_def call_unit_cases split: option.split)
    from sent woken auto_item ends q1 quiet c show ?thesis by simp
  qed
qed

theorem clicks_forwarded_once_witness:
  "let t0 = fst (tray_thread_start quiet_os Visible Block (\<lparr>tk_class_registered = False, tk_message_id = None, tk_pending = False\<rparr>, initial_world))
   in tt_menu_events (fst (snd (tray_work quiet_os 1 [] [''wardoff.quit''] (t0, initial_world)))) = [''wardoff.quit'']"
proof -
  let ?k = "\<lparr>tk_class_registered = False, tk_message_id = None, tk_pending = False\<rparr>"
  let ?t0 = "fst (tray_thread_start quiet_os Visible Block (?k, initial_world))"
  obtain t0 w0 where s: "tray_thread_start quiet_os Visible Block (?k, initial_world) = (t0, w0)" by (metis prod.exhaust)
  have live: "live_icons (trace initial_world) = {#}" by (simp add: initial_world_def)
  note start = thread_start_outcome [OF s live]
  have inv: "thread_inv (t0, initial_world)" using start live by (simp add: thread_inv_def state_inv_none)
  have fields: "tt_action_receiver t0" "tt_menu_events t0 = []"
    using s by (auto simp: tray_thread_start_def split: prod.splits sum.splits)
  obtain results t' w' where work: "tray_work quiet_os 1 [] [''wardoff.quit''] (t0, initial_world) = (results, (t', w'))"
    by (metis prod.exhaust)
  obtain t1 w1 where p: "pump_windows_messages quiet_os [] [''wardoff.quit''] (t0, initial_world) = (t1, w1)" by (metis prod.exhaust)
  from clicks_forwarded_once [OF inv fields(1) work p] start fields(2) have "tt_menu_events t' = [''wardoff.quit'']"
    by (auto split: if_splits)
  then show ?thesis unfolding s Let_def fst_conv work snd_conv .
qed


subsection \<open>Recovery after an Explorer restart\<close>

text \<open>An operating system that accepts every tray call.\<close>

definition accepts_icons :: "os \<Rightarrow> bool" where
  "accepts_icons os \<longleftrightarrow> (\<forall>h c. r_err (os h (Tray c)) = None)"

lemma accepted: "accepts_icons os \<Longrightarrow> call_unit os (Tray c) w = (Inr (), snd (syscall os (Tray c) w))"
  "accepts_icons os \<Longrightarrow> call_num os (Tray c) w = (Inr (r_num (os (trace w) (Tray c))), snd (syscall os (Tray c) w))"
  by (simp_all add: accepts_icons_def call_unit_cases call_num_cases)

lemma set_mode_accepted:
  assumes "accepts_icons os"
  shows "is_ok (fst (controller_set_mode os mode s))"
  using assms by (cases s; cases mode) (simp_all add: controller_set_mode_def Let_def and_then_def on_world_def map_error_def accepted)

lemma controller_new_accepted:
  assumes "accepts_icons os"
  shows "is_ok (fst (controller_new os v w))"
proof -
  have "is_ok (fst (controller_finish_new os c w'))" for c w'
  proof -
    obtain r c1 w1 where m: "controller_set_mode os Block (c, w') = (r, (c1, w1))" by (metis prod.exhaust)
    then have "is_ok r" using set_mode_accepted [OF assms, of Block "(c, w')"] by simp
    moreover have "is_ok (fst (hide_tray_icon os c1 w1))"
      by (simp add: hide_tray_icon_def and_then_def map_error_def accepted [OF assms])
    then obtain w2 where "hide_tray_icon os c1 w1 = (Inr (), w2)" by (metis is_ok_iff old.unit.exhaust prod.collapse)
    ultimately show ?thesis using m by (cases r) (simp_all add: controller_finish_new_def)
  qed
  then show ?thesis by (simp add: controller_new_def and_then_def map_error_def accepted [OF assms])
qed

lemma try_create_accepted:
  assumes "accepts_icons os"
  shows "ts_controller (fst (try_create_tray_controller os (st, w))) \<noteq> None"
proof -
  let ?w = "snd (syscall os (Thread InstantNow) w)"
  obtain r w1 where n: "controller_new os (ts_visibility st) ?w = (r, w1)" by (metis prod.exhaust)
  then obtain c where c: "r = Inr c" using controller_new_accepted [OF assms, of "ts_visibility st" ?w] by (auto simp: is_ok_iff)
  let ?c = "controller_set_autostart (ts_autostart_enabled st) c"
  obtain r2 c2 w2 where m: "controller_set_mode os (ts_mode st) (?c, w1) = (r2, (c2, w2))" by (metis prod.exhaust)
  then have "is_ok r2" using set_mode_accepted [OF assms, of "ts_mode st" "(?c, w1)"] by simp
  with n c m show ?thesis
    by (auto simp: try_create_tray_controller_def call_value_eq Let_def is_ok_iff split: prod.split)
qed

lemma clock_advances: "honest_clock os \<Longrightarrow> clock_low h \<le> r_num (os h (Thread InstantNow))"
  by (simp add: honest_clock_def)

lemma attempt_accepted:
  assumes "accepts_icons os" and "honest_clock os" and "ts_next_retry_at st \<le> clock_low (trace w)"
  shows "ts_controller (fst (attempt_tray_creation os (st, w))) \<noteq> None"
proof -
  obtain st1 w1 where s: "start_waiting os (st, w) = (st1, w1)" by (metis prod.exhaust)
  then have "ts_next_retry_at st1 = ts_next_retry_at st \<and> clock_low (trace w) \<le> clock_low (trace w1)"
    using order_trans [OF clock_advances [OF assms(2), of "trace w"]
        clock_advances [OF assms(2), of "(Thread InstantNow, os (trace w) (Thread InstantNow)) # trace w", simplified]]
    by (auto simp: start_waiting_def call_value_eq Let_def split: if_splits)
  then have due: "ts_next_retry_at st1 \<le> r_num (os (trace w1) (Thread InstantNow))"
    using assms(3) clock_advances [OF assms(2), of "trace w1"] by linarith
  let ?w2 = "snd (syscall os (Thread InstantNow) w1)"
  obtain st3 w3 where c: "try_create_tray_controller os (st1, ?w2) = (st3, w3)" by (metis prod.exhaust)
  have "ts_controller st3 \<noteq> None" using try_create_accepted [OF assms(1), of st1 ?w2] c by simp
  moreover have "attempt_tray_creation os (st, w) = warn_if_waiting os (st3, w3)"
    unfolding attempt_tray_creation_def s prod.case Let_def call_value_eq if_P [OF due] c ..
  moreover have "ts_controller (fst (warn_if_waiting os (st3, w3))) = ts_controller st3"
    by (auto simp: warn_if_waiting_def call_value_eq Let_def split: option.split)
  ultimately show ?thesis by simp
qed

text \<open>Commands without an icon touch neither the icon nor the clock.\<close>

lemma drain_without_icon:
  assumes "drain_commands os commands (t, w) = (results, (t', w'))" and "ts_controller (tt_state t) = None"
    and "Cmd_Shutdown \<notin> set commands"
  shows "w' = w \<and> ts_controller (tt_state t') = None \<and> ts_next_retry_at (tt_state t') = ts_next_retry_at (tt_state t) \<and>
    tt_running t' = tt_running t"
  using assms
proof (induction commands arbitrary: t w results)
  case (Cons command commands)
  obtain st1 result where h: "handle_tray_command os command (tt_state t, w) = (False, result, (st1, w))"
    and st1: "ts_controller st1 = None" "ts_next_retry_at st1 = ts_next_retry_at (tt_state t)"
    using Cons.prems(2,3) by (cases command) (auto simp: apply_current_tray_state_def)
  let ?t = "t\<lparr>tt_state := st1, tt_commands := commands\<rparr>"
  obtain results1 where d: "drain_commands os commands (?t, w) = (results1, (t', w'))"
    using Cons.prems(1) h by (auto split: prod.splits)
  from Cons.IH [OF d] st1 Cons.prems(3) show ?case by simp
qed simp

lemma pump_restart:
  assumes "tt_window t = Some hwnd" and "tk_message_id (tt_statics t) = Some m" and "m \<in> set messages" and "m \<noteq> WM_QUIT"
    and "pump_windows_messages os messages clicks (t, w) = (t', w')"
  shows "tk_pending (tt_statics t')"
proof -
  let ?f = "\<lambda>n s. if n = WM_QUIT then s else snd (taskbar_created_window_proc os hwnd n s)"
  have keep: "tk_message_id (fst (?f n (k, v))) = tk_message_id k \<and> (tk_pending k \<longrightarrow> tk_pending (fst (?f n (k, v))))" for n k v
    by (simp add: taskbar_created_window_proc_def call_value_eq)
  have hit: "tk_message_id k = Some m \<Longrightarrow> tk_pending (fst (?f m (k, v)))" for k v
    using assms(4) by (simp add: taskbar_created_window_proc_def)
  have kept: "tk_pending k \<longrightarrow> tk_pending (fst (fold ?f ns (k, v)))" for ns k v
  proof (induction ns arbitrary: k v)
    case (Cons n ns)
    obtain k1 v1 where s: "?f n (k, v) = (k1, v1)" by (rule prod.exhaust)
    from keep [of n k v] have "tk_pending k \<longrightarrow> tk_pending k1" unfolding s by simp
    with Cons.IH [of k1 v1] show ?case unfolding fold.simps comp_apply s by blast
  qed simp
  have "tk_pending (fst (fold ?f ns (k, v)))" if "m \<in> set ns" and "tk_message_id k = Some m" for ns k v
    using that
  proof (induction ns arbitrary: k v)
    case (Cons n ns)
    obtain k1 v1 where s: "?f n (k, v) = (k1, v1)" by (rule prod.exhaust)
    have k1: "tk_message_id k1 = Some m" using keep [of n k v] Cons.prems(2) unfolding s by simp
    show ?case
    proof (cases "n = m")
      case True
      from hit [OF Cons.prems(2), of v] have "tk_pending k1" using s unfolding True by simp
      with kept [of k1 ns v1] show ?thesis unfolding fold.simps comp_apply s by blast
    next
      case False
      with Cons.IH [OF _ k1, of v1] Cons.prems(1) show ?thesis unfolding fold.simps comp_apply s by simp
    qed
  qed simp
  from this [OF assms(3,2), of w] assms(5) show ?thesis
    unfolding pump_windows_messages_def assms(1) option.case prod.case Let_def by (auto split: prod.splits)
qed


text \<open>C34. The icon comes back. On a system that accepts the icon and whose clock does not run
  backwards, a turn of the thread that sees Explorer's \<^verbatim>\<open>TaskbarCreated\<close> message, or that starts
  without an icon at or after the scheduled retry, ends with exactly one icon, freshly created and
  showing the mode and autostart state the application last asked for.\<close>

theorem tray_recovers_from_explorer_restart:
  assumes "accepts_icons os" and "honest_clock os" and "thread_inv (t, w)" and "tt_running t"
    and "Cmd_Shutdown \<notin> set (tt_commands t)"
    and "(\<exists>hwnd m. tt_window t = Some hwnd \<and> tk_message_id (tt_statics t) = Some m \<and> m \<in> set messages \<and> m \<noteq> WM_QUIT) \<or>
         (ts_controller (tt_state t) = None \<and> \<not> tk_pending (tt_statics t) \<and> messages = [] \<and>
          ts_next_retry_at (tt_state t) \<le> clock_low (trace w))"
    and "tray_work os main messages clicks (t, w) = (results, (t', w'))"
  shows "\<exists>c. ts_controller (tt_state t') = Some c \<and> live_icons (trace w') = {#tc_icon c#} \<and>
    reflects (tt_state t') c (trace w') \<and> wish (tt_state t') = target t"
proof -
  obtain t1 w1 where p: "pump_windows_messages os messages clicks (t, w) = (t1, w1)" by (rule prod.exhaust)
  obtain t2 w2 where b: "handle_taskbar_created os (t1, w1) = (t2, w2)" by (rule prod.exhaust)
  obtain t3 w3 where f: "forward_tray_actions os main (t2, w2) = (t3, w3)" by (rule prod.exhaust)
  obtain results' t4 w4 where d: "drain_commands os (tt_commands t3) (t3, w3) = (results', (t4, w4))" by (metis prod.exhaust)
  note q1 = pump_outcome [OF p]
  have inv1: "thread_inv (t1, w1)"
    using assms(3) q1 state_inv_icons(1) [of w1 w "tt_state t" "tt_state t"] by (simp add: thread_inv_def)
  note q2 = taskbar_outcome [OF b inv1]
  have due: "ts_controller (tt_state t2) = None \<and> ts_next_retry_at (tt_state t2) \<le> clock_low (trace w2)"
  proof (cases "tk_pending (tt_statics t1)")
    case True
    with b have "ts_next_retry_at (tt_state t2) \<le> clock_low (trace w2)"
      by (auto simp: handle_taskbar_created_def on_state_def reset_tray_controller_def Let_def call_value_eq split: prod.splits)
    with True taskbar_controller [OF b inv1] show ?thesis by simp
  next
    case False
    with assms(6) pump_restart [OF _ _ _ _ p] have retry: "ts_controller (tt_state t) = None" "messages = []"
      "ts_next_retry_at (tt_state t) \<le> clock_low (trace w)" by blast+
    have "w1 = w" using p retry(2) by (auto simp: pump_windows_messages_def split: option.splits)
    moreover have "t2 = t1" "w2 = w1" using b False by (simp_all add: handle_taskbar_created_def)
    ultimately show ?thesis using retry q1 by simp
  qed
  have same3: "t3 = t2" "w3 = w2" using f due by (simp_all add: forward_tray_actions_def)
  have cmds: "tt_commands t3 = tt_commands t" using q1 q2 same3 by simp
  from drain_without_icon [OF d] due assms(5) cmds
  have q4: "w4 = w3" "ts_controller (tt_state t4) = None" "ts_next_retry_at (tt_state t4) = ts_next_retry_at (tt_state t3)"
    "tt_running t4" using q1 q2 assms(4) by (simp_all add: same3)
  have "snd (tray_work os main messages clicks (t, w)) = on_state (attempt_tray_creation os) (t4, w4)"
    unfolding tray_work_def p b f Let_def fst_conv d prod.case using q4 by simp
  then have "tt_state t' = fst (attempt_tray_creation os (tt_state t4, w4))"
    using assms(7) by (auto simp: on_state_def split: prod.splits)
  then have "ts_controller (tt_state t') \<noteq> None"
    using attempt_accepted [OF assms(1,2), of "tt_state t4" w4] q4 due by (simp add: same3)
  then obtain c where "ts_controller (tt_state t') = Some c" by blast
  moreover from work_outcome [OF assms(7,3,4)] assms(5) have "thread_inv (t', w')" "target t' = target t" "tt_commands t' = []"
    by auto
  ultimately show ?thesis by (auto simp: thread_inv_def state_inv_def icons_owned_def target_def)
qed

text \<open>A system that accepts everything and whose clock stands still between sleeps.\<close>

definition explorer_os :: os where
  "explorer_os h c = \<lparr>r_err = None, r_num = (if c = Thread InstantNow then clock_low h else 7), r_text = [], r_bytes = [], r_events = []\<rparr>"

theorem tray_recovers_from_explorer_restart_witness:
  "let s = tray_thread_start explorer_os Visible Allow (\<lparr>tk_class_registered = False, tk_message_id = None, tk_pending = False\<rparr>, initial_world)
   in tt_running (fst s) \<and> ts_controller (tt_state (fst s)) = None \<and>
      ts_controller (tt_state (fst (snd (tray_work explorer_os 1 [7] [] s)))) \<noteq> None"
proof -
  let ?k = "\<lparr>tk_class_registered = False, tk_message_id = None, tk_pending = False\<rparr>"
  obtain t w where s: "tray_thread_start explorer_os Visible Allow (?k, initial_world) = (t, w)" by (rule prod.exhaust)
  have live: "live_icons (trace initial_world) = {#}" by (simp add: initial_world_def)
  note start = thread_start_outcome [OF s live]
  have fields: "tt_window t = Some 7" "tk_message_id (tt_statics t) = Some 7" "tt_commands t = []"
    using arg_cong [OF s, of "\<lambda>s. tt_window (fst s)"] arg_cong [OF s, of "\<lambda>s. tk_message_id (tt_statics (fst s))"]
      arg_cong [OF s, of "\<lambda>s. tt_commands (fst s)"] by (simp_all add: tray_eval explorer_os_def)
  have os: "accepts_icons explorer_os" "honest_clock explorer_os"
    by (simp_all add: accepts_icons_def honest_clock_def explorer_os_def)
  have seen: "(\<exists>hwnd m. tt_window t = Some hwnd \<and> tk_message_id (tt_statics t) = Some m \<and> m \<in> set [7] \<and> m \<noteq> WM_QUIT) \<or>
     (ts_controller (tt_state t) = None \<and> \<not> tk_pending (tt_statics t) \<and> [7 :: u32] = [] \<and>
      ts_next_retry_at (tt_state t) \<le> clock_low (trace w))"
    using fields by (simp add: WM_QUIT_def)
  obtain results t' w' where work: "tray_work explorer_os 1 [7] [] (t, w) = (results, (t', w'))" by (metis prod.exhaust)
  have idle: "Cmd_Shutdown \<notin> set (tt_commands t)" using fields(3) by simp
  from tray_recovers_from_explorer_restart [OF os conjunct1 [OF start] conjunct1 [OF conjunct2 [OF start]] idle seen work] start
  show ?thesis unfolding s Let_def work fst_conv snd_conv by auto
qed


subsection \<open>What the application relies on\<close>

text \<open>Nothing the tray does touches Layer 1's flags, and a command changes the wish as it says,
  whatever the icon does.\<close>

lemma set_mode_control: "control (snd (snd (controller_set_mode os mode (c, w)))) = control w"
  by (cases mode) (simp_all add: controller_set_mode_def Let_def and_then_def on_world_def map_error_def call_eqs split: option.split)

lemma drop_control [simp]: "control (controller_drop os c w) = control w"
  by (simp add: controller_drop_def)

lemma reset_frame:
  assumes "reset_tray_controller os (st, w) = (st', w')"
  shows "wish st' = wish st \<and> control w' = control w"
proof -
  define w1 where "w1 = (case ts_controller st of Some c \<Rightarrow> controller_drop os c w | None \<Rightarrow> w)"
  have "control w1 = control w" by (simp add: w1_def split: option.split)
  with assms show ?thesis
    by (auto simp: reset_tray_controller_def w1_def [symmetric] Let_def call_value_eq wish_def split: if_splits)
qed

lemma apply_frame:
  assumes "apply_current_tray_state os (st, w) = (r, (st', w'))"
  shows "wish st' = wish st \<and> control w' = control w"
proof (cases "ts_controller st")
  case (Some c)
  let ?c = "controller_set_autostart (ts_autostart_enabled st) c"
  obtain r1 c1 w1 where s: "controller_set_mode os (ts_mode st) (?c, w) = (r1, (c1, w1))" by (metis prod.exhaust)
  with set_mode_control [of os "ts_mode st" ?c w] Some assms show ?thesis
    by (auto simp: apply_current_tray_state_def wish_def)
qed (use assms in \<open>simp add: apply_current_tray_state_def\<close>)

lemma apply_or_reset_frame:
  assumes "apply_current_tray_state os (st, w) = (r, s1)"
    and "case r of Inr _ \<Rightarrow> (st', w') = s1 | Inl _ \<Rightarrow> \<exists>message. log_tray_update_failure_and_reset os message s1 = (st', w')"
  shows "wish st' = wish st \<and> control w' = control w"
proof -
  obtain st1 w1 where s1: "s1 = (st1, w1)" by (rule prod.exhaust)
  note a = apply_frame [OF assms(1) [unfolded s1]]
  show ?thesis
  proof (cases r)
    case (Inl error)
    with assms(2) s1 obtain message where "reset_tray_controller os (st1, log_event os ''tray_update_failed'' Src_Tray message False w1) = (st', w')"
      by (auto simp: log_tray_update_failure_and_reset_def)
    from reset_frame [OF this] a show ?thesis by simp
  qed (use a assms(2) s1 in simp)
qed

lemma handle_command_frame:
  assumes "handle_tray_command os command (st, w) = (stop, result, (st', w'))"
  shows "wish st' = wish_after command (wish st) \<and> control w' = control w \<and> (stop \<longleftrightarrow> command = Cmd_Shutdown)"
proof (cases command)
  case (Cmd_SetMode mode)
  obtain r s1 where a: "apply_current_tray_state os (st\<lparr>ts_mode := mode\<rparr>, w) = (r, s1)" by (metis prod.exhaust)
  have "case r of Inr _ \<Rightarrow> (st', w') = s1 | Inl _ \<Rightarrow> \<exists>message. log_tray_update_failure_and_reset os message s1 = (st', w')"
    using a assms Cmd_SetMode by (cases r) (auto simp: Let_def)
  from apply_or_reset_frame [OF a this] assms Cmd_SetMode show ?thesis by (auto simp: Let_def split: prod.splits)
next
  case (Cmd_SetAutostart enabled)
  obtain r s1 where a: "apply_current_tray_state os (st\<lparr>ts_autostart_enabled := enabled\<rparr>, w) = (r, s1)" by (metis prod.exhaust)
  have "case r of Inr _ \<Rightarrow> (st', w') = s1 | Inl _ \<Rightarrow> \<exists>message. log_tray_update_failure_and_reset os message s1 = (st', w')"
    using a assms Cmd_SetAutostart by (cases r) (auto simp: Let_def)
  from apply_or_reset_frame [OF a this] assms Cmd_SetAutostart show ?thesis by (auto simp: Let_def split: prod.splits)
qed (use assms in auto)

lemma exit_frame:
  assumes "tray_exit os (t, w) = (t', w')"
  shows "\<not> tt_running t' \<and> control w' = control w"
proof -
  have "control (destroy_window os n v) = control v" for n v by (rule statics_control) simp
  with assms show ?thesis by (auto simp: tray_exit_def Let_def split: option.splits)
qed

lemma drain_frame:
  assumes "drain_commands os commands (t, w) = (results, (t', w'))"
  shows "control w' = control w \<and> (tt_running t' \<longrightarrow> tt_running t \<and> Cmd_Shutdown \<notin> set commands) \<and>
    (commands \<noteq> [] \<longrightarrow> tt_commands t' = []) \<and>
    (tt_running t' \<longrightarrow> wish (tt_state t') = fold wish_after commands (wish (tt_state t)))"
  using assms
proof (induction commands arbitrary: t w results)
  case (Cons command commands)
  obtain stop result st1 w1 where h: "handle_tray_command os command (tt_state t, w) = (stop, result, (st1, w1))"
    by (metis prod.exhaust)
  note one = handle_command_frame [OF h]
  let ?t = "t\<lparr>tt_state := st1, tt_commands := commands\<rparr>"
  show ?case
  proof (cases "command = Cmd_Shutdown")
    case True
    then have stop: "stop" using one by simp
    from Cons.prems h stop have e: "tray_exit os (?t, w1) = (t', w')" by simp
    from exit_frame [OF e] e one show ?thesis by (auto simp: tray_exit_def Let_def)
  next
    case False
    then have stop: "\<not> stop" using one by simp
    obtain results1 where d: "drain_commands os commands (?t, w1) = (results1, (t', w'))"
      using Cons.prems h stop by (auto split: prod.splits)
    from Cons.IH [OF d] one False d show ?thesis by (cases commands) auto
  qed
qed simp

text \<open>The handle's operations, as the application sees them: while the thread runs, a send moves
  the target and waiting for the answer does not.\<close>

lemma service_set_mode_frame:
  assumes "service_set_mode os mode (t, w) = (r, (t', w'))"
  shows "control w' = control w \<and> (tt_running t' \<longrightarrow> target t' = wish_after (Cmd_SetMode mode) (target t)) \<and> (tt_running t' \<longrightarrow> tt_running t)"
proof (cases "tt_running t")
  case True
  let ?t = "t\<lparr>tt_commands := tt_commands t @ [Cmd_SetMode mode]\<rparr>"
  have aim: "target ?t = wish_after (Cmd_SetMode mode) (target t)" by (simp add: target_def)
  have a: "await_result os (?t, w) = (r, (t', w'))"
    using assms True by (simp add: service_set_mode_def service_send_def and_then_def)
  let ?w = "snd (syscall os (Tray AwaitTrayResult) w)"
  obtain results t1 w1 where d: "drain_commands os (tt_commands ?t) (?t, ?w) = (results, (t1, w1))" by (metis prod.exhaust)
  note q = drain_frame [OF d]
  show ?thesis
  proof (cases "r_err (os (trace w) (Tray AwaitTrayResult))")
    case None
    with a d have "t' = t1" "w' = w1" by (auto simp: await_result_def call_unit_cases simp del: drain_commands.simps)
    with q aim show ?thesis by (auto simp: target_def)
  next
    case (Some e)
    with a have "t' = ?t" "w' = ?w" by (auto simp: await_result_def call_unit_cases)
    with aim True show ?thesis by (simp add: target_def)
  qed
qed (use assms in \<open>simp add: service_set_mode_def service_send_def and_then_def\<close>)

lemma service_set_autostart_frame:
  assumes "service_set_autostart enabled (t, w) = (r, (t', w'))"
  shows "w' = w \<and> (tt_running t' \<longrightarrow> tt_running t \<and> target t' = wish_after (Cmd_SetAutostart enabled) (target t))"
  using assms by (auto simp: service_set_autostart_def service_send_def target_def split: if_splits)


text \<open>The thread's own turns leave Layer 1's flags and the target alone.\<close>

lemma finish_new_control: "control (snd (controller_finish_new os c w)) = control w"
proof -
  obtain r c1 w1 where s: "controller_set_mode os Block (c, w) = (r, (c1, w1))" by (metis prod.exhaust)
  have "control w1 = control w" using set_mode_control [of os Block c w] s by simp
  moreover have "control (snd (hide_tray_icon os c1 w1)) = control w1"
    by (simp add: hide_tray_icon_def and_then_def map_error_def call_eqs split: option.split)
  ultimately show ?thesis
    using s by (cases r) (auto simp: controller_finish_new_def case_prod_beta split: sum.split)
qed

lemma controller_new_control: "control (snd (controller_new os v w)) = control w"
  by (simp add: controller_new_def and_then_def map_error_def call_eqs finish_new_control split: option.split)

lemma try_create_frame:
  assumes "try_create_tray_controller os (st, w) = (st', w')"
  shows "wish st' = wish st \<and> control w' = control w"
proof -
  let ?w = "snd (syscall os (Thread InstantNow) w)"
  obtain r w1 where n: "controller_new os (ts_visibility st) ?w = (r, w1)" by (metis prod.exhaust)
  have c: "control w1 = control w" using controller_new_control [of os "ts_visibility st" ?w] n by simp
  show ?thesis
  proof (cases r)
    case (Inl error)
    with assms n c show ?thesis
      by (auto simp: try_create_tray_controller_def log_tray_creation_failure_def call_value_eq wish_def Let_def split: if_splits)
  next
    case (Inr k)
    obtain r2 k2 w2 where m: "controller_set_mode os (ts_mode st) (controller_set_autostart (ts_autostart_enabled st) k, w1) = (r2, (k2, w2))"
      by (metis prod.exhaust)
    have "control w2 = control w" using set_mode_control [of os "ts_mode st" "controller_set_autostart (ts_autostart_enabled st) k" w1] m c by simp
    with assms n m Inr show ?thesis
      by (cases r2) (auto simp: try_create_tray_controller_def log_tray_creation_failure_def created_after_retry_def
          call_value_eq wish_def Let_def split: if_splits option.splits)
  qed
qed

lemma attempt_frame:
  assumes "attempt_tray_creation os (st, w) = (st', w')"
  shows "wish st' = wish st \<and> control w' = control w"
proof -
  obtain st1 w1 where s: "start_waiting os (st, w) = (st1, w1)" by (metis prod.exhaust)
  have 1: "wish st1 = wish st" "control w1 = control w"
    using s by (auto simp: start_waiting_def call_value_eq wish_def split: if_splits)
  let ?w = "snd (syscall os (Thread InstantNow) w1)"
  obtain st2 w2 where c: "try_create_tray_controller os (st1, ?w) = (st2, w2)" by (metis prod.exhaust)
  note 2 = try_create_frame [OF c]
  have 3: "wish (fst (warn_if_waiting os (x, v))) = wish x \<and> control (snd (warn_if_waiting os (x, v))) = control v" for x v
    by (simp add: warn_if_waiting_def call_value_eq wish_def Let_def split: option.split)
  show ?thesis
    using assms s c 1 2 3 [of st2 w2] 3 [of st1 ?w]
    by (auto simp: attempt_tray_creation_def call_value_eq split: if_splits)
qed

lemma pump_frame:
  assumes "pump_windows_messages os messages clicks (t, w) = (t', w')"
  shows "control w' = control w \<and> tt_state t' = tt_state t \<and> tt_commands t' = tt_commands t \<and> tt_running t' = tt_running t"
proof -
  have one: "control (snd (snd (taskbar_created_window_proc os hwnd m s))) = control (snd s)" for hwnd m s
    by (cases s) (simp add: taskbar_created_window_proc_def call_value_eq)
  have "control (snd (fold (\<lambda>m s. if m = WM_QUIT then s else snd (taskbar_created_window_proc os hwnd m s)) ms s)) = control (snd s)" for hwnd ms s
    by (induction ms arbitrary: s) (simp_all add: one)
  with assms show ?thesis
    by (auto simp: pump_windows_messages_def case_prod_beta Let_def split: option.splits)
qed

lemma taskbar_frame:
  assumes "handle_taskbar_created os (t, w) = (t', w')"
  shows "control w' = control w \<and> wish (tt_state t') = wish (tt_state t) \<and> tt_commands t' = tt_commands t \<and> tt_running t' = tt_running t"
proof (cases "tk_pending (tt_statics t)")
  case True
  define v where "v = log_event os ''tray_reinitialize_requested'' Src_Tray
    ''Wardoff detected an Explorer restart and will recreate its tray icon.'' True w"
  obtain st w1 where r: "reset_tray_controller os (tt_state t, v) = (st, w1)" by (metis prod.exhaust)
  from reset_frame [OF r] assms True r show ?thesis
    by (auto simp: handle_taskbar_created_def on_state_def v_def)
qed (use assms in \<open>simp add: handle_taskbar_created_def\<close>)

lemma forward_frame:
  assumes "forward_tray_actions os main (t, w) = (t', w')"
  shows "control w' = control w \<and> tt_state t' = tt_state t \<and> tt_commands t' = tt_commands t \<and> tt_running t' = tt_running t"
  using assms
  by (auto simp: forward_tray_actions_def forward_actions_def wake_main_thread_for_tray_action_def map_error_def call_eqs
      split: option.splits if_splits)

lemma work_frame:
  assumes "tray_work os main messages clicks (t, w) = (results, (t', w'))"
  shows "control w' = control w \<and> (tt_running t' \<longrightarrow> tt_running t \<and> target t' = target t)"
proof -
  obtain t1 w1 where p: "pump_windows_messages os messages clicks (t, w) = (t1, w1)" by (metis prod.exhaust)
  obtain t2 w2 where b: "handle_taskbar_created os (t1, w1) = (t2, w2)" by (metis prod.exhaust)
  obtain t3 w3 where f: "forward_tray_actions os main (t2, w2) = (t3, w3)" by (metis prod.exhaust)
  obtain results' t4 w4 where d: "drain_commands os (tt_commands t3) (t3, w3) = (results', (t4, w4))" by (metis prod.exhaust)
  obtain st5 w5 where a: "attempt_tray_creation os (tt_state t4, w4) = (st5, w5)" by (metis prod.exhaust)
  note q = pump_frame [OF p] taskbar_frame [OF b] forward_frame [OF f]
  note q4 = drain_frame [OF d]
  have nil: "tt_commands t4 = []" using q4 d by (cases "tt_commands t3") auto
  have end_eq: "(t', w') = (if tt_running t4 \<and> ts_controller (tt_state t4) = None
      then on_state (attempt_tray_creation os) (t4, w4) else (t4, w4))"
    using assms(1) unfolding tray_work_def p b f Let_def fst_conv d prod.case by simp
  from end_eq a q q4 nil attempt_frame [OF a] show ?thesis
    by (auto simp: on_state_def target_def split: if_splits)
qed

lemma wait_frame:
  assumes "tray_wait os (t, w) = (results, (t', w'))"
  shows "control w' = control w \<and> (tt_running t' \<longrightarrow> tt_running t \<and> target t' = target t)"
proof (cases "tt_commands t")
  case Nil
  then have "(t', w') = (if tt_command_sender t then (t, w) else tray_exit os (t, w))"
    using assms by (simp add: tray_wait_def)
  with exit_frame [of os t w t' w'] show ?thesis by (auto split: if_splits)
next
  case (Cons command commands)
  obtain results1 t1 w1 where d: "drain_commands os [command] (t, w) = (results1, (t1, w1))" by (metis prod.exhaust)
  have eqs: "t' = (if tt_running t1 then t1\<lparr>tt_commands := commands\<rparr> else t1)" "w' = w1"
    using assms Cons d by (simp_all add: tray_wait_def del: drain_commands.simps)
  from drain_frame [OF d] Cons show ?thesis by (auto simp: eqs target_def)
qed

end
