(* ===== verification/Autostart_Task.thy ===== *)
theory Autostart_Task
  imports Update_Layer Ipc_Server
begin

text \<open>
  \<^verbatim>\<open>autostart.rs\<close>: the "Start with Windows" scheduled task. Reading its state and creating,
  updating or removing it run on a short-lived worker thread inside a COM apartment; changing it
  needs elevation, and creating it also that the user's non-elevated token can modify neither the
  executable nor its directory.

  \<open>GetPart\<close> and \<open>SetPart\<close> stand for the getters and setters of the Task Scheduler interfaces; the
  domain part of \<^verbatim>\<open>LookupAccountSidW\<close> comes in \<open>r_bytes\<close>. Paths are the text of a canonical
  Windows path.
\<close>

unbundle bit_operations_syntax

definition AUTOSTART_TASK_NAME :: string where "AUTOSTART_TASK_NAME = ''Wardoff''"
definition AUTOSTART_TASK_PATH :: string where "AUTOSTART_TASK_PATH = backslash @ ''Wardoff''"
definition AUTOSTART_THREAD_NAME :: string where "AUTOSTART_THREAD_NAME = ''wardoff-autostart''"
definition ROOT_TASK_FOLDER_PATH :: string where "ROOT_TASK_FOLDER_PATH = backslash"
definition EXECUTION_TIME_LIMIT :: string where "EXECUTION_TIME_LIMIT = ''PT0S''"
definition ERROR_NONE_MAPPED :: u32 where "ERROR_NONE_MAPPED = 1332"

abbreviation before_updating :: string where
  "before_updating \<equiv> '' before updating '' @ AUTOSTART_TASK_PATH @ '': ''"

subsection \<open>The task scheduler worker\<close>

definition task_service_error :: "os \<Rightarrow> win_error \<Rightarrow> string" where
  "task_service_error os error =
     (if is_task_access_denied_error os error
      then ''Wardoff could not access scheduled task '' @ AUTOSTART_TASK_PATH @ ''. Run Wardoff elevated and try again: '' @ err_text error
      else ''Wardoff could not update scheduled task '' @ AUTOSTART_TASK_PATH @ '': '' @ err_text error)"

text \<open>The thread's body: the apartment guard is dropped whatever the operation returns.\<close>

definition in_com_apartment :: "os \<Rightarrow> (world, string, 'a) prog \<Rightarrow> (world, string, 'a) prog" where
  "in_com_apartment os operation w =
     (case initialize_com_apartment os w of
        (Inl error, w) \<Rightarrow>
          (Inl (''Wardoff could not initialize the COM apartment for Task Scheduler access: '' @ err_text error), w)
      | (Inr _, w) \<Rightarrow> let (r, w) = operation w in (r, co_uninitialize os w))"

definition run_task_scheduler :: "os \<Rightarrow> (world, string, 'a) prog \<Rightarrow> (world, string, 'a) prog" where
  "run_task_scheduler os operation w =
     (case call_unit os (Thread (SpawnThread AUTOSTART_THREAD_NAME)) w of
        (Inl error, w) \<Rightarrow> (Inl (''Wardoff could not start its autostart worker thread: '' @ err_text error), w)
      | (Inr _, w) \<Rightarrow>
          let (r, w) = in_com_apartment os operation w in
          (case call_unit os (Thread (JoinThread AUTOSTART_THREAD_NAME)) w of
             (Inl _, w) \<Rightarrow> (Inl ''Wardoff autostart worker thread panicked.'', w)
           | (Inr _, w) \<Rightarrow> (r, w)))"

definition open_root_folder :: "os \<Rightarrow> nat \<Rightarrow> (world, win_error, nat) prog" where
  "open_root_folder os task_service = call_num os (Task (GetFolder task_service ROOT_TASK_FOLDER_PATH))"

definition lookup_autostart_task :: "os \<Rightarrow> nat \<Rightarrow> (world, win_error, nat option) prog" where
  "lookup_autostart_task os task_service =
     and_then (open_root_folder os task_service) (\<lambda>root_folder w.
       case call_num os (Task (GetTask root_folder AUTOSTART_TASK_NAME)) w of
         (Inr task, w) \<Rightarrow> (Inr (Some task), w)
       | (Inl error, w) \<Rightarrow> (if is_not_found_error os error then Inr None else Inl error, w))"

definition autostart_task_enabled :: "os \<Rightarrow> nat \<Rightarrow> (world, win_error, bool) prog" where
  "autostart_task_enabled os task_service =
     and_then (lookup_autostart_task os task_service) (\<lambda>found.
       case found of
         Some task \<Rightarrow> and_then (call_num os (Task (TaskGetEnabled task))) (\<lambda>flag. ok (flag \<noteq> 0))
       | None \<Rightarrow> ok False)"

definition is_enabled :: "os \<Rightarrow> (world, string, bool) prog" where
  "is_enabled os =
     run_task_scheduler os
       (and_then (map_error (task_service_error os) (connect_task_service os)) (\<lambda>task_service.
        map_error (task_service_error os) (autostart_task_enabled os task_service)))"

subsection \<open>The task definition\<close>

text \<open>A sequence of property assignments on one interface.\<close>

fun set_parts :: "os \<Rightarrow> nat \<Rightarrow> (string \<times> string) list \<Rightarrow> (world, win_error, unit) prog" where
  "set_parts os obj [] = ok ()"
| "set_parts os obj ((name, v) # parts) =
     and_then (call_unit os (Autostart (SetPart obj name v))) (\<lambda>_. set_parts os obj parts)"

definition get_part :: "os \<Rightarrow> nat \<Rightarrow> string \<Rightarrow> (world, win_error, nat) prog" where
  "get_part os obj name = call_num os (Autostart (GetPart obj name))"

definition configure_registration_info :: "os \<Rightarrow> nat \<Rightarrow> (world, win_error, unit) prog" where
  "configure_registration_info os task_definition =
     and_then (get_part os task_definition ''RegistrationInfo'') (\<lambda>registration_info.
       set_parts os registration_info
         [(''Author'', ''Wardoff''),
          (''Description'', ''Starts Wardoff at current-user logon with the highest available privileges.'')])"

definition configure_principal :: "os \<Rightarrow> nat \<Rightarrow> string \<Rightarrow> (world, win_error, unit) prog" where
  "configure_principal os task_definition user_id =
     and_then (get_part os task_definition ''Principal'') (\<lambda>principal.
       set_parts os principal
         [(''Id'', ''WardoffPrincipal''), (''UserId'', user_id), (''LogonType'', ''TASK_LOGON_INTERACTIVE_TOKEN''),
          (''RunLevel'', ''TASK_RUNLEVEL_HIGHEST'')])"

definition configure_settings :: "os \<Rightarrow> nat \<Rightarrow> (world, win_error, unit) prog" where
  "configure_settings os task_definition =
     and_then (get_part os task_definition ''Settings'') (\<lambda>settings.
       set_parts os settings
         [(''AllowDemandStart'', ''VARIANT_TRUE''), (''MultipleInstances'', ''TASK_INSTANCES_IGNORE_NEW''),
          (''StopIfGoingOnBatteries'', ''VARIANT_FALSE''), (''DisallowStartIfOnBatteries'', ''VARIANT_FALSE''),
          (''StartWhenAvailable'', ''VARIANT_TRUE''), (''ExecutionTimeLimit'', EXECUTION_TIME_LIMIT),
          (''Enabled'', ''VARIANT_TRUE'')])"

definition trigger_start_boundary :: "os \<Rightarrow> world \<Rightarrow> string \<times> world" where
  "trigger_start_boundary os w = (let (r, w) = syscall os (Autostart LocalNow) w in (r_text r, w))"

definition configure_logon_trigger :: "os \<Rightarrow> nat \<Rightarrow> string \<Rightarrow> (world, win_error, unit) prog" where
  "configure_logon_trigger os task_definition user_id =
     and_then (get_part os task_definition ''Triggers'') (\<lambda>triggers.
     and_then (get_part os triggers ''Create(TASK_TRIGGER_LOGON)'') (\<lambda>trigger.
     and_then (get_part os trigger ''cast ILogonTrigger'') (\<lambda>logon_trigger w.
       let (start_boundary, w) = trigger_start_boundary os w in
       and_then
         (set_parts os trigger
           [(''Id'', ''WardoffLogonTrigger''), (''Enabled'', ''VARIANT_TRUE''), (''StartBoundary'', start_boundary)])
         (\<lambda>_. set_parts os logon_trigger [(''UserId'', user_id)]) w)))"

definition configure_exec_action :: "os \<Rightarrow> nat \<Rightarrow> string \<Rightarrow> string \<Rightarrow> (world, win_error, unit) prog" where
  "configure_exec_action os task_definition executable_path working_directory =
     and_then (get_part os task_definition ''Actions'') (\<lambda>actions.
     and_then (get_part os actions ''Create(TASK_ACTION_EXEC)'') (\<lambda>action.
     and_then (get_part os action ''cast IExecAction'') (\<lambda>exec_action.
       set_parts os exec_action
         ((''Path'', executable_path) #
          (if working_directory = [] then [] else [(''WorkingDirectory'', working_directory)])))))"

definition register_autostart_task :: "os \<Rightarrow> nat \<Rightarrow> string \<Rightarrow> string \<Rightarrow> string \<Rightarrow> (world, win_error, unit) prog" where
  "register_autostart_task os task_service user_id executable_path working_directory =
     and_then (call_num os (Autostart (NewTask task_service))) (\<lambda>task_definition.
     and_then (configure_registration_info os task_definition) (\<lambda>_.
     and_then (configure_principal os task_definition user_id) (\<lambda>_.
     and_then (configure_settings os task_definition) (\<lambda>_.
     and_then (configure_logon_trigger os task_definition user_id) (\<lambda>_.
     and_then (configure_exec_action os task_definition executable_path working_directory) (\<lambda>_.
     and_then (open_root_folder os task_service) (\<lambda>root_folder.
       call_unit os (Autostart (RegisterTaskDefinition root_folder AUTOSTART_TASK_NAME task_definition)))))))))"

definition remove_autostart_task :: "os \<Rightarrow> nat \<Rightarrow> (world, win_error, bool) prog" where
  "remove_autostart_task os task_service =
     and_then (open_root_folder os task_service) (\<lambda>root_folder w.
       case call_unit os (Autostart (DeleteTask root_folder AUTOSTART_TASK_NAME)) w of
         (Inr _, w) \<Rightarrow> (Inr True, w)
       | (Inl error, w) \<Rightarrow> (if is_not_found_error os error then Inr False else Inl error, w))"

subsection \<open>The executable and the user\<close>

definition current_executable_path :: "os \<Rightarrow> (world, string, string) prog" where
  "current_executable_path os =
     and_then (map_error (\<lambda>e. ''Wardoff could not resolve its current executable path'' @ before_updating @ err_text e)
       (call_text os (Shell CurrentExe))) (\<lambda>path.
     map_error (\<lambda>e. ''Wardoff could not canonicalize its current executable path'' @ before_updating @ err_text e)
       (call_text os (Shell (CanonicalizePath path))))"

text \<open>\<^verbatim>\<open>Path::parent\<close> of a canonical path: the text before the last separator, which stays when it
  follows a drive's colon; a path that ends in a separator is a root and has no parent.\<close>

definition current_working_directory :: "string \<Rightarrow> string" where
  "current_working_directory executable_path =
     (let dir = rev (dropWhile (\<lambda>c. c \<noteq> CHR 0x5C) (rev executable_path)) in
      if dir = [] \<or> dir = executable_path then []
      else if last (butlast dir) = CHR '':'' then dir else butlast dir)"

definition sid_to_string :: "os \<Rightarrow> nat \<Rightarrow> string \<Rightarrow> (world, string, string) prog" where
  "sid_to_string os sid context w =
     (let (r, w) = syscall os (Security (ConvertSidToStringSidW sid)) w in
      case r_err r of
        Some e \<Rightarrow> (Inl (''Wardoff could not '' @ context @ before_updating @ err_text e), w)
      | None \<Rightarrow>
          let text = (if r_num r = 0 then [] else r_text r);
              w = (if r_num r = 0 then w else snd (call_unit os (Security (LocalFree (r_num r))) w))
          in (if text = []
              then Inl (''Wardoff could not '' @ context @ before_updating @ ''the process token resolved to an empty SID string.'')
              else Inr text, w))"

definition account_name :: "os \<Rightarrow> nat \<Rightarrow> string \<Rightarrow> (world, string, string) prog" where
  "account_name os sid context w =
     (let (r, w) = syscall os (Security (LookupAccountSidW sid)) w in
      case r_err r of
        Some e \<Rightarrow> (Inl (''Wardoff could not '' @ context @ before_updating @ err_text e), w)
      | None \<Rightarrow>
          let username = r_text r; domain = map (\<lambda>b. char_of (unat b)) (r_bytes r) in
          if trim_end username = [] then sid_to_string os sid context w
          else (Inr (if trim_end domain = [] then username else domain @ backslash @ username), w))"

definition lookup_account_name_for_sid :: "os \<Rightarrow> nat \<Rightarrow> string \<Rightarrow> (world, string, string) prog" where
  "lookup_account_name_for_sid os sid context w =
     (case call_unit os (Security (LookupAccountSidSize sid)) w of
        (Inl error, w) \<Rightarrow>
          if err_code error = hresult_from_win32 os ERROR_NONE_MAPPED then sid_to_string os sid context w
          else if err_code error \<noteq> hresult_from_win32 os ERROR_INSUFFICIENT_BUFFER
          then (Inl (''Wardoff could not '' @ context @ before_updating @ err_text error), w)
          else account_name os sid context w
      | (Inr _, w) \<Rightarrow> account_name os sid context w)"

definition current_token_user_id :: "os \<Rightarrow> nat \<Rightarrow> string \<Rightarrow> (world, string, string) prog" where
  "current_token_user_id os token context w =
     (let (required_length, w) = call_value os (Security (GetTokenUserSize token)) w in
      if required_length = 0 then
        (let (e, w) = call_error os (Token ErrorFromThread) w
         in (Inl (''Wardoff could not '' @ context @ before_updating @ err_text e), w))
      else
        and_then (map_error (\<lambda>e. ''Wardoff could not '' @ context @ before_updating @ err_text e)
            (call_num os (Security (GetTokenUser token required_length)))) (\<lambda>sid.
          if sid = 0
          then fail (''Wardoff could not '' @ context @ before_updating @ ''the process token had no user SID.'')
          else lookup_account_name_for_sid os sid context) w)"

definition open_current_process_token :: "os \<Rightarrow> token_access \<Rightarrow> string \<Rightarrow> (world, string, nat) prog" where
  "open_current_process_token os access context =
     map_error (\<lambda>e. ''Wardoff could not '' @ context @ before_updating @ err_text e)
       (call_num os (Token (OpenProcessToken access)))"

definition current_user_id :: "os \<Rightarrow> (world, string, string) prog" where
  "current_user_id os =
     and_then (open_current_process_token os TOKEN_QUERY ''resolve the current task principal'') (\<lambda>token.
       with_guard os token (current_token_user_id os token ''resolve the current task principal''))"

subsection \<open>Elevation and the install location\<close>

definition ensure_process_is_elevated :: "os \<Rightarrow> (world, string, unit) prog" where
  "ensure_process_is_elevated os w =
     (case is_process_elevated os w of
        (Inr True, w) \<Rightarrow> (Inr (), w)
      | (Inr False, w) \<Rightarrow>
          (Inl (''Wardoff requires administrator rights to change scheduled task '' @ AUTOSTART_TASK_PATH @
                ''. Run Wardoff elevated and try again.''), w)
      | (Inl error, w) \<Rightarrow>
          (Inl (''Wardoff could not determine whether administrator rights are available before changing scheduled task '' @
                AUTOSTART_TASK_PATH @ '': '' @ err_text error), w))"

definition duplicate_access_check_token :: "os \<Rightarrow> nat \<Rightarrow> (world, string, nat) prog" where
  "duplicate_access_check_token os source_token =
     map_error (\<lambda>e. ''Wardoff could not duplicate the current interactive user's non-elevated token'' @ before_updating @ err_text e)
       (call_num os (Security (DuplicateTokenEx source_token)))"

definition current_interactive_medium_token_for_access_check :: "os \<Rightarrow> (world, string, nat) prog" where
  "current_interactive_medium_token_for_access_check os =
     and_then (open_current_process_token os TOKEN_QUERY_DUPLICATE_IMPERSONATE ''validate the autostart install location'')
       (\<lambda>process_token.
          with_guard os process_token
            (and_then (map_error (\<lambda>e. ''Wardoff could not resolve the current interactive user's non-elevated token'' @
                 before_updating @ err_text e)
               (call_num os (Security (GetTokenLinkedToken process_token)))) (\<lambda>linked_token.
             with_guard os linked_token (duplicate_access_check_token os linked_token))))"

definition load_path_security_descriptor :: "os \<Rightarrow> string \<Rightarrow> string \<Rightarrow> (world, string, nat) prog" where
  "load_path_security_descriptor os path context =
     map_error (\<lambda>e. ''Wardoff could not '' @ context @ '' for '' @ path @ '' before updating '' @ AUTOSTART_TASK_PATH @
         '' (Win32 error '' @ show_nat (unat (err_code e)) @ '').'')
       (call_num os (Security (GetNamedSecurityInfoW path)))"

definition token_has_path_access :: "os \<Rightarrow> nat \<Rightarrow> string \<Rightarrow> u32 \<Rightarrow> string \<Rightarrow> (world, string, bool) prog" where
  "token_has_path_access os token path desired_access context =
     and_then (load_path_security_descriptor os path context) (\<lambda>sd w.
       let (r, w) = map_error (\<lambda>e. ''Wardoff could not '' @ context @ '' for '' @ path @ before_updating @ err_text e)
                      (and_then (call_num os (Security (AccessCheck sd token desired_access))) (\<lambda>status. ok (status \<noteq> 0))) w
       in (r, if sd = 0 then w else snd (call_unit os (Security (LocalFree sd)) w)))"

definition FILE_WRITE_DATA :: u32 where "FILE_WRITE_DATA = 0x2"
definition FILE_APPEND_DATA :: u32 where "FILE_APPEND_DATA = 0x4"
definition FILE_WRITE_EA :: u32 where "FILE_WRITE_EA = 0x10"
definition FILE_DELETE_CHILD :: u32 where "FILE_DELETE_CHILD = 0x40"
definition FILE_WRITE_ATTRIBUTES :: u32 where "FILE_WRITE_ATTRIBUTES = 0x100"
definition FILE_ADD_FILE :: u32 where "FILE_ADD_FILE = 0x2"
definition FILE_ADD_SUBDIRECTORY :: u32 where "FILE_ADD_SUBDIRECTORY = 0x4"

definition executable_write_access :: u32 where
  "executable_write_access = FILE_WRITE_DATA OR FILE_APPEND_DATA OR FILE_WRITE_ATTRIBUTES OR FILE_WRITE_EA"

definition directory_write_access :: u32 where
  "directory_write_access =
     FILE_ADD_FILE OR FILE_ADD_SUBDIRECTORY OR FILE_WRITE_ATTRIBUTES OR FILE_WRITE_EA OR FILE_DELETE_CHILD"

definition token_can_write_executable_path :: "os \<Rightarrow> nat \<Rightarrow> string \<Rightarrow> (world, string, bool) prog" where
  "token_can_write_executable_path os token path =
     token_has_path_access os token path executable_write_access ''validate the current executable path''"

definition token_can_write_directory :: "os \<Rightarrow> nat \<Rightarrow> string \<Rightarrow> (world, string, bool) prog" where
  "token_can_write_directory os token path =
     token_has_path_access os token path directory_write_access ''validate the current executable directory''"

definition ensure_trusted_autostart_location :: "os \<Rightarrow> string \<Rightarrow> string \<Rightarrow> (world, string, unit) prog" where
  "ensure_trusted_autostart_location os executable_path working_directory =
     and_then (current_interactive_medium_token_for_access_check os) (\<lambda>medium_token.
       with_guard os medium_token
         (and_then (token_can_write_executable_path os medium_token executable_path) (\<lambda>executable_writable.
          and_then (token_can_write_directory os medium_token working_directory) (\<lambda>working_directory_writable.
            if executable_writable \<or> working_directory_writable
            then fail (''Wardoff refused to register scheduled task '' @ AUTOSTART_TASK_PATH @ '' from untrusted location '' @
              executable_path @ '' because the current interactive user's non-elevated token can modify the executable path '' @
              ''or its parent directory. Move Wardoff to an admin-writable install location and try again.'')
            else ok ()))))"

subsection \<open>\<^verbatim>\<open>set_enabled\<close>\<close>

text \<open>The two closures handed to the worker thread.\<close>

definition register_operation :: "os \<Rightarrow> string \<Rightarrow> string \<Rightarrow> string \<Rightarrow> (world, string, string) prog" where
  "register_operation os user_id executable_path working_directory =
     and_then (map_error (task_service_error os) (connect_task_service os)) (\<lambda>task_service.
     and_then (map_error (task_service_error os)
       (register_autostart_task os task_service user_id executable_path working_directory)) (\<lambda>_.
     ok (''Wardoff registered or updated scheduled task '' @ AUTOSTART_TASK_PATH @ '' to launch '' @ executable_path @
         '' at current-user logon with the highest available privileges.'')))"

definition remove_operation :: "os \<Rightarrow> (world, string, string) prog" where
  "remove_operation os =
     and_then (map_error (task_service_error os) (connect_task_service os)) (\<lambda>task_service.
     and_then (map_error (task_service_error os) (remove_autostart_task os task_service)) (\<lambda>removed.
     ok (if removed then ''Wardoff removed scheduled task '' @ AUTOSTART_TASK_PATH @ ''.''
         else ''Wardoff found no scheduled task '' @ AUTOSTART_TASK_PATH @ ''; Start with Windows was already off.'')))"

definition update_task :: "os \<Rightarrow> bool \<Rightarrow> string \<Rightarrow> string \<Rightarrow> string \<Rightarrow> (world, string, string) prog" where
  "update_task os enabled user_id executable_path working_directory =
     (if enabled then run_task_scheduler os (register_operation os user_id executable_path working_directory)
      else run_task_scheduler os (remove_operation os))"

definition set_enabled_elevated :: "os \<Rightarrow> bool \<Rightarrow> (world, string, unit) prog" where
  "set_enabled_elevated os enabled =
     and_then (current_executable_path os) (\<lambda>executable_path.
     and_then (current_user_id os) (\<lambda>user_id.
     and_then (if enabled then ensure_trusted_autostart_location os executable_path (current_working_directory executable_path)
               else ok ()) (\<lambda>_ w.
       case update_task os enabled user_id executable_path (current_working_directory executable_path) w of
         (Inr message, w) \<Rightarrow> (Inr (), log_event os ''autostart_task_updated'' Src_Autostart message True w)
       | (Inl message, w) \<Rightarrow> (Inl message, log_event os ''autostart_task_updated'' Src_Autostart message False w))))"

definition set_enabled :: "os \<Rightarrow> bool \<Rightarrow> (world, string, unit) prog" where
  "set_enabled os enabled w =
     (case ensure_process_is_elevated os w of
        (Inl message, w) \<Rightarrow> (Inl message, log_event os ''autostart_task_updated'' Src_Autostart message False w)
      | (Inr _, w) \<Rightarrow> set_enabled_elevated os enabled w)"


subsection \<open>What was called since\<close>

text \<open>\<open>added w w' cr\<close>: the call and reply \<open>cr\<close> was made between \<open>w\<close> and \<open>w'\<close>.\<close>

definition added :: "world \<Rightarrow> world \<Rightarrow> sys_call \<times> reply \<Rightarrow> bool" where
  "added w w' cr \<longleftrightarrow> (\<exists>new. trace w' = new @ trace w \<and> cr \<in> set new)"

abbreviation extends :: "world \<Rightarrow> world \<Rightarrow> bool" where
  "extends \<equiv> only_calls (\<lambda>_. True)"

lemma only_extends: "only_calls P w w' \<Longrightarrow> extends w w'"
  by (erule only_calls_mono) simp

lemma added_later: "added w w' cr \<Longrightarrow> extends w' w'' \<Longrightarrow> added w w'' cr"
  by (fastforce simp: added_def only_calls_def)

lemma added_earlier: "extends w0 w \<Longrightarrow> added w w' cr \<Longrightarrow> added w0 w' cr"
  by (fastforce simp: added_def only_calls_def)

lemma added_syscall: "trace w' = (c, r) # trace w \<Longrightarrow> added w w' (c, r)"
  by (simp add: added_def)

lemma only_calls_added: "only_calls P w w' \<Longrightarrow> added w w' (c, r) \<Longrightarrow> P c"
  by (fastforce simp: added_def only_calls_def)

lemma added_split:
  assumes "added w w'' (c, r)" and "only_calls P w w'" and "extends w' w''" and "\<not> P c"
  shows "added w' w'' (c, r)"
  using assms by (fastforce simp: added_def only_calls_def)

subsection \<open>Which calls each part makes\<close>

definition task_change :: "sys_call \<Rightarrow> bool" where
  "task_change c = (case c of Autostart (RegisterTaskDefinition _ _ _) \<Rightarrow> True | Autostart (DeleteTask _ _) \<Rightarrow> True | _ \<Rightarrow> False)"

definition task_setting :: "sys_call \<Rightarrow> bool" where
  "task_setting c = (case c of Autostart _ \<Rightarrow> True | _ \<Rightarrow> False)"

abbreviation prelim :: "sys_call \<Rightarrow> bool" where "prelim c \<equiv> \<not> task_setting c"

lemma task_setting_simps [simp]:
  "\<not> task_setting (Token a)" "\<not> task_setting (Security b)" "\<not> task_setting (Shell s)" "\<not> task_setting (Task t)"
  "\<not> task_setting (Thread v)" "task_setting (Autostart a')"
  by (simp_all add: task_setting_def)

lemma task_change_setting: "task_change c \<Longrightarrow> task_setting c"
  by (auto simp: task_change_def task_setting_def split: sys_call.splits)

lemma only_calls_and_then:
  assumes "only_calls P w (snd (m w))" and "\<And>x w1. m w = (Inr x, w1) \<Longrightarrow> only_calls P w1 (snd (f x w1))"
  shows "only_calls P w (snd (and_then m f w))"
proof (cases "m w")
  case (Pair r w1)
  then show ?thesis using assms only_calls_trans [of P w w1] by (cases r) (auto simp: and_then_def)
qed

lemma only_calls_guard:
  assumes "\<And>w. only_calls P w (snd (m w))" and "\<And>n. P (Token (CloseHandle n))"
  shows "only_calls P w (snd (with_guard os h m w))"
proof -
  obtain r w1 where m: "m w = (r, w1)" by (rule prod.exhaust)
  with assms(1) [of w] have "only_calls P w w1" by simp
  with m assms(2) show ?thesis by (simp add: with_guard_def handle_guard_drop_def)
qed

lemma elevated_calls: "only_calls prelim w (snd (is_process_elevated os w))"
  unfolding is_process_elevated_def
  by (intro only_calls_and_then only_calls_guard) simp_all

lemma ensure_elevated_calls: "only_calls prelim w (snd (ensure_process_is_elevated os w))"
proof -
  obtain r w1 where m: "is_process_elevated os w = (r, w1)" by (rule prod.exhaust)
  with elevated_calls [of w os] have "only_calls prelim w w1" by simp
  with m show ?thesis by (simp add: ensure_process_is_elevated_def split: sum.split bool.split)
qed

lemma executable_path_calls: "only_calls prelim w (snd (current_executable_path os w))"
  unfolding current_executable_path_def
  by (intro only_calls_and_then) (simp_all add: call_text_cases)

lemma sid_calls: "only_calls prelim w (snd (sid_to_string os sid context w))"
  by (simp add: sid_to_string_def Let_def case_prod_beta split: option.split)

lemma account_calls: "only_calls prelim w (snd (account_name os sid context w))"
proof -
  let ?w = "snd (syscall os (Security (LookupAccountSidW sid)) w)"
  have "only_calls prelim w (snd (sid_to_string os sid context ?w))"
    by (rule only_calls_trans [OF _ sid_calls]) simp
  then show ?thesis by (simp add: account_name_def Let_def case_prod_beta split: option.split)
qed

lemma lookup_account_calls: "only_calls prelim w (snd (lookup_account_name_for_sid os sid context w))"
proof -
  let ?w = "snd (syscall os (Security (LookupAccountSidSize sid)) w)"
  have "only_calls prelim w (snd (sid_to_string os sid context ?w))" "only_calls prelim w (snd (account_name os sid context ?w))"
    by (rule only_calls_trans [OF _ sid_calls] only_calls_trans [OF _ account_calls]; simp)+
  then show ?thesis by (simp add: lookup_account_name_for_sid_def call_unit_cases split: option.split)
qed

lemma user_id_calls: "only_calls prelim w (snd (current_user_id os w))"
proof -
  have "only_calls prelim w (snd (current_token_user_id os token ctx w))" for token ctx w
  proof -
    let ?w = "snd (syscall os (Security (GetTokenUserSize token)) w)"
    have "only_calls prelim ?w (snd (and_then (map_error (\<lambda>e. ''Wardoff could not '' @ ctx @ before_updating @ err_text e)
            (call_num os (Security (GetTokenUser token n)))) (\<lambda>sid.
          if sid = 0
          then fail (''Wardoff could not '' @ ctx @ before_updating @ ''the process token had no user SID.'')
          else lookup_account_name_for_sid os sid ctx) ?w))" for n
      by (intro only_calls_and_then) (simp_all add: lookup_account_calls)
    from only_calls_trans [OF _ this] show ?thesis
      by (simp add: current_token_user_id_def call_value_eq Let_def call_error_eq)
  qed
  then show ?thesis unfolding current_user_id_def open_current_process_token_def
    by (intro only_calls_and_then only_calls_guard) simp_all
qed

lemma path_access_calls: "only_calls prelim w (snd (token_has_path_access os token path access context w))"
  unfolding token_has_path_access_def load_path_security_descriptor_def
  by (intro only_calls_and_then) (simp_all add: and_then_def map_error_def call_num_cases Let_def split: option.splits)

lemma medium_token_calls: "only_calls prelim w (snd (current_interactive_medium_token_for_access_check os w))"
  unfolding current_interactive_medium_token_for_access_check_def open_current_process_token_def duplicate_access_check_token_def
  by (intro only_calls_and_then only_calls_guard) simp_all

lemma trusted_calls: "only_calls prelim w (snd (ensure_trusted_autostart_location os exe dir w))"
  unfolding ensure_trusted_autostart_location_def token_can_write_executable_path_def token_can_write_directory_def
  by (intro only_calls_and_then only_calls_guard) (simp_all add: medium_token_calls path_access_calls)


subsection \<open>What a successful check proves\<close>

lemma added_self: "added w (snd (syscall os c w)) (c, os (trace w) c)"
  by (simp add: added_def)

lemma guard_inr:
  assumes "with_guard os h m w = (r, w')"
  obtains w1 where "m w = (r, w1)" and "extends w1 w'"
proof -
  obtain r1 w1 where m: "m w = (r1, w1)" by (rule prod.exhaust)
  with assms have "r1 = r" "w' = handle_guard_drop os h w1" by (simp_all add: with_guard_def)
  with m that [of w1] show ?thesis by (simp add: handle_guard_drop_def)
qed

lemma elevated_means_reported:
  assumes "ensure_process_is_elevated os w = (Inr (), w')"
  shows "\<exists>token e. added w w' (Token (GetTokenElevation token), e) \<and> r_err e = None \<and> r_num e \<noteq> 0"
proof -
  from assms have "is_process_elevated os w = (Inr True, w')"
    by (auto simp: ensure_process_is_elevated_def split: prod.splits sum.splits bool.splits)
  then obtain token w1 where t: "call_num os (Token (OpenProcessToken TOKEN_QUERY)) w = (Inr token, w1)"
    and g: "with_guard os token (and_then (call_num os (Token (GetTokenElevation token))) (\<lambda>elevated. ok (elevated \<noteq> 0))) w1 = (Inr True, w')"
    unfolding is_process_elevated_def and_then_Inr_iff by blast
  from g obtain w2 where m: "and_then (call_num os (Token (GetTokenElevation token))) (\<lambda>elevated. ok (elevated \<noteq> 0)) w1 = (Inr True, w2)"
    and later: "extends w2 w'" by (rule guard_inr)
  let ?e = "os (trace w1) (Token (GetTokenElevation token))"
  from m have e: "r_err ?e = None" "r_num ?e \<noteq> 0" "w2 = snd (syscall os (Token (GetTokenElevation token)) w1)"
    by (auto simp: and_then_def call_num_cases split: option.splits)
  have "extends w w1" using t by (auto simp: call_num_cases)
  with added_later [OF added_earlier [OF _ added_self [of w1 os "Token (GetTokenElevation token)"]] later [unfolded e(3)]] e
  show ?thesis by blast
qed

text \<open>The access check of a path answered "no".\<close>

definition write_refused :: "world \<Rightarrow> world \<Rightarrow> nat \<Rightarrow> string \<Rightarrow> u32 \<Rightarrow> bool" where
  "write_refused w w' token path access \<longleftrightarrow> (\<exists>info verdict.
     added w w' (Security (GetNamedSecurityInfoW path), info) \<and> r_err info = None \<and>
     added w w' (Security (AccessCheck (r_num info) token access), verdict) \<and> r_err verdict = None \<and> r_num verdict = 0)"

lemma write_refused_later: "write_refused w w' t p a \<Longrightarrow> extends w' w'' \<Longrightarrow> write_refused w w'' t p a"
  using added_later by (fastforce simp: write_refused_def)

lemma write_refused_earlier: "extends w0 w \<Longrightarrow> write_refused w w' t p a \<Longrightarrow> write_refused w0 w' t p a"
  using added_earlier by (fastforce simp: write_refused_def)

lemma access_denied_means_refused:
  assumes "token_has_path_access os token path access ctx w = (Inr False, w')"
  shows "write_refused w w' token path access"
proof -
  let ?info = "os (trace w) (Security (GetNamedSecurityInfoW path))"
  let ?w1 = "snd (syscall os (Security (GetNamedSecurityInfoW path)) w)"
  let ?check = "Security (AccessCheck (r_num ?info) token access)"
  let ?w2 = "snd (syscall os ?check ?w1)"
  from assms have facts: "r_err ?info = None" "r_err (os (trace ?w1) ?check) = None" "r_num (os (trace ?w1) ?check) = 0"
    and w': "w' = (if r_num ?info = 0 then ?w2 else snd (syscall os (Security (LocalFree (r_num ?info))) ?w2))"
    by (auto simp: token_has_path_access_def load_path_security_descriptor_def and_then_def map_error_def call_eqs Let_def
        split: option.splits if_splits)
  have late: "extends ?w1 w'" "extends ?w2 w'" "extends w ?w1" by (simp_all add: w')
  from added_later [OF added_self late(1)] added_later [OF added_earlier [OF late(3) added_self] late(2)] facts
  show ?thesis unfolding write_refused_def by blast
qed

text \<open>A trusted location: a duplicate of the linked (non-elevated) token can write neither path.\<close>

definition location_trusted :: "world \<Rightarrow> world \<Rightarrow> string \<Rightarrow> string \<Rightarrow> bool" where
  "location_trusted w w' exe dir \<longleftrightarrow> (\<exists>process linked duplicate.
     added w w' (Security (GetTokenLinkedToken process), linked) \<and> r_err linked = None \<and>
     added w w' (Security (DuplicateTokenEx (r_num linked)), duplicate) \<and> r_err duplicate = None \<and>
     write_refused w w' (r_num duplicate) exe executable_write_access \<and>
     write_refused w w' (r_num duplicate) dir directory_write_access)"

lemma medium_token_is_linked:
  assumes "current_interactive_medium_token_for_access_check os w = (Inr token, w')"
  shows "\<exists>process linked duplicate. added w w' (Security (GetTokenLinkedToken process), linked) \<and> r_err linked = None \<and>
     added w w' (Security (DuplicateTokenEx (r_num linked)), duplicate) \<and> r_err duplicate = None \<and> token = r_num duplicate"
proof -
  let ?msg = "\<lambda>e. ''Wardoff could not resolve the current interactive user's non-elevated token'' @ before_updating @ err_text e"
  obtain process w1 where p: "open_current_process_token os TOKEN_QUERY_DUPLICATE_IMPERSONATE ''validate the autostart install location'' w = (Inr process, w1)"
    and g: "with_guard os process
            (and_then (map_error ?msg (call_num os (Security (GetTokenLinkedToken process)))) (\<lambda>linked_token.
             with_guard os linked_token (duplicate_access_check_token os linked_token))) w1 = (Inr token, w')"
    using assms unfolding current_interactive_medium_token_for_access_check_def and_then_Inr_iff by blast
  obtain w5 where body: "and_then (map_error ?msg (call_num os (Security (GetTokenLinkedToken process)))) (\<lambda>linked_token.
             with_guard os linked_token (duplicate_access_check_token os linked_token)) w1 = (Inr token, w5)"
    and end5: "extends w5 w'" using g by (rule guard_inr)
  let ?linked = "os (trace w1) (Security (GetTokenLinkedToken process))"
  let ?w2 = "snd (syscall os (Security (GetTokenLinkedToken process)) w1)"
  from body have linked: "r_err ?linked = None"
    and inner: "with_guard os (r_num ?linked) (duplicate_access_check_token os (r_num ?linked)) ?w2 = (Inr token, w5)"
    by (auto simp: and_then_def map_error_def call_num_cases split: option.splits)
  from inner obtain w3 where d: "duplicate_access_check_token os (r_num ?linked) ?w2 = (Inr token, w3)" and end3: "extends w3 w5"
    by (rule guard_inr)
  let ?dup = "os (trace ?w2) (Security (DuplicateTokenEx (r_num ?linked)))"
  from d have dup: "r_err ?dup = None" "token = r_num ?dup" "w3 = snd (syscall os (Security (DuplicateTokenEx (r_num ?linked))) ?w2)"
    by (auto simp: duplicate_access_check_token_def call_num_cases split: option.splits)
  have first: "extends w w1" using p by (auto simp: open_current_process_token_def call_num_cases)
  have last3: "extends w3 w'" by (rule only_calls_trans [OF end3 end5])
  have "extends ?w2 w3" by (simp add: dup(3))
  from only_calls_trans [OF this last3] have last2: "extends ?w2 w'" .
  have first2: "extends w ?w2" using first by simp
  have "added w w' (Security (GetTokenLinkedToken process), ?linked)"
    by (rule added_later [OF added_earlier [OF first added_self] last2])
  moreover have "added w w' (Security (DuplicateTokenEx (r_num ?linked)), ?dup)"
    using added_later [OF added_earlier [OF first2 added_self [of ?w2 os "Security (DuplicateTokenEx (r_num ?linked))"]]] last3
    by (simp add: dup(3))
  ultimately show ?thesis using linked dup by blast
qed

lemma trusted_means_refused:
  assumes "ensure_trusted_autostart_location os exe dir w = (Inr (), w')"
  shows "location_trusted w w' exe dir"
proof -
  obtain token w1 where t: "current_interactive_medium_token_for_access_check os w = (Inr token, w1)"
    and g: "with_guard os token
         (and_then (token_can_write_executable_path os token exe) (\<lambda>a.
          and_then (token_can_write_directory os token dir) (\<lambda>b.
            if a \<or> b
            then fail (''Wardoff refused to register scheduled task '' @ AUTOSTART_TASK_PATH @ '' from untrusted location '' @
              exe @ '' because the current interactive user's non-elevated token can modify the executable path '' @
              ''or its parent directory. Move Wardoff to an admin-writable install location and try again.'')
            else ok ()))) w1 = (Inr (), w')"
    using assms unfolding ensure_trusted_autostart_location_def and_then_Inr_iff by blast
  obtain w4 where body: "and_then (token_can_write_executable_path os token exe) (\<lambda>a.
          and_then (token_can_write_directory os token dir) (\<lambda>b.
            if a \<or> b
            then fail (''Wardoff refused to register scheduled task '' @ AUTOSTART_TASK_PATH @ '' from untrusted location '' @
              exe @ '' because the current interactive user's non-elevated token can modify the executable path '' @
              ''or its parent directory. Move Wardoff to an admin-writable install location and try again.'')
            else ok ())) w1 = (Inr (), w4)" and end4: "extends w4 w'" using g by (rule guard_inr)
  from body obtain a b w2 where x: "token_can_write_executable_path os token exe w1 = (Inr a, w2)"
    and d: "token_can_write_directory os token dir w2 = (Inr b, w4)" and ab: "\<not> a" "\<not> b"
    unfolding and_then_Inr_iff by (auto split: if_splits)
  have r1: "write_refused w1 w2 token exe executable_write_access"
    using access_denied_means_refused x ab by (simp add: token_can_write_executable_path_def)
  have r2: "write_refused w2 w4 token dir directory_write_access"
    using access_denied_means_refused d ab by (simp add: token_can_write_directory_def)
  have e1: "extends w w1" using medium_token_calls [of w os] t only_extends by (metis snd_conv)
  have e2: "extends w1 w2" using path_access_calls [of w1 os] x only_extends
    by (metis snd_conv token_can_write_executable_path_def)
  have e3: "extends w2 w4" using path_access_calls [of w2 os] d only_extends
    by (metis snd_conv token_can_write_directory_def)
  have "write_refused w w' token exe executable_write_access"
    by (rule write_refused_earlier [OF e1 write_refused_later [OF r1 only_calls_trans [OF e3 end4]]])
  moreover have "write_refused w w' token dir directory_write_access"
    by (rule write_refused_earlier [OF only_calls_trans [OF e1 e2] write_refused_later [OF r2 end4]])
  moreover have rest: "extends w1 w'" by (rule only_calls_trans [OF e2 only_calls_trans [OF e3 end4]])
  from medium_token_is_linked [OF t] added_later [OF _ rest]
  have "\<exists>process linked duplicate. added w w' (Security (GetTokenLinkedToken process), linked) \<and> r_err linked = None \<and>
     added w w' (Security (DuplicateTokenEx (r_num linked)), duplicate) \<and> r_err duplicate = None \<and> token = r_num duplicate"
    by blast
  ultimately show ?thesis unfolding location_trusted_def by blast
qed


subsection \<open>What a change of the task does\<close>

definition change_call :: "bool \<Rightarrow> string \<Rightarrow> sys_call \<Rightarrow> bool" where
  "change_call enabled exe c = (case c of
     Autostart (DeleteTask _ name) \<Rightarrow> \<not> enabled \<and> name = AUTOSTART_TASK_NAME
   | Autostart (RegisterTaskDefinition _ name _) \<Rightarrow> enabled \<and> name = AUTOSTART_TASK_NAME
   | Autostart (SetPart _ name v) \<Rightarrow> name = ''Path'' \<longrightarrow> v = exe
   | _ \<Rightarrow> True)"

lemma change_call_simps [simp]:
  "change_call enabled exe (Task t)" "change_call enabled exe (Thread h)" "change_call enabled exe (Autostart (NewTask n))"
  "change_call enabled exe (Autostart (GetPart n part))" "change_call enabled exe (Autostart LocalNow)"
  "change_call enabled exe (Autostart (SetPart n part v)) = (part = ''Path'' \<longrightarrow> v = exe)"
  "change_call enabled exe (Autostart (DeleteTask n name)) = (\<not> enabled \<and> name = AUTOSTART_TASK_NAME)"
  "change_call enabled exe (Autostart (RegisterTaskDefinition n name d)) = (enabled \<and> name = AUTOSTART_TASK_NAME)"
  by (simp_all add: change_call_def)

lemma prelim_change: "prelim c \<Longrightarrow> change_call enabled exe c"
  by (auto simp: change_call_def task_setting_def split: sys_call.splits)

lemma set_parts_only:
  "list_all (\<lambda>(name, v). P (Autostart (SetPart obj name v))) parts \<Longrightarrow> only_calls P w (snd (set_parts os obj parts w))"
proof (induction parts arbitrary: w)
  case (Cons part parts)
  obtain name v where "part = (name, v)" by (rule prod.exhaust)
  with Cons show ?case by (auto intro!: only_calls_and_then)
qed simp

lemmas set_parts_calls = set_parts_only [where P = "change_call enabled exe" for enabled exe]

lemma trigger_only:
  assumes "\<And>n part. P (Autostart (GetPart n part))" and "P (Autostart LocalNow)"
    and "\<And>n. P (Autostart (SetPart n ''Id'' ''WardoffLogonTrigger''))"
    and "\<And>n. P (Autostart (SetPart n ''Enabled'' ''VARIANT_TRUE''))"
    and "\<And>n v. P (Autostart (SetPart n ''StartBoundary'' v))" and "\<And>n. P (Autostart (SetPart n ''UserId'' user))"
  shows "only_calls P w (snd (configure_logon_trigger os d user w))"
proof -
  have tail: "only_calls P w (snd (let (start_boundary, w) = trigger_start_boundary os w in
       and_then
         (set_parts os trigger
           [(''Id'', ''WardoffLogonTrigger''), (''Enabled'', ''VARIANT_TRUE''), (''StartBoundary'', start_boundary)])
         (\<lambda>_. set_parts os logon_trigger [(''UserId'', user)]) w))" for trigger logon_trigger w
  proof -
    let ?w = "snd (syscall os (Autostart LocalNow) w)"
    let ?boundary = "r_text (os (trace w) (Autostart LocalNow))"
    have "only_calls P ?w (snd (and_then
         (set_parts os trigger
           [(''Id'', ''WardoffLogonTrigger''), (''Enabled'', ''VARIANT_TRUE''), (''StartBoundary'', ?boundary)])
         (\<lambda>_. set_parts os logon_trigger [(''UserId'', user)]) ?w))"
      by (intro only_calls_and_then set_parts_only) (simp_all add: assms)
    then have "only_calls P w (snd (and_then
         (set_parts os trigger
           [(''Id'', ''WardoffLogonTrigger''), (''Enabled'', ''VARIANT_TRUE''), (''StartBoundary'', ?boundary)])
         (\<lambda>_. set_parts os logon_trigger [(''UserId'', user)]) ?w))"
      by (rule only_calls_trans [rotated]) (simp add: assms(2))
    then show ?thesis unfolding trigger_start_boundary_def Let_def case_prod_beta fst_conv snd_conv fst_syscall .
  qed
  show ?thesis unfolding configure_logon_trigger_def get_part_def
    by (intro only_calls_and_then tail) (simp_all add: assms(1))
qed

lemma trigger_calls: "only_calls (change_call enabled exe) w (snd (configure_logon_trigger os d user w))"
  by (rule trigger_only) simp_all

lemma register_calls: "only_calls (change_call True exe) w (snd (register_autostart_task os service user exe dir w))"
  unfolding register_autostart_task_def configure_registration_info_def configure_principal_def configure_settings_def
    configure_exec_action_def open_root_folder_def get_part_def
  by (intro only_calls_and_then trigger_calls set_parts_calls) simp_all

lemma remove_calls: "only_calls (change_call False exe) w (snd (remove_autostart_task os service w))"
  unfolding remove_autostart_task_def open_root_folder_def
  by (intro only_calls_and_then) (simp_all add: call_unit_cases split: option.split)

lemma scheduler_calls:
  assumes "\<And>w. only_calls (change_call enabled exe) w (snd (m w))"
  shows "only_calls (change_call enabled exe) w (snd (run_task_scheduler os m w))"
proof -
  have body: "only_calls (change_call enabled exe) w (snd (in_com_apartment os m w))" for w
  proof -
    let ?w = "snd (syscall os (Task CoInitializeEx) w)"
    obtain r w1 where m: "m ?w = (r, w1)" by (rule prod.exhaust)
    with assms [of ?w] have "only_calls (change_call enabled exe) ?w w1" by simp
    then have "only_calls (change_call enabled exe) w w1" by (rule only_calls_trans [rotated]) simp
    with m show ?thesis
      by (simp add: in_com_apartment_def initialize_com_apartment_def call_unit_cases co_uninitialize_def split: option.split)
  qed
  let ?w = "snd (syscall os (Thread (SpawnThread AUTOSTART_THREAD_NAME)) w)"
  obtain r w1 where b: "in_com_apartment os m ?w = (r, w1)" by (rule prod.exhaust)
  with body [of ?w] have "only_calls (change_call enabled exe) ?w w1" by simp
  then have "only_calls (change_call enabled exe) w w1" by (rule only_calls_trans [rotated]) simp
  with b show ?thesis by (simp add: run_task_scheduler_def call_unit_cases split: option.split)
qed

lemma connect_calls: "only_calls (change_call enabled exe) w (snd (connect_task_service os w))"
  unfolding connect_task_service_def by (intro only_calls_and_then) simp_all

lemma update_task_calls: "only_calls (change_call enabled exe) w (snd (update_task os enabled user exe dir w))"
  unfolding update_task_def register_operation_def remove_operation_def
  by (cases enabled; simp only: if_True if_False; intro scheduler_calls only_calls_and_then)
     (simp_all add: connect_calls register_calls remove_calls)


lemma executable_path_canonical:
  assumes "current_executable_path os w = (Inr exe, w')"
  shows "\<exists>path r. added w w' (Shell (CanonicalizePath path), r) \<and> r_err r = None \<and> r_text r = exe"
proof -
  let ?path = "r_text (os (trace w) (Shell CurrentExe))"
  let ?w = "snd (syscall os (Shell CurrentExe) w)"
  from assms have "w' = snd (syscall os (Shell (CanonicalizePath ?path)) ?w)"
    and r: "r_err (os (trace ?w) (Shell (CanonicalizePath ?path))) = None" "r_text (os (trace ?w) (Shell (CanonicalizePath ?path))) = exe"
    by (auto simp: current_executable_path_def and_then_def map_error_def call_text_cases split: option.splits)
  moreover have "extends w ?w" by simp
  ultimately show ?thesis using added_earlier [OF _ added_self] by metis
qed

text \<open>A change is reached only through every check.\<close>

lemma change_reached:
  assumes "set_enabled os enabled w = (r, w')" and "added w w' (c, reply)" and "task_change c"
  obtains exe w0 w1 w2 w3 where "ensure_process_is_elevated os w = (Inr (), w0)" and "only_calls prelim w w0"
    and "current_executable_path os w0 = (Inr exe, w1)" and "only_calls prelim w0 w1" and "only_calls prelim w1 w2"
    and "(if enabled then ensure_trusted_autostart_location os exe (current_working_directory exe) else ok ()) w2 = (Inr (), w3)"
    and "only_calls prelim w2 w3" and "only_calls (change_call enabled exe) w3 w'"
proof -
  note setting = task_change_setting [OF assms(3)]
  have no: "only_calls prelim w w' \<Longrightarrow> P" for P using only_calls_added [OF _ assms(2)] setting by auto
  obtain r0 w0 where e: "ensure_process_is_elevated os w = (r0, w0)" by (rule prod.exhaust)
  have c0: "only_calls prelim w w0" using ensure_elevated_calls [of w os] e by simp
  have r0: "r0 = Inr ()" using e assms(1) c0 by (cases r0) (auto simp: set_enabled_def intro: no)
  with e assms(1) have rest: "set_enabled_elevated os enabled w0 = (r, w')" by (simp add: set_enabled_def)
  obtain r1 w1 where x: "current_executable_path os w0 = (r1, w1)" by (rule prod.exhaust)
  have c1: "only_calls prelim w0 w1" using executable_path_calls [of w0 os] x by simp
  obtain exe where exe: "r1 = Inr exe"
    using x rest only_calls_trans [OF c0 c1] by (cases r1) (auto simp: set_enabled_elevated_def and_then_def intro: no)
  obtain r2 w2 where u: "current_user_id os w1 = (r2, w2)" by (rule prod.exhaust)
  have c2: "only_calls prelim w1 w2" using user_id_calls [of w1 os] u by simp
  obtain user where user: "r2 = Inr user"
    using x exe u rest only_calls_trans [OF c0 only_calls_trans [OF c1 c2]]
    by (cases r2) (auto simp: set_enabled_elevated_def and_then_def intro: no)
  let ?dir = "current_working_directory exe"
  obtain r3 w3 where t: "(if enabled then ensure_trusted_autostart_location os exe ?dir else ok ()) w2 = (r3, w3)" by (rule prod.exhaust)
  have c3: "only_calls prelim w2 w3" using trusted_calls [of w2 os exe ?dir] t by (auto split: if_splits)
  have r3: "r3 = Inr ()"
    using x exe u user t rest only_calls_trans [OF c0 only_calls_trans [OF c1 only_calls_trans [OF c2 c3]]]
    by (cases r3) (auto simp: set_enabled_elevated_def and_then_def intro: no)
  obtain r4 w4 where up: "update_task os enabled user exe ?dir w3 = (r4, w4)" by (rule prod.exhaust)
  have "trace w' = trace w4"
    using x exe u user t r3 up rest by (cases r4) (auto simp: set_enabled_elevated_def and_then_def)
  then have c4: "only_calls (change_call enabled exe) w3 w'"
    using update_task_calls [of enabled exe w3 os user ?dir] up by (simp add: only_calls_def)
  from that [of w0 exe w1 w2 w3] e r0 c0 x exe c1 c2 t r3 c3 c4 show ?thesis by simp
qed

text \<open>C35. The autostart task is changed only by an elevated process and only for a trusted
  location. Whatever Windows answers, if \<^verbatim>\<open>set_enabled\<close> deletes a scheduled task it is Wardoff's
  own and the caller asked to turn autostart off; if it registers one, it is Wardoff's own, the
  caller asked to turn it on, and during the same call the non-elevated (linked) token of the user
  was found unable to write both the canonical executable and its directory (\<^verbatim>\<open>AccessCheck\<close> did
  not grant the write mask as a whole, which is what the code asks), and that executable
  is the only path the task is given. In both cases the token was reported elevated first.\<close>

theorem autostart_change_guarded:
  assumes "set_enabled os enabled w = (r, w')" and "added w w' (c, reply)" and "task_change c"
  shows "(\<exists>token e. added w w' (Token (GetTokenElevation token), e) \<and> r_err e = None \<and> r_num e \<noteq> 0) \<and>
    change_call enabled [] c \<and>
    (enabled \<longrightarrow> (\<exists>exe path p. added w w' (Shell (CanonicalizePath path), p) \<and> r_text p = exe \<and>
       location_trusted w w' exe (current_working_directory exe) \<and>
       (\<forall>obj v a. added w w' (Autostart (SetPart obj ''Path'' v), a) \<longrightarrow> v = exe)))"
proof -
  obtain exe w0 w1 w2 w3 where e: "ensure_process_is_elevated os w = (Inr (), w0)" and c0: "only_calls prelim w w0"
    and x: "current_executable_path os w0 = (Inr exe, w1)" and c1: "only_calls prelim w0 w1" and c2: "only_calls prelim w1 w2"
    and t: "(if enabled then ensure_trusted_autostart_location os exe (current_working_directory exe) else ok ()) w2 = (Inr (), w3)"
    and c3: "only_calls prelim w2 w3" and c4: "only_calls (change_call enabled exe) w3 w'"
    using change_reached [OF assms] by metis
  have first: "only_calls prelim w w2" "extends w w2" using only_calls_trans [OF c0 only_calls_trans [OF c1 c2]] only_extends by blast+
  have late3: "extends w3 w'" using only_extends [OF c4] .
  have late1: "extends w1 w'"
    by (rule only_calls_trans [OF only_extends [OF c2] only_calls_trans [OF only_extends [OF c3] late3]])
  have late0: "extends w0 w'" by (rule only_calls_trans [OF only_extends [OF c1] late1])
  have calls: "only_calls (change_call enabled exe) w w'"
    by (rule only_calls_trans [OF only_calls_mono [OF only_calls_trans [OF first(1) c3] prelim_change] c4])
  have elevated: "\<exists>token e. added w w' (Token (GetTokenElevation token), e) \<and> r_err e = None \<and> r_num e \<noteq> 0"
    using elevated_means_reported [OF e] added_later [OF _ late0] by blast
  have mine: "change_call enabled [] c"
    using only_calls_added [OF calls assms(2)] assms(3)
    by (auto simp: change_call_def task_change_def split: sys_call.splits autostart_call.splits)
  have only_exe: "added w w' (Autostart (SetPart obj ''Path'' v), a) \<Longrightarrow> v = exe" for obj v a
    using only_calls_added [OF calls] by fastforce
  have trusted: "enabled \<longrightarrow> location_trusted w w' exe (current_working_directory exe)"
  proof
    assume enabled
    with t have "location_trusted w2 w3 exe (current_working_directory exe)" using trusted_means_refused by auto
    with write_refused_later [OF write_refused_earlier [OF first(2)] late3] added_later [OF added_earlier [OF first(2)] late3]
    show "location_trusted w w' exe (current_working_directory exe)" unfolding location_trusted_def by blast
  qed
  have "\<exists>path p. added w w' (Shell (CanonicalizePath path), p) \<and> r_text p = exe"
    using executable_path_canonical [OF x] added_later [OF added_earlier [OF only_extends [OF c0]] late1] by blast
  with elevated mine only_exe trusted show ?thesis by blast
qed


subsection \<open>Turning autostart on and off\<close>

text \<open>The definition whose \<^verbatim>\<open>Settings\<close> an object is, by the getter that last handed it out, and
  whether a task definition is enabled: a new one is, until \<^verbatim>\<open>Settings.Enabled\<close> is put.\<close>

fun settings_of :: "history \<Rightarrow> nat \<Rightarrow> nat option" where
  "settings_of [] obj = None"
| "settings_of ((c, r) # h) obj =
     (case c of
        Autostart (GetPart d part) \<Rightarrow>
          if r_err r = None \<and> r_num r = obj then (if part = ''Settings'' then Some d else None) else settings_of h obj
      | _ \<Rightarrow> settings_of h obj)"

fun definition_enabled :: "history \<Rightarrow> nat \<Rightarrow> bool" where
  "definition_enabled [] d = True"
| "definition_enabled ((c, r) # h) d =
     (if r_err r \<noteq> None then definition_enabled h d
      else case c of
        Autostart (NewTask _) \<Rightarrow> r_num r = d \<or> definition_enabled h d
      | Autostart (SetPart obj part v) \<Rightarrow>
          if part = ''Enabled'' \<and> settings_of h obj = Some d then v = ''VARIANT_TRUE'' else definition_enabled h d
      | _ \<Rightarrow> definition_enabled h d)"

text \<open>The task as our own calls leave it: \<open>s0\<close> is its state before the history; a registration
  gives it the state its definition says.\<close>

fun registered :: "bool option \<Rightarrow> history \<Rightarrow> bool option" where
  "registered s0 [] = s0"
| "registered s0 ((c, r) # h) =
     (if r_err r \<noteq> None then registered s0 h
      else case c of
        Autostart (RegisterTaskDefinition _ name d) \<Rightarrow>
          if name = AUTOSTART_TASK_NAME then Some (definition_enabled h d) else registered s0 h
      | Autostart (DeleteTask _ name) \<Rightarrow> if name = AUTOSTART_TASK_NAME then None else registered s0 h
      | _ \<Rightarrow> registered s0 h)"

text \<open>A Task Scheduler that answers about this task by its state and reports "not found" exactly
  when it is missing (and that nobody else changes meanwhile).\<close>

definition truthful_registry :: "os \<Rightarrow> bool option \<Rightarrow> bool" where
  "truthful_registry os s0 \<longleftrightarrow> (\<forall>h folder.
     (case registered s0 h of
        None \<Rightarrow> \<exists>e. r_err (os h (Task (GetTask folder AUTOSTART_TASK_NAME))) = Some e \<and> is_not_found_error os e
      | Some on \<Rightarrow>
          (\<forall>e. r_err (os h (Task (GetTask folder AUTOSTART_TASK_NAME))) = Some e \<longrightarrow> \<not> is_not_found_error os e) \<and>
          (\<forall>task. r_err (os h (Task (TaskGetEnabled task))) = None \<longrightarrow> (r_num (os h (Task (TaskGetEnabled task))) \<noteq> 0 \<longleftrightarrow> on)) \<and>
          (\<forall>e. r_err (os h (Autostart (DeleteTask folder AUTOSTART_TASK_NAME))) = Some e \<longrightarrow> \<not> is_not_found_error os e)))"

declare registered.simps(2) [simp del]

lemma truthful_missing:
  assumes "truthful_registry os s0" and "registered s0 h = None"
  shows "\<exists>e. r_err (os h (Task (GetTask folder AUTOSTART_TASK_NAME))) = Some e \<and> is_not_found_error os e"
  using spec [OF spec [OF assms(1) [unfolded truthful_registry_def], of h], of folder] assms(2) by simp

lemma truthful_present:
  assumes "truthful_registry os s0" and "registered s0 h = Some on"
  shows "r_err (os h (Task (GetTask folder AUTOSTART_TASK_NAME))) = Some e \<Longrightarrow> \<not> is_not_found_error os e"
    and "r_err (os h (Task (TaskGetEnabled task))) = None \<Longrightarrow> (r_num (os h (Task (TaskGetEnabled task))) \<noteq> 0) = on"
    and "r_err (os h (Autostart (DeleteTask folder AUTOSTART_TASK_NAME))) = Some e \<Longrightarrow> \<not> is_not_found_error os e"
  using spec [OF spec [OF assms(1) [unfolded truthful_registry_def], of h], of folder] assms(2) by simp_all

lemma registered_other [simp]: "\<not> task_change c \<Longrightarrow> registered s0 ((c, r) # h) = registered s0 h"
  by (auto simp: registered.simps(2) task_change_def split: sys_call.splits autostart_call.splits)

lemma task_change_simps [simp]:
  "\<not> task_change (Task t)" "\<not> task_change (Thread v)" "\<not> task_change (Autostart (NewTask n))"
  "\<not> task_change (Autostart (GetPart n part))" "\<not> task_change (Autostart (SetPart n part v'))" "\<not> task_change (Autostart LocalNow)"
  by (simp_all add: task_change_def)

lemma registered_unchanged: "only_calls (\<lambda>c. \<not> task_change c) w w' \<Longrightarrow> registered s0 (trace w') = registered s0 (trace w)"
  by (erule only_calls_ledger) simp

lemma connect_unchanged: "registered s0 (trace (snd (connect_task_service os w))) = registered s0 (trace w)"
  by (rule registered_unchanged) (unfold connect_task_service_def, intro only_calls_and_then; simp)

lemma scheduler_Inr:
  assumes "run_task_scheduler os m w = (Inr x, w')"
  obtains w1 w2 where "m w1 = (Inr x, w2)" and "registered s0 (trace w1) = registered s0 (trace w)"
    and "registered s0 (trace w') = registered s0 (trace w2)"
proof -
  let ?w0 = "snd (syscall os (Thread (SpawnThread AUTOSTART_THREAD_NAME)) w)"
  let ?w1 = "snd (syscall os (Task CoInitializeEx) ?w0)"
  obtain r w2 where m: "m ?w1 = (r, w2)" by (rule prod.exhaust)
  let ?w3 = "co_uninitialize os w2"
  from assms m have "r = Inr x" "w' = snd (syscall os (Thread (JoinThread AUTOSTART_THREAD_NAME)) ?w3)"
    by (auto simp: run_task_scheduler_def in_com_apartment_def initialize_com_apartment_def call_unit_cases split: option.splits)
  with m that [of ?w1 w2] show ?thesis by (simp add: co_uninitialize_def)
qed

text \<open>\<open>lookup_autostart_task\<close> and \<open>remove_autostart_task\<close> with a truthful scheduler.\<close>

lemma enabled_reads_registry:
  assumes "truthful_registry os s0" and "autostart_task_enabled os service w = (Inr b, w')"
  shows "b = (registered s0 (trace w) = Some True)"
proof -
  let ?f = "Task (GetFolder service ROOT_TASK_FOLDER_PATH)"
  let ?folder = "r_num (os (trace w) ?f)"
  let ?w1 = "snd (syscall os ?f w)"
  let ?t = "Task (GetTask ?folder AUTOSTART_TASK_NAME)"
  let ?w2 = "snd (syscall os ?t ?w1)"
  let ?q = "Task (TaskGetEnabled (r_num (os (trace ?w1) ?t)))"
  have same: "registered s0 (trace ?w1) = registered s0 (trace w)" "registered s0 (trace ?w2) = registered s0 (trace w)" by simp_all
  from assms(2) consider (found) "r_err (os (trace ?w1) ?t) = None" "r_err (os (trace ?w2) ?q) = None" "b = (r_num (os (trace ?w2) ?q) \<noteq> 0)"
    | (missing) e where "r_err (os (trace ?w1) ?t) = Some e" "is_not_found_error os e" "\<not> b"
    by (auto simp: autostart_task_enabled_def lookup_autostart_task_def open_root_folder_def and_then_def call_num_cases
        split: option.splits if_splits)
  then show ?thesis
  proof cases
    case found
    obtain on where on: "registered s0 (trace w) = Some on"
    proof (cases "registered s0 (trace w)")
      case None
      with truthful_missing [OF assms(1), of "trace ?w1" ?folder] same(1) found(1) show ?thesis by simp
    qed
    with same(2) have "registered s0 (trace ?w2) = Some on" by simp
    from truthful_present(2) [OF assms(1) this found(2)] found(3) on show ?thesis by simp
  next
    case missing
    have "registered s0 (trace w) = None"
    proof (cases "registered s0 (trace w)")
      case (Some on)
      with same(1) have "registered s0 (trace ?w1) = Some on" by simp
      from truthful_present(1) [OF assms(1) this missing(1)] missing(2) show ?thesis by simp
    qed
    with missing show ?thesis by simp
  qed
qed

lemma remove_clears_registry:
  assumes "truthful_registry os s0" and "remove_autostart_task os service w = (Inr b, w')"
  shows "registered s0 (trace w') = None"
proof -
  let ?f = "Task (GetFolder service ROOT_TASK_FOLDER_PATH)"
  let ?folder = "r_num (os (trace w) ?f)"
  let ?w1 = "snd (syscall os ?f w)"
  let ?d = "Autostart (DeleteTask ?folder AUTOSTART_TASK_NAME)"
  from assms(2) have w': "w' = snd (syscall os ?d ?w1)"
    and outcome: "r_err (os (trace ?w1) ?d) = None \<or> (\<exists>e. r_err (os (trace ?w1) ?d) = Some e \<and> is_not_found_error os e)"
    by (auto simp: remove_autostart_task_def open_root_folder_def and_then_def call_num_cases call_unit_cases
        split: option.splits if_splits)
  from outcome show ?thesis
  proof
    assume "\<exists>e. r_err (os (trace ?w1) ?d) = Some e \<and> is_not_found_error os e"
    then obtain e where e: "r_err (os (trace ?w1) ?d) = Some e" "is_not_found_error os e" by blast
    have "registered s0 (trace ?w1) = None"
    proof (cases "registered s0 (trace ?w1)")
      case (Some on)
      from truthful_present(3) [OF assms(1) this e(1)] e(2) show ?thesis by simp
    qed
    with e w' show ?thesis by (simp add: registered.simps(2))
  qed (simp add: w' registered.simps(2))
qed

text \<open>Calls that leave a definition enabled.\<close>

definition enabling :: "sys_call \<Rightarrow> bool" where
  "enabling c = (case c of Autostart (SetPart _ part v) \<Rightarrow> part = ''Enabled'' \<longrightarrow> v = ''VARIANT_TRUE'' | _ \<Rightarrow> True)"

lemma enabling_simps [simp]:
  "enabling (Autostart (GetPart n part))" "enabling (Autostart LocalNow)" "enabling (Task t)"
  "enabling (Autostart (SetPart n part v)) = (part = ''Enabled'' \<longrightarrow> v = ''VARIANT_TRUE'')"
  by (simp_all add: enabling_def)

lemma enabling_keeps: "enabling c \<Longrightarrow> definition_enabled h d \<Longrightarrow> definition_enabled ((c, r) # h) d"
  by (auto simp: enabling_def split: sys_call.splits autostart_call.splits)

lemma enabling_run: "only_calls enabling w w' \<Longrightarrow> definition_enabled (trace w) d \<Longrightarrow> definition_enabled (trace w') d"
proof -
  have "definition_enabled (new @ h) d" if "\<forall>cr \<in> set new. enabling (fst cr)" "definition_enabled h d" for new h
    using that by (induction new) (auto simp del: definition_enabled.simps intro: enabling_keeps)
  then show "only_calls enabling w w' \<Longrightarrow> definition_enabled (trace w) d \<Longrightarrow> definition_enabled (trace w') d"
    by (auto simp: only_calls_def)
qed

lemma configure_enabling:
  "only_calls enabling w (snd (configure_registration_info os d w))"
  "only_calls enabling w (snd (configure_principal os d user w))"
  "only_calls enabling w (snd (configure_settings os d w))"
  "only_calls enabling w (snd (configure_logon_trigger os d user w))"
  "only_calls enabling w (snd (configure_exec_action os d exe dir w))"
  "only_calls enabling w (snd (open_root_folder os service w))"
  unfolding configure_registration_info_def configure_principal_def configure_settings_def configure_exec_action_def
    open_root_folder_def get_part_def
  by (intro only_calls_and_then set_parts_only trigger_only; simp)+ simp

lemma register_sets_registry:
  assumes "register_autostart_task os service user exe dir w = (Inr (), w')"
  shows "registered s0 (trace w') = Some True"
proof -
  from assms obtain d w0 w1 w2 w3 w4 w5 w6 folder where new: "call_num os (Autostart (NewTask service)) w = (Inr d, w0)"
    and parts: "configure_registration_info os d w0 = (Inr (), w1)" "configure_principal os d user w1 = (Inr (), w2)"
      "configure_settings os d w2 = (Inr (), w3)" "configure_logon_trigger os d user w3 = (Inr (), w4)"
      "configure_exec_action os d exe dir w4 = (Inr (), w5)" "open_root_folder os service w5 = (Inr folder, w6)"
    and reg: "call_unit os (Autostart (RegisterTaskDefinition folder AUTOSTART_TASK_NAME d)) w6 = (Inr (), w')"
    unfolding register_autostart_task_def and_then_Inr_iff by auto
  have "only_calls enabling w0 w6"
    using configure_enabling(1) [of w0 os d] configure_enabling(2) [of w1 os d user] configure_enabling(3) [of w2 os d]
      configure_enabling(4) [of w3 os d user] configure_enabling(5) [of w4 os d exe dir] configure_enabling(6) [of w5 os service]
    unfolding parts snd_conv by (blast intro: only_calls_trans)
  moreover have "definition_enabled (trace w0) d"
    using new by (auto simp: call_num_cases split: option.splits)
  ultimately have "definition_enabled (trace w6) d" by (rule enabling_run)
  with reg show ?thesis by (auto simp: call_unit_cases registered.simps(2) split: option.splits)
qed

lemma update_task_registry:
  assumes "update_task os enabled user exe dir w = (Inr message, w')" and "truthful_registry os s0"
  shows "registered s0 (trace w') = (if enabled then Some True else None)"
proof (cases enabled)
  case True
  then have "run_task_scheduler os (register_operation os user exe dir) w = (Inr message, w')"
    using assms(1) by (simp add: update_task_def)
  then obtain w1 w2 where "register_operation os user exe dir w1 = (Inr message, w2)"
    and last: "registered s0 (trace w') = registered s0 (trace w2)" by (rule scheduler_Inr)
  then obtain service w3 where "register_autostart_task os service user exe dir w3 = (Inr (), w2)"
    by (auto simp: register_operation_def and_then_Inr_iff)
  from register_sets_registry [OF this] last True show ?thesis by simp
next
  case False
  then have "run_task_scheduler os (remove_operation os) w = (Inr message, w')"
    using assms(1) by (simp add: update_task_def)
  then obtain w1 w2 where "remove_operation os w1 = (Inr message, w2)"
    and last: "registered s0 (trace w') = registered s0 (trace w2)" by (rule scheduler_Inr)
  then obtain service removed w3 where "remove_autostart_task os service w3 = (Inr removed, w2)"
    by (auto simp: remove_operation_def and_then_Inr_iff)
  from remove_clears_registry [OF assms(2) this] last False show ?thesis by simp
qed

lemma set_enabled_updated:
  assumes "set_enabled os enabled w = (Inr (), w')"
  obtains user exe message w1 w2 where "update_task os enabled user exe (current_working_directory exe) w1 = (Inr message, w2)"
    and "trace w' = trace w2"
proof -
  from assms obtain w0 where "set_enabled_elevated os enabled w0 = (Inr (), w')"
    by (auto simp: set_enabled_def split: prod.splits sum.splits)
  then obtain exe user w1 where "(case update_task os enabled user exe (current_working_directory exe) w1 of
         (Inr message, w) \<Rightarrow> (Inr (), log_event os ''autostart_task_updated'' Src_Autostart message True w)
       | (Inl message, w) \<Rightarrow> (Inl message, log_event os ''autostart_task_updated'' Src_Autostart message False w)) = (Inr (), w')"
    unfolding set_enabled_elevated_def and_then_Inr_iff by blast
  with that show ?thesis by (auto split: prod.splits sum.splits)
qed

text \<open>C36. Turning autostart on and off is a round trip. With a Task Scheduler that answers
  truthfully about the task it was given (registered with the \<^verbatim>\<open>Settings.Enabled\<close> its definition
  carries), after \<^verbatim>\<open>set_enabled(true)\<close> succeeded the task is registered and enabled, after
  \<^verbatim>\<open>set_enabled(false)\<close> it is gone, and a following \<^verbatim>\<open>is_enabled\<close> that succeeds returns exactly
  the state asked for; reading changes nothing.\<close>

theorem autostart_round_trip:
  assumes "truthful_registry os s0" and "set_enabled os enabled w = (Inr (), w1)" and "is_enabled os w1 = (r, w2)"
  shows "registered s0 (trace w1) = (if enabled then Some True else None) \<and> (\<forall>on. r = Inr on \<longrightarrow> on = enabled) \<and>
    (is_ok r \<longrightarrow> registered s0 (trace w2) = registered s0 (trace w1))"
proof -
  obtain user exe message v1 v2 where "update_task os enabled user exe (current_working_directory exe) v1 = (Inr message, v2)"
    and "trace w1 = trace v2" using assms(2) by (rule set_enabled_updated)
  then have state: "registered s0 (trace w1) = (if enabled then Some True else None)"
    using update_task_registry assms(1) by metis
  have read: "on = enabled \<and> registered s0 (trace w2) = registered s0 (trace w1)" if "r = Inr on" for on
  proof -
    have scheduled: "is_enabled os w1 = (Inr on, w2)" using assms(3) that by simp
    obtain v1 v2 where m: "and_then (map_error (task_service_error os) (connect_task_service os)) (\<lambda>task_service.
        map_error (task_service_error os) (autostart_task_enabled os task_service)) v1 = (Inr on, v2)"
      and v: "registered s0 (trace v1) = registered s0 (trace w1)" "registered s0 (trace w2) = registered s0 (trace v2)"
      using scheduled unfolding is_enabled_def by (rule scheduler_Inr)
    then obtain service v3 where c: "connect_task_service os v1 = (Inr service, v3)" and t: "autostart_task_enabled os service v3 = (Inr on, v2)"
      by (auto simp: and_then_Inr_iff)
    have "registered s0 (trace v3) = registered s0 (trace v1)" using connect_unchanged [of s0 os v1] c by simp
    moreover have "registered s0 (trace v2) = registered s0 (trace v3)"
      using t by (auto simp: autostart_task_enabled_def lookup_autostart_task_def open_root_folder_def and_then_def call_num_cases
          split: option.splits if_splits)
    ultimately show ?thesis using enabled_reads_registry [OF assms(1) t] state v by auto
  qed
  show ?thesis
  proof (cases r)
    case (Inr on)
    from read [OF this] state Inr show ?thesis by simp
  qed (use state in simp)
qed


subsection \<open>A concrete system\<close>

text \<open>An elevated process in a protected directory, with a task store that behaves as documented.\<close>

definition elevated_os :: os where
  "elevated_os h c = \<lparr>r_err =
       (case c of
          Task (GetTask _ name) \<Rightarrow>
            if name = AUTOSTART_TASK_NAME \<and> registered None h = None then Some \<lparr>err_code = 2, err_text = ''missing''\<rparr> else None
        | _ \<Rightarrow> None),
     r_num = (case c of Security (AccessCheck _ _ _) \<Rightarrow> 0
       | Task (TaskGetEnabled _) \<Rightarrow> if registered None h = Some False then 0 else 7 | Render (HandleIsInvalid _) \<Rightarrow> 0
       | Render (HresultFromWin32 code) \<Rightarrow> unat code | _ \<Rightarrow> 7),
     r_text = ''u'', r_bytes = [], r_events = []\<rparr>"

lemma elevated_success:
  "(case c of Task (GetTask _ _) \<Rightarrow> False | _ \<Rightarrow> True) \<Longrightarrow> r_err (elevated_os h c) = None"
  by (auto simp: elevated_os_def split: sys_call.splits task_call.splits)

lemma elevated_replies [simp]:
  "r_err (elevated_os h (Token a)) = None" "r_err (elevated_os h (Security b)) = None" "r_err (elevated_os h (Shell d)) = None"
  "r_err (elevated_os h (Thread e)) = None" "r_err (elevated_os h (Autostart f)) = None"
  "r_err (elevated_os h (Task CoInitializeEx)) = None" "r_err (elevated_os h (Task CoCreateTaskScheduler)) = None"
  "r_err (elevated_os h (Task (TaskServiceConnect n))) = None" "r_err (elevated_os h (Task (GetFolder n path))) = None"
  by (simp_all add: elevated_success)

lemma elevated_values [simp]:
  "r_num (elevated_os h (Token a)) = 7" "r_num (elevated_os h (Security (GetTokenUser n k))) = 7"
  "r_num (elevated_os h (Security (GetTokenUserSize n))) = 7" "r_num (elevated_os h (Security (AccessCheck i j k'))) = 0"
  "r_text (elevated_os h c) = ''u''" "r_bytes (elevated_os h c) = []"
  by (simp_all add: elevated_os_def)

lemma trim_samples: "trim_end ''u'' = ''u''" "trim_end [] = []"
  by code_simp+

lemma elevated_is_truthful: "truthful_registry elevated_os None"
  unfolding truthful_registry_def
proof (intro allI)
  fix h folder
  show "case registered None h of
        None \<Rightarrow> \<exists>e. r_err (elevated_os h (Task (GetTask folder AUTOSTART_TASK_NAME))) = Some e \<and> is_not_found_error elevated_os e
      | Some on \<Rightarrow>
          (\<forall>e. r_err (elevated_os h (Task (GetTask folder AUTOSTART_TASK_NAME))) = Some e \<longrightarrow> \<not> is_not_found_error elevated_os e) \<and>
          (\<forall>task. r_err (elevated_os h (Task (TaskGetEnabled task))) = None \<longrightarrow>
             (r_num (elevated_os h (Task (TaskGetEnabled task))) \<noteq> 0 \<longleftrightarrow> on)) \<and>
          (\<forall>e. r_err (elevated_os h (Autostart (DeleteTask folder AUTOSTART_TASK_NAME))) = Some e \<longrightarrow> \<not> is_not_found_error elevated_os e)"
    by (auto simp: elevated_os_def is_not_found_error_def hresult_from_win32_def ERROR_FILE_NOT_FOUND_def split: option.splits)
qed

lemma and_then_succeeds:
  "\<exists>x w'. m w = (Inr x, w') \<and> (\<exists>y w''. f x w' = (Inr y, w'')) \<Longrightarrow> \<exists>y w''. and_then m f w = (Inr y, w'')"
  by (auto simp: and_then_def)

lemma elevated_calls_succeed:
  "\<exists>w'. ensure_process_is_elevated elevated_os w = (Inr (), w')"
  "\<exists>w'. current_executable_path elevated_os w = (Inr ''u'', w')"
  "\<exists>w'. current_user_id elevated_os w = (Inr ''u'', w')"
  "\<exists>n w'. current_interactive_medium_token_for_access_check elevated_os w = (Inr n, w')"
  "\<exists>w'. token_has_path_access elevated_os n path access context' w = (Inr False, w')"
  by (simp_all add: ensure_process_is_elevated_def is_process_elevated_def with_guard_def current_executable_path_def
      current_user_id_def open_current_process_token_def current_token_user_id_def lookup_account_name_for_sid_def account_name_def
      current_interactive_medium_token_for_access_check_def duplicate_access_check_token_def token_has_path_access_def
      load_path_security_descriptor_def call_text_cases call_eqs and_then_def map_error_def Let_def trim_samples case_prod_beta)

lemma elevated_trusted: "\<exists>w'. ensure_trusted_autostart_location elevated_os exe dir w = (Inr (), w')"
proof -
  obtain n w1 where 1: "current_interactive_medium_token_for_access_check elevated_os w = (Inr n, w1)"
    using elevated_calls_succeed(4) by blast
  obtain w2 where 2: "token_can_write_executable_path elevated_os n exe w1 = (Inr False, w2)"
    unfolding token_can_write_executable_path_def using elevated_calls_succeed(5) by blast
  obtain w3 where 3: "token_can_write_directory elevated_os n dir w2 = (Inr False, w3)"
    unfolding token_can_write_directory_def using elevated_calls_succeed(5) by blast
  show ?thesis by (simp add: ensure_trusted_autostart_location_def and_then_def with_guard_def 1 2 3)
qed

lemma elevated_set_parts: "\<exists>w'. set_parts elevated_os obj parts w = (Inr (), w')"
proof (induction parts arbitrary: w)
  case (Cons part parts)
  obtain name v where "part = (name, v)" by (rule prod.exhaust)
  with Cons show ?case by (simp add: and_then_def call_unit_cases)
qed simp

lemma elevated_register: "\<exists>w'. register_autostart_task elevated_os service user exe dir w = (Inr (), w')"
proof -
  note parts = elevated_set_parts
  have configured: "\<exists>w'. configure_registration_info elevated_os d w = (Inr (), w')"
    "\<exists>w'. configure_principal elevated_os d user w = (Inr (), w')" "\<exists>w'. configure_settings elevated_os d w = (Inr (), w')"
    "\<exists>w'. configure_exec_action elevated_os d exe dir w = (Inr (), w')" for d w
    using parts by (simp_all add: configure_registration_info_def configure_principal_def configure_settings_def
        configure_exec_action_def get_part_def and_then_def call_num_cases del: set_parts.simps)
  have "\<exists>w'. configure_logon_trigger elevated_os d user w = (Inr (), w')" for d w
  proof -
    obtain s where s: "set_parts elevated_os a b v = (Inr (), s a b v)" for a b v using parts by metis
    show ?thesis by (simp add: configure_logon_trigger_def get_part_def trigger_start_boundary_def and_then_def call_num_cases
        Let_def case_prod_beta s del: set_parts.simps)
  qed
  with configured obtain a b c d e where "configure_registration_info elevated_os x w = (Inr (), a x w)"
    "configure_principal elevated_os x user w = (Inr (), b x w)" "configure_settings elevated_os x w = (Inr (), c x w)"
    "configure_exec_action elevated_os x exe dir w = (Inr (), d x w)" "configure_logon_trigger elevated_os x user w = (Inr (), e x w)"
    for x w by metis
  then show ?thesis
    by (simp add: register_autostart_task_def open_root_folder_def and_then_def call_eqs)
qed

lemma elevated_update: "\<exists>m w'. update_task elevated_os True user exe dir w = (Inr m, w')"
proof -
  obtain r where "register_autostart_task elevated_os s u x d v = (Inr (), r s u x d v)" for s u x d v
    using elevated_register by metis
  then show ?thesis
    by (simp add: update_task_def run_task_scheduler_def in_com_apartment_def initialize_com_apartment_def register_operation_def
        connect_task_service_def and_then_def map_error_def call_eqs)
qed

lemma elevated_turns_on: "\<exists>w'. set_enabled elevated_os True w = (Inr (), w')"
proof -
  obtain w0 where 0: "ensure_process_is_elevated elevated_os w = (Inr (), w0)" using elevated_calls_succeed(1) by blast
  obtain w1 where 1: "current_executable_path elevated_os w0 = (Inr ''u'', w1)" using elevated_calls_succeed(2) by blast
  obtain w2 where 2: "current_user_id elevated_os w1 = (Inr ''u'', w2)" using elevated_calls_succeed(3) by blast
  let ?dir = "current_working_directory ''u''"
  obtain w3 where 3: "ensure_trusted_autostart_location elevated_os ''u'' ?dir w2 = (Inr (), w3)" using elevated_trusted by blast
  obtain m w4 where 4: "update_task elevated_os True ''u'' ''u'' ?dir w3 = (Inr m, w4)" using elevated_update by blast
  show ?thesis by (simp add: set_enabled_def set_enabled_elevated_def and_then_def 0 1 2 3 4)
qed

theorem autostart_round_trip_witness:
  "\<exists>w1. set_enabled elevated_os True initial_world = (Inr (), w1) \<and> registered None (trace w1) = Some True \<and>
    (\<forall>on. fst (is_enabled elevated_os w1) = Inr on \<longrightarrow> on)"
proof -
  obtain w1 where s: "set_enabled elevated_os True initial_world = (Inr (), w1)" using elevated_turns_on by blast
  obtain r w2 where r: "is_enabled elevated_os w1 = (r, w2)" by (rule prod.exhaust)
  from autostart_round_trip [OF elevated_is_truthful s r] s r show ?thesis by auto
qed

theorem autostart_change_guarded_witness:
  "\<exists>w'. set_enabled elevated_os True initial_world = (Inr (), w') \<and>
     (\<exists>exe. location_trusted initial_world w' exe (current_working_directory exe))"
proof -
  obtain w' where s: "set_enabled elevated_os True initial_world = (Inr (), w')" using elevated_turns_on by blast
  obtain user exe m w1 w2 where u: "update_task elevated_os True user exe (current_working_directory exe) w1 = (Inr m, w2)"
    and t: "trace w' = trace w2" using s by (rule set_enabled_updated)
  have "registered None (trace w') = Some True" using update_task_registry [OF u elevated_is_truthful] t by simp
  moreover have "registered None h = None" if "\<forall>cr \<in> set h. \<not> task_change (fst cr)" for h
    using that by (induction h) auto
  ultimately obtain c reply where c: "(c, reply) \<in> set (trace w')" "task_change c" by fastforce
  then have "added initial_world w' (c, reply)" by (simp add: added_def initial_world_def)
  from autostart_change_guarded [OF s this c(2)] s show ?thesis by auto
qed


subsection \<open>What the application relies on\<close>

text \<open>Nothing the autostart code does touches Layer 1's flags.\<close>

abbreviation keeps_control :: "(world, 'e, 'a) prog \<Rightarrow> bool" where
  "keeps_control \<equiv> control_frame.keeps"

named_theorems keeping

lemmas keeping_rules [keeping] = control_frame.keeps_pure control_frame.keeps_calls [OF TrueI] control_frame.keeps_and_then
  control_frame.keeps_map_error control_frame.keeps_guarded [OF _ TrueI] control_frame.keeps_either

lemmas keeps_control_def = control_frame.keeps_def
lemmas keeps_controlD = control_frame.keeps_result

lemma keeps_set_parts [keeping]: "keeps_control (set_parts os obj parts)"
  by (induction os obj parts rule: set_parts.induct) (simp_all only: set_parts.simps keeping)

lemma keeps_connect [keeping]: "keeps_control (connect_task_service os)"
  by (simp add: connect_task_service_def keeping)

lemma keeps_scheduler [keeping]:
  assumes "keeps_control m"
  shows "keeps_control (run_task_scheduler os m)"
proof -
  have com: "control (snd (initialize_com_apartment os w)) = control w" "control (co_uninitialize os w) = control w" for w
    by (simp_all add: initialize_com_apartment_def co_uninitialize_def)
  have "control (snd (in_com_apartment os m w)) = control w" for w
    using assms com
    by (auto simp: in_com_apartment_def keeps_control_def case_prod_beta Let_def split: sum.split)
  then show ?thesis
    by (auto simp: keeps_control_def run_task_scheduler_def case_prod_beta Let_def split: sum.split)
qed

lemma keeps_is_enabled: "keeps_control (is_enabled os)"
proof -
  have "keeps_control (lookup_autostart_task os s)" for s
    unfolding lookup_autostart_task_def open_root_folder_def
    by (intro keeping) (auto simp: keeps_control_def case_prod_beta split: sum.split)
  then have "keeps_control (autostart_task_enabled os s)" for s
    unfolding autostart_task_enabled_def
    by (intro keeping) (auto intro!: keeping split: option.split)
  then show ?thesis unfolding is_enabled_def by (intro keeping)
qed

lemma keeps_user_id [keeping]: "keeps_control (current_user_id os)"
proof -
  have sid: "control (snd (sid_to_string os sid c w)) = control w" for sid c w
    by (simp add: sid_to_string_def case_prod_beta Let_def split: option.split)
  then have acc: "control (snd (account_name os sid c w)) = control w" for sid c w
    by (simp add: account_name_def case_prod_beta Let_def split: option.split)
  have "keeps_control (lookup_account_name_for_sid os sid c)" for sid c
    using sid acc by (auto simp: keeps_control_def lookup_account_name_for_sid_def case_prod_beta split: sum.split)
  then have m: "keeps_control (and_then (map_error g (call_num os q)) (\<lambda>sid. if sid = 0 then fail e else lookup_account_name_for_sid os sid c))" for g q e c
    by (intro keeping)
  have "keeps_control (current_token_user_id os token c)" for token c
    using m by (simp add: current_token_user_id_def keeps_control_def case_prod_beta Let_def)
  then show ?thesis
    unfolding current_user_id_def open_current_process_token_def by (intro keeping)
qed

lemma keeps_trusted [keeping]: "keeps_control (ensure_trusted_autostart_location os exe dir)"
proof -
  have "keeps_control (token_has_path_access os token path access c)" for token path access c
  proof -
    have "control (snd (load_path_security_descriptor os path c w)) = control w" for w
      by (simp add: load_path_security_descriptor_def)
    then show ?thesis
      unfolding token_has_path_access_def
      by (intro keeping) (auto simp: keeps_control_def and_then_def call_eqs case_prod_beta Let_def split: option.splits)
  qed
  then show ?thesis
    unfolding ensure_trusted_autostart_location_def current_interactive_medium_token_for_access_check_def
      duplicate_access_check_token_def open_current_process_token_def token_can_write_executable_path_def
      token_can_write_directory_def
    by (intro keeping)
qed

lemma keeps_update_task [keeping]: "keeps_control (update_task os enabled user exe dir)"
proof -
  have t: "keeps_control (configure_logon_trigger os d u)" for d u
    unfolding configure_logon_trigger_def get_part_def
    by (intro keeping) (simp add: keeps_control_def trigger_start_boundary_def case_prod_beta Let_def
        control_frame.keeps_and_then [OF keeps_set_parts keeps_set_parts, unfolded keeps_control_def, rule_format] del: set_parts.simps)
  have "keeps_control (remove_autostart_task os s)" for s
    unfolding remove_autostart_task_def open_root_folder_def
    by (intro keeping) (auto simp: keeps_control_def case_prod_beta split: sum.split)
  with t show ?thesis
    unfolding update_task_def register_operation_def remove_operation_def register_autostart_task_def
      configure_registration_info_def configure_principal_def configure_settings_def configure_exec_action_def
      get_part_def open_root_folder_def
    by (intro keeping)
qed

lemma keeps_set_enabled: "keeps_control (set_enabled os enabled)"
proof -
  have log: "keeps_control (\<lambda>w. case update_task os enabled user exe dir w of
         (Inr message, w) \<Rightarrow> (Inr (), log_event os ''autostart_task_updated'' Src_Autostart message True w)
       | (Inl message, w) \<Rightarrow> (Inl message, log_event os ''autostart_task_updated'' Src_Autostart message False w))" for user exe dir
    using keeps_update_task [of os enabled user exe dir]
    by (auto simp: keeps_control_def case_prod_beta split: sum.split)
  have "keeps_control (set_enabled_elevated os enabled)"
    unfolding set_enabled_elevated_def current_executable_path_def by (intro keeping log)
  moreover have "control (snd (ensure_process_is_elevated os w)) = control w" for w
    using statics_control [OF is_process_elevated_frame(1) [of os w]]
    by (auto simp: ensure_process_is_elevated_def case_prod_beta split: sum.split bool.split)
  ultimately show ?thesis
    by (auto simp: keeps_control_def set_enabled_def case_prod_beta split: sum.split)
qed

end
