(* ===== verification/Application.thy ===== *)
theory Application
  imports Coordinator Runtime_Policy Abort Logger Ipc_Server Tray_Service Autostart_Task
begin

text \<open>
  \<^verbatim>\<open>main.rs\<close>: the running application (\<^verbatim>\<open>Application\<close>), which owns the coordinator, the tray service
  and the IPC server and handles, on its one thread, requests from the pipes, actions from the tray,
  power broadcasts and the end of the session.

  A method on \<^verbatim>\<open>&mut self\<close> is a function on \<open>app\<close>, the application's struct and the world. The
  message loop is a step function on one message at a time; \<open>app_event\<close> adds everything that
  happens between two of them: turns of the layers' workers and of the tray thread, requests the
  pipe workers queue.
\<close>

record application =
  ap_coordinator :: blocker_coordinator
  ap_tray :: "tray_thread option"
  ap_requests :: ipc_queue
  ap_answers :: "(server_kind \<times> ipc_response) list"
  ap_server :: ipc_server
  ap_started_at :: nat
  ap_forced_shutdown_cleanup_completed :: bool
  ap_pending_block_restore_after_wake :: "pending_wake_restore option"
  ap_primary_instance :: nat
  ap_log_sink :: log_sink
  ap_ui_thread :: nat

type_synonym app = "application \<times> world"

definition app_mode :: "application \<Rightarrow> blocker_mode" where
  "app_mode a = coordinator_mode (ap_coordinator a)"

text \<open>\<open>ap_log_sink\<close> is the logger's static state, \<open>ap_answers\<close> what was sent to the pipe workers, and
  \<open>ap_ui_thread\<close> the thread id the pipe and tray threads were given.\<close>

subsection \<open>Calling the parts\<close>

definition on_coordinator :: "(coord, 'e, 'a) prog \<Rightarrow> (app, 'e, 'a) prog" where
  "on_coordinator m = (\<lambda>(a, w). let (r, (c, w)) = m (ap_coordinator a, w) in (r, (a\<lparr>ap_coordinator := c\<rparr>, w)))"

definition noted :: "os \<Rightarrow> string \<Rightarrow> event_source \<Rightarrow> string \<Rightarrow> bool \<Rightarrow> app \<Rightarrow> app" where
  "noted os event source message success = (\<lambda>(a, w). (a, log_event os event source message success w))"

definition on_tray :: "(tthread, string, unit) prog \<Rightarrow> (app, string, unit) prog" where
  "on_tray m = (\<lambda>(a, w).
     case ap_tray a of
       None \<Rightarrow> (Inr (), (a, w))
     | Some t \<Rightarrow> let (r, (t, w)) = m (t, w) in (r, (a\<lparr>ap_tray := Some t\<rparr>, w)))"

definition sync_tray :: "os \<Rightarrow> blocker_mode \<Rightarrow> (app, string, unit) prog" where
  "sync_tray os mode = on_tray (service_set_mode os mode)"

definition sync_tray_autostart :: "bool \<Rightarrow> (app, string, unit) prog" where
  "sync_tray_autostart enabled = on_tray (service_set_autostart enabled)"

definition log_autostart_tray_sync_failure :: "os \<Rightarrow> event_source \<Rightarrow> string \<Rightarrow> app \<Rightarrow> app" where
  "log_autostart_tray_sync_failure os source message = noted os ''autostart_tray_sync'' source message False"

definition sync_tray_autostart_with_logging :: "os \<Rightarrow> bool \<Rightarrow> event_source \<Rightarrow> string \<Rightarrow> app \<Rightarrow> app" where
  "sync_tray_autostart_with_logging os enabled source context' s =
     (case sync_tray_autostart enabled s of
        (Inr _, s) \<Rightarrow> s
      | (Inl tray_error, s) \<Rightarrow> log_autostart_tray_sync_failure os source (context' @ '': '' @ tray_error) s)"

definition clear_pending_block_restore_after_wake :: "app \<Rightarrow> app" where
  "clear_pending_block_restore_after_wake = (\<lambda>(a, w). (a\<lparr>ap_pending_block_restore_after_wake := None\<rparr>, w))"

subsection \<open>Switching the mode\<close>

text \<open>The tray could not follow: roll the blocker back, show the tray what came of it.\<close>

definition undo_set_mode :: "os \<Rightarrow> blocker_mode \<Rightarrow> blocker_mode \<Rightarrow> string \<Rightarrow> event_source \<Rightarrow> app \<Rightarrow> string \<times> app" where
  "undo_set_mode os previous_mode mode tray_error source s =
     (let (rollback_result, s) = on_coordinator (set_mode os previous_mode) s;
          final_mode = app_mode (fst s);
          (tray_resync_result, s) = sync_tray os final_mode s;
          message = ''Wardoff could not update the tray UI after switching to '' @ mode_label mode @ '' mode: '' @ tray_error @
            (case rollback_result of
               Inr _ \<Rightarrow> '' Wardoff rolled the blocker state back to '' @ mode_label previous_mode @ '' mode.''
             | Inl rollback_error \<Rightarrow>
                 '' Wardoff could not roll the blocker state back to '' @ mode_label previous_mode @
                 '' mode and is currently in '' @ mode_label final_mode @ '' mode: '' @ rollback_error) @
            (case tray_resync_result of
               Inr _ \<Rightarrow> []
             | Inl tray_resync_error \<Rightarrow>
                 '' Wardoff also could not resync the tray UI to '' @ mode_label final_mode @ '' mode: '' @ tray_resync_error)
      in (message, noted os ''state_changed'' source message False s))"

definition app_set_mode :: "os \<Rightarrow> blocker_mode \<Rightarrow> event_source \<Rightarrow> (app, string, unit) prog" where
  "app_set_mode os mode source s =
     (let previous_mode = app_mode (fst s) in
      if previous_mode = mode then sync_tray os previous_mode s
      else case on_coordinator (set_mode os mode) s of
        (Inl error, s) \<Rightarrow>
          let message = ''Wardoff could not switch from '' @ mode_label previous_mode @ '' mode to '' @ mode_label mode @
                '' mode: '' @ error
          in (Inl message, noted os ''state_changed'' source message False s)
      | (Inr _, s) \<Rightarrow>
          (case sync_tray os (app_mode (fst s)) s of
             (Inl tray_error, s) \<Rightarrow>
               let (message, s) = undo_set_mode os previous_mode mode tray_error source s in (Inl message, s)
           | (Inr _, s) \<Rightarrow>
               (Inr (), noted os ''state_changed'' source
                  (''Wardoff switched from '' @ mode_label previous_mode @ '' mode to '' @ mode_label mode @ '' mode.'') True s)))"

subsection \<open>Autostart\<close>

definition app_set_autostart_enabled :: "os \<Rightarrow> bool \<Rightarrow> event_source \<Rightarrow> (app, string, unit) prog" where
  "app_set_autostart_enabled os enabled source s =
     (let (previous, s) = on_world (is_enabled os) s;
          previous_state = (case previous of Inr b \<Rightarrow> Some b | Inl _ \<Rightarrow> None)
      in case on_world (set_enabled os enabled) s of
           (Inr _, s) \<Rightarrow>
             let s = sync_tray_autostart_with_logging os enabled source
                       (''Wardoff turned Start with Windows '' @ on_off_label enabled @ '' but could not update the tray checkbox'') s
             in (Inr (), noted os ''autostart_changed'' source
                   (''Wardoff turned Start with Windows '' @ on_off_label enabled @ ''.'') True s)
         | (Inl error, s) \<Rightarrow>
             let (actual, s) = on_world (is_enabled os) s;
                 s = (case resolved_autostart_state_for_tray previous_state actual of
                        Inr restored_state \<Rightarrow>
                          sync_tray_autostart_with_logging os restored_state source
                            (''Wardoff could not restore the tray checkbox to Start with Windows '' @ on_off_label restored_state @
                             '' after a failed scheduled-task update'') s
                      | Inl read_error \<Rightarrow>
                          log_autostart_tray_sync_failure os source
                            (''Wardoff could not restore the tray checkbox after failing to turn Start with Windows '' @
                             on_off_label enabled @
                             '' because the scheduled task state could not be read before or after the change attempt: '' @
                             read_error) s);
                 message = ''Wardoff could not turn Start with Windows '' @ on_off_label enabled @ '': '' @ error
             in (Inl message, noted os ''autostart_changed'' source message False s))"

definition refresh_autostart_tray_state :: "os \<Rightarrow> app \<Rightarrow> app" where
  "refresh_autostart_tray_state os s =
     (case on_world (is_enabled os) s of
        (Inr enabled, s) \<Rightarrow>
          sync_tray_autostart_with_logging os enabled Src_Application
            (''Wardoff could not update the tray checkbox while refreshing Start with Windows '' @ on_off_label enabled) s
      | (Inl message, s) \<Rightarrow>
          noted os ''autostart_state_read'' Src_Application
            (''Wardoff could not query scheduled task '' @ backslash @
             ''Wardoff while initializing the tray checkbox: '' @ message) False
            (sync_tray_autostart_with_logging os False Src_Application
               ''Wardoff could not update the tray checkbox while falling back to Start with Windows off during initialization'' s))"

subsection \<open>Requests from the pipes\<close>

text \<open>\<^verbatim>\<open>elapsed().as_secs()\<close>, in the clock's nanoseconds.\<close>

definition app_status_output :: "os \<Rightarrow> app \<Rightarrow> status_output \<times> app" where
  "app_status_output os = (\<lambda>(a, w).
     let (now, w) = call_value os (Thread InstantNow) w
     in (status_active (app_mode a) (coordinator_layer_status (ap_coordinator a))
           (of_nat ((now - ap_started_at a) div 1000000000)) (blocked_count w), (a, w)))"

definition handle_ipc_request :: "os \<Rightarrow> ipc_request \<Rightarrow> app \<Rightarrow> ipc_response \<times> app" where
  "handle_ipc_request os request s =
     (case request of
        SetMode mode \<Rightarrow>
          let requested_mode = blocker_mode_of mode in
          (case app_set_mode os requested_mode Src_Ipc (clear_pending_block_restore_after_wake s) of
             (Inr _, s) \<Rightarrow>
               (Resp_Ok, noted os ''mode_request_processed'' Src_Ipc
                  (''Wardoff applied a named-pipe request for '' @ mode_label requested_mode @ '' mode.'') True s)
           | (Inl message, s) \<Rightarrow>
               (Resp_Error message, noted os ''mode_request_processed'' Src_Ipc
                  (''Wardoff could not apply a named-pipe request for '' @ mode_label requested_mode @ '' mode: '' @ message) False s))
      | SetAutostart enabled \<Rightarrow>
          (case app_set_autostart_enabled os enabled Src_Ipc s of
             (Inr _, s) \<Rightarrow>
               (Resp_Ok, noted os ''autostart_request_processed'' Src_Ipc
                  (''Wardoff applied a named-pipe request to turn Start with Windows '' @ on_off_label enabled @ ''.'') True s)
           | (Inl message, s) \<Rightarrow>
               (Resp_Error message, noted os ''autostart_request_processed'' Src_Ipc
                  (''Wardoff could not apply a named-pipe request to turn Start with Windows '' @ on_off_label enabled @ '': '' @
                   message) False s))
      | Status \<Rightarrow> (let (status, s) = app_status_output os s in (Resp_Status status, s))
      | ShutdownServer \<Rightarrow>
          (Resp_Error ''Wardoff cannot route the internal shutdown request through the UI thread.'', s))"

text \<open>The answer goes to the worker that waits for it (a send to a worker that gave up is ignored).\<close>

definition answer :: "pending_request \<Rightarrow> ipc_response \<Rightarrow> app \<Rightarrow> app" where
  "answer p response = (\<lambda>(a, w).
     (if pr_awaited p then a\<lparr>ap_answers := ap_answers a @ [(pr_sender p, response)]\<rparr> else a, w))"

fun process_requests :: "os \<Rightarrow> pending_request list \<Rightarrow> app \<Rightarrow> app" where
  "process_requests os [] s = s"
| "process_requests os (p # ps) s =
     (let (response, s) = handle_ipc_request os (pr_request p) s in process_requests os ps (answer p response s))"

definition process_ipc_requests :: "os \<Rightarrow> app \<Rightarrow> app" where
  "process_ipc_requests os = (\<lambda>(a, w).
     process_requests os (iq_pending (ap_requests a)) (a\<lparr>ap_requests := (ap_requests a)\<lparr>iq_pending := []\<rparr>\<rparr>, w))"

definition reject_pending_ipc_requests :: "app \<Rightarrow> app" where
  "reject_pending_ipc_requests = (\<lambda>(a, w).
     fold (\<lambda>p. answer p shutting_down) (iq_pending (ap_requests a))
       (a\<lparr>ap_requests := (ap_requests a)\<lparr>iq_pending := []\<rparr>\<rparr>, w))"

subsection \<open>Actions from the tray\<close>

definition run_power_action :: "os \<Rightarrow> power_action \<Rightarrow> (app, string, unit) prog" where
  "run_power_action os action = (\<lambda>(a, w).
     let previous_mode = app_mode a;
         a = a\<lparr>ap_pending_block_restore_after_wake := pending_wake_restore_for_tray_power_action previous_mode action\<rparr>
     in case app_set_mode os Allow Src_Tray (a, w) of
          (Inl error, s) \<Rightarrow> (Inl error, clear_pending_block_restore_after_wake s)
        | (Inr _, s) \<Rightarrow>
            (case on_world (execute_power_action os action) s of
               (Inr _, s) \<Rightarrow>
                 (Inr (), noted os ''power_action_issued'' Src_Tray
                    (''Wardoff issued the requested '' @ power_action_label action @
                     '' power action after switching to Allow mode.'') True s)
             | (Inl message, s) \<Rightarrow>
                 let s = noted os ''power_action_issued'' Src_Tray
                           (''Wardoff could not issue the requested '' @ power_action_label action @ '' power action: '' @ message) False
                           (clear_pending_block_restore_after_wake s)
                 in if previous_mode = Block then
                      (case app_set_mode os Block Src_Tray s of
                         (Inr _, s) \<Rightarrow>
                           (Inl (message @ '' Wardoff restored Block mode after the failed '' @ debug_power_action action @ '' request.''), s)
                       | (Inl restore_error, s) \<Rightarrow>
                           (Inl (message @ '' Wardoff could not restore Block mode after the failed '' @ debug_power_action action @
                                 '' request and remains in '' @ mode_label (app_mode (fst s)) @ '' mode: '' @ restore_error), s))
                    else (Inl (message @ '' Wardoff remains in '' @ mode_label (app_mode (fst s)) @ '' mode.''), s)))"

definition handle_tray_action :: "os \<Rightarrow> tray_action \<Rightarrow> (app, string, bool) prog" where
  "handle_tray_action os action s =
     (case action of
        Tray_Block \<Rightarrow>
          and_then (app_set_mode os Block Src_Tray) (\<lambda>_ s.
            (Inr False, noted os ''tray_action'' Src_Tray ''Wardoff processed a Block request from the tray menu.'' True s))
            (clear_pending_block_restore_after_wake s)
      | Tray_Allow \<Rightarrow>
          and_then (app_set_mode os Allow Src_Tray) (\<lambda>_ s.
            (Inr False, noted os ''tray_action'' Src_Tray ''Wardoff processed an Allow request from the tray menu.'' True s))
            (clear_pending_block_restore_after_wake s)
      | Tray_SetAutostart enabled \<Rightarrow>
          and_then (app_set_autostart_enabled os enabled Src_Tray) (\<lambda>_ s.
            (Inr False, noted os ''tray_action'' Src_Tray
               (''Wardoff processed a Start with Windows request to turn autostart '' @ on_off_label enabled @ ''.'') True s)) s
      | Tray_Shutdown \<Rightarrow> and_then (run_power_action os PA_Shutdown) (\<lambda>_. ok False) s
      | Tray_Reboot \<Rightarrow> and_then (run_power_action os PA_Reboot) (\<lambda>_. ok False) s
      | Tray_Sleep \<Rightarrow> and_then (run_power_action os PA_Sleep) (\<lambda>_. ok False) s
      | Tray_Hibernate \<Rightarrow> and_then (run_power_action os PA_Hibernate) (\<lambda>_. ok False) s
      | Tray_Quit \<Rightarrow>
          (Inr True, noted os ''quit_requested'' Src_Tray ''Wardoff received a Quit request from the tray menu.'' True s))"

fun debug_tray_action :: "tray_action \<Rightarrow> string" where
  "debug_tray_action Tray_Block = ''Block''"
| "debug_tray_action Tray_Allow = ''Allow''"
| "debug_tray_action (Tray_SetAutostart enabled) = ''SetAutostart('' @ (if enabled then ''true'' else ''false'') @ '')''"
| "debug_tray_action Tray_Shutdown = ''Shutdown''"
| "debug_tray_action Tray_Reboot = ''Reboot''"
| "debug_tray_action Tray_Sleep = ''Sleep''"
| "debug_tray_action Tray_Hibernate = ''Hibernate''"
| "debug_tray_action Tray_Quit = ''Quit''"

text \<open>The actions drained in one go; the ones after a Quit are dropped.\<close>

fun process_actions :: "os \<Rightarrow> tray_action list \<Rightarrow> app \<Rightarrow> bool \<times> app" where
  "process_actions os [] s = (False, s)"
| "process_actions os (action # actions) s =
     (case handle_tray_action os action s of
        (Inr True, s) \<Rightarrow> (True, s)
      | (Inr False, s) \<Rightarrow> process_actions os actions s
      | (Inl message, s) \<Rightarrow>
          process_actions os actions
            (noted os ''tray_action'' Src_Tray
               (''Wardoff could not process the '' @ debug_tray_action action @ '' tray action: '' @ message) False s))"

definition process_tray_actions :: "os \<Rightarrow> app \<Rightarrow> bool \<times> app" where
  "process_tray_actions os = (\<lambda>(a, w).
     case ap_tray a of
       None \<Rightarrow> (False, (a, w))
     | Some t \<Rightarrow> let (actions, t) = service_drain_actions t in process_actions os actions (a\<lparr>ap_tray := Some t\<rparr>, w))"

subsection \<open>Suspend, resume and the end of the session\<close>

definition restore_block_after_wake_if_needed :: "os \<Rightarrow> app \<Rightarrow> app" where
  "restore_block_after_wake_if_needed os = (\<lambda>(a, w).
     case pending_wake_restore_ready_for_resume (ap_pending_block_restore_after_wake a) of
       None \<Rightarrow> (a, w)
     | Some action \<Rightarrow>
         let s = clear_pending_block_restore_after_wake (a, w);
             previous_mode = app_mode (fst s)
         in case on_coordinator (set_mode os Block) s of
              (Inl error, s) \<Rightarrow>
                noted os ''block_restored_after_wake'' Src_Tray
                  (''Wardoff could not restore Block mode after the tray-initiated '' @ power_action_label action @
                   '' request woke the system: '' @ error) False s
            | (Inr _, s) \<Rightarrow>
                let s = (if previous_mode \<noteq> Block then
                           noted os ''state_changed'' Src_Tray
                             (''Wardoff switched from '' @ mode_label previous_mode @ '' mode to Block mode.'') True s
                         else s)
                in (case sync_tray os (app_mode (fst s)) s of
                      (Inr _, s) \<Rightarrow>
                        noted os ''block_restored_after_wake'' Src_Tray
                          (''Wardoff restored Block mode after the tray-initiated '' @ power_action_label action @
                           '' request woke the system.'') True s
                    | (Inl tray_error, s) \<Rightarrow>
                        noted os ''block_restored_after_wake'' Src_Tray
                          (''Wardoff restored Block mode after the tray-initiated '' @ power_action_label action @
                           '' request woke the system, but could not refresh the tray UI immediately: '' @ tray_error) True s))"

definition app_handle_power_broadcast :: "os \<Rightarrow> power_broadcast_event \<Rightarrow> app \<Rightarrow> app" where
  "app_handle_power_broadcast os event s =
     (case event of
        Suspend \<Rightarrow>
          (case s of (a, w) \<Rightarrow>
             (a\<lparr>ap_pending_block_restore_after_wake :=
                  map_option mark_system_suspended (ap_pending_block_restore_after_wake a)\<rparr>, w))
      | Resume \<Rightarrow>
          restore_block_after_wake_if_needed os
            (case on_coordinator (renew_sleep_requests_after_resume os) s of
               (Inr _, s) \<Rightarrow> s
             | (Inl error, s) \<Rightarrow> noted os ''sleep_resume_failed'' Src_Sleep error False s))"

definition handle_forced_shutdown_cleanup :: "os \<Rightarrow> app \<Rightarrow> app" where
  "handle_forced_shutdown_cleanup os = (\<lambda>(a, w).
     if ap_forced_shutdown_cleanup_completed a then (a, w)
     else
       let (a, w) = clear_pending_block_restore_after_wake (a\<lparr>ap_forced_shutdown_cleanup_completed := True\<rparr>, w);
           (c, w) = forced_shutdown_cleanup os (ap_coordinator a, w)
       in noted os ''application_forced_shutdown'' Src_Application ''Wardoff shutting down due to user-forced shutdown'' True
            (a\<lparr>ap_coordinator := c\<rparr>, w))"

subsection \<open>The message loop\<close>

text \<open>One round of \<^verbatim>\<open>run_message_loop\<close>: \<^verbatim>\<open>PeekMessageW\<close> returned a message for a window (the
  window procedure is Layer 1's, with the application's callbacks), a wake-up posted to the
  thread, or nothing. \<open>Some\<close> means the loop ended, with its result.\<close>

datatype loop_input = Peeked nat u32 u64 u64 | Queue_Empty

definition process_pending :: "os \<Rightarrow> app \<Rightarrow> bool \<times> app" where
  "process_pending os s = process_tray_actions os (process_ipc_requests os s)"

definition message_step :: "os \<Rightarrow> loop_input \<Rightarrow> app \<Rightarrow> unit res option \<times> app" where
  "message_step os input s =
     (case input of
        Peeked hwnd message wparam lparam \<Rightarrow>
          if message = WM_QUIT then (Some (Inr ()), s)
          else
            let s = (if message = IPC_WAKE_MESSAGE \<or> message = TRAY_ACTION_WAKE_MESSAGE then s
                     else snd (shutdown_window_proc os (handle_forced_shutdown_cleanup os) (app_handle_power_broadcast os)
                                 hwnd message wparam lparam s));
                (quit, s) = process_pending os s
            in (if quit then Some (Inr ()) else None, s)
      | Queue_Empty \<Rightarrow>
          let (quit, s) = process_pending os s in
          if quit then (Some (Inr ()), s)
          else (case on_world (call_unit os (App WaitMessage)) s of
                  (Inr _, s) \<Rightarrow> (None, s)
                | (Inl e, s) \<Rightarrow> (Some (Inl (err_text e)), s)))"

subsection \<open>Startup and shutdown\<close>

text \<open>\<^verbatim>\<open>shutdown\<close> as one pass: a join is a call that returns, and nothing is queued between the drain and
  the joins. What happens otherwise is the subject of \<^verbatim>\<open>Status_Shutdown\<close>, where the pipe threads
  run beside it.\<close>

definition app_shutdown :: "os \<Rightarrow> ipc_codec \<Rightarrow> log_env \<Rightarrow> (app, string, unit) prog" where
  "app_shutdown os codec env = (\<lambda>(a, w).
     let (srv, w) = ipc_begin_shutdown os (ap_server a, w);
         (a, w) = reject_pending_ipc_requests (a\<lparr>ap_server := srv\<rparr>, w);
         (ipc_result, (srv, w)) = ipc_shutdown os codec (ap_server a, w);
         a = a\<lparr>ap_server := srv\<rparr>;
         (blocker_result, (a, w)) = on_coordinator (coordinator_shutdown os) (a, w);
         (a, w) = (case ap_tray a of
                     None \<Rightarrow> (a, w)
                   | Some t \<Rightarrow> let (t, w) = service_shutdown os (t, w) in (a\<lparr>ap_tray := Some t\<rparr>, w));
         result = (case (ipc_result, blocker_result) of
                     (Inr _, Inr _) \<Rightarrow> Inr ()
                   | (Inl e, Inr _) \<Rightarrow> Inl e
                   | (Inr _, Inl e) \<Rightarrow> Inl e
                   | (Inl e, Inl e') \<Rightarrow>
                       Inl (''Wardoff encountered shutdown errors in both the IPC server and blocker coordinator: '' @ e @ ''; '' @ e'));
         (a, w) = (case result of
                     Inr _ \<Rightarrow> noted os ''application_stopped'' Src_Application ''Wardoff shut down cleanly.'' True (a, w)
                   | Inl e \<Rightarrow> noted os ''application_stopped'' Src_Application (''Wardoff shut down with an error: '' @ e) False (a, w));
         (sk, w) = shutdown_structured_logging os env (ap_log_sink a, w)
     in (result, (a\<lparr>ap_log_sink := sk\<rparr>, w)))"

text \<open>\<^verbatim>\<open>run\<close>: the cleanup runs whatever the loop returned, and both failures are kept.\<close>

definition combine_results :: "unit res \<Rightarrow> unit res \<Rightarrow> unit res" where
  "combine_results loop_result cleanup_result =
     (case (loop_result, cleanup_result) of
        (Inr _, Inr _) \<Rightarrow> Inr ()
      | (Inl loop_error, Inr _) \<Rightarrow> Inl loop_error
      | (Inr _, Inl cleanup_error) \<Rightarrow> Inl cleanup_error
      | (Inl loop_error, Inl cleanup_error) \<Rightarrow>
          Inl (''runtime loop failed: '' @ loop_error @ ''; cleanup failed: '' @ cleanup_error))"

definition run_start :: "app \<Rightarrow> app" where
  "run_start = (\<lambda>(a, w). (a, set_power_broadcast_callback (set_end_session_cleanup_callback w)))"

definition run_cleanup :: "os \<Rightarrow> ipc_codec \<Rightarrow> log_env \<Rightarrow> (app, string, unit) prog" where
  "run_cleanup os codec env = (\<lambda>(a, w).
     app_shutdown os codec env (a, clear_power_broadcast_callback (clear_end_session_cleanup_callback w)))"

definition run_finish :: "os \<Rightarrow> ipc_codec \<Rightarrow> log_env \<Rightarrow> unit res \<Rightarrow> (app, string, unit) prog" where
  "run_finish os codec env loop_result s =
     (let (cleanup_result, s) = run_cleanup os codec env s in (combine_results loop_result cleanup_result, s))"

fun tray_surface_label :: "tray_surface \<Rightarrow> string" where
  "tray_surface_label Surface_Visible = ''a visible tray icon''"
| "tray_surface_label Surface_Hidden = ''a hidden tray icon''"
| "tray_surface_label Surface_Headless = ''no tray icon''"


definition application_start_message :: "runtime_options \<Rightarrow> string" where
  "application_start_message options =
     ''Wardoff started in '' @ mode_label (initial_mode options) @ '' mode with '' @
     tray_surface_label (tray_surface options) @ ''.''"

definition start_tray :: "os \<Rightarrow> tray_statics \<Rightarrow> tray_surface \<Rightarrow> blocker_mode \<Rightarrow> (world, string, tray_thread option) prog" where
  "start_tray os k surface mode =
     (case surface of
        Surface_Headless \<Rightarrow> ok None
      | Surface_Visible \<Rightarrow> and_then (spawn_tray_service os Visible mode k) (\<lambda>t. ok (Some t))
      | Surface_Hidden \<Rightarrow> and_then (spawn_tray_service os Hidden mode k) (\<lambda>t. ok (Some t)))"

text \<open>\<^verbatim>\<open>bootstrap\<close>. On every error the instance guard is dropped, and the coordinator with it once
  there is one; \<open>reports\<close> are the startup reports of the two pipe workers. (A tray thread that
  was already running when the IPC server fails sees its channel closed; the process ends there.)\<close>

definition bootstrap :: "os \<Rightarrow> ipc_codec \<Rightarrow> tray_statics \<Rightarrow> (server_kind \<times> unit res) list \<Rightarrow> nat \<Rightarrow> runtime_options \<Rightarrow>
    (log_sink \<times> world, string, application) prog" where
  "bootstrap os codec k reports primary_instance options s =
     (case initialize_structured_logging os s of
        (Inl e, (sk, w)) \<Rightarrow> (Inl e, (sk, instance_guard_drop os primary_instance w))
      | (Inr _, (sk, w)) \<Rightarrow>
          (case create_blocker_coordinator os (initial_mode options) w of
             (Inl e, w) \<Rightarrow> (Inl e, (sk, instance_guard_drop os primary_instance w))
           | (Inr c, w) \<Rightarrow>
               let (ui_thread_id, w) = call_value os (App GetCurrentThreadId) w in
               (case start_tray os k (tray_surface options) (coordinator_mode c) w of
                  (Inl e, w) \<Rightarrow> (Inl e, (sk, instance_guard_drop os primary_instance (coordinator_drop os (c, w))))
                | (Inr tray, w) \<Rightarrow>
                    (case ipc_start os codec reports w of
                       (Inl e, w) \<Rightarrow> (Inl e, (sk, instance_guard_drop os primary_instance (coordinator_drop os (c, w))))
                     | (Inr server, w) \<Rightarrow>
                         let w = log_event os ''application_started'' Src_Application (application_start_message options) True w;
                             w = log_event os ''state_changed'' Src_Application
                                   (''Wardoff transitioned from inactive to '' @ mode_label (initial_mode options) @
                                    '' mode during startup.'') True w;
                             (now, w) = call_value os (Thread InstantNow) w;
                             (a, w) = refresh_autostart_tray_state os
                               (\<lparr>ap_coordinator = c, ap_tray = tray, ap_requests = \<lparr>iq_pending = [], iq_open = True\<rparr>,
                                 ap_answers = [], ap_server = server, ap_started_at = now,
                                 ap_forced_shutdown_cleanup_completed = False,
                                 ap_pending_block_restore_after_wake = None, ap_primary_instance = primary_instance,
                                 ap_log_sink = sk, ap_ui_thread = ui_thread_id\<rparr>, w)
                         in (Inr a, (sk, w))))))"

subsection \<open>Everything that happens while the application runs\<close>

text \<open>A round of the message loop; a turn of a layer's worker; a pass of the tray thread (\<open>ui\<close> is
  the thread it wakes) or the end of its wait; a request a pipe worker queues.\<close>

datatype app_event =
    Ev_Loop loop_input
  | Ev_Local_Turn
  | Ev_Update_Turn
  | Ev_Remote_Turn
  | Ev_Tray_Turn "u32 list" "string list"
  | Ev_Tray_Wake
  | Ev_Request server_kind ipc_request bool

definition turn_layer :: "(coord \<Rightarrow> coord) \<Rightarrow> app \<Rightarrow> app" where
  "turn_layer f = (\<lambda>(a, w). let (c, w) = f (ap_coordinator a, w) in (a\<lparr>ap_coordinator := c\<rparr>, w))"

definition turn_tray :: "os \<Rightarrow> nat \<Rightarrow> tray_event \<Rightarrow> app \<Rightarrow> app" where
  "turn_tray os ui e = (\<lambda>(a, w).
     case ap_tray a of
       None \<Rightarrow> (a, w)
     | Some t \<Rightarrow> let (t, w) = tray_step os ui e (t, w) in (a\<lparr>ap_tray := Some t\<rparr>, w))"

fun app_event_step :: "os \<Rightarrow> nat \<Rightarrow> app_event \<Rightarrow> app \<Rightarrow> app" where
  "app_event_step os ui (Ev_Loop input) s = snd (message_step os input s)"
| "app_event_step os ui Ev_Local_Turn s = turn_layer (do_local (local_worker_turn os)) s"
| "app_event_step os ui Ev_Update_Turn s = turn_layer (do_update (update_worker_turn os)) s"
| "app_event_step os ui Ev_Remote_Turn s = turn_layer (do_remote (remote_worker_turn os)) s"
| "app_event_step os ui (Ev_Tray_Turn messages clicks) s = turn_tray os ui (Tray_Turn messages clicks) s"
| "app_event_step os ui Ev_Tray_Wake s = turn_tray os ui Tray_Wake s"
| "app_event_step os ui (Ev_Request sender request awaited) (a, w) =
     (a\<lparr>ap_requests := enqueue sender request awaited (ap_requests a)\<rparr>, w)"

end
