(* ===== verification/Application_Invariant.thy ===== *)
theory Application_Invariant
  imports Application
begin

text \<open>
  What holds of the application in every state it can reach: the coordinator's invariant, Layer 1's
  callbacks registered, the tray thread told the mode the coordinator is in, and a restore after
  wake-up pending only in Allow mode. Every operation keeps it until Windows ends the session by force.
\<close>

subsection \<open>The flags of the session end\<close>

definition session_flags :: "world \<Rightarrow> bool \<times> bool \<times> bool" where
  "session_flags w = (end_session_cleanup_callback w, end_session_cleanup_started w, power_broadcast_callback w)"

lemma control_session_flags: "control w' = control w \<Longrightarrow> session_flags w' = session_flags w"
  by (simp add: control_def session_flags_def)

definition flags_kept :: "(bool \<times> bool \<times> bool) \<Rightarrow> coord \<Rightarrow> bool" where
  "flags_kept f s \<longleftrightarrow> layers_inv (fst s) \<and> session_flags (snd s) = f"

lemma flags_kept_bg: "bg_ok s s' \<Longrightarrow> flags_kept f s \<Longrightarrow> flags_kept f s'"
  by (auto simp: flags_kept_def bg_ok_def dest: control_session_flags)

lemma flags_kept_background:
  assumes "flags_kept f s"
  shows "flags_kept f (snd (in_local (local_activate os) s))" "flags_kept f (snd (in_update (update_activate os) s))"
    "flags_kept f (snd (in_remote (remote_activate os) s))" "flags_kept f (snd (in_sleep (sleep_activate os) s))"
    "flags_kept f (snd (in_sleep (sleep_renew_after_resume os) s))" "flags_kept f (background_off os s)"
proof -
  have inv: "layers_inv (fst s)" using assms by (simp add: flags_kept_def)
  note b = in_background_ok [OF inv, of "snd s" os, unfolded prod.collapse]
  show "flags_kept f (snd (in_local (local_activate os) s))" by (rule flags_kept_bg [OF b(1) assms])
  show "flags_kept f (snd (in_update (update_activate os) s))" by (rule flags_kept_bg [OF b(2) assms])
  show "flags_kept f (snd (in_remote (remote_activate os) s))" by (rule flags_kept_bg [OF b(3) assms])
  show "flags_kept f (snd (in_sleep (sleep_activate os) s))" by (rule flags_kept_bg [OF b(4) assms])
  show "flags_kept f (snd (in_sleep (sleep_renew_after_resume os) s))" by (rule flags_kept_bg [OF b(5) assms])
  show "flags_kept f (background_off os s)"
    using background_off_ok [OF inv] assms by (blast intro: flags_kept_bg)
qed

lemma flags_kept_layer1:
  assumes "flags_kept f s"
  shows "flags_kept f (snd (in_shutdown (shutdown_activate os) s))"
    and "flags_kept f (snd (in_shutdown (shutdown_deactivate os) s))"
  using assms
  by (cases s; auto simp: flags_kept_def in_shutdown_def shutdown_activate_def shutdown_deactivate_def layers_inv_def
      session_flags_def call_eqs Let_def split: option.split)+

lemma flags_kept_activation:
  assumes "flags_kept f s"
  shows "flags_kept f (snd (activation_sequence os s))"
  unfolding activation_sequence_def using assms
  by (intro and_then_keeps [where P = "flags_kept f"]) (simp_all add: flags_kept_background flags_kept_layer1)

lemma set_mode_flags:
  assumes "layers_inv (fst s)"
  shows "session_flags (snd (snd (set_mode os m s))) = session_flags (snd s)"
proof -
  let ?f = "session_flags (snd s)"
  have s: "flags_kept ?f s" using assms by (simp add: flags_kept_def)
  obtain r s1 where a: "activation_sequence os s = (r, s1)" by (cases "activation_sequence os s")
  have 1: "flags_kept ?f s1" using flags_kept_activation [OF s, of os] a by simp
  have roll: "rollback_failed_block_activation os e s1 = (message, s2) \<Longrightarrow> flags_kept ?f s2" for e message s2
    using flags_kept_layer1(2) [OF flags_kept_background(6) [OF 1, of os], of os]
    by (auto simp: rollback_failed_block_activation_def background_off_def Let_def case_prod_beta)
  have off: "activate_allow_mode os s = (r2, s2) \<Longrightarrow> flags_kept ?f s2" for r2 s2
    using flags_kept_background(6) [OF flags_kept_layer1(2) [OF s, of os], of os]
    by (auto simp: activate_allow_mode_def deactivate_allow_mode_layers_def background_off_def map_error_def Let_def
        split: prod.splits sum.splits)
  have "flags_kept ?f (snd (case m of Block \<Rightarrow> activate_block_mode os s | Allow \<Rightarrow> activate_allow_mode os s))"
  proof (cases m)
    case Block
    obtain message s2 where rb: "rollback_failed_block_activation os (case r of Inl e \<Rightarrow> e | Inr _ \<Rightarrow> []) s1 = (message, s2)"
      by (rule prod.exhaust)
    with 1 a roll [OF rb] Block show ?thesis by (cases r) (simp_all add: activate_block_mode_def)
  next
    case Allow
    then show ?thesis using off by (cases "activate_allow_mode os s") simp
  qed
  then show ?thesis
    by (auto simp: set_mode_def flags_kept_def split: prod.splits sum.splits)
qed


subsection \<open>The invariant and its frame\<close>

definition tray_mode :: "tray_thread \<Rightarrow> blocker_mode" where
  "tray_mode t = fst (snd (target t))"

text \<open>A running tray thread shows the coordinator's mode, or will once it has handled its queue.\<close>

definition tray_synced :: "application \<Rightarrow> bool" where
  "tray_synced a \<longleftrightarrow> (\<forall>t. ap_tray a = Some t \<and> tt_running t \<longrightarrow> tray_mode t = app_mode a)"

definition live :: "app \<Rightarrow> bool" where
  "live s \<longleftrightarrow> \<not> ap_forced_shutdown_cleanup_completed (fst s) \<and> end_session_cleanup_callback (snd s) \<and>
     \<not> end_session_cleanup_started (snd s) \<and> coord_inv (ap_coordinator (fst s), snd s)"

definition good :: "app \<Rightarrow> bool" where
  "good s \<longleftrightarrow> live s \<and> tray_synced (fst s)"

definition waiting_actions :: "application \<Rightarrow> tray_action list" where
  "waiting_actions a = (case ap_tray a of Some t \<Rightarrow> tt_actions t | None \<Rightarrow> [])"

text \<open>What a mode switch leaves alone.\<close>

definition rest :: "application \<Rightarrow> pending_wake_restore option \<times> ipc_queue \<times> tray_action list" where
  "rest a = (ap_pending_block_restore_after_wake a, ap_requests a, waiting_actions a)"

text \<open>A step that does not touch the blocker.\<close>

definition calm :: "app \<Rightarrow> app \<Rightarrow> bool" where
  "calm s s' \<longleftrightarrow> control (snd s') = control (snd s) \<and> ap_coordinator (fst s') = ap_coordinator (fst s) \<and>
     ap_forced_shutdown_cleanup_completed (fst s') = ap_forced_shutdown_cleanup_completed (fst s) \<and>
     rest (fst s') = rest (fst s) \<and> (tray_synced (fst s) \<longrightarrow> tray_synced (fst s'))"

lemma calm_refl [simp]: "calm s s"
  by (simp add: calm_def)

lemma calm_trans [trans]: "calm s s' \<Longrightarrow> calm s' s'' \<Longrightarrow> calm s s''"
  by (simp add: calm_def)

lemma calm_mode: "calm s s' \<Longrightarrow> app_mode (fst s') = app_mode (fst s)"
  by (simp add: calm_def app_mode_def)

lemma calm_rest: "calm s s' \<Longrightarrow> rest (fst s') = rest (fst s)"
  by (simp add: calm_def)

lemma coord_inv_control: "control w' = control w \<Longrightarrow> coord_inv (c, w') = coord_inv (c, w)"
  by (simp add: coord_inv_def control_def)

lemma calm_live: "calm s s' \<Longrightarrow> live s' = live s"
  using coord_inv_control [of "snd s'" "snd s" "ap_coordinator (fst s)"]
  by (auto simp: calm_def live_def control_def)

lemma calm_good: "calm s s' \<Longrightarrow> good s \<Longrightarrow> good s'"
  by (auto simp: good_def calm_live) (simp add: calm_def)

lemma calm_noted [simp]: "calm s (noted os e src m b s)"
  by (cases s) (simp add: calm_def noted_def)

lemma noted_good [simp]: "good (noted os e src m b s) = good s" "rest (fst (noted os e src m b s)) = rest (fst s)"
    "app_mode (fst (noted os e src m b s)) = app_mode (fst s)"
  by (cases s; auto simp: noted_def good_def live_def coord_inv_control [of "log_event os e src m b _"])+

lemma noted_pending [simp]:
  "ap_pending_block_restore_after_wake (fst (noted os e src m b s)) = ap_pending_block_restore_after_wake (fst s)"
  by (cases s) (simp add: noted_def)

lemma calm_on_world:
  assumes "keeps_control m" and "on_world m s = (r, s')"
  shows "calm s s'"
  using assms keeps_controlD [OF assms(1)] by (cases s) (auto simp: on_world_def calm_def split: prod.splits)

subsection \<open>The tray\<close>

lemma drain_keeps_actions:
  assumes "drain_commands os commands (t, w) = (results, (t', w'))"
  shows "tt_actions t' = tt_actions t"
  using assms
  by (induction commands arbitrary: t w results) (auto simp: tray_exit_def Let_def split: prod.splits if_splits)

lemma service_set_mode_actions:
  assumes "service_set_mode os mode (t, w) = (r, (t', w'))"
  shows "tt_actions t' = tt_actions t"
  using assms drain_keeps_actions
  by (auto simp: service_set_mode_def service_send_def and_then_def await_result_def call_unit_cases Let_def
      simp del: drain_commands.simps split: if_splits option.splits prod.splits)

lemma wish_mode: "fst (snd (wish_after (Cmd_SetMode m) v)) = m" "fst (snd (wish_after (Cmd_SetAutostart b) v)) = fst (snd v)"
  by (cases v; simp)+

lemma sync_tray_outcome:
  assumes "sync_tray os m (a, w) = (r, (a', w'))"
  shows "control w' = control w \<and> ap_coordinator a' = ap_coordinator a \<and> rest a' = rest a \<and>
    ap_forced_shutdown_cleanup_completed a' = ap_forced_shutdown_cleanup_completed a \<and>
    (\<forall>t. ap_tray a' = Some t \<and> tt_running t \<longrightarrow> tray_mode t = m)"
proof (cases "ap_tray a")
  case (Some t)
  obtain r1 t1 w1 where s: "service_set_mode os m (t, w) = (r1, (t1, w1))" by (metis prod.exhaust)
  from assms Some s service_set_mode_frame [OF s] service_set_mode_actions [OF s] show ?thesis
    by (auto simp: sync_tray_def on_tray_def tray_mode_def wish_mode rest_def waiting_actions_def)
qed (use assms in \<open>simp add: sync_tray_def on_tray_def\<close>)

lemma sync_tray_good:
  assumes "sync_tray os (app_mode (fst s)) s = (r, s')" and "live s"
  shows "good s' \<and> rest (fst s') = rest (fst s) \<and> app_mode (fst s') = app_mode (fst s)"
proof -
  obtain a w a' w' where s: "s = (a, w)" "s' = (a', w')" by (metis prod.exhaust)
  note t = sync_tray_outcome [of os "app_mode a" a w r a' w']
  with assms s coord_inv_control [of w' w "ap_coordinator a"] show ?thesis
    by (auto simp: good_def live_def tray_synced_def app_mode_def control_def)
qed

lemma sync_autostart_calm:
  assumes "sync_tray_autostart enabled s = (r, s')"
  shows "calm s s'"
proof -
  obtain a w where s: "s = (a, w)" by (rule prod.exhaust)
  show ?thesis
  proof (cases "ap_tray a")
    case (Some t)
    obtain r1 t1 w1 where m: "service_set_autostart enabled (t, w) = (r1, (t1, w1))" by (metis prod.exhaust)
    then have "tt_actions t1 = tt_actions t" by (auto simp: service_set_autostart_def service_send_def split: if_splits)
    with assms s Some m service_set_autostart_frame [OF m] show ?thesis
      by (auto simp: sync_tray_autostart_def on_tray_def calm_def tray_synced_def tray_mode_def wish_mode rest_def
          waiting_actions_def app_mode_def)
  qed (use assms s in \<open>simp add: sync_tray_autostart_def on_tray_def\<close>)
qed

lemma sync_autostart_logging_calm: "calm s (sync_tray_autostart_with_logging os enabled src message s)"
proof -
  obtain r s1 where m: "sync_tray_autostart enabled s = (r, s1)" by (rule prod.exhaust)
  from sync_autostart_calm [OF m] m show ?thesis
    by (cases r) (auto simp: sync_tray_autostart_with_logging_def log_autostart_tray_sync_failure_def intro: calm_trans)
qed


lemma calm_then:
  "calm s s1 \<Longrightarrow> calm s (noted os e src m b s1)"
  "calm s s1 \<Longrightarrow> calm s (sync_tray_autostart_with_logging os enabled src m s1)"
  using calm_noted sync_autostart_logging_calm by (blast intro: calm_trans)+

subsection \<open>Switching the mode\<close>

lemma coordinator_switch:
  assumes "on_coordinator (set_mode os m) s = (r, s')" and "live s"
  shows "live s' \<and> rest (fst s') = rest (fst s) \<and> ap_tray (fst s') = ap_tray (fst s) \<and>
    app_mode (fst s') = (if is_ok r then m else app_mode (fst s))"
proof -
  obtain a w where s: "s = (a, w)" by (rule prod.exhaust)
  obtain r1 c1 w1 where m: "set_mode os m (ap_coordinator a, w) = (r1, (c1, w1))" by (metis prod.exhaust)
  have eq: "r = r1" "s' = (a\<lparr>ap_coordinator := c1\<rparr>, w1)" using assms(1) s m by (simp_all add: on_coordinator_def)
  have inv: "coord_inv (ap_coordinator a, w)" using assms(2) s by (simp add: live_def)
  have inv1: "coord_inv (c1, w1)" "bc_mode c1 = (if is_ok r1 then m else bc_mode (ap_coordinator a))"
    using coordinator_modes.switch_outcome [OF inv m] by simp_all
  have "layers_inv (ap_coordinator a)" using inv by (simp add: coord_inv_def)
  then have flags: "session_flags w1 = session_flags w" using set_mode_flags [of "(ap_coordinator a, w)" os m] m by simp
  with inv1 flags assms(2) s show ?thesis
    by (auto simp: eq live_def app_mode_def coordinator_mode_def rest_def waiting_actions_def session_flags_def)
qed

lemma undo_set_mode_outcome:
  assumes "undo_set_mode os previous m e src s = (message, s')" and "live s"
  shows "good s' \<and> rest (fst s') = rest (fst s) \<and> app_mode (fst s') \<in> {previous, app_mode (fst s)}"
proof -
  obtain r s1 where c: "on_coordinator (set_mode os previous) s = (r, s1)" by (rule prod.exhaust)
  note 1 = coordinator_switch [OF c assms(2)]
  obtain r2 s2 where t: "sync_tray os (app_mode (fst s1)) s1 = (r2, s2)" by (rule prod.exhaust)
  note 2 = sync_tray_good [OF t]
  have "\<exists>message. s' = noted os ''state_changed'' src message False s2"
    using assms(1) c t by (auto simp: undo_set_mode_def Let_def)
  with 1 2 show ?thesis by (auto split: if_splits)
qed

lemma app_set_mode_outcome:
  assumes "app_set_mode os m src s = (r, s')" and "good s"
  shows "good s' \<and> rest (fst s') = rest (fst s) \<and>
    (case r of Inr _ \<Rightarrow> app_mode (fst s') = m | Inl _ \<Rightarrow> app_mode (fst s') \<in> {app_mode (fst s), m})"
proof (cases "app_mode (fst s) = m")
  case True
  then have "sync_tray os (app_mode (fst s)) s = (r, s')" using assms(1) by (simp add: app_set_mode_def Let_def)
  from sync_tray_good [OF this] assms(2) True show ?thesis by (simp add: good_def split: sum.split)
next
  case False
  have l: "live s" using assms(2) by (simp add: good_def)
  obtain r1 s1 where c: "on_coordinator (set_mode os m) s = (r1, s1)" by (rule prod.exhaust)
  note 1 = coordinator_switch [OF c l]
  show ?thesis
  proof (cases r1)
    case (Inl error)
    then have "good s1" using 1 assms(2) by (simp add: good_def tray_synced_def)
    with assms(1) False c 1 Inl show ?thesis by (auto simp: app_set_mode_def Let_def)
  next
    case (Inr changed)
    obtain r2 s2 where t: "sync_tray os (app_mode (fst s1)) s1 = (r2, s2)" by (rule prod.exhaust)
    note 2 = sync_tray_good [OF t]
    show ?thesis
    proof (cases r2)
      case (Inl tray_error)
      obtain message s3 where u: "undo_set_mode os (app_mode (fst s)) m tray_error src s2 = (message, s3)" by (rule prod.exhaust)
      have "live s2" using 1 2 by (simp add: good_def)
      note 3 = undo_set_mode_outcome [OF u this]
      have "r = Inl message" "s' = s3"
        using assms(1) False c t u Inl Inr by (auto simp: app_set_mode_def Let_def)
      with 1 2 3 Inr show ?thesis by auto
    next
      case (Inr u)
      then show ?thesis
        using assms(1) False c t 1 2 \<open>r1 = Inr changed\<close> by (auto simp: app_set_mode_def Let_def)
    qed
  qed
qed

subsection \<open>Autostart and status requests\<close>

lemma app_set_autostart_calm:
  assumes "app_set_autostart_enabled os enabled src s = (r, s')"
  shows "calm s s'"
proof -
  obtain p s1 where 1: "on_world (is_enabled os) s = (p, s1)" by (rule prod.exhaust)
  obtain r2 s2 where 2: "on_world (set_enabled os enabled) s1 = (r2, s2)" by (rule prod.exhaust)
  obtain p3 s3 where 3: "on_world (is_enabled os) s2 = (p3, s3)" by (rule prod.exhaust)
  have c: "calm s s2" "calm s s3"
    using calm_on_world [OF keeps_is_enabled 1] calm_on_world [OF keeps_set_enabled 2] calm_on_world [OF keeps_is_enabled 3]
    by (blast intro: calm_trans)+
  with assms 1 2 3 show ?thesis
    by (cases r2; cases "resolved_autostart_state_for_tray (case p of Inr b \<Rightarrow> Some b | Inl _ \<Rightarrow> None) p3")
      (auto simp: app_set_autostart_enabled_def log_autostart_tray_sync_failure_def Let_def calm_then)
qed

lemma refresh_autostart_calm: "calm s (refresh_autostart_tray_state os s)"
proof -
  obtain r s1 where 1: "on_world (is_enabled os) s = (r, s1)" by (rule prod.exhaust)
  have "calm s s1" by (rule calm_on_world [OF keeps_is_enabled 1])
  with 1 sync_autostart_logging_calm show ?thesis
    by (cases r) (auto simp: refresh_autostart_tray_state_def calm_then)
qed

lemma status_output_calm:
  assumes "app_status_output os s = (status, s')"
  shows "calm s s' \<and> so_state status = status_state_of (app_mode (fst s)) \<and>
    so_layers status = Some (coordinator_layer_status (ap_coordinator (fst s)))"
  using assms by (cases s) (auto simp: app_status_output_def calm_def call_value_eq status_active_def)


subsection \<open>Requests\<close>

definition queues :: "application \<Rightarrow> ipc_queue \<times> tray_action list" where
  "queues a = (ap_requests a, waiting_actions a)"

lemma rest_queues: "rest a' = rest a \<Longrightarrow> queues a' = queues a"
    "rest a' = rest a \<Longrightarrow> ap_pending_block_restore_after_wake a' = ap_pending_block_restore_after_wake a"
  by (simp_all add: rest_def queues_def)

text \<open>A restore after wake-up is pending only while the mode is Allow.\<close>

definition pending_ok :: "application \<Rightarrow> bool" where
  "pending_ok a \<longleftrightarrow> (ap_pending_block_restore_after_wake a \<noteq> None \<longrightarrow> app_mode a = Allow)"

definition sound :: "app \<Rightarrow> bool" where
  "sound s \<longleftrightarrow> good s \<and> pending_ok (fst s)"

text \<open>The requests and actions that ask for Allow mode.\<close>

fun releasing_request :: "ipc_request \<Rightarrow> bool" where
  "releasing_request (SetMode Pipe_Allow) = True"
| "releasing_request _ = False"

fun releasing_action :: "tray_action \<Rightarrow> bool" where
  "releasing_action Tray_Block = False"
| "releasing_action (Tray_SetAutostart _) = False"
| "releasing_action Tray_Quit = False"
| "releasing_action _ = True"

lemma calm_sound: "calm s s' \<Longrightarrow> sound s \<Longrightarrow> sound s'"
  using calm_good [of s s'] by (auto simp: sound_def pending_ok_def calm_mode dest: rest_queues [OF calm_rest])

lemma calm_queues: "calm s s' \<Longrightarrow> queues (fst s') = queues (fst s)"
  using rest_queues(1) calm_rest by blast

lemma sound_noted [simp]: "sound (noted os e src m b s) = sound s" "queues (fst (noted os e src m b s)) = queues (fst s)"
  by (cases s; simp add: sound_def pending_ok_def; simp add: noted_def)+

lemma cleared [simp]:
  "good (clear_pending_block_restore_after_wake s) = good s"
  "app_mode (fst (clear_pending_block_restore_after_wake s)) = app_mode (fst s)"
  "queues (fst (clear_pending_block_restore_after_wake s)) = queues (fst s)"
  "ap_pending_block_restore_after_wake (fst (clear_pending_block_restore_after_wake s)) = None"
  by (cases s; simp add: clear_pending_block_restore_after_wake_def good_def live_def tray_synced_def app_mode_def
      queues_def waiting_actions_def)+

text \<open>A switch with nothing pending.\<close>

lemma switch_sound:
  assumes "app_set_mode os m src s = (r, s')" and "good s" and "ap_pending_block_restore_after_wake (fst s) = None"
  shows "sound s' \<and> queues (fst s') = queues (fst s) \<and> ap_pending_block_restore_after_wake (fst s') = None \<and>
    (case r of Inr _ \<Rightarrow> app_mode (fst s') = m | Inl _ \<Rightarrow> app_mode (fst s') \<in> {app_mode (fst s), m})"
  using app_set_mode_outcome [OF assms(1,2)] assms(3)
  by (auto simp: sound_def pending_ok_def dest: rest_queues)

lemma handle_set_mode:
  assumes "handle_ipc_request os (SetMode m) s = (response, s')" and "sound s"
  shows "sound s' \<and> queues (fst s') = queues (fst s) \<and> ap_pending_block_restore_after_wake (fst s') = None \<and>
    (response = Resp_Ok \<and> app_mode (fst s') = blocker_mode_of m \<or>
     (\<exists>message. response = Resp_Error message) \<and> app_mode (fst s') \<in> {app_mode (fst s), blocker_mode_of m})"
proof -
  obtain r s1 where m: "app_set_mode os (blocker_mode_of m) Src_Ipc (clear_pending_block_restore_after_wake s) = (r, s1)"
    by (rule prod.exhaust)
  have "good s" using assms(2) by (simp add: sound_def)
  note 1 = switch_sound [OF m, simplified, OF this]
  then show ?thesis
  proof (cases r)
    case (Inl message)
    with assms(1) m 1 show ?thesis
      by (auto simp: handle_ipc_request_def Let_def)
  next
    case (Inr u)
    with assms(1) m 1 show ?thesis
      by (auto simp: handle_ipc_request_def Let_def)
  qed
qed

lemma handle_other:
  assumes "handle_ipc_request os request s = (response, s')" and "\<forall>m. request \<noteq> SetMode m"
  shows "calm s s'"
proof (cases request)
  case (SetAutostart enabled)
  obtain r s1 where "app_set_autostart_enabled os enabled Src_Ipc s = (r, s1)" by (rule prod.exhaust)
  from this app_set_autostart_calm [OF this] assms(1) SetAutostart show ?thesis
    by (cases r) (auto simp: handle_ipc_request_def calm_then)
next
  case Status
  obtain status s1 where "app_status_output os s = (status, s1)" by (rule prod.exhaust)
  from this status_output_calm [OF this] assms(1) Status show ?thesis by (auto simp: handle_ipc_request_def)
qed (use assms in \<open>auto simp: handle_ipc_request_def\<close>)

lemma handle_request_sound:
  assumes "handle_ipc_request os request s = (response, s')" and "sound s"
  shows "sound s' \<and> queues (fst s') = queues (fst s) \<and>
    (app_mode (fst s) = Block \<and> \<not> releasing_request request \<longrightarrow> app_mode (fst s') = Block)"
proof (cases "\<exists>m. request = SetMode m")
  case True
  then obtain m where m: "request = SetMode m" by blast
  from handle_set_mode [OF assms(1) [unfolded m] assms(2)] m show ?thesis by (cases m) auto
next
  case False
  then have "calm s s'" using handle_other [OF assms(1)] by blast
  with assms(2) show ?thesis by (simp add: calm_sound calm_queues calm_mode)
qed

lemma answer_calm: "calm s (answer p response s)"
  by (cases s) (simp add: answer_def calm_def rest_def waiting_actions_def tray_synced_def app_mode_def)

lemma process_requests_sound:
  assumes "sound s"
  shows "sound (process_requests os ps s) \<and> queues (fst (process_requests os ps s)) = queues (fst s) \<and>
    (app_mode (fst s) = Block \<and> (\<forall>p \<in> set ps. \<not> releasing_request (pr_request p)) \<longrightarrow>
       app_mode (fst (process_requests os ps s)) = Block)"
  using assms
proof (induction ps arbitrary: s)
  case (Cons p ps)
  obtain response s1 where h: "handle_ipc_request os (pr_request p) s = (response, s1)" by (rule prod.exhaust)
  note 1 = handle_request_sound [OF h Cons.prems]
  have c: "calm s1 (answer p response s1)" by (rule answer_calm)
  from Cons.IH [of "answer p response s1"] 1 calm_sound [OF c] calm_queues [OF c] calm_mode [OF c] h show ?case by auto
qed simp

lemma process_ipc_sound:
  assumes "sound s"
  shows "sound (process_ipc_requests os s) \<and> waiting_actions (fst (process_ipc_requests os s)) = waiting_actions (fst s) \<and>
    (app_mode (fst s) = Block \<and> (\<forall>p \<in> set (iq_pending (ap_requests (fst s))). \<not> releasing_request (pr_request p)) \<longrightarrow>
       app_mode (fst (process_ipc_requests os s)) = Block)"
proof -
  obtain a w where s: "s = (a, w)" by (rule prod.exhaust)
  let ?s = "(a\<lparr>ap_requests := (ap_requests a)\<lparr>iq_pending := []\<rparr>\<rparr>, w)"
  have "sound ?s"
    using assms s by (simp add: sound_def good_def live_def tray_synced_def pending_ok_def app_mode_def)
  from process_requests_sound [OF this, of os "iq_pending (ap_requests a)"] s show ?thesis
    by (auto simp: process_ipc_requests_def queues_def waiting_actions_def app_mode_def)
qed


subsection \<open>Tray actions\<close>

lemma power_call_keeps: "keeps_control (execute_power_action os action)"
  using execute_power_action_outcome statics_control unfolding keeps_control_def by blast

lemma pending_for_power: "pending_wake_restore_for_tray_power_action mode action \<noteq> None \<Longrightarrow> mode = Block"
  by (cases "(mode, action)" rule: pending_wake_restore_for_tray_power_action.cases) auto

text \<open>A power action: on success the mode is Allow and the restore is pending as the policy says;
  on failure nothing is pending.\<close>

lemma run_power_outcome:
  assumes "run_power_action os action s = (r, s')" and "good s"
  shows "sound s' \<and> queues (fst s') = queues (fst s) \<and>
    (case r of
       Inr _ \<Rightarrow> app_mode (fst s') = Allow \<and>
         ap_pending_block_restore_after_wake (fst s') = pending_wake_restore_for_tray_power_action (app_mode (fst s)) action
     | Inl _ \<Rightarrow> ap_pending_block_restore_after_wake (fst s') = None \<and> app_mode (fst s') \<in> {app_mode (fst s), Allow})"
proof -
  obtain a w where s: "s = (a, w)" by (rule prod.exhaust)
  define P where "P = pending_wake_restore_for_tray_power_action (app_mode a) action"
  let ?a = "a\<lparr>ap_pending_block_restore_after_wake := P\<rparr>"
  have g0: "good (?a, w)" using assms(2) s by (simp add: good_def live_def tray_synced_def app_mode_def)
  have q0: "queues ?a = queues a" "rest ?a = (P, queues a)" by (simp_all add: queues_def waiting_actions_def rest_def)
  obtain r1 s1 where m: "app_set_mode os Allow Src_Tray (?a, w) = (r1, s1)" by (rule prod.exhaust)
  note 1 = app_set_mode_outcome [OF m g0]
  have q1: "queues (fst s1) = queues a" "ap_pending_block_restore_after_wake (fst s1) = P"
    using 1 q0 by (simp_all add: rest_def queues_def)
  show ?thesis
  proof (cases r1)
    case (Inl error)
    have "r = Inl error" "s' = clear_pending_block_restore_after_wake s1"
      using assms(1) s m Inl by (simp_all add: run_power_action_def P_def Let_def)
    moreover have "app_mode ?a = app_mode a" by (simp add: app_mode_def)
    ultimately show ?thesis using 1 q1 s Inl by (auto simp: sound_def pending_ok_def)
  next
    case (Inr u)
    obtain r2 s2 where e: "on_world (execute_power_action os action) s1 = (r2, s2)" by (rule prod.exhaust)
    have c: "calm s1 s2" by (rule calm_on_world [OF power_call_keeps e])
    have 2: "good s2" "app_mode (fst s2) = Allow" "queues (fst s2) = queues a" "ap_pending_block_restore_after_wake (fst s2) = P"
      using calm_good [OF c] calm_mode [OF c] calm_rest [OF c] 1 q1 Inr by (simp_all add: rest_def queues_def)
    show ?thesis
    proof (cases r2)
      case (Inr v)
      have "r = Inr ()" "\<exists>message. s' = noted os ''power_action_issued'' Src_Tray message True s2"
        using assms(1) s m e Inr \<open>r1 = Inr u\<close> by (auto simp: run_power_action_def P_def Let_def)
      with 2 s show ?thesis by (auto simp: sound_def pending_ok_def P_def)
    next
      case (Inl message)
      define s3 where "s3 = noted os ''power_action_issued'' Src_Tray
        (''Wardoff could not issue the requested '' @ power_action_label action @ '' power action: '' @ message) False
        (clear_pending_block_restore_after_wake s2)"
      have 3: "good s3" "app_mode (fst s3) = Allow" "queues (fst s3) = queues a" "ap_pending_block_restore_after_wake (fst s3) = None"
        using 2 by (simp_all add: s3_def)
      obtain r4 s4 where b: "app_set_mode os Block Src_Tray s3 = (r4, s4)" by (rule prod.exhaust)
      have m': "app_set_mode os Allow Src_Tray
          (a\<lparr>ap_pending_block_restore_after_wake := pending_wake_restore_for_tray_power_action (app_mode a) action\<rparr>, w) = (Inr u, s1)"
        using m \<open>r1 = Inr u\<close> by (simp add: P_def)
      have "is_err r \<and> s' = (if app_mode a = Block then s4 else s3)"
        using assms(1) unfolding s run_power_action_def prod.case Let_def m' e Inl sum.case s3_def [symmetric] b
        by (cases "app_mode a"; cases r4) auto
      with switch_sound [OF b 3(1,4)] 3 s show ?thesis by (cases r) (auto simp: sound_def pending_ok_def)
    qed
  qed
qed

lemma handle_action_sound:
  assumes "handle_tray_action os action s = (r, s')" and "sound s"
  shows "sound s' \<and> queues (fst s') = queues (fst s) \<and>
    (app_mode (fst s) = Block \<and> \<not> releasing_action action \<longrightarrow> app_mode (fst s') = Block)"
proof -
  have g: "good s" using assms(2) by (simp add: sound_def)
  have power: ?thesis if "and_then (run_power_action os act) (\<lambda>_. ok False) s = (r, s')" "releasing_action action" for act
  proof -
    obtain r1 s1 where p: "run_power_action os act s = (r1, s1)" by (rule prod.exhaust)
    have "s' = s1" using that p by (cases r1) (simp_all add: and_then_def)
    with run_power_outcome [OF p g] that(2) show ?thesis by simp
  qed
  have switch: ?thesis if "and_then (app_set_mode os m Src_Tray) (\<lambda>_ s. (Inr False, noted os e Src_Tray message True s))
      (clear_pending_block_restore_after_wake s) = (r, s')" "releasing_action action \<longleftrightarrow> m = Allow" for m e message
  proof -
    obtain r1 s1 where p: "app_set_mode os m Src_Tray (clear_pending_block_restore_after_wake s) = (r1, s1)" by (rule prod.exhaust)
    note 1 = switch_sound [OF p, simplified, OF g]
    show ?thesis using that p 1 by (cases r1; cases m) (auto simp: and_then_def)
  qed
  show ?thesis
  proof (cases action)
    case (Tray_SetAutostart enabled)
    obtain r1 s1 where p: "app_set_autostart_enabled os enabled Src_Tray s = (r1, s1)" by (rule prod.exhaust)
    have "calm s s'" using app_set_autostart_calm [OF p] assms(1) p Tray_SetAutostart
      by (cases r1) (auto simp: handle_tray_action_def and_then_def calm_then)
    with assms(2) show ?thesis by (simp add: calm_sound calm_queues calm_mode)
  qed (use assms power switch in \<open>auto simp: handle_tray_action_def\<close>)
qed

lemma process_actions_sound:
  assumes "sound s"
  shows "sound (snd (process_actions os actions s)) \<and>
    (app_mode (fst s) = Block \<and> (\<forall>x \<in> set actions. \<not> releasing_action x) \<longrightarrow>
       app_mode (fst (snd (process_actions os actions s))) = Block)"
  using assms
proof (induction actions arbitrary: s)
  case (Cons action actions)
  obtain r s1 where h: "handle_tray_action os action s = (r, s1)" by (rule prod.exhaust)
  note 1 = handle_action_sound [OF h Cons.prems]
  show ?case
  proof (cases r)
    case (Inl message)
    define s2 where "s2 = noted os ''tray_action'' Src_Tray
      (''Wardoff could not process the '' @ debug_tray_action action @ '' tray action: '' @ message) False s1"
    have "process_actions os (action # actions) s = process_actions os actions s2" using h Inl by (simp add: s2_def)
    moreover have "sound s2" "app_mode (fst s2) = app_mode (fst s1)" using 1 by (simp_all add: s2_def)
    ultimately show ?thesis using Cons.IH [of s2] 1 by auto
  next
    case (Inr stop)
    with h 1 Cons.IH [of s1] show ?thesis by (cases stop) auto
  qed
qed simp

lemma process_tray_sound:
  assumes "sound s"
  shows "sound (snd (process_tray_actions os s)) \<and>
    (app_mode (fst s) = Block \<and> (\<forall>x \<in> set (waiting_actions (fst s)). \<not> releasing_action x) \<longrightarrow>
       app_mode (fst (snd (process_tray_actions os s))) = Block)"
proof -
  obtain a w where s: "s = (a, w)" by (rule prod.exhaust)
  show ?thesis
  proof (cases "ap_tray a")
    case (Some t)
    let ?s = "(a\<lparr>ap_tray := Some (t\<lparr>tt_actions := []\<rparr>)\<rparr>, w)"
    have "sound ?s"
      using assms s Some by (auto simp: sound_def good_def live_def tray_synced_def pending_ok_def app_mode_def tray_mode_def target_def)
    from process_actions_sound [OF this, of os "tt_actions t"] s Some show ?thesis
      by (auto simp: process_tray_actions_def service_drain_actions_def waiting_actions_def app_mode_def)
  qed (use assms s in \<open>simp add: process_tray_actions_def\<close>)
qed

lemma process_pending_sound:
  assumes "sound s"
  shows "sound (snd (process_pending os s)) \<and>
    (app_mode (fst s) = Block \<and> (\<forall>p \<in> set (iq_pending (ap_requests (fst s))). \<not> releasing_request (pr_request p)) \<and>
       (\<forall>x \<in> set (waiting_actions (fst s)). \<not> releasing_action x) \<longrightarrow>
       app_mode (fst (snd (process_pending os s))) = Block)"
  using process_ipc_sound [OF assms, of os] process_tray_sound [of "process_ipc_requests os s" os]
  by (auto simp: process_pending_def)


subsection \<open>Power broadcasts and the end of the session\<close>

lemma renew_outcome:
  assumes "on_coordinator (renew_sleep_requests_after_resume os) s = (r, s')" and "good s"
  shows "good s' \<and> rest (fst s') = rest (fst s) \<and> app_mode (fst s') = app_mode (fst s)"
proof -
  obtain a w where s: "s = (a, w)" by (rule prod.exhaust)
  let ?c = "(ap_coordinator a, w)"
  obtain r1 c1 w1 where m: "renew_sleep_requests_after_resume os ?c = (r1, (c1, w1))" by (metis prod.exhaust)
  have inv: "coord_inv ?c" using assms(2) s by (simp add: good_def live_def)
  then have l: "layers_inv (ap_coordinator a)" by (simp add: coord_inv_def)
  have inv1: "coord_inv (c1, w1)" using coord_step_inv [OF coord_step.step_renew inv, of os] m by simp
  have "bc_mode c1 = bc_mode (ap_coordinator a) \<and> control w1 = control w"
    using in_background_ok(5) [OF l, of w os] m by (auto simp: renew_sleep_requests_after_resume_def bg_ok_def split: if_splits)
  with inv1 assms s m show ?thesis
    by (auto simp: on_coordinator_def good_def live_def tray_synced_def app_mode_def coordinator_mode_def rest_def
        waiting_actions_def control_def)
qed

text \<open>The restore: nothing without a pending one; otherwise it is used up, and the mode is Block
  exactly if the coordinator could be switched.\<close>

lemma restore_outcome:
  assumes "good s"
  shows "good (restore_block_after_wake_if_needed os s) \<and>
    ap_pending_block_restore_after_wake (fst (restore_block_after_wake_if_needed os s)) = None \<and>
    queues (fst (restore_block_after_wake_if_needed os s)) = queues (fst s) \<and>
    app_mode (fst (restore_block_after_wake_if_needed os s)) =
      (if ap_pending_block_restore_after_wake (fst s) \<noteq> None \<and> is_ok (fst (set_mode os Block (ap_coordinator (fst s), snd s)))
       then Block else app_mode (fst s))"
proof -
  obtain a w where s: "s = (a, w)" by (rule prod.exhaust)
  show ?thesis
  proof (cases "pending_wake_restore_ready_for_resume (ap_pending_block_restore_after_wake a)")
    case None
    then have "ap_pending_block_restore_after_wake a = None"
      by (cases "ap_pending_block_restore_after_wake a" rule: pending_wake_restore_ready_for_resume.cases) auto
    with assms s None show ?thesis by (simp add: restore_block_after_wake_if_needed_def)
  next
    case (Some action)
    then have p: "ap_pending_block_restore_after_wake a \<noteq> None"
      by (cases "ap_pending_block_restore_after_wake a") simp_all
    define s0 where "s0 = clear_pending_block_restore_after_wake s"
    have 0: "good s0" "app_mode (fst s0) = app_mode a" "queues (fst s0) = queues a"
      "ap_pending_block_restore_after_wake (fst s0) = None" "(ap_coordinator (fst s0), snd s0) = (ap_coordinator a, w)"
      using assms s unfolding s0_def by simp_all (simp add: clear_pending_block_restore_after_wake_def)
    obtain r s1 where m: "on_coordinator (set_mode os Block) s0 = (r, s1)" by (rule prod.exhaust)
    have 1: "live s1" "rest (fst s1) = rest (fst s0)" "ap_tray (fst s1) = ap_tray (fst s0)"
      "app_mode (fst s1) = (if is_ok r then Block else app_mode a)"
      using coordinator_switch [OF m] 0 by (simp_all add: good_def)
    have r: "r = fst (set_mode os Block (ap_coordinator a, w))"
      using m 0(5) by (cases s0) (auto simp: on_coordinator_def split: prod.splits)
    note def' = restore_block_after_wake_if_needed_def [of os]
    show ?thesis
    proof (cases r)
      case (Inl error)
      have g: "good s1" using 0(1,2) 1(1,3,4) Inl by (simp add: good_def tray_synced_def)
      have "\<exists>message. restore_block_after_wake_if_needed os s = noted os ''block_restored_after_wake'' Src_Tray message False s1"
        using Some m s Inl unfolding s0_def s def' by auto
      then obtain message where n: "restore_block_after_wake_if_needed os s = noted os ''block_restored_after_wake'' Src_Tray message False s1" ..
      show ?thesis using g 0 1 r Inl p s rest_queues [OF 1(2)] unfolding n by auto
    next
      case (Inr changed)
      define s2 where "s2 = (if app_mode a \<noteq> Block then noted os ''state_changed'' Src_Tray
        (''Wardoff switched from '' @ mode_label (app_mode a) @ '' mode to Block mode.'') True s1 else s1)"
      have 2: "live s2" "app_mode (fst s2) = Block" "rest (fst s2) = rest (fst s0)"
        using 1 Inr calm_live [of s1 s2] calm_then(1) [OF calm_refl [of s1]] by (auto simp: s2_def)
      obtain r3 s3 where t: "sync_tray os (app_mode (fst s2)) s2 = (r3, s3)" by (rule prod.exhaust)
      note 3 = sync_tray_good [OF t 2(1)]
      have "\<exists>message. restore_block_after_wake_if_needed os s = noted os ''block_restored_after_wake'' Src_Tray message True s3"
        using Some m s Inr t 0(2) unfolding s0_def s2_def s def' by (cases r3) (auto simp: Let_def)
      then obtain message where n: "restore_block_after_wake_if_needed os s = noted os ''block_restored_after_wake'' Src_Tray message True s3" ..
      have e: "rest (fst s3) = rest (fst s0)" using 2(3) 3 by simp
      have "is_ok (fst (set_mode os Block (ap_coordinator a, w)))" using r Inr by (metis is_ok_simps(1))
      then show ?thesis using 0 2 3 p s rest_queues [OF e] unfolding n by auto
    qed
  qed
qed

lemma power_broadcast_sound:
  assumes "sound s"
  shows "sound (app_handle_power_broadcast os event s) \<and> queues (fst (app_handle_power_broadcast os event s)) = queues (fst s) \<and>
    (app_mode (fst s) = Block \<longrightarrow> app_mode (fst (app_handle_power_broadcast os event s)) = Block)"
proof (cases event)
  case Suspend
  with assms show ?thesis
    by (cases s) (auto simp: app_handle_power_broadcast_def sound_def good_def live_def tray_synced_def pending_ok_def
        app_mode_def queues_def waiting_actions_def)
next
  case Resume
  obtain r s1 where m: "on_coordinator (renew_sleep_requests_after_resume os) s = (r, s1)" by (rule prod.exhaust)
  have 1: "good s1" "rest (fst s1) = rest (fst s)" "app_mode (fst s1) = app_mode (fst s)"
    using renew_outcome [OF m] assms by (simp_all add: sound_def)
  define s2 where "s2 = (case r of Inr _ \<Rightarrow> s1 | Inl error \<Rightarrow> noted os ''sleep_resume_failed'' Src_Sleep error False s1)"
  have 2: "good s2" "rest (fst s2) = rest (fst s)" "app_mode (fst s2) = app_mode (fst s)"
    using 1 by (simp_all add: s2_def split: sum.split)
  have eq: "app_handle_power_broadcast os event s = restore_block_after_wake_if_needed os s2"
    using Resume m by (cases r) (simp_all add: app_handle_power_broadcast_def s2_def)
  show ?thesis unfolding eq using restore_outcome [OF 2(1), of os] 2 rest_queues [OF 2(2)]
    by (auto simp: sound_def pending_ok_def)
qed

lemma forced_cleanup_forces: "ap_forced_shutdown_cleanup_completed (fst (handle_forced_shutdown_cleanup os s))"
  by (cases s) (simp add: handle_forced_shutdown_cleanup_def clear_pending_block_restore_after_wake_def noted_def
      case_prod_beta Let_def)

definition app_inv :: "app \<Rightarrow> bool" where
  "app_inv s \<longleftrightarrow> ap_forced_shutdown_cleanup_completed (fst s) \<or> sound s"

lemma calm_world: "control w' = control w \<Longrightarrow> calm (a, w) (a, w')"
  by (simp add: calm_def)

lemma window_proc_sound:
  assumes "shutdown_window_proc os (handle_forced_shutdown_cleanup os) (app_handle_power_broadcast os) hwnd message wparam lparam s = (r, s')"
    and "sound s" and "\<not> ap_forced_shutdown_cleanup_completed (fst s')"
  shows "sound s' \<and> queues (fst s') = queues (fst s) \<and> (app_mode (fst s) = Block \<longrightarrow> app_mode (fst s') = Block)"
proof -
  obtain a w where s: "s = (a, w)" by (rule prod.exhaust)
  have by_calm: ?thesis if "calm s s'" using that assms(2) by (simp add: calm_sound calm_queues calm_mode)
  have flags: "end_session_cleanup_callback w" "\<not> end_session_cleanup_started w"
    using assms(2) s by (simp_all add: sound_def good_def live_def)
  consider "message = WM_QUERYENDSESSION" | "message = WM_ENDSESSION" | "message = WM_POWERBROADCAST"
    | "message \<noteq> WM_QUERYENDSESSION" "message \<noteq> WM_ENDSESSION" "message \<noteq> WM_POWERBROADCAST" by blast
  then show ?thesis
  proof cases
    case 1
    with assms(1) s have "s' = (a, snd (handle_query_end_session os wparam lparam w))"
      by (auto simp: shutdown_window_proc_def split: prod.splits)
    with s query_frame show ?thesis by (intro by_calm) (simp add: calm_world)
  next
    case 2
    then have "handle_end_session os (handle_forced_shutdown_cleanup os) hwnd wparam (a, w) = (r, s')"
      using assms(1) s by (simp add: shutdown_window_proc_def win32_messages)
    then have "s' = (a, snd (is_shutdown_or_session_end_in_progress os w))"
      using flags assms(3) forced_cleanup_forces [of os]
      by (auto simp: handle_end_session_def is_shutdown_or_session_end_in_progress_def call_eqs Let_def split: if_splits)
    then show ?thesis using s
      by (intro by_calm) (simp add: calm_world is_shutdown_or_session_end_in_progress_def call_eqs)
  next
    case 3
    then have "s' = (case power_event_of wparam of
        Some event \<Rightarrow> if power_broadcast_callback w then app_handle_power_broadcast os event s else s
      | None \<Rightarrow> (a, snd (call_value os (Window (DefWindowProcW hwnd WM_POWERBROADCAST wparam lparam)) w)))"
      using assms(1) s by (auto simp: shutdown_window_proc_def handle_power_broadcast_def win32_messages call_value_eq split: option.splits)
    with power_broadcast_sound [OF assms(2)] s by_calm assms(2) show ?thesis
      by (auto simp: calm_world split: option.splits if_splits)
  next
    case 4
    then have "s' = (a, w) \<or> s' = (a, snd (call_value os (Window (DefWindowProcW hwnd message wparam lparam)) w))"
      using assms(1) s by (auto simp: shutdown_window_proc_def call_value_eq split: if_splits)
    then show ?thesis using s by (intro by_calm) (auto simp: calm_world)
  qed
qed


subsection \<open>What handling a request leaves alone\<close>

text \<open>A part of the application's struct that has nothing to do with the blocker, the tray, the
  pending restore and the logger is left alone by everything that handles a request or an action.\<close>

locale app_field =
  fixes field :: "application \<Rightarrow> 'x"
  assumes field_coordinator: "field (a\<lparr>ap_coordinator := c\<rparr>) = field a"
    and field_tray: "field (a\<lparr>ap_tray := t\<rparr>) = field a"
    and field_pending: "field (a\<lparr>ap_pending_block_restore_after_wake := p\<rparr>) = field a"
begin

lemma kept_parts:
  "field (fst (snd (on_coordinator m s))) = field (fst s)"
  "field (fst (snd (on_tray n s))) = field (fst s)"
  "field (fst (noted os e src message b s)) = field (fst s)"
  "field (fst (clear_pending_block_restore_after_wake s)) = field (fst s)"
  by (cases s; simp add: on_coordinator_def on_tray_def noted_def clear_pending_block_restore_after_wake_def
      case_prod_beta Let_def field_coordinator field_tray field_pending split: option.split)+

lemma kept_sync:
  "field (fst (snd (sync_tray os mode s))) = field (fst s)"
  "field (fst (sync_tray_autostart_with_logging os b src message s)) = field (fst s)"
  unfolding sync_tray_def sync_tray_autostart_with_logging_def sync_tray_autostart_def log_autostart_tray_sync_failure_def
    case_prod_beta
  by (auto simp only: kept_parts split: sum.split)

lemmas kept = kept_parts kept_sync fst_on_world snd_conv

lemma kept_autostart:
  "field (fst (snd (app_set_autostart_enabled os b src s))) = field (fst s)"
  "field (fst (refresh_autostart_tray_state os s)) = field (fst s)"
  unfolding app_set_autostart_enabled_def refresh_autostart_tray_state_def log_autostart_tray_sync_failure_def
    case_prod_beta Let_def
  by (auto simp only: kept split: sum.split)

lemma kept_set_mode: "field (fst (snd (app_set_mode os m src s))) = field (fst s)"
proof -
  have u: "field (fst (snd (undo_set_mode os p m e src s))) = field (fst s)" for p e s
    by (simp only: undo_set_mode_def case_prod_beta Let_def kept)
  show ?thesis
    unfolding app_set_mode_def case_prod_beta Let_def
    by (auto simp only: u kept split: sum.split if_split)
qed

lemma kept_request: "field (fst (snd (handle_ipc_request os request s))) = field (fst s)"
proof -
  have "field (fst (snd (app_status_output os s))) = field (fst s)"
    by (cases s) (simp add: app_status_output_def case_prod_beta Let_def)
  then show ?thesis
    unfolding handle_ipc_request_def case_prod_beta Let_def
    by (auto simp only: kept_set_mode kept_autostart kept split: ipc_request.split sum.split)
qed

lemma kept_power: "field (fst (snd (run_power_action os action s))) = field (fst s)"
proof -
  obtain a w where s: "s = (a, w)" by (rule prod.exhaust)
  show ?thesis
    unfolding run_power_action_def case_prod_beta Let_def s
    by (auto simp only: kept_set_mode kept fst_conv field_pending split: sum.split if_split)
qed

lemma kept_and_then:
  assumes "field (fst (snd (m s))) = field (fst s)" and "\<And>x s. field (fst (snd (f x s))) = field (fst s)"
  shows "field (fst (snd (and_then m f s))) = field (fst s)"
  using assms unfolding and_then_def case_prod_beta by (auto split: sum.split)

lemma kept_action: "field (fst (snd (handle_tray_action os action s))) = field (fst s)"
  unfolding handle_tray_action_def
  by (cases action) (simp_all add: kept_and_then kept_power kept_set_mode kept_autostart kept)

lemma kept_actions: "field (fst (snd (process_actions os actions s))) = field (fst s)"
proof (induction actions arbitrary: s)
  case (Cons action actions)
  obtain r s1 where h: "handle_tray_action os action s = (r, s1)" by (rule prod.exhaust)
  with kept_action [of os action s] Cons.IH kept_parts(3) show ?case by (cases r) (auto split: bool.split)
qed simp

lemma kept_broadcast: "field (fst (app_handle_power_broadcast os event s)) = field (fst s)"
proof -
  obtain a w where s: "s = (a, w)" by (rule prod.exhaust)
  have "field (fst (restore_block_after_wake_if_needed os s)) = field (fst s)" for s
    unfolding restore_block_after_wake_if_needed_def case_prod_beta Let_def
    by (cases s) (auto simp only: kept fst_conv split: option.split sum.split if_split)
  then show ?thesis
    unfolding app_handle_power_broadcast_def case_prod_beta s
    by (auto simp only: kept fst_conv field_pending split: power_broadcast_event.split sum.split)
qed

lemma kept_tray_actions: "field (fst (snd (process_tray_actions os s))) = field (fst s)"
  by (cases s) (simp add: process_tray_actions_def service_drain_actions_def kept_actions field_tray split: option.split)

end

interpretation forced_field: app_field ap_forced_shutdown_cleanup_completed
  by unfold_locales simp_all

interpretation answers_field: app_field ap_answers
  by unfold_locales simp_all

abbreviation forced :: "app \<Rightarrow> bool" where
  "forced s \<equiv> ap_forced_shutdown_cleanup_completed (fst s)"

lemma forced_pending: "forced (snd (process_pending os s)) = forced s"
proof -
  have a: "forced (answer p response s) = forced s" for p response s
    by (cases s) (simp add: answer_def)
  have r: "forced (process_requests os ps s) = forced s" for ps s
    by (induction ps arbitrary: s) (simp_all add: case_prod_beta Let_def a forced_field.kept_request)
  have "forced (process_ipc_requests os s) = forced s"
    by (cases s) (simp add: process_ipc_requests_def r)
  then show ?thesis by (simp add: process_pending_def forced_field.kept_tray_actions)
qed


subsection \<open>One event\<close>

lemma message_step_sound:
  assumes "message_step os input s = (res, s')" and "sound s" and "\<not> forced s'"
  shows "sound s' \<and>
    (app_mode (fst s) = Block \<and> (\<forall>p \<in> set (iq_pending (ap_requests (fst s))). \<not> releasing_request (pr_request p)) \<and>
       (\<forall>x \<in> set (waiting_actions (fst s)). \<not> releasing_action x) \<longrightarrow> app_mode (fst s') = Block)"
proof (cases input)
  case (Peeked hwnd message wparam lparam)
  show ?thesis
  proof (cases "message = WM_QUIT")
    case True
    with assms Peeked show ?thesis by (simp add: message_step_def)
  next
    case False
    define s1 where "s1 = (if message = IPC_WAKE_MESSAGE \<or> message = TRAY_ACTION_WAKE_MESSAGE then s
      else snd (shutdown_window_proc os (handle_forced_shutdown_cleanup os) (app_handle_power_broadcast os)
                  hwnd message wparam lparam s))"
    have s': "s' = snd (process_pending os s1)"
      using assms(1) Peeked False by (simp add: message_step_def s1_def Let_def case_prod_beta)
    have "\<not> forced s1" using assms(3) s' forced_pending by simp
    then have 1: "sound s1" "queues (fst s1) = queues (fst s)" "app_mode (fst s) = Block \<longrightarrow> app_mode (fst s1) = Block"
      using window_proc_sound [of os hwnd message wparam lparam s, OF prod.collapse [symmetric] assms(2)] assms(2)
      by (auto simp: s1_def split: if_splits)
    from process_pending_sound [OF 1(1), of os] 1 s' show ?thesis by (auto simp: queues_def)
  qed
next
  case Queue_Empty
  obtain quit s1 where p: "process_pending os s = (quit, s1)" by (rule prod.exhaust)
  obtain r s2 where u: "on_world (call_unit os (App WaitMessage)) s1 = (r, s2)" by (rule prod.exhaust)
  have c: "calm s1 s2" by (rule calm_on_world [OF control_frame.keeps_calls(1) [OF TrueI] u])
  have "s' = s1 \<or> s' = s2"
    using assms(1) Queue_Empty p u by (cases r) (auto simp: message_step_def split: if_splits)
  with c have "calm s1 s'" by auto
  from process_pending_sound [OF assms(2), of os] p calm_sound [OF this] calm_mode [OF this] show ?thesis by auto
qed

lemma turn_layer_sound:
  assumes "sound s" and "\<And>c w. layers_inv c \<Longrightarrow> bg_ok (c, w) (f (c, w))"
    and "\<And>c w. background_idle c \<Longrightarrow> f (c, w) = (c, w)"
  shows "sound (turn_layer f s) \<and> app_mode (fst (turn_layer f s)) = app_mode (fst s)"
proof -
  obtain a w where s: "s = (a, w)" by (rule prod.exhaust)
  obtain c1 w1 where f: "f (ap_coordinator a, w) = (c1, w1)" by (rule prod.exhaust)
  have inv: "coord_inv (ap_coordinator a, w)" using assms(1) s by (simp add: sound_def good_def live_def)
  then have ok: "bg_ok (ap_coordinator a, w) (c1, w1)" using assms(2) [of "ap_coordinator a" w] f by (simp add: coord_inv_def)
  have idle: "background_idle c1" if "bc_mode (ap_coordinator a) = Allow"
    using that inv assms(3) [of "ap_coordinator a" w] f by (simp add: coord_inv_def)
  have inv1: "coord_inv (c1, w1)" by (rule bg_step_inv [OF inv ok]) (simp add: idle)
  have m: "bc_mode c1 = bc_mode (ap_coordinator a)" using ok by (simp add: bg_ok_def)
  have flags: "end_session_cleanup_callback w1 = end_session_cleanup_callback w"
    "end_session_cleanup_started w1 = end_session_cleanup_started w"
    using ok by (simp_all add: bg_ok_def control_def)
  show ?thesis
    using assms(1) s f inv1 m flags
    by (auto simp: turn_layer_def sound_def good_def live_def tray_synced_def pending_ok_def app_mode_def coordinator_mode_def)
qed

lemma turn_frame:
  assumes "tray_step os ui e (t, w) = (t', w')" and "e = Tray_Wake \<or> (\<exists>messages clicks. e = Tray_Turn messages clicks)"
  shows "control w' = control w \<and> (tt_running t' \<longrightarrow> tt_running t \<and> target t' = target t)"
  using assms(2)
proof (elim disjE exE)
  assume e: "e = Tray_Wake"
  obtain results t1 w1 where r: "tray_wait os (t, w) = (results, (t1, w1))" by (metis prod.exhaust)
  from assms(1) e r wait_frame [OF r] show ?thesis by (cases "tt_running t") simp_all
next
  fix messages clicks assume e: "e = Tray_Turn messages clicks"
  obtain results t1 w1 where r: "tray_work os ui messages clicks (t, w) = (results, (t1, w1))" by (metis prod.exhaust)
  from assms(1) e r work_frame [OF r] show ?thesis by (cases "tt_running t") simp_all
qed

lemma turn_tray_sound:
  assumes "sound s" and "e = Tray_Wake \<or> (\<exists>messages clicks. e = Tray_Turn messages clicks)"
  shows "sound (turn_tray os ui e s) \<and> app_mode (fst (turn_tray os ui e s)) = app_mode (fst s)"
proof -
  obtain a w where s: "s = (a, w)" by (rule prod.exhaust)
  show ?thesis
  proof (cases "ap_tray a")
    case (Some t)
    obtain t1 w1 where t: "tray_step os ui e (t, w) = (t1, w1)" by (rule prod.exhaust)
    have 1: "control w1 = control w" "tt_running t1 \<longrightarrow> tt_running t \<and> target t1 = target t"
      using turn_frame [OF t assms(2)] by simp_all
    have "live (a\<lparr>ap_tray := Some t1\<rparr>, w1) = live (a, w)"
      using 1(1) coord_inv_control [OF 1(1), of "ap_coordinator a"] by (auto simp: live_def control_def)
    with 1 assms(1) s Some t show ?thesis
      by (auto simp: turn_tray_def sound_def good_def tray_synced_def pending_ok_def app_mode_def tray_mode_def)
  qed (use assms(1) s in \<open>simp add: turn_tray_def\<close>)
qed

text \<open>An event that carries a request for Allow mode to the application thread.\<close>

fun carries_release :: "app_event \<Rightarrow> application \<Rightarrow> bool" where
  "carries_release (Ev_Loop _) a \<longleftrightarrow>
     (\<exists>p \<in> set (iq_pending (ap_requests a)). releasing_request (pr_request p)) \<or>
     (\<exists>x \<in> set (waiting_actions a). releasing_action x)"
| "carries_release _ a \<longleftrightarrow> False"

lemma event_sound:
  assumes "sound s" and "\<not> forced (app_event_step os ui e s)"
  shows "sound (app_event_step os ui e s) \<and>
    (app_mode (fst s) = Block \<and> \<not> carries_release e (fst s) \<longrightarrow> app_mode (fst (app_event_step os ui e s)) = Block)"
proof (cases e)
  case (Ev_Loop input)
  from message_step_sound [of os input s, OF prod.collapse [symmetric] assms(1)] assms(2) Ev_Loop show ?thesis by auto
next
  case Ev_Local_Turn
  with turn_layer_sound [OF assms(1), of "do_local (local_worker_turn os)"] turns_ok(1) turns_idle(1) show ?thesis by simp
next
  case Ev_Update_Turn
  with turn_layer_sound [OF assms(1), of "do_update (update_worker_turn os)"] turns_ok(2) turns_idle(2) show ?thesis by simp
next
  case Ev_Remote_Turn
  with turn_layer_sound [OF assms(1), of "do_remote (remote_worker_turn os)"] turns_ok(3) turns_idle(3) show ?thesis by simp
next
  case (Ev_Tray_Turn messages clicks)
  with turn_tray_sound [OF assms(1), of "Tray_Turn messages clicks" os ui] show ?thesis by simp
next
  case Ev_Tray_Wake
  with turn_tray_sound [OF assms(1), of Tray_Wake os ui] show ?thesis by simp
next
  case (Ev_Request sender request awaited)
  with assms(1) show ?thesis
    by (cases s) (simp add: sound_def good_def live_def tray_synced_def pending_ok_def app_mode_def)
qed

end
