(* ===== verification/Application_Runs.thy ===== *)
theory Application_Runs
  imports Application_Invariant
begin

text \<open>
  The application from \<^verbatim>\<open>bootstrap\<close> on: the states it can be in until Windows ends the session by
  force, and what the user can rely on there. The pipe and the tray can only do what they were asked
  for, and shutting down answers everyone and takes everything down.
\<close>

subsection \<open>Starting\<close>

lemma flags_shutdown_new: "session_flags (snd (shutdown_new os reason w)) = session_flags w"
proof -
  have d: "session_flags (destroy_window os n v) = session_flags v" for n v
    by (rule control_session_flags) (rule statics_control, simp)
  have s: "session_flags (snd (syscall os c v)) = session_flags v" for c v
    by (rule control_session_flags) simp
  have r: "session_flags (snd (register_window_class os v)) = session_flags v" for v
    by (simp add: register_window_class_def session_flags_def call_eqs and_then_def Let_def split: option.split)
  show ?thesis
    unfolding shutdown_new_def current_instance_def create_message_window_def create_session_window_def
      register_suspend_resume_notification_def
    by (intro and_then_keeps [where P = "\<lambda>v. session_flags v = session_flags w"])
      (simp_all add: d s r call_eqs split: option.split)
qed

lemma create_coordinator_flags:
  assumes "create_blocker_coordinator os mode w = (Inr c, w')"
  shows "session_flags w' = session_flags w"
proof -
  obtain b w1 where n: "shutdown_new os DEFAULT_SHUTDOWN_BLOCK_REASON w = (Inr b, w1)"
    using assms by (auto simp: create_blocker_coordinator_def coordinator_new_def split: prod.splits sum.splits)
  let ?s = "(\<lparr>bc_mode = Allow, bc_shutdown = b, bc_local = local_default, bc_update = update_default,
      bc_remote = remote_default, bc_sleep = sleep_blocker_default\<rparr>, w1)"
  obtain r s1 where m: "set_mode os mode ?s = (r, s1)" by (rule prod.exhaust)
  have "layers_inv (fst ?s)"
    by (simp add: layers_inv_def remote_inv_def remote_default_def sleep_inv_def sleep_blocker_default_def
        local_default_def update_default_def local_inv_def update_inv_def)
  note f = set_mode_flags [OF this, of os mode, unfolded m snd_conv]
  have "s1 = (c, w')"
    using assms n m by (auto simp: create_blocker_coordinator_def coordinator_new_def split: prod.splits sum.splits)
  with f flags_shutdown_new [of os DEFAULT_SHUTDOWN_BLOCK_REASON w] n show ?thesis by simp
qed

lemma start_tray_outcome:
  assumes "start_tray os k surface mode w = (Inr tray, w')"
  shows "control w' = control w \<and> (\<forall>t. tray = Some t \<longrightarrow> tray_mode t = mode) \<and> waiting_actions (a\<lparr>ap_tray := tray\<rparr>) = []"
proof -
  have win: "control (snd (snd (create_taskbar_created_window os (k, v)))) = control v" for v
    by (simp add: create_taskbar_created_window_def and_then_def on_world_def register_taskbar_created_window_class_def
        taskbar_created_message_id_def current_instance_def call_eqs Let_def split: option.split)
  have spawn: "control v' = control v \<and> tray_mode t = mode \<and> tt_actions t = []"
    if sp: "spawn_tray_service os vis mode k v = (Inr t, v')" for vis t v v'
  proof -
    let ?v = "snd (syscall os (Thread (SpawnThread TRAY_THREAD_NAME)) v)"
    have t: "tray_thread_start os vis mode (k, ?v) = (t, v')"
      using sp by (auto simp: spawn_tray_service_def call_unit_cases Let_def split: option.splits prod.splits)
    obtain r k1 v1 where c: "create_taskbar_created_window os (k, ?v) = (r, (k1, v1))" by (metis prod.exhaust)
    have "control v1 = control v" using win [of ?v] c by simp
    with t c show ?thesis
      by (cases r) (auto simp: tray_thread_start_def call_value_eq tray_mode_def target_def wish_def)
  qed
  show ?thesis
    using assms spawn by (cases surface) (auto simp: start_tray_def waiting_actions_def and_then_Inr_iff)
qed

lemma keeps_session_id: "keeps_control (current_session_id os)"
  unfolding current_session_id_def
  by (intro keeping) (simp add: keeps_control_def case_prod_beta Let_def split: option.split)

lemma ipc_start_control:
  assumes "ipc_start os codec reports w = (Inr server, w')"
  shows "control w' = control w"
proof -
  have quiet: "actions = []" if "wait_for_server_startup reports = (Inr u, actions)" for u actions
  proof -
    have "wait_for_reports n b rs = (Inr u, actions) \<Longrightarrow> actions = []" for n b rs
      by (induction n b rs rule: wait_for_reports.induct) (auto split: sum.splits)
    with that show ?thesis by (simp add: wait_for_server_startup_def)
  qed
  have paths: "keeps_control (current_control_pipe_path os)" "keeps_control (current_status_pipe_path os)"
    unfolding current_control_pipe_path_def current_status_pipe_path_def by (intro keeping keeps_session_id)+
  show ?thesis
    using assms quiet keeps_controlD [OF paths(1)] keeps_controlD [OF paths(2)]
    by (auto simp: ipc_start_def and_then_Inr_iff call_unit_cases Let_def split: option.splits prod.splits)
qed

lemma bootstrap_sound:
  assumes "bootstrap os codec k reports primary options (sk, w) = (Inr a, (sk', w'))"
    and "\<not> blocker_active w" and "\<not> end_session_cleanup_started w"
  shows "sound (run_start (a, w')) \<and> app_mode a = initial_mode options \<and>
    ap_pending_block_restore_after_wake a = None \<and> ap_answers a = []"
proof -
  obtain r0 sk0 w0 where l: "initialize_structured_logging os (sk, w) = (r0, (sk0, w0))" by (metis prod.exhaust)
  have c0: "control w0 = control w"
    using l by (auto simp: initialize_structured_logging_def call_unit_cases control_def split: option.splits)
  obtain u where r0: "r0 = Inr u" using assms(1) l by (cases r0) (auto simp: bootstrap_def)
  obtain rc w1 where n: "create_blocker_coordinator os (initial_mode options) w0 = (rc, w1)" by (rule prod.exhaust)
  obtain c where rc: "rc = Inr c" using assms(1) l r0 n by (cases rc) (auto simp: bootstrap_def)
  let ?w = "snd (syscall os (App GetCurrentThreadId) w1)"
  obtain rt w2 where t: "start_tray os k (tray_surface options) (coordinator_mode c) ?w = (rt, w2)" by (rule prod.exhaust)
  obtain tray where rt: "rt = Inr tray"
    using assms(1) l r0 n rc t by (cases rt) (auto simp: bootstrap_def call_value_eq)
  obtain ri w3 where i: "ipc_start os codec reports w2 = (ri, w3)" by (rule prod.exhaust)
  obtain server where ri: "ri = Inr server"
    using assms(1) l r0 n rc t rt i by (cases ri) (auto simp: bootstrap_def call_value_eq)
  define w4 where "w4 = log_event os ''state_changed'' Src_Application
      (''Wardoff transitioned from inactive to '' @ mode_label (initial_mode options) @ '' mode during startup.'') True
      (log_event os ''application_started'' Src_Application (application_start_message options) True w3)"
  define a0 where "a0 = \<lparr>ap_coordinator = c, ap_tray = tray, ap_requests = \<lparr>iq_pending = [], iq_open = True\<rparr>,
      ap_answers = [], ap_server = server, ap_started_at = r_num (os (trace w4) (Thread InstantNow)),
      ap_forced_shutdown_cleanup_completed = False,
      ap_pending_block_restore_after_wake = None, ap_primary_instance = primary, ap_log_sink = sk0,
      ap_ui_thread = r_num (os (trace w1) (App GetCurrentThreadId))\<rparr>"
  let ?w4 = "snd (syscall os (Thread InstantNow) w4)"
  have e: "(a, w') = refresh_autostart_tray_state os (a0, ?w4)"
    using assms(1) l r0 n rc t rt i ri
    by (auto simp: bootstrap_def call_value_eq a0_def w4_def Let_def split: prod.splits)
  have off: "\<not> blocker_active w0" using c0 assms(2) by (simp add: control_def)
  have inv: "coord_inv (c, w1)" "bc_mode c = initial_mode options"
    using coordinator_new_inv [OF n [unfolded rc create_blocker_coordinator_def] off] by simp_all
  have ctrl: "control ?w4 = control w1"
    using start_tray_outcome [OF t [unfolded rt]] ipc_start_control [OF i [unfolded ri]] by (simp add: w4_def)
  have "session_flags w1 = session_flags w"
    using create_coordinator_flags [OF n [unfolded rc]] control_session_flags [OF c0] by simp
  then have started: "\<not> end_session_cleanup_started ?w4"
    using control_session_flags [OF ctrl] assms(3) by (simp add: session_flags_def)
  have synced: "tray_synced a0"
    using start_tray_outcome [OF t [unfolded rt]] by (auto simp: tray_synced_def a0_def app_mode_def)
  have c: "calm (a0, ?w4) (a, w')" unfolding e by (rule refresh_autostart_calm)
  have fields: "ap_coordinator a = c" "tray_synced a" "\<not> ap_forced_shutdown_cleanup_completed a"
    "ap_pending_block_restore_after_wake a = None" "control w' = control w1"
    using c ctrl synced rest_queues [OF calm_rest [OF c]] by (simp_all add: calm_def a0_def)
  have "coord_inv (c, w')" using inv(1) coord_inv_control [OF fields(5)] by simp
  moreover have "\<not> end_session_cleanup_started w'"
    using started ctrl fields(5) by (simp add: control_def)
  moreover have "ap_answers a = []"
    using answers_field.kept_autostart(2) [of os "(a0, ?w4)"] e by (simp add: a0_def) (metis fst_conv)
  ultimately show ?thesis
    using fields inv(2)
    by (simp add: sound_def good_def live_def pending_ok_def run_start_def app_mode_def coordinator_mode_def coord_inv_def
        set_power_broadcast_callback_def set_end_session_cleanup_callback_def)
qed

text \<open>The states of a running application, from its start to a forced end of the session.\<close>

inductive running :: "os \<Rightarrow> nat \<Rightarrow> app \<Rightarrow> bool" for os ui where
  running_start: "bootstrap os codec k reports primary options (sk, w) = (Inr a, (sk', w')) \<Longrightarrow> \<not> blocker_active w \<Longrightarrow>
    \<not> end_session_cleanup_started w \<Longrightarrow> running os ui (run_start (a, w'))"
| running_event: "running os ui s \<Longrightarrow> \<not> forced s \<Longrightarrow> running os ui (app_event_step os ui e s)"

lemma running_sound: "running os ui s \<Longrightarrow> \<not> forced s \<Longrightarrow> sound s"
proof (induction rule: running.induct)
  case running_start
  then show ?case using bootstrap_sound by blast
next
  case (running_event s e)
  then show ?case using event_sound by blast
qed


lemma resume_outcome:
  assumes "sound s"
  obtains s2 where "app_handle_power_broadcast os Resume s = restore_block_after_wake_if_needed os s2" "good s2"
    "rest (fst s2) = rest (fst s)" "app_mode (fst s2) = app_mode (fst s)"
    "app_mode (fst s) = Allow \<Longrightarrow> s2 = s"
proof -
  obtain r s1 where m: "on_coordinator (renew_sleep_requests_after_resume os) s = (r, s1)" by (rule prod.exhaust)
  have 1: "good s1" "rest (fst s1) = rest (fst s)" "app_mode (fst s1) = app_mode (fst s)"
    using renew_outcome [OF m] assms by (simp_all add: sound_def)
  let ?s2 = "case r of Inr _ \<Rightarrow> s1 | Inl error \<Rightarrow> noted os ''sleep_resume_failed'' Src_Sleep error False s1"
  have "app_mode (fst s) = Allow \<Longrightarrow> r = Inr () \<and> s1 = s"
    using m by (cases s) (auto simp: on_coordinator_def renew_sleep_requests_after_resume_def app_mode_def coordinator_mode_def)
  then show thesis
    using m 1 by (intro that [of ?s2]) (auto simp: app_handle_power_broadcast_def split: sum.split)
qed

lemma resume_in_allow:
  assumes "sound s" and "app_mode (fst s) = Allow"
  shows "app_mode (fst (app_handle_power_broadcast os Resume s)) =
      (if ap_pending_block_restore_after_wake (fst s) \<noteq> None \<and> is_ok (fst (set_mode os Block (ap_coordinator (fst s), snd s)))
       then Block else Allow) \<and>
    ap_pending_block_restore_after_wake (fst (app_handle_power_broadcast os Resume s)) = None"
proof -
  obtain s2 where "app_handle_power_broadcast os Resume s = restore_block_after_wake_if_needed os s2" "good s2" "s2 = s"
    using resume_outcome [OF assms(1)] assms(2) by metis
  with restore_outcome [of s2 os] assms(2) show ?thesis by simp
qed

lemma resume_without_pending:
  assumes "sound s" and "ap_pending_block_restore_after_wake (fst s) = None"
  shows "app_mode (fst (app_handle_power_broadcast os Resume s)) = app_mode (fst s)"
proof -
  obtain s2 where s2: "app_handle_power_broadcast os Resume s = restore_block_after_wake_if_needed os s2" "good s2"
    "rest (fst s2) = rest (fst s)" "app_mode (fst s2) = app_mode (fst s)"
    using resume_outcome [OF assms(1)] by metis
  with restore_outcome [OF s2(2), of os] assms(2) rest_queues(2) [OF s2(3)] show ?thesis by simp
qed


subsection \<open>What the user is told\<close>

text \<open>What the status of a well-formed coordinator says about each layer.\<close>

lemma layer_status_truth:
  assumes "layers_inv c"
  shows "(ls_local_shutdown (coordinator_layer_status c) \<longleftrightarrow> local_is_active (bc_local c)) \<and>
     (ls_update (coordinator_layer_status c) \<longleftrightarrow> update_is_active (bc_update c)) \<and>
     (ls_remote (coordinator_layer_status c) \<longleftrightarrow> remote_is_active (bc_remote c)) \<and>
     (ls_sleep (coordinator_layer_status c) \<longleftrightarrow> pr_handle (sb_requests (bc_sleep c)) \<noteq> None) \<and>
     (local_is_active (bc_local c) \<longrightarrow> (\<exists>k. lb_worker (bc_local c) = Some k \<and> lw_phase k = Polling)) \<and>
     (update_is_active (bc_update c) \<longrightarrow> (\<exists>k. ub_worker (bc_update c) = Some k \<and> uw_phase k = Polling)) \<and>
     (remote_is_active (bc_remote c) \<longrightarrow> (\<exists>k. rb_worker (bc_remote c) = Some k \<and> rw_phase k = Polling))"
proof -
  have "sleep_is_active (bc_sleep c) \<longleftrightarrow> pr_handle (sb_requests (bc_sleep c)) \<noteq> None"
    using assms requests_ok_active by (simp add: layers_inv_def sleep_inv_def sleep_is_active_def)
  with assms show ?thesis
    by (simp add: coordinator_layer_status_def layers_inv_def local_inv_def update_inv_def remote_inv_def
        local_is_active_def update_is_active_def remote_is_active_def)
qed

text \<open>C37. The application tells the truth. In every state a running application can be in, from
  its start until Windows ends the session by force, whatever was asked of it, whatever Windows
  answered and however the worker and tray threads interleaved: a status request reports the
  coordinator's mode and the blocked-event counter; Layer 1 as active exactly in Block mode; the
  local, update and remote layers exactly as these layers' own flags say, and none of them as active
  without its worker inside its loop; the sleep layer as active exactly while its power request
  object is held; and every layer as inactive in Allow mode. A shutdown query is refused exactly in Block mode;
  a tray thread that runs has been told this mode last; and a restore after wake-up is pending
  only in Allow mode.\<close>

theorem application_tells_the_truth:
  assumes "running os ui (a, w)" and "\<not> ap_forced_shutdown_cleanup_completed a" and "ap_coordinator a = c"
  shows "(\<exists>status layers. fst (handle_ipc_request os Status (a, w)) = Resp_Status status \<and>
            so_state status = status_state_of (app_mode a) \<and> so_blocked_count status = Some (blocked_event_count w) \<and>
            so_layers status = Some layers \<and>
            (ls_shutdown layers \<longleftrightarrow> app_mode a = Block) \<and>
            (ls_local_shutdown layers \<longleftrightarrow> local_is_active (bc_local c)) \<and>
            (ls_update layers \<longleftrightarrow> update_is_active (bc_update c)) \<and>
            (ls_remote layers \<longleftrightarrow> remote_is_active (bc_remote c)) \<and>
            (ls_sleep layers \<longleftrightarrow> pr_handle (sb_requests (bc_sleep c)) \<noteq> None) \<and>
            (local_is_active (bc_local c) \<longrightarrow> (\<exists>k. lb_worker (bc_local c) = Some k \<and> lw_phase k = Polling)) \<and>
            (update_is_active (bc_update c) \<longrightarrow> (\<exists>k. ub_worker (bc_update c) = Some k \<and> uw_phase k = Polling)) \<and>
            (remote_is_active (bc_remote c) \<longrightarrow> (\<exists>k. rb_worker (bc_remote c) = Some k \<and> rw_phase k = Polling)) \<and>
            (app_mode a = Allow \<longrightarrow> layers = all_layers_off)) \<and>
         (fst (handle_query_end_session os wparam lparam w) = 0 \<longleftrightarrow> app_mode a = Block) \<and>
         (\<forall>t. ap_tray a = Some t \<and> tt_running t \<longrightarrow> tray_mode t = app_mode a) \<and>
         (ap_pending_block_restore_after_wake a \<noteq> None \<longrightarrow> app_mode a = Allow)"
proof -
  have s: "sound (a, w)" using running_sound [OF assms(1)] assms(2) by simp
  then have inv: "coord_inv (c, w)" using assms(3) by (simp add: sound_def good_def live_def)
  then have layers: "layers_inv c" by (simp add: coord_inv_def)
  have st: "fst (handle_ipc_request os Status (a, w)) = Resp_Status (fst (app_status_output os (a, w)))"
    by (simp add: handle_ipc_request_def case_prod_beta Let_def)
  have out: "so_state (fst (app_status_output os (a, w))) = status_state_of (app_mode a)"
    "so_blocked_count (fst (app_status_output os (a, w))) = Some (blocked_event_count w)"
    "so_layers (fst (app_status_output os (a, w))) = Some (coordinator_layer_status c)"
    using assms(3) by (simp_all add: app_status_output_def status_active_def blocked_count_def call_value_eq Let_def)
  have l1: "ls_shutdown (coordinator_layer_status c) \<longleftrightarrow> app_mode a = Block"
    using inv assms(3) by (auto simp: coordinator_layer_status_def shutdown_is_active_def coord_inv_def app_mode_def coordinator_mode_def)
  have off: "app_mode a = Allow \<longrightarrow> coordinator_layer_status c = all_layers_off"
    using inv idle_status [of c] assms(3)
    by (auto simp: coord_inv_def app_mode_def coordinator_mode_def all_layers_off_def)
  have q: "fst (handle_query_end_session os wparam lparam w) = 0 \<longleftrightarrow> app_mode a = Block"
    using inv assms(3) by (auto simp: query_answer coord_inv_def app_mode_def coordinator_mode_def)
  have t: "\<forall>t. ap_tray a = Some t \<and> tt_running t \<longrightarrow> tray_mode t = app_mode a"
    "ap_pending_block_restore_after_wake a \<noteq> None \<longrightarrow> app_mode a = Allow"
    using s by (auto simp: sound_def good_def tray_synced_def pending_ok_def)
  show ?thesis
    by (rule conjI, rule exI [of _ "fst (app_status_output os (a, w))"], rule exI [of _ "coordinator_layer_status c"])
      (use st out l1 layer_status_truth [OF layers] off q t in blast)+
qed

text \<open>A session end is forced only by \<^verbatim>\<open>WM_ENDSESSION\<close> with a nonzero \<^verbatim>\<open>wParam\<close> while Windows
  reports \<^verbatim>\<open>SM_SHUTTINGDOWN\<close>.\<close>

lemma window_proc_forced:
  assumes "\<not> forced s"
    and "forced (snd (shutdown_window_proc os (handle_forced_shutdown_cleanup os) (app_handle_power_broadcast os)
           hwnd message wparam lparam s))"
  shows "message = WM_ENDSESSION \<and> wparam \<noteq> 0 \<and> r_num (os (trace (snd s)) (Window GetSystemMetrics_ShuttingDown)) \<noteq> 0"
proof -
  obtain a w where s: "s = (a, w)" by (rule prod.exhaust)
  show ?thesis
    using assms s forced_field.kept_broadcast [of os]
    by (auto simp: shutdown_window_proc_def handle_end_session_def handle_power_broadcast_def call_eqs Let_def
        is_shutdown_or_session_end_in_progress_def should_run_end_session_cleanup_def case_prod_beta
        split: if_splits option.splits)
qed

lemma forced_by_session_end:
  assumes "\<not> forced s" and "forced (app_event_step os ui e s)"
  shows "\<exists>hwnd wparam lparam. e = Ev_Loop (Peeked hwnd WM_ENDSESSION wparam lparam) \<and> wparam \<noteq> 0 \<and>
     r_num (os (trace (snd s)) (Window GetSystemMetrics_ShuttingDown)) \<noteq> 0"
proof -
  obtain a w where s: "s = (a, w)" by (rule prod.exhaust)
  have layer: "forced (turn_layer f s) = forced s" for f
    by (cases s) (simp add: turn_layer_def case_prod_beta Let_def)
  have tray: "forced (turn_tray os ui x s) = forced s" for x
    by (cases s) (simp add: turn_tray_def case_prod_beta Let_def split: option.split)
  show ?thesis
  proof (cases e)
    case (Ev_Loop input)
    show ?thesis
    proof (cases input)
      case (Peeked hwnd message wparam lparam)
      let ?s = "snd (shutdown_window_proc os (handle_forced_shutdown_cleanup os) (app_handle_power_broadcast os)
          hwnd message wparam lparam s)"
      have "forced ?s"
        using assms Ev_Loop Peeked
        by (auto simp: message_step_def forced_pending case_prod_beta Let_def split: if_splits)
      from window_proc_forced [OF assms(1) this] Ev_Loop Peeked show ?thesis by auto
    next
      case Queue_Empty
      obtain quit s1 where p: "process_pending os s = (quit, s1)" by (rule prod.exhaust)
      obtain r s2 where u: "on_world (call_unit os (App WaitMessage)) s1 = (r, s2)" by (rule prod.exhaust)
      have "forced s1 = forced s" using forced_pending [of os s] p by simp
      moreover have "fst s2 = fst s1" using fst_on_world [of "call_unit os (App WaitMessage)" s1] u by simp
      ultimately show ?thesis
        using assms Ev_Loop Queue_Empty p u by (cases r) (auto simp: message_step_def split: if_splits)
    qed
  qed (use assms layer tray s in simp_all)
qed

text \<open>C38. Block mode is left only on request. If an event takes a running application from Block
  to Allow mode, then it is a round of the message loop, and either that round delivered a forced
  session end (\<^verbatim>\<open>WM_ENDSESSION\<close> with a nonzero \<^verbatim>\<open>wParam\<close> while Windows reports
  \<^verbatim>\<open>SM_SHUTTINGDOWN\<close>), or it handled a request for Allow mode from the pipe, or the tray's Allow,
  Shutdown, Reboot, Sleep or Hibernate. No worker, no tray thread turn, no broadcast, no failing
  call, no cancelled session end and no other request does.\<close>

theorem block_left_only_on_request:
  assumes "running os ui s" and "\<not> forced s" and "app_mode (fst s) = Block"
    and "app_mode (fst (app_event_step os ui e s)) = Allow"
  shows "\<exists>input. e = Ev_Loop input \<and>
     ((\<exists>hwnd wparam lparam. input = Peeked hwnd WM_ENDSESSION wparam lparam \<and> wparam \<noteq> 0 \<and>
         r_num (os (trace (snd s)) (Window GetSystemMetrics_ShuttingDown)) \<noteq> 0) \<or>
      (\<exists>p \<in> set (iq_pending (ap_requests (fst s))). pr_request p = SetMode Pipe_Allow) \<or>
      (\<exists>action \<in> set (waiting_actions (fst s)).
         action \<in> {Tray_Allow, Tray_Shutdown, Tray_Reboot, Tray_Sleep, Tray_Hibernate}))"
proof (cases "forced (app_event_step os ui e s)")
  case True
  from forced_by_session_end [OF assms(2) True] show ?thesis by auto
next
  case False
  have "carries_release e (fst s)"
    using event_sound [OF running_sound [OF assms(1,2)] False] assms(3,4) by auto
  moreover have "releasing_request r \<longleftrightarrow> r = SetMode Pipe_Allow" for r
    by (cases r rule: releasing_request.cases) auto
  moreover have "releasing_action x \<longleftrightarrow> x \<in> {Tray_Allow, Tray_Shutdown, Tray_Reboot, Tray_Sleep, Tray_Hibernate}" for x
    by (cases x) auto
  ultimately show ?thesis by (cases e) auto
qed

text \<open>C39. Sleep and wake-up round trip. When the tray's Sleep or Hibernate succeeds from Block
  mode, the application is in Allow mode with the restore pending and shutdown queries are
  answered with \<^verbatim>\<open>TRUE\<close>; suspending changes neither. On resume the restore is used up and Block
  mode is back exactly if the coordinator could be switched; a further resume changes nothing. A
  mode request from the pipe before the resume cancels the restore: the resume then leaves the
  mode as the request did.\<close>

theorem sleep_round_trip:
  assumes "running os ui s" and "\<not> forced s" and "app_mode (fst s) = Block" and "action \<in> {PA_Sleep, PA_Hibernate}"
    and "run_power_action os action s = (Inr (), s1)"
    and "app_handle_power_broadcast os Suspend s1 = s2" and "app_handle_power_broadcast os Resume s2 = s3"
    and "handle_ipc_request os (SetMode mode) s2 = (response, s2')"
  shows "app_mode (fst s1) = Allow \<and> fst (handle_query_end_session os wparam lparam (snd s1)) = 1 \<and>
         ap_pending_block_restore_after_wake (fst s1) = Some (PendingSuspend action) \<and>
         app_mode (fst s2) = Allow \<and> ap_pending_block_restore_after_wake (fst s2) = Some (WaitingForResume action) \<and>
         (app_mode (fst s3) = Block \<longleftrightarrow> is_ok (fst (set_mode os Block (ap_coordinator (fst s2), snd s2)))) \<and>
         ap_pending_block_restore_after_wake (fst s3) = None \<and>
         app_mode (fst (app_handle_power_broadcast os Resume s3)) = app_mode (fst s3) \<and>
         app_mode (fst (app_handle_power_broadcast os Resume s2')) = app_mode (fst s2')"
proof -
  have g: "good s" using running_sound [OF assms(1,2)] by (simp add: sound_def)
  have P: "pending_wake_restore_for_tray_power_action Block action = Some (PendingSuspend action)" using assms(4) by auto
  have 1: "sound s1" "app_mode (fst s1) = Allow" "ap_pending_block_restore_after_wake (fst s1) = Some (PendingSuspend action)"
    using run_power_outcome [OF assms(5) g] assms(3) P by simp_all
  have inv: "coord_inv (ap_coordinator (fst s1), snd s1)" using 1(1) by (simp add: sound_def good_def live_def)
  have 2: "sound s2" using power_broadcast_sound [OF 1(1), of os Suspend] assms(6) by simp
  have suspended: "app_mode (fst s2) = Allow" "ap_pending_block_restore_after_wake (fst s2) = Some (WaitingForResume action)"
    using assms(6) 1 by (cases s1; auto simp: app_handle_power_broadcast_def app_mode_def mark_system_suspended_def)+
  have 3: "app_mode (fst s3) = (if is_ok (fst (set_mode os Block (ap_coordinator (fst s2), snd s2))) then Block else Allow)"
      "ap_pending_block_restore_after_wake (fst s3) = None" "sound s3"
    using resume_in_allow [OF 2 suspended(1), of os] suspended assms(7) power_broadcast_sound [OF 2, of os Resume] by auto
  have cancelled: "sound s2'" "ap_pending_block_restore_after_wake (fst s2') = None"
    using handle_set_mode [OF assms(8) 2] by simp_all
  have again: "app_mode (fst (app_handle_power_broadcast os Resume x)) = app_mode (fst x)"
    if "sound x" "ap_pending_block_restore_after_wake (fst x) = None" for x
    by (rule resume_without_pending [OF that])
  have q: "fst (handle_query_end_session os wparam lparam (snd s1)) = 1"
    using inv 1(2) by (simp add: query_answer coord_inv_def app_mode_def coordinator_mode_def)
  show ?thesis using 1 suspended 3 again [OF 3(3,2)] again [OF cancelled] q by simp
qed


subsection \<open>Shutting down\<close>

lemma attempts_keep:
  assumes "\<And>i s. P s \<Longrightarrow> P (snd (body i s))" and "P s"
  shows "P (snd (for_attempts body k n s))"
  using assms(2)
proof (induction "n - k" arbitrary: k s rule: less_induct)
  case less
  obtain q s1 where b: "body k s = (q, s1)" by (rule prod.exhaust)
  have "P s1" using assms(1) [OF less.prems, of k] b by simp
  with less b show ?case
    by (subst for_attempts.simps) (auto split: option.split)
qed

lemma keeps_checked [keeping]: "keeps_control (checked r)"
  by (simp add: keeps_control_def)

lemma keeps_connect_pipe: "keeps_control (connect_pipe os control_pipe path deadline)"
proof -
  have wait: "control (snd (wait_before_pipe_retry os k deadline w)) = control w" for k w
    by (simp add: wait_before_pipe_retry_def call_value_eq Let_def split: option.split)
  have "control (snd (snd (connect_round os path control_pipe deadline k s))) = control (snd s)" for k s
    using wait by (cases s) (auto simp: connect_round_def call_num_cases case_prod_beta Let_def split: option.split)
  then have "control (snd (snd (for_attempts (connect_round os path control_pipe deadline) 0 n (None, w)))) = control w" for n w
    using attempts_keep [of "\<lambda>s. control (snd s) = control w" "connect_round os path control_pipe deadline" "(None, w)" 0 n] by simp
  then show ?thesis
    by (simp add: keeps_control_def connect_pipe_def case_prod_beta split: option.split)
qed

lemma keeps_paths [keeping]: "keeps_control (current_control_pipe_path os)" "keeps_control (current_status_pipe_path os)"
  unfolding current_control_pipe_path_def current_status_pipe_path_def by (intro keeping keeps_session_id)+

lemma keeps_send_request: "keeps_control (send_request os codec request)"
  unfolding send_request_def send_request_with_connect_deadline_def connect_control_pipe_def exchange_def pipe_write_def
    read_reply_def
  by (intro keeping keeps_connect_pipe control_frame.keeps_with_file TrueI)

lemma begin_shutdown_control:
  assumes "ipc_begin_shutdown os (srv, w) = (srv', w')"
  shows "control w' = control w \<and> is_control_join_handle srv' = is_control_join_handle srv \<and>
    is_status_join_handle srv' = is_status_join_handle srv"
proof -
  obtain r w1 where p: "current_status_pipe_path os w = (r, w1)" by (rule prod.exhaust)
  have "control (wake_status_server os w) = control w"
    using p keeps_controlD [OF keeps_paths(2) p]
    by (cases r) (simp_all add: wake_status_server_def close_file_def call_num_cases split: option.split)
  with assms show ?thesis by (auto simp: ipc_begin_shutdown_def)
qed

lemma ipc_shutdown_outcome:
  assumes "ipc_shutdown os codec (srv, w) = (r, (srv', w'))"
  shows "control w' = control w \<and> (r = Inr () \<longrightarrow> \<not> is_control_join_handle srv' \<and> \<not> is_status_join_handle srv')"
proof (cases "\<not> is_control_join_handle srv \<and> \<not> is_status_join_handle srv")
  case False
  obtain srv1 w1 where b: "ipc_begin_shutdown os (srv, w) = (srv1, w1)" by (rule prod.exhaust)
  obtain q w2 where s: "send_request os codec ShutdownServer w1 = (q, w2)" by (rule prod.exhaust)
  have c: "control w2 = control w"
    using begin_shutdown_control [OF b] keeps_controlD [OF keeps_send_request s] by simp
  show ?thesis
  proof (cases "stop_request q")
    case (Inl message)
    with assms False b s c show ?thesis by (auto simp: ipc_shutdown_def)
  next
    case (Inr u)
    have "and_then (ipc_join_control os) (\<lambda>_. ipc_join_status os) (srv1, w2) = (r, (srv', w'))"
      using assms False b s Inr by (simp add: ipc_shutdown_def)
    with c show ?thesis
      by (auto simp: and_then_def ipc_join_control_def ipc_join_status_def call_unit_cases split: if_splits option.splits)
  qed
qed (use assms in \<open>auto simp: ipc_shutdown_def\<close>)

lemma drain_stops:
  assumes "drain_commands os commands (t, w) = (results, (t', w'))" and "Cmd_Shutdown \<in> set commands"
  shows "ts_controller (tt_state t') = None"
  using assms
proof (induction commands arbitrary: t w results)
  case (Cons command commands)
  obtain stop result st1 w1 where h: "handle_tray_command os command (tt_state t, w) = (stop, result, (st1, w1))"
    by (metis prod.exhaust)
  show ?case
  proof (cases "command = Cmd_Shutdown")
    case True
    with Cons.prems(1) show ?thesis by (auto simp: tray_exit_def Let_def)
  next
    case False
    then have "\<not> stop" using handle_command_frame [OF h] by simp
    then obtain results1 where "drain_commands os commands (t\<lparr>tt_state := st1, tt_commands := commands\<rparr>, w1) = (results1, (t', w'))"
      using Cons.prems(1) h by (auto split: prod.splits)
    with Cons.IH Cons.prems(2) False show ?thesis by auto
  qed
qed simp

lemma service_shutdown_outcome:
  assumes "service_shutdown os (t, w) = (t', w')"
  shows "control w' = control w \<and> \<not> tt_running t' \<and> (tt_running t \<longrightarrow> ts_controller (tt_state t') = None)"
proof -
  obtain t1 w1 where s: "snd (service_send Cmd_Shutdown (t, w)) = (t1, w1)" by (rule prod.exhaust)
  obtain results t2 w2 where d: "drain_commands os (tt_commands t1) (t1, w1) = (results, (t2, w2))" by (metis prod.exhaust)
  have eq: "t' = t2" "w' = snd (syscall os (Thread (JoinThread TRAY_THREAD_NAME)) w2)"
    using assms s d by (simp_all add: service_shutdown_def Let_def)
  show ?thesis
    using s drain_frame [OF d] drain_stops [OF d] by (auto simp: eq service_send_def split: if_splits)
qed

lemma reject_outcome:
  assumes "reject_pending_ipc_requests (a, w) = (a', w')"
  shows "w' = w \<and> a' = a\<lparr>ap_requests := (ap_requests a)\<lparr>iq_pending := []\<rparr>,
    ap_answers := ap_answers a @ map (\<lambda>p. (pr_sender p, shutting_down)) (filter pr_awaited (iq_pending (ap_requests a)))\<rparr>"
proof -
  have "fold (\<lambda>p. answer p shutting_down) ps (b, w) =
      (b\<lparr>ap_answers := ap_answers b @ map (\<lambda>p. (pr_sender p, shutting_down)) (filter pr_awaited ps)\<rparr>, w)" for ps b
    by (induction ps arbitrary: b) (simp_all add: answer_def)
  with assms show ?thesis by (simp add: reject_pending_ipc_requests_def)
qed

lemma logging_shutdown_outcome:
  assumes "shutdown_structured_logging os env (sk, w) = (sk', w')"
  shows "control w' = control w \<and> sk_handle sk' \<noteq> Handle_Present"
  using assms
  by (auto simp: shutdown_structured_logging_def writer_join_def call_unit_cases control_def Let_def
      split: writer_handle.splits option.splits)

lemma coordinator_shutdown_outcome:
  assumes "coordinator_shutdown os s = (r, s')" and "coord_inv s"
  shows "coord_inv s' \<and> background_idle (fst s') \<and> (r = Inr () \<longrightarrow> bc_mode (fst s') = Allow)"
proof -
  obtain r1 s1 where m: "set_mode os Allow s = (r1, s1)" by (rule prod.exhaust)
  have eq: "s' = s1" "r = Inr () \<longleftrightarrow> is_ok r1"
    using assms(1) m by (cases r1; auto simp: coordinator_shutdown_def coordinator_deactivate_def and_then_def)+
  show ?thesis
  proof (cases "bc_mode (fst s)")
    case Block
    from set_mode_allow [OF assms(2) this m] show ?thesis by (cases r1) (auto simp: eq)
  next
    case Allow
    with m assms(2) show ?thesis by (auto simp: eq set_mode_same coord_inv_def)
  qed
qed


text \<open>The end of \<^verbatim>\<open>shutdown\<close>: the result, the last log record and the log writer.\<close>

lemma shutdown_log:
  assumes "app_shutdown os codec env (a, w) = (r, (a', w'))"
    and "ipc_begin_shutdown os (ap_server a, w) = (srv1, w1)"
    and "reject_pending_ipc_requests (a\<lparr>ap_server := srv1\<rparr>, w1) = (a2, w2)"
    and "ipc_shutdown os codec (ap_server a2, w2) = (ri, (srv3, w3))"
    and "coordinator_shutdown os (ap_coordinator a2, w3) = (rb, (c4, w4))"
    and "s5 = (case ap_tray a of None \<Rightarrow> (None, w4) | Some t \<Rightarrow> let (t, w) = service_shutdown os (t, w4) in (Some t, w))"
    and "s5 = (tray5, w5)" and "a5 = a2\<lparr>ap_server := srv3, ap_coordinator := c4, ap_tray := tray5\<rparr>"
  shows "\<exists>sk w6. a' = a5\<lparr>ap_log_sink := sk\<rparr> \<and> w' = w6 \<and> control w6 = control w5 \<and> sk_handle sk \<noteq> Handle_Present \<and>
    (r = Inr () \<longleftrightarrow> is_ok ri \<and> is_ok rb)"
proof -
  have tray: "ap_tray a2 = ap_tray a" using reject_outcome [OF assms(3)] by simp
  define p where "p = (case ap_tray a of None \<Rightarrow> (a2\<lparr>ap_server := srv3, ap_coordinator := c4\<rparr>, w4)
    | Some t \<Rightarrow> let (t, w) = service_shutdown os (t, w4) in (a2\<lparr>ap_server := srv3, ap_coordinator := c4, ap_tray := Some t\<rparr>, w))"
  have p: "p = (a5, w5)"
    using assms(6,7,8) tray by (cases "ap_tray a") (auto simp: p_def case_prod_beta Let_def)
  define q where "q = (case (ri, rb) of (Inr _, Inr _) \<Rightarrow> Inr () | (Inl e, Inr _) \<Rightarrow> Inl e | (Inr _, Inl e) \<Rightarrow> Inl e
    | (Inl e, Inl e') \<Rightarrow> Inl (''Wardoff encountered shutdown errors in both the IPC server and blocker coordinator: '' @ e @ ''; '' @ e'))"
  define n where "n = (case q of
      Inr _ \<Rightarrow> noted os ''application_stopped'' Src_Application ''Wardoff shut down cleanly.'' True (a5, w5)
    | Inl e \<Rightarrow> noted os ''application_stopped'' Src_Application (''Wardoff shut down with an error: '' @ e) False (a5, w5))"
  obtain v where n: "n = (a5, v)" "control v = control w5" by (cases q) (auto simp: n_def noted_def)
  obtain sk w6 where l: "shutdown_structured_logging os env (ap_log_sink a5, v) = (sk, w6)" by (rule prod.exhaust)
  have "app_shutdown os codec env (a, w) = (q, (a5\<lparr>ap_log_sink := sk\<rparr>, w6))"
    unfolding app_shutdown_def on_coordinator_def Let_def prod.case assms(2,3,4)
    using assms(5) tray p [unfolded p_def] n(1) [unfolded n_def q_def] l
    by (cases "ap_tray a"; cases ri; cases rb) (auto simp: q_def)
  with assms(1) l n(2) logging_shutdown_outcome [OF l] show ?thesis
    by (cases ri; cases rb) (auto simp: q_def)
qed


lemma shutdown_steps:
  assumes "app_shutdown os codec env (a, w) = (r, (a', w'))" and "coord_inv (ap_coordinator a, w)"
  shows "ap_answers a' = ap_answers a @ map (\<lambda>p. (pr_sender p, shutting_down)) (filter pr_awaited (iq_pending (ap_requests a))) \<and>
    iq_pending (ap_requests a') = [] \<and> (\<forall>t'. ap_tray a' = Some t' \<longrightarrow> \<not> tt_running t') \<and>
    (\<forall>t t'. ap_tray a = Some t \<and> tt_running t \<and> ap_tray a' = Some t' \<longrightarrow> ts_controller (tt_state t') = None) \<and>
    coord_inv (ap_coordinator a', w') \<and> background_idle (ap_coordinator a') \<and> sk_handle (ap_log_sink a') \<noteq> Handle_Present \<and>
    session_flags w' = session_flags w \<and>
    (r = Inr () \<longrightarrow> app_mode a' = Allow \<and> \<not> is_control_join_handle (ap_server a') \<and> \<not> is_status_join_handle (ap_server a'))"
proof -
  obtain srv1 w1 where b: "ipc_begin_shutdown os (ap_server a, w) = (srv1, w1)" by (rule prod.exhaust)
  obtain a2 w2 where j: "reject_pending_ipc_requests (a\<lparr>ap_server := srv1\<rparr>, w1) = (a2, w2)" by (rule prod.exhaust)
  note 2 = reject_outcome [OF j]
  obtain ri srv3 w3 where i: "ipc_shutdown os codec (ap_server a2, w2) = (ri, (srv3, w3))" by (metis prod.exhaust)
  note 3 = ipc_shutdown_outcome [OF i]
  obtain rb c4 w4 where c: "coordinator_shutdown os (ap_coordinator a, w3) = (rb, (c4, w4))" by (metis prod.exhaust)
  have c3: "control w3 = control w" using begin_shutdown_control [OF b] 2 3 by simp
  have inv3: "coord_inv (ap_coordinator a, w3)" using assms(2) coord_inv_control [OF c3] by simp
  note 4 = coordinator_shutdown_outcome [OF c inv3]
  have "layers_inv (ap_coordinator a)" using assms(2) by (simp add: coord_inv_def)
  then have f4: "session_flags w4 = session_flags w"
    using set_mode_flags [of "(ap_coordinator a, w3)" os Allow] c control_session_flags [OF c3]
    by (auto simp: coordinator_shutdown_def coordinator_deactivate_def and_then_def split: prod.splits sum.splits)
  define s5 where "s5 = (case ap_tray a of None \<Rightarrow> (None, w4)
    | Some t \<Rightarrow> let (t, w) = service_shutdown os (t, w4) in (Some t, w))"
  obtain tray5 w5 where s5: "s5 = (tray5, w5)" by (rule prod.exhaust)
  have 5: "control w5 = control w4 \<and> (\<forall>t'. tray5 = Some t' \<longrightarrow> \<not> tt_running t') \<and>
      (\<forall>t t'. ap_tray a = Some t \<and> tt_running t \<and> tray5 = Some t' \<longrightarrow> ts_controller (tt_state t') = None)"
    using s5 service_shutdown_outcome [of os _ w4] by (auto simp: s5_def Let_def split: option.splits prod.splits)
  define a5 where "a5 = a2\<lparr>ap_server := srv3, ap_coordinator := c4, ap_tray := tray5\<rparr>"
  have cc: "coordinator_shutdown os (ap_coordinator a2, w3) = (rb, (c4, w4))" using c 2 by simp
  obtain sk w6 where a': "a' = a5\<lparr>ap_log_sink := sk\<rparr>" and w': "w' = w6" and ctl: "control w6 = control w5"
    and h: "sk_handle sk \<noteq> Handle_Present" and res: "r = Inr () \<longleftrightarrow> is_ok ri \<and> is_ok rb"
    using shutdown_log [OF assms(1) b j i cc s5_def s5 a5_def] by blast
  have ctl': "control w' = control w4" using ctl 5 w' by simp
  have inv: "coord_inv (c4, w')" using 4 coord_inv_control [OF ctl', of c4] by simp
  have fields: "ap_coordinator a' = c4" "ap_tray a' = tray5" "ap_server a' = srv3" "ap_log_sink a' = sk"
    "ap_answers a' = ap_answers a2" "ap_requests a' = ap_requests a2" by (simp_all add: a' a5_def)
  have queue: "ap_answers a2 = ap_answers a @ map (\<lambda>p. (pr_sender p, shutting_down)) (filter pr_awaited (iq_pending (ap_requests a)))"
    "iq_pending (ap_requests a2) = []" using 2 by simp_all
  have both: "ri = Inr () \<and> rb = Inr ()" if "r = Inr ()" using res that by (auto simp: is_ok_iff)
  have mode: "app_mode a' = Allow \<and> \<not> is_control_join_handle srv3 \<and> \<not> is_status_join_handle srv3" if "r = Inr ()"
    using both [OF that] 3 4 fields(1) by (simp add: app_mode_def coordinator_mode_def)
  have idle: "background_idle c4" using 4 by simp
  have flags: "session_flags w' = session_flags w" using control_session_flags [OF ctl'] f4 by simp
  show ?thesis unfolding fields using queue 5 inv idle h flags mode by (intro conjI) blast+
qed




lemma headless_refresh:
  assumes "ap_tray (fst s) = None"
  shows "ap_tray (fst (refresh_autostart_tray_state os s)) = None"
proof -
  have sync: "ap_tray (fst (sync_tray_autostart_with_logging os b src m x)) = None" if "ap_tray (fst x) = None" for b src m x
    using that by (cases x) (simp add: sync_tray_autostart_with_logging_def sync_tray_autostart_def on_tray_def)
  have logged: "ap_tray (fst (noted os e src m b x)) = ap_tray (fst x)" for e src m b x
    by (cases x) (simp add: noted_def)
  obtain r s1 where m: "on_world (is_enabled os) s = (r, s1)" by (rule prod.exhaust)
  have "fst s1 = fst s" using fst_on_world [of "is_enabled os" s] m by simp
  with assms m sync logged show ?thesis by (cases r) (simp_all add: refresh_autostart_tray_state_def)
qed


subsection \<open>A run\<close>

text \<open>A system where every call succeeds and the session id has its four bytes.\<close>

definition host_os :: os where
  "host_os h c = (quiet_os h c)\<lparr>r_bytes := [0, 0, 0, 0]\<rparr>"

lemma host_replies [simp]:
  "r_err (host_os h c) = None" "r_num (host_os h c) = 7" "r_bytes (host_os h c) = [0, 0, 0, 0]"
  by (simp_all add: host_os_def quiet_os_def)

definition blank_sink :: log_sink where
  "blank_sink = \<lparr>sk_handle = Handle_Unset, sk_disk = ready_disk\<rparr>"

definition blank_statics :: tray_statics where
  "blank_statics = \<lparr>tk_class_registered = False, tk_message_id = None, tk_pending = False\<rparr>"

definition both_ready :: "(server_kind \<times> unit res) list" where
  "both_ready = [(Control_Server, Inr ()), (Status_Server, Inr ())]"

definition headless_block :: runtime_options where
  "headless_block = \<lparr>initial_mode = Block, tray_surface = Surface_Headless\<rparr>"

lemma host_call: "call_unit host_os c w = (Inr (), snd (syscall host_os c w))"
  by (simp add: call_unit_cases)

lemma host_ipc: "\<exists>server w'. ipc_start host_os codec both_ready w = (Inr server, w')"
proof -
  have "\<exists>id w'. current_session_id host_os w = (Inr id, w')" for w
    by (simp add: current_session_id_def and_then_def map_error_def with_guard_def call_num_cases syscall_def Let_def)
  then have p: "\<exists>path w'. current_control_pipe_path host_os w = (Inr path, w')" "\<exists>path w'. current_status_pipe_path host_os w = (Inr path, w')" for w
    by (metis current_control_pipe_path_def current_status_pipe_path_def and_then_Inr ok_apply)+
  have ready: "wait_for_server_startup both_ready = (Inr (), [])"
    by (simp add: wait_for_server_startup_def both_ready_def numeral_2_eq_2)
  obtain p1 w1 where 1: "current_control_pipe_path host_os w = (Inr p1, w1)" using p(1) by blast
  obtain p2 w2 where 2: "current_status_pipe_path host_os w1 = (Inr p2, w2)" using p(2) by blast
  show ?thesis
    using 1 2 ready by (simp add: ipc_start_def and_then_def map_error_def host_call)
qed

lemma host_boots:
  obtains a sk w where
    "bootstrap host_os plain_codec blank_statics both_ready 7 headless_block (blank_sink, initial_world) = (Inr a, (sk, w))"
    "ap_tray a = None" "iq_pending (ap_requests a) = []"
proof -
  obtain sk0 w0 where l: "initialize_structured_logging host_os (blank_sink, initial_world) = (Inr (), (sk0, w0))"
    by (auto simp: initialize_structured_logging_def initial_world_def host_call)
  have "is_ok (fst (create_blocker_coordinator host_os Block w0))"
    unfolding create_blocker_coordinator_def by (rule granted_new) simp_all
  then obtain c w1 where n: "create_blocker_coordinator host_os Block w0 = (Inr c, w1)"
    by (cases "create_blocker_coordinator host_os Block w0") (auto simp: is_ok_iff)
  let ?w = "snd (syscall host_os (App GetCurrentThreadId) w1)"
  obtain server w2 where i: "ipc_start host_os plain_codec both_ready ?w = (Inr server, w2)" using host_ipc by blast
  have "\<exists>a w. bootstrap host_os plain_codec blank_statics both_ready 7 headless_block (blank_sink, initial_world) = (Inr a, (sk0, w))"
    using l n i by (simp add: bootstrap_def headless_block_def start_tray_def call_value_eq Let_def split: prod.split)
  then obtain a w where b: "bootstrap host_os plain_codec blank_statics both_ready 7 headless_block (blank_sink, initial_world) = (Inr a, (sk0, w))"
    by blast
  obtain s0 where "refresh_autostart_tray_state host_os s0 = (a, w)" "ap_tray (fst s0) = None" "ap_requests (fst s0) = \<lparr>iq_pending = [], iq_open = True\<rparr>"
    using b l n i by (auto simp: bootstrap_def headless_block_def start_tray_def call_value_eq Let_def split: prod.splits)
  then have "ap_tray a = None" "iq_pending (ap_requests a) = []"
    using calm_rest [OF refresh_autostart_calm [of s0 host_os]] headless_refresh [of s0 host_os]
    by (auto simp: rest_def dest: arg_cong [where f = fst])
  with b that show thesis by blast
qed

lemma blank_world: "\<not> blocker_active initial_world" "\<not> end_session_cleanup_started initial_world"
  by (simp_all add: initial_world_def)

lemma host_starts:
  obtains a w where "running host_os 1 (a, w)" "\<not> ap_forced_shutdown_cleanup_completed a" "app_mode a = Block"
    "ap_tray a = None" "iq_pending (ap_requests a) = []"
proof -
  obtain a sk w where b: "bootstrap host_os plain_codec blank_statics both_ready 7 headless_block (blank_sink, initial_world) =
      (Inr a, (sk, w))" and q: "ap_tray a = None" "iq_pending (ap_requests a) = []"
    by (rule host_boots)
  have r: "running host_os 1 (run_start (a, w))" by (rule running_start [OF b blank_world])
  have s: "sound (run_start (a, w))" "app_mode a = Block"
    using bootstrap_sound [OF b blank_world] by (simp_all add: headless_block_def)
  moreover have "\<not> ap_forced_shutdown_cleanup_completed a" using s(1) by (simp add: sound_def good_def live_def run_start_def)
  ultimately show thesis using that r q by (simp add: run_start_def)
qed

theorem application_tells_the_truth_witness:
  "\<exists>a w status. running host_os 1 (a, w) \<and> fst (handle_ipc_request host_os Status (a, w)) = Resp_Status status \<and>
     so_state status = St_Block \<and> fst (handle_query_end_session host_os 0 0 w) = 0"
proof -
  obtain a w where r: "running host_os 1 (a, w)" "\<not> ap_forced_shutdown_cleanup_completed a" "app_mode a = Block"
    by (rule host_starts)
  with application_tells_the_truth [OF r(1,2) refl, of 0 0] show ?thesis by auto
qed


lemma host_allow: "is_ok (fst (set_mode host_os Allow s))"
proof -
  obtain r s1 where d: "in_shutdown (shutdown_deactivate host_os) s = (r, s1)" by (rule prod.exhaust)
  have "is_ok r"
    using d by (cases s) (auto simp: in_shutdown_def shutdown_deactivate_def host_call Let_def split: if_splits)
  with d show ?thesis
    by (cases r) (auto simp: set_mode_def activate_allow_mode_def deactivate_allow_mode_layers_def map_error_def Let_def
        split: prod.split)
qed

lemma host_block: "is_ok (fst (set_mode host_os Block s))"
proof (cases "bc_mode (fst s) = Block")
  case False
  obtain r c1 w1 where a: "activation_sequence host_os s = (r, (c1, w1))" by (metis prod.exhaust)
  have "is_ok (fst (activation_sequence host_os s))" by (rule granted_activation) simp_all
  with a False show ?thesis by (cases r) (simp_all add: set_mode_def activate_block_mode_def)
qed (simp add: set_mode_same)

lemma host_switch:
  assumes "ap_tray (fst s) = None"
  obtains s' where "app_set_mode host_os Allow src s = (Inr (), s')" "ap_tray (fst s') = None"
proof -
  obtain a w where s: "s = (a, w)" by (rule prod.exhaust)
  obtain r c1 w1 where m: "set_mode host_os Allow (ap_coordinator a, w) = (r, (c1, w1))" by (metis prod.exhaust)
  have "is_ok r" using host_allow [of "(ap_coordinator a, w)"] m by simp
  then obtain b where b: "r = Inr b" by (auto simp: is_ok_iff)
  have "\<exists>s'. app_set_mode host_os Allow src s = (Inr (), s') \<and> ap_tray (fst s') = None"
  proof (cases "app_mode a = Allow")
    case True
    with assms s show ?thesis by (simp add: app_set_mode_def sync_tray_def on_tray_def)
  next
    case False
    with assms s m b show ?thesis by (simp add: app_set_mode_def on_coordinator_def sync_tray_def on_tray_def noted_def)
  qed
  with that show thesis by blast
qed

theorem sleep_round_trip_witness:
  "\<exists>s s1. running host_os 1 s \<and> app_mode (fst s) = Block \<and> run_power_action host_os PA_Sleep s = (Inr (), s1) \<and>
     app_mode (fst s1) = Allow \<and>
     app_mode (fst (app_handle_power_broadcast host_os Resume (app_handle_power_broadcast host_os Suspend s1))) = Block"
proof -
  obtain a w where r: "running host_os 1 (a, w)" "\<not> ap_forced_shutdown_cleanup_completed a" "app_mode a = Block" "ap_tray a = None"
    by (rule host_starts)
  let ?a = "a\<lparr>ap_pending_block_restore_after_wake := Some (PendingSuspend PA_Sleep)\<rparr>"
  have "ap_tray (fst (?a, w)) = None" using r(4) by simp
  then obtain s0 where m: "app_set_mode host_os Allow Src_Tray (?a, w) = (Inr (), s0)" by (rule host_switch)
  have "is_ok (fst (execute_power_action host_os PA_Sleep (snd s0)))"
    by (simp add: execute_power_action_def enable_shutdown_privilege_def with_guard_def and_then_def map_error_def
        request_suspend_def call_eqs Let_def ERROR_NOT_ALL_ASSIGNED_def)
  then obtain v1 where e: "execute_power_action host_os PA_Sleep (snd s0) = (Inr (), v1)"
    by (cases "execute_power_action host_os PA_Sleep (snd s0)") (auto simp: is_ok_iff)
  have "\<exists>s1. run_power_action host_os PA_Sleep (a, w) = (Inr (), s1)"
    using m e r(3) by (cases s0) (simp add: run_power_action_def on_world_def Let_def)
  then obtain s1 where p: "run_power_action host_os PA_Sleep (a, w) = (Inr (), s1)" by blast
  obtain s2 where s2: "app_handle_power_broadcast host_os Suspend s1 = s2" by simp
  obtain response s3 where h: "handle_ipc_request host_os (SetMode Pipe_Allow) s2 = (response, s3)" by (rule prod.exhaust)
  have f: "\<not> forced (a, w)" "app_mode (fst (a, w)) = Block" "PA_Sleep \<in> {PA_Sleep, PA_Hibernate}" using r(2,3) by simp_all
  from sleep_round_trip [OF r(1) f p s2 refl h, of 0 0] host_block [of "(ap_coordinator (fst s2), snd s2)"] r(1) f(2) p s2 show ?thesis
    by blast
qed

theorem block_left_only_on_request_witness:
  "\<exists>s. running host_os 1 s \<and> app_mode (fst s) = Block \<and> app_mode (fst (app_event_step host_os 1 (Ev_Loop Queue_Empty) s)) = Allow \<and>
     (\<exists>p \<in> set (iq_pending (ap_requests (fst s))). pr_request p = SetMode Pipe_Allow)"
proof -
  obtain a w where r: "running host_os 1 (a, w)" "\<not> ap_forced_shutdown_cleanup_completed a" "app_mode a = Block" "ap_tray a = None"
      "iq_pending (ap_requests a) = []"
    by (rule host_starts)
  define p where "p = \<lparr>pr_request = SetMode Pipe_Allow, pr_sender = Control_Server, pr_awaited = True\<rparr>"
  define s where "s = app_event_step host_os 1 (Ev_Request Control_Server (SetMode Pipe_Allow) True) (a, w)"
  have s: "s = (a\<lparr>ap_requests := (ap_requests a)\<lparr>iq_pending := [p]\<rparr>\<rparr>, w)"
    using r(5) by (simp add: s_def p_def enqueue_def)
  have run: "running host_os 1 s" unfolding s_def by (rule running_event [OF r(1)]) (simp add: r(2))
  have f: "\<not> forced s" "app_mode (fst s) = Block" "waiting_actions (fst s) = []"
    using r by (simp_all add: s app_mode_def waiting_actions_def)
  define s0 where "s0 = clear_pending_block_restore_after_wake (a\<lparr>ap_requests := (ap_requests a)\<lparr>iq_pending := []\<rparr>\<rparr>, w)"
  have "ap_tray (fst s0) = None" using r(4) by (simp add: s0_def clear_pending_block_restore_after_wake_def)
  then obtain s1 where m: "app_set_mode host_os Allow Src_Ipc s0 = (Inr (), s1)" and t: "ap_tray (fst s1) = None" by (rule host_switch)
  have "good s0" using running_sound [OF run f(1)] by (simp add: s0_def s sound_def good_def live_def tray_synced_def app_mode_def
      clear_pending_block_restore_after_wake_def)
  note out = app_set_mode_outcome [OF m this]
  define s2 where "s2 = answer p Resp_Ok (noted host_os ''mode_request_processed'' Src_Ipc
    (''Wardoff applied a named-pipe request for '' @ mode_label Allow @ '' mode.'') True s1)"
  have q: "process_ipc_requests host_os s = s2"
    using m by (simp add: s process_ipc_requests_def handle_ipc_request_def p_def s0_def s2_def)
  have c: "calm s1 s2" unfolding s2_def using calm_trans [OF calm_noted answer_calm] by blast
  have "ap_tray (fst s2) = None" using t by (cases s1) (simp add: s2_def answer_def noted_def)
  then have d: "process_tray_actions host_os s2 = (False, s2)" by (cases s2) (simp add: process_tray_actions_def)
  define s3 where "s3 = app_event_step host_os 1 (Ev_Loop Queue_Empty) s"
  have s3: "fst s3 = fst s2" using q d by (cases s2) (simp add: s3_def message_step_def process_pending_def on_world_def host_call)
  have mode: "app_mode (fst s3) = Allow" using out calm_mode [OF c] s3 by simp
  from block_left_only_on_request [OF run f(1,2) mode [unfolded s3_def]] f(3)
  have "\<exists>p \<in> set (iq_pending (ap_requests (fst s))). pr_request p = SetMode Pipe_Allow" by auto
  with run f(2) mode show ?thesis unfolding s3_def by (intro exI [of _ s] conjI)
qed


end
