(* ===== verification/Launch.thy ===== *)
theory Launch
  imports Application_Runs Cli
begin

text \<open>
  \<^verbatim>\<open>main.rs\<close>: what a process does with its command line. It reads the status or the log, changes the
  scheduled task, hands its request to the primary instance, relaunches itself, or becomes the
  primary runtime.

  \<open>launch_env\<close> gathers what the process is started with: Windows, the JSON codec, the log
  directory, the tray's statics, the startup reports of its pipe workers, the events its message
  loop will see, its arguments, whether it is a debug build, and what \<^verbatim>\<open>env_logger\<close> answers to
  \<^verbatim>\<open>initialize_human_logging\<close>. Command-line parsing (clap) is a parameter: a \<open>wardoff_cli\<close>. A runtime whose events are used up is \<open>Still_Running\<close>.
\<close>

record launch_env =
  lx_os :: os
  lx_codec :: ipc_codec
  lx_log :: log_env
  lx_statics :: tray_statics
  lx_reports :: "(server_kind \<times> unit res) list"
  lx_events :: "app_event list"
  lx_args :: "string list"
  lx_debug :: bool
  lx_human_logging :: "unit res"

datatype launch_result = Exited nat | Failed string | Still_Running | Panicked

type_synonym lstate = "log_sink \<times> world"

definition ELEVATED_RELAUNCH_MUTEX_RETRY_ATTEMPTS :: nat where "ELEVATED_RELAUNCH_MUTEX_RETRY_ATTEMPTS = 20"
definition ELEVATED_RELAUNCH_MUTEX_RETRY_DELAY :: nat where "ELEVATED_RELAUNCH_MUTEX_RETRY_DELAY = 100000000"
definition STATUS_PIPE_DISCOVERY_TIMEOUT :: nat where "STATUS_PIPE_DISCOVERY_TIMEOUT = 2000000000"

definition finished :: "string + nat \<Rightarrow> launch_result" where
  "finished r = (case r of Inr code \<Rightarrow> Exited code | Inl message \<Rightarrow> Failed message)"

definition println :: "os \<Rightarrow> string \<Rightarrow> world \<Rightarrow> world" where
  "println os line w = snd (call_unit os (App (PrintOut line)) w)"

subsection \<open>Reading\<close>

definition print_status :: "os \<Rightarrow> ipc_codec \<Rightarrow> status_output \<Rightarrow> nat \<Rightarrow> (world, string, nat) prog" where
  "print_status os codec status exit_code w =
     (case status_to_json codec status of
        Inl e \<Rightarrow> (Inl e, w)
      | Inr json \<Rightarrow> (Inr exit_code, println os json w))"

definition active_primary_pipe_unavailable_message :: string where
  "active_primary_pipe_unavailable_message = ''Wardoff found an active primary instance, but its control pipe is unavailable. The primary instance may still be starting up or shutting down.''"

definition handle_secondary_status_request_via_control_pipe :: "os \<Rightarrow> ipc_codec \<Rightarrow> nat \<Rightarrow> (world, string, nat) prog" where
  "handle_secondary_status_request_via_control_pipe os codec connect_deadline w =
     (case send_status_request_with_connect_deadline os codec connect_deadline w of
        (Inr (Resp_Status status), w) \<Rightarrow> print_status os codec status 0 w
      | (Inr (Resp_Error message), w) \<Rightarrow> (Inl message, w)
      | (Inr Resp_Ok, w) \<Rightarrow> (Inl ''Wardoff received an unexpected empty response for --status.'', w)
      | (Inl Unavailable, w) \<Rightarrow> (Inl active_primary_pipe_unavailable_message, w)
      | (Inl (Transport message), w) \<Rightarrow> (Inl message, w))"

definition handle_secondary_status_request :: "os \<Rightarrow> ipc_codec \<Rightarrow> (world, string, nat) prog" where
  "handle_secondary_status_request os codec w =
     (let (now, w) = call_value os (Thread InstantNow) w;
          connect_deadline = now + STATUS_PIPE_DISCOVERY_TIMEOUT
      in case read_status os codec (Some connect_deadline) w of
           (Inr status, w) \<Rightarrow> print_status os codec status 0 w
         | (Inl Unavailable, w) \<Rightarrow> handle_secondary_status_request_via_control_pipe os codec connect_deadline w
         | (Inl (Transport message), w) \<Rightarrow> (Inl message, w))"

definition handle_status_request :: "os \<Rightarrow> ipc_codec \<Rightarrow> (world, string, nat) prog" where
  "handle_status_request os codec =
     and_then (claim_primary_instance os) (\<lambda>claim w.
       case claim of
         Claim_Primary primary_instance \<Rightarrow> print_status os codec status_inactive 1 (instance_guard_drop os primary_instance w)
       | Claim_Secondary \<Rightarrow> handle_secondary_status_request os codec w)"

definition handle_log_request :: "os \<Rightarrow> log_env \<Rightarrow> u64 \<Rightarrow> (lstate, string, nat) prog" where
  "handle_log_request os env tail = (\<lambda>(sk, w).
     case read_recent_lines env tail (sk_disk sk) of
       (Inl message, d) \<Rightarrow> (Inl message, (sk\<lparr>sk_disk := d\<rparr>, w))
     | (Inr recent, d) \<Rightarrow> (Inr 0, (sk\<lparr>sk_disk := d\<rparr>, fold (println os) recent w)))"

definition handle_read_only_request :: "launch_env \<Rightarrow> requested_action \<Rightarrow> lstate \<Rightarrow> launch_result \<times> lstate" where
  "handle_read_only_request x action s =
     (case action of
        Act_Status \<Rightarrow> (let (r, s) = on_world (handle_status_request (lx_os x) (lx_codec x)) s in (finished r, s))
      | Act_Log tail \<Rightarrow> (let (r, s) = handle_log_request (lx_os x) (lx_log x) tail s in (finished r, s))
      | _ \<Rightarrow> (Panicked, s))"

subsection \<open>Becoming the runtime\<close>

datatype default_launch_disposition = Default_Bootstrap nat | Default_Exit nat

datatype runtime_console_disposition = Console_Bootstrap | Console_Exit nat

text \<open>The instance guard comes back only with \<^verbatim>\<open>Bootstrap\<close>; every other way out drops it.\<close>

definition prepare_default_launch :: "os \<Rightarrow> nat \<Rightarrow> bool \<Rightarrow> (world, string, default_launch_disposition) prog" where
  "prepare_default_launch os primary_instance internal_elevated_relaunch w =
     (case is_process_elevated os w of
        (Inl error, w) \<Rightarrow>
          (Inl (''Wardoff could not determine whether administrator rights are available before default startup: '' @ err_text error),
           instance_guard_drop os primary_instance w)
      | (Inr is_elevated, w) \<Rightarrow>
          if internal_elevated_relaunch then
            (if is_elevated then (Inr (Default_Bootstrap primary_instance), w)
             else (Inl ''Wardoff relaunched its default startup path without administrator rights.'',
                   instance_guard_drop os primary_instance w))
          else if is_elevated then (Inr (Default_Bootstrap primary_instance), w)
          else
            (case relaunch_self_elevated os w of
               (Inl message, w) \<Rightarrow> (Inl message, instance_guard_drop os primary_instance w)
             | (Inr Elev_Launched, w) \<Rightarrow> (Inr (Default_Exit 0), instance_guard_drop os primary_instance w)
             | (Inr Elev_Cancelled, w) \<Rightarrow> (Inr (Default_Exit 1), instance_guard_drop os primary_instance w)))"

definition prepare_runtime_console_launch :: "os \<Rightarrow> string list \<Rightarrow> bool \<Rightarrow> (world, string, runtime_console_disposition) prog" where
  "prepare_runtime_console_launch os args internal_detached_runtime =
     and_then (console_launch_context os) (\<lambda>console.
       case console of
         Console_None \<Rightarrow> ok Console_Bootstrap
       | Console_Owned \<Rightarrow> and_then (hide_and_free_console os) (\<lambda>_. ok Console_Bootstrap)
       | Console_Inherited \<Rightarrow>
           if internal_detached_runtime then ok Console_Bootstrap
           else and_then (relaunch_self_detached os args) (\<lambda>_. ok (Console_Exit 0)))"

text \<open>\<^verbatim>\<open>run_message_loop\<close>, along the events of the run; \<open>None\<close> is a loop still going.\<close>

fun run_message_loop :: "os \<Rightarrow> nat \<Rightarrow> app_event list \<Rightarrow> app \<Rightarrow> unit res option \<times> app" where
  "run_message_loop os ui [] s = (None, s)"
| "run_message_loop os ui (Ev_Loop input # events) s =
     (case message_step os input s of
        (Some result, s) \<Rightarrow> (Some result, s)
      | (None, s) \<Rightarrow> run_message_loop os ui events s)"
| "run_message_loop os ui (event # events) s = run_message_loop os ui events (app_event_step os ui event s)"

text \<open>At the end of \<^verbatim>\<open>run\<close> the application is dropped: the coordinator, then the instance guard.\<close>

definition app_drop :: "os \<Rightarrow> app \<Rightarrow> lstate" where
  "app_drop os = (\<lambda>(a, w).
     (ap_log_sink a, instance_guard_drop os (ap_primary_instance a) (coordinator_drop os (ap_coordinator a, w))))"

definition run :: "launch_env \<Rightarrow> app \<Rightarrow> launch_result \<times> lstate" where
  "run x s =
     (case run_message_loop (lx_os x) (ap_ui_thread (fst s)) (lx_events x) (run_start s) of
        (None, (a, w)) \<Rightarrow> (Still_Running, (ap_log_sink a, w))
      | (Some loop_result, s) \<Rightarrow>
          let (result, s) = run_finish (lx_os x) (lx_codec x) (lx_log x) loop_result s
          in (case result of Inr _ \<Rightarrow> Exited 0 | Inl message \<Rightarrow> Failed message, app_drop (lx_os x) s))"

definition bootstrap_and_run :: "launch_env \<Rightarrow> requested_action \<Rightarrow> nat \<Rightarrow> lstate \<Rightarrow> launch_result \<times> lstate" where
  "bootstrap_and_run x action primary_instance s =
     (case runtime_options_for action of
        None \<Rightarrow> (Panicked, s)
      | Some options \<Rightarrow>
          (case bootstrap (lx_os x) (lx_codec x) (lx_statics x) (lx_reports x) primary_instance options s of
             (Inl message, s) \<Rightarrow> (Failed message, s)
           | (Inr application, (_, w)) \<Rightarrow> run x (application, w)))"

definition handle_primary_runtime_request ::
    "launch_env \<Rightarrow> requested_action \<Rightarrow> bool \<Rightarrow> bool \<Rightarrow> nat \<Rightarrow> lstate \<Rightarrow> launch_result \<times> lstate" where
  "handle_primary_runtime_request x action internal_elevated_relaunch internal_detached_runtime primary_instance s =
     (let os = lx_os x in
      case (if action = Act_Default then on_world (prepare_default_launch os primary_instance internal_elevated_relaunch) s
            else (Inr (Default_Bootstrap primary_instance), s)) of
        (Inl message, s) \<Rightarrow> (Failed message, s)
      | (Inr (Default_Exit exit_code), s) \<Rightarrow> (Exited exit_code, s)
      | (Inr (Default_Bootstrap primary_instance), s) \<Rightarrow>
          (case on_world (prepare_runtime_console_launch os (lx_args x) internal_detached_runtime) s of
             (Inl message, (sk, w)) \<Rightarrow> (Failed message, (sk, instance_guard_drop os primary_instance w))
           | (Inr (Console_Exit exit_code), (sk, w)) \<Rightarrow> (Exited exit_code, (sk, instance_guard_drop os primary_instance w))
           | (Inr Console_Bootstrap, s) \<Rightarrow> bootstrap_and_run x action primary_instance s))"

subsection \<open>Handing a request to the primary\<close>

definition forward_request_to_primary ::
    "launch_env \<Rightarrow> ipc_request \<Rightarrow> (nat \<Rightarrow> lstate \<Rightarrow> launch_result \<times> lstate) \<Rightarrow> lstate \<Rightarrow> launch_result \<times> lstate" where
  "forward_request_to_primary x request local_fallback s =
     (case on_world (send_request (lx_os x) (lx_codec x) request) s of
        (Inr Resp_Ok, s) \<Rightarrow> (Exited 0, s)
      | (Inr (Resp_Error message), s) \<Rightarrow> (Failed message, s)
      | (Inr (Resp_Status _), s) \<Rightarrow> (Failed ''Wardoff received a status payload for a control command.'', s)
      | (Inl Unavailable, s) \<Rightarrow>
          (case on_world (claim_primary_instance (lx_os x)) s of
             (Inl message, s) \<Rightarrow> (Failed message, s)
           | (Inr (Claim_Primary primary_instance), s) \<Rightarrow> local_fallback primary_instance s
           | (Inr Claim_Secondary, s) \<Rightarrow> (Failed active_primary_pipe_unavailable_message, s))
      | (Inl (Transport message), s) \<Rightarrow> (Failed message, s))"

definition handle_runtime_request ::
    "launch_env \<Rightarrow> requested_action \<Rightarrow> bool \<Rightarrow> bool \<Rightarrow> lstate \<Rightarrow> launch_result \<times> lstate" where
  "handle_runtime_request x action internal_elevated_relaunch internal_detached_runtime s =
     (let os = lx_os x;
          primary = handle_primary_runtime_request x action internal_elevated_relaunch internal_detached_runtime
      in case on_world
           (if action = Act_Default \<and> internal_elevated_relaunch
            then claim_primary_instance_with_retry os ELEVATED_RELAUNCH_MUTEX_RETRY_ATTEMPTS ELEVATED_RELAUNCH_MUTEX_RETRY_DELAY
            else claim_primary_instance os) s of
           (Inl message, s) \<Rightarrow> (Failed message, s)
         | (Inr (Claim_Primary primary_instance), s) \<Rightarrow> primary primary_instance s
         | (Inr Claim_Secondary, s) \<Rightarrow>
             (case ipc_request_for action of
                None \<Rightarrow> (Panicked, s)
              | Some request \<Rightarrow> forward_request_to_primary x request primary s))"

definition handle_local_autostart_request :: "launch_env \<Rightarrow> bool \<Rightarrow> nat \<Rightarrow> lstate \<Rightarrow> launch_result \<times> lstate" where
  "handle_local_autostart_request x enabled primary_instance = (\<lambda>(sk, w).
     let os = lx_os x;
         w = instance_guard_drop os primary_instance w;
         (started, s) = initialize_structured_logging os (sk, w);
         (result, s) = on_world (set_enabled os enabled) s;
         s = (if is_ok started then shutdown_structured_logging os (lx_log x) s else s)
     in (case result of Inr _ \<Rightarrow> Exited 0 | Inl message \<Rightarrow> Failed message, s))"

definition handle_autostart_request :: "launch_env \<Rightarrow> bool \<Rightarrow> lstate \<Rightarrow> launch_result \<times> lstate" where
  "handle_autostart_request x enabled s =
     (case on_world (claim_primary_instance (lx_os x)) s of
        (Inl message, s) \<Rightarrow> (Failed message, s)
      | (Inr (Claim_Primary primary_instance), s) \<Rightarrow> handle_local_autostart_request x enabled primary_instance s
      | (Inr Claim_Secondary, s) \<Rightarrow>
          forward_request_to_primary x (SetAutostart enabled) (handle_local_autostart_request x enabled) s)"

subsection \<open>\<^verbatim>\<open>main\<close>\<close>

definition hide_owned_console :: "os \<Rightarrow> world \<Rightarrow> world" where
  "hide_owned_console os w =
     (case console_launch_context os w of
        (Inr Console_Owned, w) \<Rightarrow> snd (hide_and_free_console os w)
      | (_, w) \<Rightarrow> w)"

definition run_main :: "launch_env \<Rightarrow> wardoff_cli \<Rightarrow> lstate \<Rightarrow> launch_result \<times> lstate" where
  "run_main x cli = (\<lambda>(sk, w).
     let s = (sk, hide_owned_console (lx_os x) w) in
     case lx_human_logging x of
       Inl message \<Rightarrow> (Failed message, s)
     | Inr _ \<Rightarrow>
         let action = requested_action cli in
         if is_read_only action then handle_read_only_request x action s
         else case action of
           Act_Autostart enabled \<Rightarrow> handle_autostart_request x enabled s
         | Act_Status \<Rightarrow> (Panicked, s)
         | Act_Log _ \<Rightarrow> (Panicked, s)
         | _ \<Rightarrow> handle_runtime_request x action (is_internal_elevated_relaunch cli) (is_internal_detached_runtime cli) s)"

definition should_show_graphical_startup_error :: "launch_env \<Rightarrow> world \<Rightarrow> bool \<times> world" where
  "should_show_graphical_startup_error x w =
     (if lx_debug x then (False, w)
      else if \<not> (\<forall>arg \<in> set (lx_args x). arg = INTERNAL_ELEVATED_RELAUNCH_ARG \<or> arg = INTERNAL_DETACHED_RUNTIME_ARG)
      then (False, w)
      else let (console, w) = console_launch_context (lx_os x) w in (console \<noteq> Inr Console_Inherited, w))"

definition show_fatal_error_dialog :: "os \<Rightarrow> string \<Rightarrow> string \<Rightarrow> world \<Rightarrow> world" where
  "show_fatal_error_dialog os title message w = snd (call_value os (App (MessageBoxW title message)) w)"

definition report_failure :: "launch_env \<Rightarrow> string \<Rightarrow> lstate \<Rightarrow> lstate" where
  "report_failure x error = (\<lambda>(sk, w).
     let os = lx_os x;
         (graphical, w) = should_show_graphical_startup_error x w;
         w = (if graphical
              then show_fatal_error_dialog os ''Wardoff failed to start''
                     (''Wardoff failed to start:'' @ [line_feed, line_feed] @ error) w
              else w);
         (sk, w) = (if structured_logging_initialized w
                    then shutdown_structured_logging os (lx_log x)
                           (sk, log_event os ''application_start_failed'' Src_Application
                                  (''Wardoff failed to start: '' @ error) False w)
                    else (sk, w))
     in (sk, snd (call_unit os (App (PrintErr (''wardoff failed: '' @ error))) w)))"

text \<open>The exit code; \<open>None\<close> while the runtime runs or after a panic.\<close>

definition main :: "launch_env \<Rightarrow> wardoff_cli \<Rightarrow> lstate \<Rightarrow> nat option \<times> lstate" where
  "main x cli s =
     (case run_main x cli s of
        (Exited exit_code, s) \<Rightarrow> (Some exit_code, s)
      | (Failed error, s) \<Rightarrow> (Some 1, report_failure x error s)
      | (_, s) \<Rightarrow> (None, s))"


subsection \<open>Reading only reads\<close>

text \<open>The calls of a process that only looks: it asks for its session and the mutex, opens the
  pipes of the primary and writes to them nothing but the line that asks for the status, reads,
  looks at the clock, waits, prints, and gets rid of its own console.\<close>

definition asks_for_status :: "ipc_codec \<Rightarrow> string \<Rightarrow> bool" where
  "asks_for_status codec bytes \<longleftrightarrow> bytes = [line_feed] \<or> request_to_json codec Status = Inr bytes"

fun reading_call :: "ipc_codec \<Rightarrow> sys_call \<Rightarrow> bool" where
  "reading_call codec (Instance _) = True"
| "reading_call codec (Token c) = (case c of AdjustTokenPrivileges _ _ \<Rightarrow> False | LookupPrivilegeValueW \<Rightarrow> False | _ \<Rightarrow> True)"
| "reading_call codec (Thread c) = (case c of ThreadSleep _ \<Rightarrow> True | InstantNow \<Rightarrow> True | _ \<Rightarrow> False)"
| "reading_call codec (Pipe c) = (case c of OpenPipe _ _ \<Rightarrow> True | WriteAll _ bytes \<Rightarrow> asks_for_status codec bytes
     | FlushFile _ \<Rightarrow> True | ReadLine _ \<Rightarrow> True | _ \<Rightarrow> False)"
| "reading_call codec (Shell c) = (case c of GetConsoleWindow \<Rightarrow> True | GetConsoleProcessList \<Rightarrow> True | HideWindow _ \<Rightarrow> True | FreeConsole \<Rightarrow> True | _ \<Rightarrow> False)"
| "reading_call codec (App c) = (case c of PrintOut _ \<Rightarrow> True | _ \<Rightarrow> False)"
| "reading_call codec _ = False"

text \<open>A step made of such calls only, which keeps the process's flags, its log channel and the
  handles it holds.\<close>

definition reads :: "ipc_codec \<Rightarrow> world \<Rightarrow> world \<Rightarrow> bool" where
  "reads codec w w' \<longleftrightarrow> only_calls (reading_call codec) w w' \<and> control w' = control w \<and> log_commands w' = log_commands w"

lemma reads_refl [simp]: "reads codec w w"
  by (simp add: reads_def)

lemma reads_trans: "reads codec w w' \<Longrightarrow> reads codec w' w'' \<Longrightarrow> reads codec w w''"
  by (auto simp: reads_def intro: only_calls_trans)

lemma reads_call: "reading_call codec c \<Longrightarrow> reads codec w (snd (syscall os c w))"
  by (auto simp: reads_def)

interpretation reading: call_frame "reads codec" "reading_call codec" for codec
  by unfold_locales (auto intro: reads_trans reads_call)

lemmas reading_rules = reading.keeps_and_then reading.keeps_map_error reading.keeps_calls reading.keeps_pure
  reading.keeps_guarded reading.keeps_with_file reading.keeps_either

lemma reading_checked: "reading.keeps codec (checked r)"
  by (simp add: reading.keeps_def)

lemma reads_session: "reading.keeps codec (current_session_id os)"
  unfolding current_session_id_def
  by (intro reading_rules) (auto simp: reading.keeps_def reads_call case_prod_beta Let_def split: option.split)

lemma reads_paths:
  "reading.keeps codec (current_mutex_name os)" "reading.keeps codec (current_control_pipe_path os)"
  "reading.keeps codec (current_status_pipe_path os)"
  unfolding current_mutex_name_def current_control_pipe_path_def current_status_pipe_path_def
  by (intro reading_rules reads_session)+

lemma reads_claim: "reading.keeps codec (claim_primary_instance os)"
proof -
  have probe: "reading.keeps codec (open_mutex_probe os name)" for name
    unfolding open_mutex_probe_def by (intro reading_rules) (simp_all add: reading.keeps_def reads_call)
  have "reads codec v (snd (claim_mutex os name v))" for name v
  proof -
    obtain r v1 where c: "call_num os (Instance (CreateMutexExW name)) v = (r, v1)" by (rule prod.exhaust)
    have 1: "reads codec v v1" using reading.keeps_result [OF reading.keeps_calls(2) c] by simp
    have tail: "reads codec v1 (snd (syscall os (Token GetLastError) v1))"
      "reads codec v1 (snd (syscall os (Token (CloseHandle h)) (snd (syscall os (Token GetLastError) v1))))" for h
      by (auto intro: reads_trans [OF reads_call reads_call] reads_call)
    show ?thesis
    proof (cases r)
      case (Inl e)
      with c 1 reading.keepsD [OF probe [of name], of v1] show ?thesis
        by (auto simp: claim_mutex_def Let_def case_prod_beta split: sum.split claim_disposition.split intro: reads_trans)
    next
      case (Inr h)
      with c 1 tail show ?thesis
        by (auto simp: claim_mutex_def call_value_eq Let_def intro: reads_trans)
    qed
  qed
  then show ?thesis unfolding claim_primary_instance_def by (intro reading_rules reads_paths reading.keepsI)
qed

lemma reads_connect: "reading.keeps codec (connect_pipe os control_pipe path deadline)"
proof (rule reading.keepsI)
  fix w
  have wait: "reads codec v (snd (wait_before_pipe_retry os k deadline v))" for k v
    by (auto simp: wait_before_pipe_retry_def call_value_eq Let_def reads_call split: option.split
        intro: reads_trans [OF reads_call reads_call])
  have "reads codec w (snd (snd (connect_round os path control_pipe deadline k s)))" if "reads codec w (snd s)" for k s
  proof -
    obtain l v where s: "s = (l, v)" by (rule prod.exhaust)
    let ?v = "snd (syscall os (Pipe (OpenPipe path control_pipe)) v)"
    have "reads codec w ?v" using that s by (auto intro!: reads_trans [OF _ reads_call])
    with s wait [of ?v k] show ?thesis
      by (auto simp: connect_round_def call_num_cases case_prod_beta Let_def split: option.split intro: reads_trans)
  qed
  then have "reads codec w (snd (snd (for_attempts (connect_round os path control_pipe deadline) 0 n (None, w))))" for n
    using attempts_keep [of "\<lambda>s. reads codec w (snd s)" "connect_round os path control_pipe deadline" "(None, w)" 0 n] by simp
  then show "reads codec w (snd (connect_pipe os control_pipe path deadline w))"
    by (simp add: connect_pipe_def case_prod_beta split: option.split)
qed

lemma reads_reply: "reading.keeps codec (read_reply os pipe f e g)"
  unfolding read_reply_def by (intro reading_rules reading_checked) simp

lemma reads_read_status: "reading.keeps codec (read_status os codec deadline)"
  unfolding read_status_def connect_status_pipe_def
  by (intro reading_rules reads_paths reads_connect reads_reply) simp

text \<open>The status request is the one exchange of a reading command.\<close>

lemma reads_exchange: "reading.keeps codec (exchange os codec path pipe Status)"
proof (rule reading.keepsI)
  fix w
  show "reads codec w (snd (exchange os codec path pipe Status w))"
  proof (cases "request_to_json codec Status")
    case (Inl e)
    then show ?thesis by (simp add: exchange_def and_then_def decode_with_def checked_def)
  next
    case (Inr payload)
    have p: "reading_call codec (Pipe (WriteAll pipe payload))" "reading_call codec (Pipe (WriteAll pipe [line_feed]))"
      using Inr by (simp_all add: asks_for_status_def)
    have "reading.keeps codec
       (and_then (pipe_write os pipe payload (\<lambda>e. Transport (''Wardoff could not write to '' @ path @ '': '' @ e))) (\<lambda>_.
        and_then (pipe_write os pipe [line_feed]
          (\<lambda>e. Transport (''Wardoff could not finish writing to '' @ path @ '': '' @ e))) (\<lambda>_.
        and_then (map_error (\<lambda>e. Transport (''Wardoff could not flush '' @ path @ '': '' @ err_text e))
          (call_unit os (Pipe (FlushFile pipe)))) (\<lambda>_.
        read_reply os pipe (\<lambda>e. Transport (''Wardoff could not read the reply from '' @ path @ '': '' @ e))
          (Transport (''Wardoff did not receive any reply from '' @ path @ ''.''))
          (decode_with (response_from_json codec) (''Wardoff received malformed IPC JSON from '' @ path @ '': ''))))))"
      unfolding pipe_write_def by (intro reading_rules reads_reply p) simp
    from reading.keepsD [OF this, of w] Inr show ?thesis
      by (simp add: exchange_def and_then_def [of "checked r" for r] decode_with_def checked_def)
  qed
qed

lemma reads_send: "reading.keeps codec (send_request_with_connect_deadline os codec Status deadline)"
  unfolding send_request_with_connect_deadline_def connect_control_pipe_def
  by (intro reading_rules reads_paths reads_connect reads_exchange) simp_all

lemma reads_console: "reads codec w (hide_owned_console os w)"
proof -
  have attached: "reads codec v (snd (console_launch_context os v))" for v
    by (auto simp: console_launch_context_def call_value_eq Let_def reads_call
        intro: reads_trans [OF reads_call reads_call] reads_trans [OF reads_trans [OF reads_call reads_call] reads_call])
  have hide: "reads codec v (snd (hide_and_free_console os v))" for v
  proof -
    let ?v = "snd (syscall os (Shell (HideWindow (r_num (os (trace v) (Shell GetConsoleWindow))))) (snd (syscall os (Shell GetConsoleWindow) v)))"
    let ?u = "snd (syscall os (Shell FreeConsole) ?v)"
    have "reads codec v ?v" "reads codec v ?u" "reads codec v (snd (syscall os (Token GetLastError) ?u))"
      by (auto intro!: reads_trans [OF _ reads_call] reads_call)
    then show ?thesis by (auto simp: hide_and_free_console_def call_eqs Let_def reads_call split: option.split)
  qed
  obtain r w1 where c: "console_launch_context os w = (r, w1)" by (rule prod.exhaust)
  have "reads codec w w1" using attached [of w] c by simp
  with c hide [of w1] show ?thesis
    by (auto simp: hide_owned_console_def split: sum.split console_launch_context.split intro: reads_trans)
qed


lemma reads_println: "reads codec w (println os line w)"
  by (simp add: println_def reads_call)

lemma reads_print_status: "reads codec w (snd (print_status os codec status code w))"
  by (simp add: print_status_def reads_println split: sum.split)

lemma println_handles [simp]: "valid_handles os (trace (println os line w)) = valid_handles os (trace w)"
  by (simp add: println_def syscall_def valid_handles_Cons Let_def)

lemma print_status_handles [simp]:
  "valid_handles os (trace (snd (print_status os codec status code w))) = valid_handles os (trace w)"
  by (simp add: print_status_def split: sum.split)

lemma console_handles: "valid_handles os (trace (hide_owned_console os w)) = valid_handles os (trace w)"
  by (auto simp: hide_owned_console_def console_launch_context_def hide_and_free_console_def call_eqs valid_handles_Cons
      Let_def split: sum.split option.split)

lemma via_control_pipe_reads:
  "reads codec w (snd (handle_secondary_status_request_via_control_pipe os codec deadline w)) \<and>
   valid_handles os (trace (snd (handle_secondary_status_request_via_control_pipe os codec deadline w))) = valid_handles os (trace w)"
proof -
  obtain r w1 where s: "send_status_request_with_connect_deadline os codec deadline w = (r, w1)" by (rule prod.exhaust)
  have "reads codec w w1" "valid_handles os (trace w1) = valid_handles os (trace w)"
    using s reading.keepsD [OF reads_send, of codec w os "Some deadline"] send_outcome [of os codec Status "Some deadline" w r w1]
    by (simp_all add: send_status_request_with_connect_deadline_def)
  with s reads_print_status [of codec w1 os] show ?thesis
    by (auto simp: handle_secondary_status_request_via_control_pipe_def split: sum.split ipc_response.split client_error.split
        intro: reads_trans)
qed

lemma secondary_status_reads:
  "reads codec w (snd (handle_secondary_status_request os codec w)) \<and>
   valid_handles os (trace (snd (handle_secondary_status_request os codec w))) = valid_handles os (trace w)"
proof -
  let ?w = "snd (syscall os (Thread InstantNow) w)"
  let ?d = "r_num (os (trace w) (Thread InstantNow)) + STATUS_PIPE_DISCOVERY_TIMEOUT"
  obtain r w1 where s: "read_status os codec (Some ?d) ?w = (r, w1)" by (rule prod.exhaust)
  have 1: "reads codec w ?w" by (rule reads_call) simp
  have 2: "reads codec ?w w1" "valid_handles os (trace w1) = valid_handles os (trace ?w)"
    using s reading.keepsD [OF reads_read_status, of codec ?w os "Some ?d"] read_status_handles [of os codec "Some ?d" ?w] by simp_all
  have 3: "valid_handles os (trace ?w) = valid_handles os (trace w)" by (simp add: syscall_def valid_handles_Cons Let_def)
  have "reads codec w w1" by (rule reads_trans [OF 1 2(1)])
  with s 2(2) 3 reads_print_status [of codec w1 os] via_control_pipe_reads [of codec w1 os ?d] show ?thesis
    by (auto simp: handle_secondary_status_request_def call_value_eq Let_def split: sum.split client_error.split
        intro: reads_trans)
qed

lemma status_request_reads:
  "reads codec w (snd (handle_status_request os codec w)) \<and>
   valid_handles os (trace (snd (handle_status_request os codec w))) = valid_handles os (trace w)"
proof -
  obtain r w1 where c: "claim_primary_instance os w = (r, w1)" by (rule prod.exhaust)
  have 1: "reads codec w w1" "valid_handles os (trace w1) = valid_handles os (trace w) + guard_handles os r"
    using reading.keeps_result [OF reads_claim c] claim_outcome(3) [OF c] by simp_all
  have drop: "reads codec w1 (instance_guard_drop os h w1)" for h
    by (simp add: instance_guard_drop_def handle_guard_drop_def reads_call)
  consider e where "r = Inl e" | h where "r = Inr (Claim_Primary h)" | "r = Inr Claim_Secondary"
    by (metis sum.exhaust instance_claim.exhaust)
  then show ?thesis
  proof cases
    case (2 h)
    let ?w = "instance_guard_drop os h w1"
    have "reads codec w ?w" by (rule reads_trans [OF 1(1) drop])
    moreover have "valid_handles os (trace ?w) = valid_handles os (trace w)"
      using 1(2) 2 by (simp add: instance_guard_drop_def guard_handles_def invalid_not_held)
    ultimately show ?thesis
      using c 2 reads_print_status [of codec ?w os status_inactive 1]
      by (auto simp: handle_status_request_def and_then_def intro: reads_trans)
  next
    case 3
    with c 1 secondary_status_reads [of codec w1 os] show ?thesis
      by (auto simp: handle_status_request_def and_then_def guard_handles_def intro: reads_trans)
  qed (use c 1 in \<open>simp add: handle_status_request_def and_then_def guard_handles_def\<close>)
qed

lemma log_request_reads:
  assumes "handle_log_request os env tail (sk, w) = (r, (sk', w'))"
  shows "reads codec w w' \<and> valid_handles os (trace w') = valid_handles os (trace w) \<and>
    dk_files (sk_disk sk') = dk_files (sk_disk sk) \<and> sk_handle sk' = sk_handle sk"
proof -
  obtain q d where q: "read_recent_lines env tail (sk_disk sk) = (q, d)" by (rule prod.exhaust)
  have d: "dk_files d = dk_files (sk_disk sk)"
    using recent_lines_outcome [OF q [unfolded read_recent_lines_def]] by blast
  have "reads codec v (fold (println os) recent v)" "valid_handles os (trace (fold (println os) recent v)) = valid_handles os (trace v)" for recent v
    by (induction recent arbitrary: v) (auto intro: reads_trans [OF reads_println])
  with assms q d show ?thesis by (cases q) (auto simp: handle_log_request_def)
qed

text \<open>C22. A command that only reads leaves everything as it was. Whatever Windows, the primary
  and the disk answer, \<^verbatim>\<open>--status\<close> and \<^verbatim>\<open>--log\<close> end with an exit code or an error; they make
  no call that could start a thread or a process, ask for a privilege or touch windows, tasks,
  power or tracing; all they ever write to a pipe is the one line that asks the primary for its
  status, so they switch nothing there either; they keep no handle, not even the mutex they may have
  claimed; and the process's flags, its log channel, its writer and every file of the log are what
  they were.\<close>

theorem read_only_commands_only_read:
  assumes "is_read_only (requested_action cli)" and "run_main x cli (sk, w) = (res, (sk', w'))"
  shows "only_calls (reading_call (lx_codec x)) w w' \<and> control w' = control w \<and> log_commands w' = log_commands w \<and>
         valid_handles (lx_os x) (trace w') = valid_handles (lx_os x) (trace w) \<and>
         dk_files (sk_disk sk') = dk_files (sk_disk sk) \<and> sk_handle sk' = sk_handle sk \<and>
         ((\<exists>code. res = Exited code) \<or> (\<exists>message. res = Failed message))"
proof -
  let ?os = "lx_os x"
  let ?codec = "lx_codec x"
  let ?w = "hide_owned_console ?os w"
  show ?thesis
  proof (cases "lx_human_logging x")
    case (Inl message)
    then have "res = Failed message" "sk' = sk" "w' = ?w" using assms(2) by (simp_all add: run_main_def Let_def)
    with reads_console [of ?codec w ?os] console_handles [of ?os w] show ?thesis by (simp add: reads_def)
  next
    case (Inr u)
    then have run: "handle_read_only_request x (requested_action cli) (sk, ?w) = (res, (sk', w'))"
      using assms by (simp add: run_main_def Let_def)
    have fin: "(\<exists>code. finished r = Exited code) \<or> (\<exists>message. finished r = Failed message)" for r
      by (cases r) (simp_all add: finished_def)
    consider "requested_action cli = Act_Status" | tail where "requested_action cli = Act_Log tail"
      using assms(1) by (auto simp: is_read_only_def split: requested_action.splits)
    then have "reads ?codec ?w w' \<and> valid_handles ?os (trace w') = valid_handles ?os (trace ?w) \<and>
        dk_files (sk_disk sk') = dk_files (sk_disk sk) \<and> sk_handle sk' = sk_handle sk \<and> (\<exists>r. res = finished r)"
    proof cases
      case 1
      with run status_request_reads [of "lx_codec x" ?w ?os] show ?thesis
        by (auto simp: handle_read_only_request_def on_world_def case_prod_beta Let_def)
    next
      case (2 tail)
      obtain r where "handle_log_request ?os (lx_log x) tail (sk, ?w) = (r, (sk', w'))" "res = finished r"
        using run 2 by (auto simp: handle_read_only_request_def split: prod.splits)
      with log_request_reads show ?thesis by blast
    qed
    moreover have "reads ?codec w w'" if "reads ?codec ?w w'" by (rule reads_trans [OF reads_console that])
    ultimately show ?thesis using fin console_handles [of ?os w] by (auto simp: reads_def)
  qed
qed

text \<open>\<^verbatim>\<open>wardoff --status\<close> on the quiet machine.\<close>

definition status_cli :: wardoff_cli where
  "status_cli = \<lparr>cli_block = False, cli_allow = False, cli_status = True, cli_hide = False, cli_autostart = None,
     cli_log = False, cli_tail = None, cli_elevated_relaunch = False, cli_detached_runtime = False\<rparr>"

definition host_launch :: launch_env where
  "host_launch = \<lparr>lx_os = host_os, lx_codec = plain_codec, lx_log = sample_env, lx_statics = blank_statics,
     lx_reports = both_ready, lx_events = [], lx_args = [''--status''], lx_debug = False, lx_human_logging = Inr ()\<rparr>"

theorem read_only_commands_only_read_witness:
  "\<exists>res sk' w'. run_main host_launch status_cli (blank_sink, initial_world) = (res, (sk', w')) \<and>
     \<not> blocker_active w' \<and> dk_files (sk_disk sk') = dk_files ready_disk"
proof -
  obtain res sk' w' where r: "run_main host_launch status_cli (blank_sink, initial_world) = (res, (sk', w'))"
    by (metis prod.exhaust)
  have "is_read_only (requested_action status_cli)" by (simp add: status_cli_def requested_action_def is_read_only_def)
  from read_only_commands_only_read [OF this r] r show ?thesis
    by (auto simp: control_def initial_world_def blank_sink_def)
qed

end
