(* ===== verification/Application_Protocol.thy ===== *)
theory Application_Protocol
  imports Application_Runs
begin

text \<open>
  The contract of the application, as a protocol: what mode it is in, whether Block mode is to be
  restored after the next wake-up, and what it has answered on the pipes. A command is a request
  from a pipe, an action from the tray menu or a power broadcast, and the protocol says what each
  may do to these three. The running application (coordinator, five layers, tray thread, pipe
  workers, message loop, every failure of every call) refines it: each of its events carries out
  the commands it took in, in order, as the protocol says, and nothing else changes the mode.
\<close>

subsection \<open>The protocol\<close>

record mode_view =
  mv_mode :: blocker_mode
  mv_restore :: "pending_wake_restore option"
  mv_answers :: "(server_kind \<times> ipc_response) list"

datatype app_command =
    From_Pipe pending_request
  | From_Tray tray_action
  | Broadcast power_broadcast_event

definition answered :: "pending_request \<Rightarrow> ipc_response \<Rightarrow> mode_view \<Rightarrow> mode_view" where
  "answered p response v =
     (if pr_awaited p then v\<lparr>mv_answers := mv_answers v @ [(pr_sender p, response)]\<rparr> else v)"

fun tray_wants :: "tray_action \<Rightarrow> blocker_mode option" where
  "tray_wants Tray_Block = Some Block"
| "tray_wants Tray_Allow = Some Allow"
| "tray_wants _ = None"

fun tray_power :: "tray_action \<Rightarrow> power_action option" where
  "tray_power Tray_Shutdown = Some PA_Shutdown"
| "tray_power Tray_Reboot = Some PA_Reboot"
| "tray_power Tray_Sleep = Some PA_Sleep"
| "tray_power Tray_Hibernate = Some PA_Hibernate"
| "tray_power _ = None"

text \<open>A mode request cancels a pending restore, whatever comes of it. It is answered with \<^verbatim>\<open>Ok\<close>
  only in the requested mode; after a failure the mode is the old one, or the requested one when
  the switch could not be undone. A power action that was issued leaves Allow mode, with a restore
  pending if it was Sleep or Hibernate from Block mode; one that failed leaves no restore. A
  resume uses the restore up.\<close>

inductive protocol_step :: "app_command \<Rightarrow> mode_view \<Rightarrow> mode_view \<Rightarrow> bool" where
  mode_granted: "pr_request p = SetMode m \<Longrightarrow>
    protocol_step (From_Pipe p) v (answered p Resp_Ok (v\<lparr>mv_mode := blocker_mode_of m, mv_restore := None\<rparr>))"
| mode_denied: "pr_request p = SetMode m \<Longrightarrow> m' \<in> {mv_mode v, blocker_mode_of m} \<Longrightarrow>
    protocol_step (From_Pipe p) v (answered p (Resp_Error message) (v\<lparr>mv_mode := m', mv_restore := None\<rparr>))"
| status_told: "pr_request p = Status \<Longrightarrow> so_state status = status_state_of (mv_mode v) \<Longrightarrow>
    protocol_step (From_Pipe p) v (answered p (Resp_Status status) v)"
| autostart_done: "pr_request p = SetAutostart enabled \<Longrightarrow>
    protocol_step (From_Pipe p) v (answered p Resp_Ok v)"
| autostart_failed: "pr_request p = SetAutostart enabled \<Longrightarrow>
    protocol_step (From_Pipe p) v (answered p (Resp_Error message) v)"
| stop_refused: "pr_request p = ShutdownServer \<Longrightarrow>
    protocol_step (From_Pipe p) v (answered p (Resp_Error message) v)"
| tray_mode: "tray_wants action = Some m \<Longrightarrow> m' \<in> {mv_mode v, m} \<Longrightarrow>
    protocol_step (From_Tray action) v (v\<lparr>mv_mode := m', mv_restore := None\<rparr>)"
| power_issued: "tray_power action = Some pa \<Longrightarrow>
    protocol_step (From_Tray action) v
      (v\<lparr>mv_mode := Allow, mv_restore := pending_wake_restore_for_tray_power_action (mv_mode v) pa\<rparr>)"
| power_failed: "tray_power action = Some pa \<Longrightarrow> m' \<in> {mv_mode v, Allow} \<Longrightarrow>
    protocol_step (From_Tray action) v (v\<lparr>mv_mode := m', mv_restore := None\<rparr>)"
| tray_other: "tray_wants action = None \<Longrightarrow> tray_power action = None \<Longrightarrow> protocol_step (From_Tray action) v v"
| suspended: "protocol_step (Broadcast Suspend) v (v\<lparr>mv_restore := map_option mark_system_suspended (mv_restore v)\<rparr>)"
| restored: "mv_restore v \<noteq> None \<Longrightarrow> protocol_step (Broadcast Resume) v (v\<lparr>mv_mode := Block, mv_restore := None\<rparr>)"
| not_restored: "protocol_step (Broadcast Resume) v (v\<lparr>mv_restore := None\<rparr>)"

inductive_cases protocol_pipeE: "protocol_step (From_Pipe p) v v'"
inductive_cases protocol_trayE: "protocol_step (From_Tray action) v v'"
inductive_cases protocol_broadcastE: "protocol_step (Broadcast event) v v'"

fun protocol_run :: "app_command list \<Rightarrow> mode_view \<Rightarrow> mode_view \<Rightarrow> bool" where
  "protocol_run [] v v' \<longleftrightarrow> v' = v"
| "protocol_run (c # cs) v v' \<longleftrightarrow> (\<exists>v1. protocol_step c v v1 \<and> protocol_run cs v1 v')"

lemma protocol_run_append: "protocol_run (cs @ ds) v v'' \<longleftrightarrow> (\<exists>v'. protocol_run cs v v' \<and> protocol_run ds v' v'')"
  by (induction cs arbitrary: v) auto

subsection \<open>What an event of the application takes in\<close>

definition app_view :: "app \<Rightarrow> mode_view" where
  "app_view s = \<lparr>mv_mode = app_mode (fst s), mv_restore = ap_pending_block_restore_after_wake (fst s),
     mv_answers = ap_answers (fst s)\<rparr>"

fun broadcasts_in :: "loop_input \<Rightarrow> world \<Rightarrow> app_command list" where
  "broadcasts_in Queue_Empty w = []"
| "broadcasts_in (Peeked hwnd message wparam lparam) w =
     (if message = WM_POWERBROADCAST \<and> power_broadcast_callback w
      then map Broadcast (case power_event_of wparam of Some event \<Rightarrow> [event] | None \<Rightarrow> [])
      else [])"

text \<open>The broadcast comes first, then the requests in the channel, then the tray's actions up to a
  Quit. A thread message \<^verbatim>\<open>WM_QUIT\<close> ends the loop before anything is taken in.\<close>

fun quits :: "loop_input \<Rightarrow> bool" where
  "quits (Peeked hwnd message wparam lparam) = (message = WM_QUIT)"
| "quits Queue_Empty = False"

definition pending_commands :: "application \<Rightarrow> app_command list" where
  "pending_commands a = map From_Pipe (iq_pending (ap_requests a)) @
     map From_Tray (takeWhile (\<lambda>action. action \<noteq> Tray_Quit) (waiting_actions a))"

fun taken_in :: "app_event \<Rightarrow> app \<Rightarrow> app_command list" where
  "taken_in (Ev_Loop input) s = (if quits input then [] else broadcasts_in input (snd s) @ pending_commands (fst s))"
| "taken_in _ s = []"

subsection \<open>The parts refine the protocol\<close>

lemma calm_view: "calm s s' \<Longrightarrow> ap_answers (fst s') = ap_answers (fst s) \<Longrightarrow> app_view s' = app_view s"
  by (simp add: app_view_def calm_mode rest_queues(2) [OF calm_rest])

lemma noted_view [simp]: "app_view (noted os e src m b s) = app_view s"
  by (simp add: app_view_def answers_field.kept_parts)

lemma answer_view: "app_view (answer p response s) = answered p response (app_view s)"
  by (cases s) (simp add: app_view_def answer_def answered_def app_mode_def)

lemma view_eqI:
  assumes "app_mode (fst s') = m" and "ap_pending_block_restore_after_wake (fst s') = r"
    and "ap_answers (fst s') = ap_answers (fst s)"
  shows "app_view s' = (app_view s)\<lparr>mv_mode := m, mv_restore := r\<rparr>"
  using assms by (simp add: app_view_def)

lemma other_response:
  assumes "handle_ipc_request os request s = (response, s')"
  shows "case request of
      SetAutostart enabled \<Rightarrow> response = Resp_Ok \<or> (\<exists>message. response = Resp_Error message)
    | Status \<Rightarrow> \<exists>status. response = Resp_Status status \<and> so_state status = status_state_of (app_mode (fst s))
    | ShutdownServer \<Rightarrow> \<exists>message. response = Resp_Error message
    | SetMode m \<Rightarrow> True"
proof (cases request)
  case (SetAutostart enabled)
  then show ?thesis using assms by (auto simp: handle_ipc_request_def case_prod_beta split: sum.splits)
next
  case Status
  obtain status s1 where o: "app_status_output os s = (status, s1)" by (rule prod.exhaust)
  with Status assms status_output_calm [OF o] show ?thesis by (auto simp: handle_ipc_request_def)
qed (use assms in \<open>auto simp: handle_ipc_request_def\<close>)

lemma request_refines:
  assumes h: "handle_ipc_request os (pr_request p) s = (response, s')" and "sound s"
  shows "protocol_step (From_Pipe p) (app_view s) (app_view (answer p response s'))"
proof -
  have a: "ap_answers (fst s') = ap_answers (fst s)" using answers_field.kept_request [of os "pr_request p" s] h by simp
  have same: "app_view s' = app_view s" if "\<forall>m. pr_request p \<noteq> SetMode m"
    using calm_view [OF handle_other [OF h that] a] .
  have mode: "mv_mode (app_view s) = app_mode (fst s)" by (simp add: app_view_def)
  show ?thesis
  proof (cases "pr_request p")
    case (SetMode m)
    note o = handle_set_mode [OF h [unfolded SetMode] assms(2)]
    then have "app_view s' = (app_view s)\<lparr>mv_mode := app_mode (fst s'), mv_restore := None\<rparr>"
      using view_eqI [OF refl _ a] by simp
    with o SetMode mode show ?thesis
      by (auto simp: answer_view intro: protocol_step.intros)
  next
    case (SetAutostart enabled)
    with same other_response [OF h] show ?thesis by (auto simp: answer_view intro: protocol_step.intros)
  next
    case Status
    with same mode other_response [OF h] show ?thesis by (auto simp: answer_view intro: protocol_step.intros)
  next
    case ShutdownServer
    with same other_response [OF h] show ?thesis by (auto simp: answer_view intro: protocol_step.intros)
  qed
qed

lemma requests_refine:
  assumes "sound s"
  shows "protocol_run (map From_Pipe ps) (app_view s) (app_view (process_requests os ps s))"
  using assms
proof (induction ps arbitrary: s)
  case (Cons p ps)
  obtain response s1 where h: "handle_ipc_request os (pr_request p) s = (response, s1)" by (rule prod.exhaust)
  have "sound (answer p response s1)"
    using handle_request_sound [OF h Cons.prems] calm_sound [OF answer_calm] by blast
  from Cons.IH [OF this] request_refines [OF h Cons.prems] h show ?case by auto
qed simp

lemma ipc_refines:
  assumes "sound s"
  shows "protocol_run (map From_Pipe (iq_pending (ap_requests (fst s)))) (app_view s) (app_view (process_ipc_requests os s))"
proof -
  obtain a w where s: "s = (a, w)" by (rule prod.exhaust)
  let ?s = "(a\<lparr>ap_requests := (ap_requests a)\<lparr>iq_pending := []\<rparr>\<rparr>, w)"
  have "sound ?s"
    using assms s by (simp add: sound_def good_def live_def tray_synced_def pending_ok_def app_mode_def)
  moreover have "app_view ?s = app_view s" by (simp add: app_view_def app_mode_def s)
  ultimately show ?thesis
    using requests_refine [of ?s "iq_pending (ap_requests a)" os] by (simp add: process_ipc_requests_def s)
qed

lemma tray_power_call:
  assumes "tray_power action = Some pa"
  shows "handle_tray_action os action s = and_then (run_power_action os pa) (\<lambda>_. ok False) s"
  using assms by (cases action) (auto simp: handle_tray_action_def)

lemma tray_mode_call:
  assumes "tray_wants action = Some m"
  shows "\<exists>message. handle_tray_action os action s = and_then (app_set_mode os m Src_Tray)
    (\<lambda>_ s. (Inr False, noted os ''tray_action'' Src_Tray message True s)) (clear_pending_block_restore_after_wake s)"
  using assms by (cases action) (auto simp: handle_tray_action_def)

lemma action_refines:
  assumes h: "handle_tray_action os action s = (r, s')" and "sound s"
  shows "protocol_step (From_Tray action) (app_view s) (app_view s') \<and> (r = Inr True \<longleftrightarrow> action = Tray_Quit)"
proof -
  have a: "ap_answers (fst s') = ap_answers (fst s)" using answers_field.kept_action [of os action s] h by simp
  have g: "good s" using assms(2) by (simp add: sound_def)
  have v: "mv_mode (app_view s) = app_mode (fst s)" by (simp add: app_view_def)
  consider (power) pa where "tray_power action = Some pa" | (mode) m where "tray_wants action = Some m"
    | (autostart) enabled where "action = Tray_SetAutostart enabled" | (quit) "action = Tray_Quit"
    by (cases action) auto
  then show ?thesis
  proof cases
    case (power pa)
    obtain r1 s1 where p: "run_power_action os pa s = (r1, s1)" by (rule prod.exhaust)
    have e: "s' = s1" "r = (case r1 of Inr _ \<Rightarrow> Inr False | Inl e \<Rightarrow> Inl e)"
      using h tray_power_call [OF power, of os s] p by (auto simp: and_then_def split: sum.splits)
    have q: "action \<noteq> Tray_Quit" using power by auto
    note o = run_power_outcome [OF p g]
    show ?thesis
    proof (cases r1)
      case (Inr u)
      with o have "app_view s' = (app_view s)\<lparr>mv_mode := Allow,
          mv_restore := pending_wake_restore_for_tray_power_action (mv_mode (app_view s)) pa\<rparr>"
        using view_eqI [OF _ _ a] v e(1) by simp
      with power Inr e q show ?thesis by (auto intro: protocol_step.intros)
    next
      case (Inl message)
      with o have "app_view s' = (app_view s)\<lparr>mv_mode := app_mode (fst s'), mv_restore := None\<rparr>"
          "app_mode (fst s') \<in> {mv_mode (app_view s), Allow}"
        using view_eqI [OF refl _ a] v e(1) by simp_all
      with power_failed [OF power] Inl e q show ?thesis by simp
    qed
  next
    case (mode m)
    let ?s = "clear_pending_block_restore_after_wake s"
    obtain message where c: "handle_tray_action os action s = and_then (app_set_mode os m Src_Tray)
        (\<lambda>_ s. (Inr False, noted os ''tray_action'' Src_Tray message True s)) ?s"
      using tray_mode_call [OF mode] by blast
    obtain r1 s1 where p: "app_set_mode os m Src_Tray ?s = (r1, s1)" by (rule prod.exhaust)
    have e: "app_view s' = app_view s1" "r \<noteq> Inr True"
      using h c p by (auto simp: and_then_def split: sum.splits)
    have o: "app_mode (fst s1) \<in> {app_mode (fst s), m}" "ap_pending_block_restore_after_wake (fst s1) = None"
      using switch_sound [OF p] g by (auto split: sum.splits)
    have "ap_answers (fst s1) = ap_answers (fst s)"
      using answers_field.kept_set_mode [of os m Src_Tray ?s] p answers_field.kept_parts(4) by simp
    then have "app_view s1 = (app_view s)\<lparr>mv_mode := app_mode (fst s1), mv_restore := None\<rparr>"
      by (rule view_eqI [OF refl o(2)])
    moreover have "action \<noteq> Tray_Quit" using mode by auto
    ultimately show ?thesis using tray_mode [OF mode] o(1) v e by simp
  next
    case (autostart enabled)
    obtain r1 s1 where p: "app_set_autostart_enabled os enabled Src_Tray s = (r1, s1)" by (rule prod.exhaust)
    have "calm s s'" using app_set_autostart_calm [OF p] h p autostart
      by (cases r1) (auto simp: handle_tray_action_def and_then_def calm_then)
    moreover have "r \<noteq> Inr True" using h p autostart by (cases r1) (auto simp: handle_tray_action_def and_then_def)
    ultimately show ?thesis using calm_view [of s s'] a tray_other [of action] autostart by simp
  next
    case quit
    with h tray_other [of action] show ?thesis by (auto simp: handle_tray_action_def)
  qed
qed

lemma actions_refine:
  assumes "sound s"
  shows "protocol_run (map From_Tray (takeWhile (\<lambda>action. action \<noteq> Tray_Quit) actions)) (app_view s)
    (app_view (snd (process_actions os actions s)))"
  using assms
proof (induction actions arbitrary: s)
  case (Cons action actions)
  obtain r s1 where h: "handle_tray_action os action s = (r, s1)" by (rule prod.exhaust)
  have 1: "protocol_step (From_Tray action) (app_view s) (app_view s1)" "r = Inr True \<longleftrightarrow> action = Tray_Quit"
    using action_refines [OF h Cons.prems] by blast+
  have s1: "sound s1" using handle_action_sound [OF h Cons.prems] by blast
  show ?case
  proof (cases "action = Tray_Quit")
    case True
    with h show ?thesis by (auto simp: handle_tray_action_def)
  next
    case False
    define s2 where "s2 = (case r of Inr _ \<Rightarrow> s1 | Inl message \<Rightarrow> noted os ''tray_action'' Src_Tray
      (''Wardoff could not process the '' @ debug_tray_action action @ '' tray action: '' @ message) False s1)"
    have "process_actions os (action # actions) s = process_actions os actions s2"
      using h 1(2) False by (auto simp: s2_def split: sum.split bool.split)
    moreover have "sound s2" "app_view s2 = app_view s1" using s1 by (simp_all add: s2_def split: sum.split)
    ultimately show ?thesis using Cons.IH [of s2] 1(1) False by auto
  qed
qed simp

lemma tray_refines:
  assumes "sound s"
  shows "protocol_run (map From_Tray (takeWhile (\<lambda>action. action \<noteq> Tray_Quit) (waiting_actions (fst s)))) (app_view s)
    (app_view (snd (process_tray_actions os s)))"
proof -
  obtain a w where s: "s = (a, w)" by (rule prod.exhaust)
  show ?thesis
  proof (cases "ap_tray a")
    case (Some t)
    let ?s = "(a\<lparr>ap_tray := Some (t\<lparr>tt_actions := []\<rparr>)\<rparr>, w)"
    have "sound ?s"
      using assms s Some by (auto simp: sound_def good_def live_def tray_synced_def pending_ok_def app_mode_def tray_mode_def target_def)
    moreover have "app_view ?s = app_view s" by (simp add: app_view_def app_mode_def s)
    ultimately show ?thesis
      using actions_refine [of ?s "tt_actions t" os] s Some
      by (simp add: process_tray_actions_def service_drain_actions_def waiting_actions_def)
  qed (simp add: s process_tray_actions_def waiting_actions_def)
qed

lemma pending_refines:
  assumes "sound s"
  shows "protocol_run (pending_commands (fst s)) (app_view s) (app_view (snd (process_pending os s)))"
  using ipc_refines [OF assms, of os] process_ipc_sound [OF assms, of os] tray_refines [of "process_ipc_requests os s" os]
  by (auto simp: pending_commands_def process_pending_def protocol_run_append)

lemma broadcast_refines:
  assumes "sound s"
  shows "protocol_step (Broadcast event) (app_view s) (app_view (app_handle_power_broadcast os event s))"
proof (cases event)
  case Suspend
  have "app_view (app_handle_power_broadcast os Suspend s) =
      (app_view s)\<lparr>mv_restore := map_option mark_system_suspended (mv_restore (app_view s))\<rparr>"
    by (cases s) (simp add: app_view_def app_handle_power_broadcast_def app_mode_def)
  with Suspend show ?thesis by (simp add: suspended)
next
  case Resume
  obtain s2 where s2: "app_handle_power_broadcast os Resume s = restore_block_after_wake_if_needed os s2" "good s2"
    "rest (fst s2) = rest (fst s)" "app_mode (fst s2) = app_mode (fst s)"
    using resume_outcome [OF assms] by metis
  let ?s' = "app_handle_power_broadcast os Resume s"
  have o: "ap_pending_block_restore_after_wake (fst ?s') = None"
    "app_mode (fst ?s') = app_mode (fst s) \<or> app_mode (fst ?s') = Block \<and> ap_pending_block_restore_after_wake (fst s) \<noteq> None"
    using restore_outcome [OF s2(2), of os] s2 rest_queues(2) [OF s2(3)] by (auto split: if_splits)
  have a: "ap_answers (fst ?s') = ap_answers (fst s)" by (rule answers_field.kept_broadcast)
  from o(2) show ?thesis
  proof (elim disjE conjE)
    assume "app_mode (fst ?s') = app_mode (fst s)"
    with o(1) a have "app_view ?s' = (app_view s)\<lparr>mv_restore := None\<rparr>" by (simp add: app_view_def)
    with Resume not_restored [of "app_view s"] show ?thesis by simp
  next
    assume b: "app_mode (fst ?s') = Block" "ap_pending_block_restore_after_wake (fst s) \<noteq> None"
    with o(1) a have "app_view ?s' = (app_view s)\<lparr>mv_mode := Block, mv_restore := None\<rparr>" by (simp add: app_view_def)
    moreover have "mv_restore (app_view s) \<noteq> None" using b(2) by (simp add: app_view_def)
    ultimately show ?thesis using Resume restored [of "app_view s"] by simp
  qed
qed

lemma window_proc_refines:
  assumes p: "shutdown_window_proc os (handle_forced_shutdown_cleanup os) (app_handle_power_broadcast os) hwnd message wparam lparam s = (r, s')"
    and "sound s" and "\<not> forced s'"
  shows "protocol_run (broadcasts_in (Peeked hwnd message wparam lparam) (snd s)) (app_view s) (app_view s')"
proof (cases "message = WM_POWERBROADCAST")
  case True
  obtain a w where s: "s = (a, w)" by (rule prod.exhaust)
  have "s' = (case power_event_of wparam of
      Some event \<Rightarrow> if power_broadcast_callback w then app_handle_power_broadcast os event s else s
    | None \<Rightarrow> (a, snd (call_value os (Window (DefWindowProcW hwnd WM_POWERBROADCAST wparam lparam)) w)))"
    using p s True by (auto simp: shutdown_window_proc_def handle_power_broadcast_def win32_messages call_value_eq split: option.splits)
  with broadcast_refines [OF assms(2), of _ os] s True show ?thesis
    by (auto simp: app_view_def split: option.split)
next
  case False
  obtain a w where s: "s = (a, w)" by (rule prod.exhaust)
  have flags: "end_session_cleanup_callback w" "\<not> end_session_cleanup_started w"
    using assms(2) s by (simp_all add: sound_def good_def live_def)
  have "fst s' = a"
  proof (cases "message = WM_ENDSESSION")
    case True
    then have "handle_end_session os (handle_forced_shutdown_cleanup os) hwnd wparam (a, w) = (r, s')"
      using p s by (simp add: shutdown_window_proc_def win32_messages)
    then show ?thesis
      using flags assms(3) forced_cleanup_forces [of os]
      by (auto simp: handle_end_session_def is_shutdown_or_session_end_in_progress_def call_eqs Let_def split: if_splits)
  next
    case other: False
    then show ?thesis using p s False by (auto simp: shutdown_window_proc_def call_value_eq split: if_splits prod.splits)
  qed
  with s False show ?thesis by (simp add: app_view_def)
qed

lemma message_step_refines:
  assumes m: "message_step os input s = (res, s')" and "sound s" and "\<not> forced s'"
  shows "protocol_run (taken_in (Ev_Loop input) s) (app_view s) (app_view s')"
proof (cases input)
  case (Peeked hwnd message wparam lparam)
  show ?thesis
  proof (cases "message = WM_QUIT")
    case True
    with m Peeked show ?thesis by (simp add: message_step_def)
  next
    case False
    define own where "own \<longleftrightarrow> message = IPC_WAKE_MESSAGE \<or> message = TRAY_ACTION_WAKE_MESSAGE"
    define s1 where "s1 = (if own then s
      else snd (shutdown_window_proc os (handle_forced_shutdown_cleanup os) (app_handle_power_broadcast os)
                  hwnd message wparam lparam s))"
    have s': "s' = snd (process_pending os s1)"
      using m Peeked False by (simp add: message_step_def s1_def own_def Let_def case_prod_beta)
    have f: "\<not> forced s1" using assms(3) s' forced_pending by simp
    note w = prod.collapse [of "shutdown_window_proc os (handle_forced_shutdown_cleanup os) (app_handle_power_broadcast os)
      hwnd message wparam lparam s", symmetric]
    have 1: "sound s1" "queues (fst s1) = queues (fst s)"
      using window_proc_sound [OF w assms(2)] assms(2) f by (auto simp: s1_def split: if_splits)
    have "own \<Longrightarrow> message \<noteq> WM_POWERBROADCAST"
      by (auto simp: own_def IPC_WAKE_MESSAGE_def TRAY_ACTION_WAKE_MESSAGE_def win32_messages)
    then have "protocol_run (broadcasts_in input (snd s)) (app_view s) (app_view s1)"
      using window_proc_refines [OF w assms(2)] f Peeked by (auto simp: s1_def split: if_splits)
    moreover have "pending_commands (fst s1) = pending_commands (fst s)"
      using 1(2) by (simp add: pending_commands_def queues_def)
    ultimately show ?thesis
      using pending_refines [OF 1(1), of os] Peeked False s' by (auto simp: protocol_run_append)
  qed
next
  case Queue_Empty
  obtain quit s1 where p: "process_pending os s = (quit, s1)" by (rule prod.exhaust)
  obtain r s2 where u: "on_world (call_unit os (App WaitMessage)) s1 = (r, s2)" by (rule prod.exhaust)
  have "fst s' = fst s1"
    using m Queue_Empty p u fst_on_world [of "call_unit os (App WaitMessage)" s1]
    by (cases r) (auto simp: message_step_def split: if_splits)
  with pending_refines [OF assms(2), of os] p Queue_Empty show ?thesis by (simp add: app_view_def)
qed

lemma event_refines:
  assumes "sound s" and "\<not> forced (app_event_step os ui e s)"
  shows "protocol_run (taken_in e s) (app_view s) (app_view (app_event_step os ui e s))"
proof -
  obtain a w where s: "s = (a, w)" by (rule prod.exhaust)
  have layer: "app_view (turn_layer f s) = app_view s"
    if "\<And>c w. layers_inv c \<Longrightarrow> bg_ok (c, w) (f (c, w))" "\<And>c w. background_idle c \<Longrightarrow> f (c, w) = (c, w)" for f
    using turn_layer_sound [OF assms(1) that] by (simp add: app_view_def turn_layer_def s case_prod_beta)
  have tray: "app_view (turn_tray os ui t s) = app_view s" for t
    by (cases "ap_tray a") (simp_all add: app_view_def turn_tray_def s app_mode_def case_prod_beta)
  show ?thesis
  proof (cases e)
    case (Ev_Loop input)
    with message_step_refines [of os input s, OF prod.collapse [symmetric] assms(1)] assms(2) show ?thesis by simp
  next
    case (Ev_Request sender request awaited)
    then show ?thesis by (simp add: s app_view_def app_mode_def)
  qed (simp_all add: tray layer turns_ok turns_idle)
qed

subsection \<open>Runs of the application are runs of the protocol\<close>

text \<open>What a run takes in, and that it never ended on the way.\<close>

fun history_of :: "('e \<Rightarrow> 's \<Rightarrow> 's) \<Rightarrow> ('e \<Rightarrow> 's \<Rightarrow> 'c list) \<Rightarrow> 'e list \<Rightarrow> 's \<Rightarrow> 'c list" where
  "history_of step commands [] s = []"
| "history_of step commands (e # es) s = commands e s @ history_of step commands es (step e s)"

fun lives_through :: "('e \<Rightarrow> 's \<Rightarrow> 's) \<Rightarrow> ('s \<Rightarrow> bool) \<Rightarrow> 'e list \<Rightarrow> 's \<Rightarrow> bool" where
  "lives_through step lives [] s \<longleftrightarrow> True"
| "lives_through step lives (e # es) s \<longleftrightarrow> lives (step e s) \<and> lives_through step lives es (step e s)"

text \<open>The interface between a system driven by events and its protocol: an invariant the events
  keep while the system lives, and a view under which each event is a run of the protocol on the
  commands it took in.\<close>

locale event_refinement =
  fixes step :: "'e \<Rightarrow> 's \<Rightarrow> 's" and inv :: "'s \<Rightarrow> bool" and lives :: "'s \<Rightarrow> bool"
    and view :: "'s \<Rightarrow> 'v" and commands :: "'e \<Rightarrow> 's \<Rightarrow> 'c list"
    and abs_run :: "'c list \<Rightarrow> 'v \<Rightarrow> 'v \<Rightarrow> bool"
  assumes step_inv: "inv s \<Longrightarrow> lives (step e s) \<Longrightarrow> inv (step e s)"
    and step_refines: "inv s \<Longrightarrow> lives (step e s) \<Longrightarrow> abs_run (commands e s) (view s) (view (step e s))"
    and run_nil: "abs_run [] v v' \<longleftrightarrow> v' = v"
    and run_append: "abs_run (cs @ ds) v v'' \<longleftrightarrow> (\<exists>v'. abs_run cs v v' \<and> abs_run ds v' v'')"
begin

lemma run_refines:
  assumes "inv s" and "lives_through step lives es s"
  shows "abs_run (history_of step commands es s) (view s) (view (fold step es s))"
  using assms
proof (induction es arbitrary: s)
  case (Cons e es)
  then have 1: "inv (step e s)" "abs_run (commands e s) (view s) (view (step e s))" "lives_through step lives es (step e s)"
    using step_inv step_refines by auto
  with Cons.IH [OF 1(1,3)] show ?case by (auto simp: run_append)
qed (simp add: run_nil)

end

interpretation app_refines: event_refinement "app_event_step os ui" sound "\<lambda>s. \<not> forced s" app_view taken_in protocol_run
  for os ui
  by unfold_locales (use event_sound event_refines protocol_run_append in \<open>auto\<close>)

text \<open>C33. The application refines its protocol. From its start on, whatever Windows answers and
  however requests, tray actions, broadcasts, worker turns and tray turns interleave, as long as
  Windows has not ended the session by force: the mode, the pending restore and the answers sent to
  the pipe clients are what the protocol makes of exactly the commands taken in, in the order they
  were taken in, starting in the mode the command line asked for with no restore and no answers.\<close>

theorem application_refines_protocol:
  assumes "bootstrap os codec k reports primary options (sk, w) = (Inr a, (sk', w'))"
    and "\<not> blocker_active w" and "\<not> end_session_cleanup_started w"
    and "lives_through (app_event_step os ui) (\<lambda>s. \<not> forced s) es (run_start (a, w'))"
  shows "protocol_run (history_of (app_event_step os ui) taken_in es (run_start (a, w')))
           \<lparr>mv_mode = initial_mode options, mv_restore = None, mv_answers = []\<rparr>
           (app_view (fold (app_event_step os ui) es (run_start (a, w'))))"
proof -
  have s: "sound (run_start (a, w'))"
      "app_view (run_start (a, w')) = \<lparr>mv_mode = initial_mode options, mv_restore = None, mv_answers = []\<rparr>"
    using bootstrap_sound [OF assms(1-3)] by (simp_all add: app_view_def run_start_def)
  from app_refines.run_refines [OF s(1) assms(4)] show ?thesis unfolding s(2) .
qed

subsection \<open>What the protocol promises\<close>

text \<open>A restore is pending only in Allow mode, and Block mode is left only on a command for it.\<close>

definition asks_for_allow :: "app_command \<Rightarrow> bool" where
  "asks_for_allow c \<longleftrightarrow>
     (\<exists>p. c = From_Pipe p \<and> pr_request p = SetMode Pipe_Allow) \<or>
     (\<exists>action. c = From_Tray action \<and> (tray_wants action = Some Allow \<or> tray_power action \<noteq> None))"

lemma answered_simps [simp]:
  "mv_mode (answered p r v) = mv_mode v" "mv_restore (answered p r v) = mv_restore v"
  "mv_answers (answered p r v) = mv_answers v @ (if pr_awaited p then [(pr_sender p, r)] else [])"
  by (simp_all add: answered_def)

lemma protocol_step_restore:
  assumes "protocol_step c v v'" and "mv_restore v \<noteq> None \<longrightarrow> mv_mode v = Allow"
  shows "(mv_restore v' \<noteq> None \<longrightarrow> mv_mode v' = Allow) \<and> (mv_mode v = Block \<and> \<not> asks_for_allow c \<longrightarrow> mv_mode v' = Block)"
  using assms
proof (induction rule: protocol_step.induct)
  case (mode_granted p m v)
  then show ?case by (cases m) (auto simp: asks_for_allow_def)
next
  case (mode_denied p m m' v message)
  then show ?case by (cases m) (auto simp: asks_for_allow_def)
next
  case (tray_mode action m m' v)
  then show ?case by (cases m) (auto simp: asks_for_allow_def)
next
  case (power_issued action pa v)
  then show ?case by (auto simp: asks_for_allow_def)
next
  case (power_failed action pa m' v)
  then show ?case by (auto simp: asks_for_allow_def)
qed auto

lemma protocol_run_restore:
  assumes "protocol_run cs v v'" and "mv_restore v \<noteq> None \<longrightarrow> mv_mode v = Allow"
  shows "(mv_restore v' \<noteq> None \<longrightarrow> mv_mode v' = Allow) \<and>
    (mv_mode v = Block \<and> list_all (\<lambda>c. \<not> asks_for_allow c) cs \<longrightarrow> mv_mode v' = Block)"
  using assms
proof (induction cs arbitrary: v)
  case (Cons c cs)
  then obtain v1 where 1: "protocol_step c v v1" "protocol_run cs v1 v'" by auto
  from protocol_step_restore [OF 1(1) Cons.prems(2)] Cons.IH [OF 1(2)] show ?case by auto
qed simp

subsection \<open>A run on a system that accepts everything\<close>

definition allow_request :: pending_request where
  "allow_request = \<lparr>pr_request = SetMode Pipe_Allow, pr_sender = Control_Server, pr_awaited = True\<rparr>"

definition allow_events :: "app_event list" where
  "allow_events = [Ev_Request Control_Server (SetMode Pipe_Allow) True, Ev_Loop Queue_Empty]"

lemma idle_round_lives: "forced (app_event_step os ui (Ev_Loop Queue_Empty) s) = forced s"
proof -
  obtain quit s1 where p: "process_pending os s = (quit, s1)" by (rule prod.exhaust)
  obtain r s2 where u: "on_world (call_unit os (App WaitMessage)) s1 = (r, s2)" by (rule prod.exhaust)
  have "fst s2 = fst s1" using fst_on_world [of "call_unit os (App WaitMessage)" s1] u by simp
  with forced_pending [of os s] p u show ?thesis by (cases r) (auto simp: message_step_def)
qed

theorem application_refines_protocol_witness:
  "\<exists>a sk w v response.
     bootstrap host_os plain_codec blank_statics both_ready 7 headless_block (blank_sink, initial_world) = (Inr a, (sk, w)) \<and>
     app_view (fold (app_event_step host_os 1) allow_events (run_start (a, w))) = v \<and>
     mv_answers v = [(Control_Server, response)] \<and> mv_restore v = None \<and>
     (response = Resp_Ok \<and> mv_mode v = Allow \<or> (\<exists>message. response = Resp_Error message))"
proof -
  obtain a sk w where b: "bootstrap host_os plain_codec blank_statics both_ready 7 headless_block (blank_sink, initial_world) =
      (Inr a, (sk, w))" and q: "ap_tray a = None" "iq_pending (ap_requests a) = []"
    by (rule host_boots)
  let ?s = "run_start (a, w)"
  let ?v = "app_view (fold (app_event_step host_os 1) allow_events ?s)"
  have "\<not> forced ?s" using bootstrap_sound [OF b blank_world] by (simp add: sound_def good_def live_def)
  then have l: "lives_through (app_event_step host_os 1) (\<lambda>s. \<not> forced s) allow_events ?s"
    by (simp add: allow_events_def idle_round_lives run_start_def del: app_event_step.simps(1))
  have h: "history_of (app_event_step host_os 1) taken_in allow_events ?s = [From_Pipe allow_request]"
    using q by (simp add: allow_events_def run_start_def pending_commands_def waiting_actions_def enqueue_def allow_request_def)
  from application_refines_protocol [OF b blank_world l, unfolded h]
  have "protocol_step (From_Pipe allow_request) \<lparr>mv_mode = Block, mv_restore = None, mv_answers = []\<rparr> ?v"
    by (simp add: headless_block_def)
  then have "\<exists>response. mv_answers ?v = [(Control_Server, response)] \<and> mv_restore ?v = None \<and>
      (response = Resp_Ok \<and> mv_mode ?v = Allow \<or> (\<exists>message. response = Resp_Error message))"
    by (elim protocol_pipeE) (auto simp: allow_request_def)
  with b show ?thesis by blast
qed

end
