(* ===== verification/Status_Shutdown.thy ===== *)
theory Status_Shutdown
  imports Ipc_Server
begin

text \<open>
  How the status pipe is stopped (\<^verbatim>\<open>StatusShutdown\<close>, the loop of \<^verbatim>\<open>run_status_server_loop\<close> and
  \<^verbatim>\<open>Application::shutdown\<close>), at the grain of the single access to what two threads share: the
  accept gate, the shutdown flag, the one instance of the status pipe, the channel to the
  application thread. The status worker, the main thread and the clients take turns in any order;
  a turn that cannot be taken (the mutex is held, \<^verbatim>\<open>ConnectNamedPipe\<close> has no client, \<^verbatim>\<open>recv\<close> has
  no answer, \<^verbatim>\<open>join\<close> has a running thread) leaves the state as it is.

  \<open>Ipc_Server\<close> has the calls the worker makes and what they answer; here a call is reduced to what
  the other thread can see of it, and \<open>solo_round_is_status_accept\<close> shows that a round of this
  worker is a round of that one.
\<close>

subsection \<open>The shared state\<close>

datatype race_thread = Status_Worker | Main_Thread

text \<open>The one instance of the status pipe: none; created and free; with a client; with a client
  that went away again.\<close>

datatype pipe_state = Absent | Listening | Connected | Hung_Up

text \<open>Where the worker is in its loop.\<close>

datatype worker_pc =
    At_Gate | Checking | Creating | Connecting | Rechecking | Sending | Waking_Ui | Receiving | Replying | Left

text \<open>Where the main thread is: still in the message loop, or in \<^verbatim>\<open>Application::shutdown\<close>, which
  runs \<^verbatim>\<open>begin_shutdown\<close> twice.\<close>

datatype begin_call = First | Second

datatype main_pc =
    Serving | Gating begin_call | Storing begin_call | Waking begin_call | Rejecting | Stopping_Control
  | Joining_Status | Returned bool | Gone

record status_shutdown =
  ss_requested :: bool
  ss_accept_gate :: "race_thread option"
  ss_initial_pipe :: bool
  ss_pipe :: pipe_state
  ss_worker :: worker_pc
  ss_main :: main_pc
  ss_requests :: "pending_request list"
  ss_open :: bool
  ss_answer :: "ipc_response option"

text \<open>The first instance is claimed before the startup report, so it is there from the start.\<close>

definition race_start :: status_shutdown where
  "race_start = \<lparr>ss_requested = False, ss_accept_gate = None, ss_initial_pipe = True, ss_pipe = Listening,
     ss_worker = At_Gate, ss_main = Serving, ss_requests = [], ss_open = True, ss_answer = None\<rparr>"

subsection \<open>The accept gate\<close>

definition lock_accept :: "race_thread \<Rightarrow> status_shutdown \<Rightarrow> status_shutdown option" where
  "lock_accept t s = (if ss_accept_gate s = None then Some (s\<lparr>ss_accept_gate := Some t\<rparr>) else None)"

definition unlock_accept :: "status_shutdown \<Rightarrow> status_shutdown" where
  "unlock_accept s = s\<lparr>ss_accept_gate := None\<rparr>"

subsection \<open>The worker\<close>

definition leave_loop :: "status_shutdown \<Rightarrow> status_shutdown" where
  "leave_loop s = s\<lparr>ss_worker := Left, ss_pipe := Absent, ss_initial_pipe := False\<rparr>"

text \<open>The next iteration: the pipe and the receiver of the answer are dropped.\<close>

definition next_iteration :: "status_shutdown \<Rightarrow> status_shutdown" where
  "next_iteration s = s\<lparr>ss_worker := At_Gate, ss_pipe := Absent, ss_answer := None,
     ss_requests := map (\<lambda>p. p\<lparr>pr_awaited := False\<rparr>) (ss_requests s)\<rparr>"

definition queue_status_request :: "status_shutdown \<Rightarrow> status_shutdown" where
  "queue_status_request s = s\<lparr>ss_requests := ss_requests s @
     [\<lparr>pr_request = Status, pr_sender = Status_Server, pr_awaited = True\<rparr>], ss_worker := Waking_Ui\<rparr>"

text \<open>\<open>succeeds\<close> is the answer of the Windows call the turn makes, if it makes one.\<close>

definition status_worker_turn :: "bool \<Rightarrow> status_shutdown \<Rightarrow> status_shutdown option" where
  "status_worker_turn succeeds s =
     (case ss_worker s of
        At_Gate \<Rightarrow> map_option (\<lambda>s. s\<lparr>ss_worker := Checking\<rparr>) (lock_accept Status_Worker s)
      | Checking \<Rightarrow>
          Some (if ss_requested s then leave_loop (unlock_accept s) else s\<lparr>ss_worker := Creating\<rparr>)
      | Creating \<Rightarrow>
          Some (unlock_accept
            (if ss_initial_pipe s then s\<lparr>ss_initial_pipe := False, ss_worker := Connecting\<rparr>
             else if succeeds then s\<lparr>ss_pipe := Listening, ss_worker := Connecting\<rparr>
             else leave_loop s))
      | Connecting \<Rightarrow>
          (if \<not> succeeds then Some (leave_loop s)
           else if ss_pipe s = Listening then None
           else Some (s\<lparr>ss_worker := Rechecking\<rparr>))
      | Rechecking \<Rightarrow> Some (if ss_requested s then leave_loop s else s\<lparr>ss_worker := Sending\<rparr>)
      | Sending \<Rightarrow> Some (if ss_open s then queue_status_request s else leave_loop s)
      | Waking_Ui \<Rightarrow> Some (if succeeds then s\<lparr>ss_worker := Receiving\<rparr> else next_iteration s)
      | Receiving \<Rightarrow>
          (case ss_answer s of
             Some _ \<Rightarrow> Some (s\<lparr>ss_worker := Replying\<rparr>)
           | None \<Rightarrow> if list_ex pr_awaited (ss_requests s) then None else Some (leave_loop s))
      | Replying \<Rightarrow> Some (next_iteration s)
      | Left \<Rightarrow> None)"

subsection \<open>The main thread\<close>

text \<open>Taking a request from the channel and answering it.\<close>

definition answer_first :: "ipc_response \<Rightarrow> status_shutdown \<Rightarrow> status_shutdown" where
  "answer_first response s =
     s\<lparr>ss_requests := tl (ss_requests s),
       ss_answer := (if pr_awaited (hd (ss_requests s)) then Some response else ss_answer s)\<rparr>"

text \<open>\<^verbatim>\<open>wake_status_server\<close>: a free instance gets a client that goes away at once; an instance with
  a client is busy, and without an instance nothing is found.\<close>

definition connect_and_drop :: "status_shutdown \<Rightarrow> status_shutdown" where
  "connect_and_drop s = (if ss_pipe s = Listening then s\<lparr>ss_pipe := Hung_Up\<rparr> else s)"

fun after_wake :: "begin_call \<Rightarrow> main_pc" where
  "after_wake First = Rejecting"
| "after_wake Second = Stopping_Control"

text \<open>\<^verbatim>\<open>StatusShutdown::request\<close>, once it has the gate.\<close>

definition store_requested :: "status_shutdown \<Rightarrow> status_shutdown" where
  "store_requested s = unlock_accept (s\<lparr>ss_requested := True\<rparr>)"

text \<open>The steps of \<^verbatim>\<open>Application::shutdown\<close> that concern the status pipe. \<open>succeeds\<close> is whether the
  control worker was stopped, so that \<^verbatim>\<open>IpcServer::shutdown\<close> goes on to the joins. Once the
  function has returned the application is dropped, and the receiving end of the channel with it.\<close>

definition main_turn :: "bool \<Rightarrow> status_shutdown \<Rightarrow> status_shutdown option" where
  "main_turn succeeds s =
     (case ss_main s of
        Serving \<Rightarrow> Some (s\<lparr>ss_main := Gating First\<rparr>)
      | Gating call \<Rightarrow> map_option (\<lambda>s. s\<lparr>ss_main := Storing call\<rparr>) (lock_accept Main_Thread s)
      | Storing call \<Rightarrow> Some ((store_requested s)\<lparr>ss_main := Waking call\<rparr>)
      | Waking call \<Rightarrow> Some (connect_and_drop s\<lparr>ss_main := after_wake call\<rparr>)
      | Rejecting \<Rightarrow>
          Some (if ss_requests s = [] then s\<lparr>ss_main := Gating Second\<rparr> else answer_first shutting_down s)
      | Stopping_Control \<Rightarrow> Some (s\<lparr>ss_main := (if succeeds then Joining_Status else Returned False)\<rparr>)
      | Joining_Status \<Rightarrow> if ss_worker s = Left then Some (s\<lparr>ss_main := Returned True\<rparr>) else None
      | Returned _ \<Rightarrow> Some (s\<lparr>ss_main := Gone, ss_open := False, ss_requests := []\<rparr>)
      | Gone \<Rightarrow> None)"

text \<open>In the message loop: one turn of \<^verbatim>\<open>process_ipc_requests\<close>.\<close>

definition main_serve :: "ipc_response \<Rightarrow> status_shutdown \<Rightarrow> status_shutdown option" where
  "main_serve response s =
     (if ss_main s = Serving \<and> ss_requests s \<noteq> [] then Some (answer_first response s) else None)"

text \<open>Windows did not let the wake-up connect although the instance was free.\<close>

definition main_wake_refused :: "status_shutdown \<Rightarrow> status_shutdown option" where
  "main_wake_refused s =
     (case ss_main s of Waking call \<Rightarrow> Some (s\<lparr>ss_main := after_wake call\<rparr>) | _ \<Rightarrow> None)"

subsection \<open>Taking turns\<close>

datatype race_turn =
    Worker_Turn bool | Main_Turn bool | Main_Serve ipc_response | Main_Wake_Refused | Client_Connect | Client_Leave

fun take_turn :: "race_turn \<Rightarrow> status_shutdown \<Rightarrow> status_shutdown option" where
  "take_turn (Worker_Turn succeeds) s = status_worker_turn succeeds s"
| "take_turn (Main_Turn succeeds) s = main_turn succeeds s"
| "take_turn (Main_Serve response) s = main_serve response s"
| "take_turn Main_Wake_Refused s = main_wake_refused s"
| "take_turn Client_Connect s = (if ss_pipe s = Listening then Some (s\<lparr>ss_pipe := Connected\<rparr>) else None)"
| "take_turn Client_Leave s = (if ss_pipe s = Connected then Some (s\<lparr>ss_pipe := Hung_Up\<rparr>) else None)"

fun race_run :: "race_turn list \<Rightarrow> status_shutdown \<Rightarrow> status_shutdown" where
  "race_run [] s = s"
| "race_run (t # ts) s = race_run ts (case take_turn t s of None \<Rightarrow> s | Some s' \<Rightarrow> s')"

lemma race_run_append: "race_run (ts @ us) s = race_run us (race_run ts s)"
  by (induction ts arbitrary: s) auto

text \<open>The turns of the two threads that were really taken.\<close>

fun thread_turn :: "race_turn \<Rightarrow> bool" where
  "thread_turn (Worker_Turn _) = True"
| "thread_turn (Main_Turn _) = True"
| "thread_turn (Main_Serve _) = True"
| "thread_turn Main_Wake_Refused = True"
| "thread_turn _ = False"

fun turns_taken :: "race_turn list \<Rightarrow> status_shutdown \<Rightarrow> nat" where
  "turns_taken [] s = 0"
| "turns_taken (t # ts) s =
     (case take_turn t s of
        None \<Rightarrow> turns_taken ts s
      | Some s' \<Rightarrow> (if thread_turn t then 1 else 0) + turns_taken ts s')"

definition threads_blocked :: "status_shutdown \<Rightarrow> bool" where
  "threads_blocked s \<longleftrightarrow>
     status_worker_turn True s = None \<and> status_worker_turn False s = None \<and> main_turn True s = None \<and> main_turn False s = None"

subsection \<open>What holds between any two turns\<close>

text \<open>The flag is set exactly from the first \<^verbatim>\<open>begin_shutdown\<close> on, and the first wake-up has been
  tried from \<open>Rejecting\<close> on.\<close>

fun flag_stored :: "main_pc \<Rightarrow> bool" where
  "flag_stored Serving = False"
| "flag_stored (Gating call) = (call = Second)"
| "flag_stored (Storing call) = (call = Second)"
| "flag_stored _ = True"

fun wake_tried :: "main_pc \<Rightarrow> bool" where
  "wake_tried (Waking call) = (call = Second)"
| "wake_tried pc = flag_stored pc"

text \<open>The worker's request is in the channel from its \<^verbatim>\<open>send\<close> until it is answered or the channel
  is dropped.\<close>

definition awaits :: "status_shutdown \<Rightarrow> bool" where
  "awaits s \<longleftrightarrow> list_ex pr_awaited (ss_requests s)"

text \<open>At most the last request of the channel is awaited.\<close>

fun only_last_awaited :: "pending_request list \<Rightarrow> bool" where
  "only_last_awaited [] = True"
| "only_last_awaited (p # ps) \<longleftrightarrow> (pr_awaited p \<longrightarrow> ps = []) \<and> only_last_awaited ps"

definition gate_inv :: "status_shutdown \<Rightarrow> bool" where
  "gate_inv s \<longleftrightarrow>
     (ss_accept_gate s = Some Status_Worker \<longleftrightarrow> ss_worker s \<in> {Checking, Creating}) \<and>
     (ss_accept_gate s = Some Main_Thread \<longleftrightarrow> (\<exists>call. ss_main s = Storing call)) \<and>
     (ss_requested s \<longleftrightarrow> flag_stored (ss_main s)) \<and>
     (ss_worker s = Creating \<longrightarrow> \<not> ss_requested s)"

definition pipe_inv :: "status_shutdown \<Rightarrow> bool" where
  "pipe_inv s \<longleftrightarrow>
     (ss_initial_pipe s \<longrightarrow> ss_worker s \<in> {At_Gate, Checking, Creating}) \<and>
     (ss_pipe s = Listening \<longrightarrow> ss_initial_pipe s \<or> ss_worker s = Connecting) \<and>
     (ss_pipe s = Absent \<longleftrightarrow> ss_worker s \<in> {At_Gate, Checking, Creating, Left} \<and> \<not> ss_initial_pipe s)"

definition request_inv :: "status_shutdown \<Rightarrow> bool" where
  "request_inv s \<longleftrightarrow>
     only_last_awaited (ss_requests s) \<and>
     (ss_open s \<longleftrightarrow> ss_main s \<noteq> Gone) \<and> (\<not> ss_open s \<longrightarrow> ss_requests s = []) \<and>
     (awaits s \<longrightarrow> ss_worker s \<in> {Waking_Ui, Receiving} \<and> ss_answer s = None) \<and>
     (ss_answer s \<noteq> None \<longrightarrow> ss_worker s \<in> {Waking_Ui, Receiving, Replying}) \<and>
     (ss_worker s \<in> {Waking_Ui, Receiving} \<and> ss_open s \<and> ss_answer s = None \<longrightarrow> awaits s)"

definition race_inv :: "status_shutdown \<Rightarrow> bool" where
  "race_inv s \<longleftrightarrow> gate_inv s \<and> pipe_inv s \<and> request_inv s"

text \<open>What the gate is for: a worker that will wait for a client after the wake-up was tried has
  already got one.\<close>

definition no_lost_wake :: "status_shutdown \<Rightarrow> bool" where
  "no_lost_wake s \<longleftrightarrow> (ss_worker s = Connecting \<and> wake_tried (ss_main s) \<longrightarrow> ss_pipe s \<noteq> Listening)"

named_theorems race_defs \<open>the components of the status pipe's state machine\<close>
lemmas [race_defs] = lock_accept_def unlock_accept_def leave_loop_def next_iteration_def queue_status_request_def
  answer_first_def connect_and_drop_def store_requested_def main_serve_def main_wake_refused_def

lemma only_last_awaited_orphans [simp]: "only_last_awaited (map (\<lambda>p. p\<lparr>pr_awaited := False\<rparr>) ps)"
  by (induction ps) auto

lemma only_last_awaited_send:
  "only_last_awaited (ps @ [p]) \<longleftrightarrow> \<not> list_ex pr_awaited ps \<and> only_last_awaited ps"
  by (induction ps) auto

lemma only_last_awaited_first:
  "only_last_awaited ps \<Longrightarrow> pr_awaited (hd ps) \<Longrightarrow> ps \<noteq> [] \<Longrightarrow> tl ps = []"
  by (cases ps) auto

lemma only_last_awaited_tl: "only_last_awaited ps \<Longrightarrow> only_last_awaited (tl ps)"
  by (cases ps) auto

lemma awaited_first_or_rest:
  "ps \<noteq> [] \<Longrightarrow> list_ex pr_awaited ps \<longleftrightarrow> pr_awaited (hd ps) \<or> list_ex pr_awaited (tl ps)"
  by (cases ps) auto

lemma no_orphan_awaited [simp]: "\<not> list_ex pr_awaited (map (\<lambda>p. p\<lparr>pr_awaited := False\<rparr>) ps)"
  by (induction ps) auto

lemma race_start_inv: "race_inv race_start \<and> no_lost_wake race_start"
  by (simp add: race_inv_def gate_inv_def pipe_inv_def request_inv_def awaits_def no_lost_wake_def race_start_def)

lemma after_wake_stored [simp]:
  "flag_stored (after_wake call)" "wake_tried (after_wake call)" "after_wake call \<noteq> Storing c" "after_wake call \<noteq> Gone"
  by (cases call; simp)+

text \<open>A turn of the worker, by where it is; what a turn of the main thread can change.\<close>

lemma worker_gate:
  assumes "gate_inv s" and "status_worker_turn b s = Some s'"
  shows "gate_inv s'"
  using assms unfolding status_worker_turn_def gate_inv_def
  by (cases "ss_worker s") (auto simp: race_defs split: if_splits option.splits)

lemma worker_pipe:
  assumes "pipe_inv s" and "status_worker_turn b s = Some s'"
  shows "pipe_inv s'"
  using assms unfolding status_worker_turn_def pipe_inv_def
  by (cases "ss_worker s") (auto simp: race_defs split: if_splits option.splits)

lemma worker_request:
  assumes "request_inv s" and "status_worker_turn b s = Some s'"
  shows "request_inv s'"
  using assms unfolding status_worker_turn_def request_inv_def awaits_def
  by (cases "ss_worker s") (auto simp: race_defs only_last_awaited_send split: if_splits option.splits)

lemma main_gate:
  assumes "gate_inv s" and "main_turn b s = Some s'"
  shows "gate_inv s'"
  using assms unfolding main_turn_def gate_inv_def
  by (cases "ss_main s") (auto simp: race_defs split: if_splits option.splits)

lemma main_frame:
  assumes "main_turn b s = Some s'"
  shows "ss_worker s' = ss_worker s \<and> ss_initial_pipe s' = ss_initial_pipe s \<and>
    (ss_pipe s' = ss_pipe s \<or> ss_pipe s = Listening \<and> ss_pipe s' = Hung_Up)"
  using assms unfolding main_turn_def
  by (cases "ss_main s") (auto simp: race_defs split: if_splits)

lemma main_requests:
  assumes "main_turn b s = Some s'"
  shows "(ss_requests s', ss_answer s', ss_open s', ss_main s' = Gone) = (ss_requests s, ss_answer s, ss_open s, False) \<and> ss_main s \<noteq> Gone \<or>
    ss_requests s \<noteq> [] \<and> s' = answer_first shutting_down s \<and> ss_main s = Rejecting \<or>
    (ss_requests s', ss_answer s', ss_open s', ss_main s') = ([], ss_answer s, False, Gone)"
  using assms unfolding main_turn_def
  by (cases "ss_main s") (auto simp: race_defs split: if_splits)

lemma pipe_inv_frame:
  assumes "pipe_inv s" and "ss_worker s' = ss_worker s" and "ss_initial_pipe s' = ss_initial_pipe s"
    and "ss_pipe s' = ss_pipe s \<or> ss_pipe s \<in> {Listening, Connected} \<and> ss_pipe s' \<in> {Connected, Hung_Up}"
  shows "pipe_inv s'"
  using assms unfolding pipe_inv_def by auto

lemma request_inv_cong:
  assumes "ss_requests s' = ss_requests s" and "ss_open s' = ss_open s" and "ss_main s' = Gone \<longleftrightarrow> ss_main s = Gone"
    and "ss_answer s' = ss_answer s" and "ss_worker s' = ss_worker s"
  shows "request_inv s' = request_inv s"
  by (simp only: request_inv_def awaits_def assms)

lemma answer_first_request:
  assumes inv: "request_inv s" and ne: "ss_requests s \<noteq> []"
  shows "request_inv (answer_first response s)"
proof -
  obtain p ps where r: "ss_requests s = p # ps" using ne by (cases "ss_requests s") auto
  note i = inv [unfolded request_inv_def awaits_def r only_last_awaited.simps list_ex_Cons_iff]
  have o: "ss_open s" "ss_main s \<noteq> Gone" using i by blast+
  have n: "only_last_awaited ps" using i by blast
  show ?thesis
  proof (cases "pr_awaited p")
    case True
    then have "ps = []" "ss_worker s = Waking_Ui \<or> ss_worker s = Receiving" using i by blast+
    with True r o show ?thesis unfolding request_inv_def awaits_def answer_first_def by simp blast
  next
    case False
    then have "request_inv (answer_first response s) = request_inv (s\<lparr>ss_requests := ps\<rparr>)"
      by (simp add: answer_first_def r)
    also have "\<dots>" unfolding request_inv_def awaits_def by (simp add: n o) (use i False o in blast)
    finally show ?thesis .
  qed
qed

lemma main_request:
  assumes inv: "request_inv s" and "main_turn b s = Some s'"
  shows "request_inv s'"
  using main_requests [OF assms(2)]
proof (elim disjE conjE)
  assume "(ss_requests s', ss_answer s', ss_open s', ss_main s' = Gone) = (ss_requests s, ss_answer s, ss_open s, False)" "ss_main s \<noteq> Gone"
  with inv main_frame [OF assms(2)] request_inv_cong [of s' s] show ?thesis by simp
next
  assume "ss_requests s \<noteq> []" "s' = answer_first shutting_down s"
  with inv answer_first_request show ?thesis by blast
next
  assume g: "(ss_requests s', ss_answer s', ss_open s', ss_main s') = ([], ss_answer s, False, Gone)"
  moreover have "ss_answer s \<noteq> None \<longrightarrow> ss_worker s \<in> {Waking_Ui, Receiving, Replying}"
    using inv unfolding request_inv_def by blast
  ultimately show ?thesis using main_frame [OF assms(2)] by (simp add: request_inv_def awaits_def)
qed

lemma take_turn_inv:
  assumes inv: "race_inv s" and step: "take_turn t s = Some s'"
  shows "race_inv s'"
proof (cases t)
  case (Worker_Turn b)
  with assms worker_gate worker_pipe worker_request show ?thesis by (auto simp: race_inv_def)
next
  case (Main_Turn b)
  with step have m: "main_turn b s = Some s'" by simp
  with inv main_gate main_request pipe_inv_frame [of s s'] main_frame [OF m] show ?thesis by (auto simp: race_inv_def)
next
  case (Main_Serve response)
  with step have m: "ss_main s = Serving" "ss_requests s \<noteq> []" "s' = answer_first response s"
    by (auto simp: main_serve_def split: if_splits)
  have "gate_inv s'" "pipe_inv s'"
    using inv m by (simp_all add: race_inv_def gate_inv_def pipe_inv_def answer_first_def)
  with inv m answer_first_request show ?thesis by (simp add: race_inv_def)
next
  case Main_Wake_Refused
  with step obtain call where "ss_main s = Waking call" "s' = s\<lparr>ss_main := after_wake call\<rparr>"
    by (auto simp: main_wake_refused_def split: main_pc.splits)
  with inv request_inv_cong [of s' s] show ?thesis by (auto simp: race_inv_def gate_inv_def pipe_inv_def)
next
  case Client_Connect
  with step have "ss_pipe s = Listening" "s' = s\<lparr>ss_pipe := Connected\<rparr>" by (auto split: if_splits)
  with inv pipe_inv_frame [of s s'] request_inv_cong [of s' s] show ?thesis by (auto simp: race_inv_def gate_inv_def)
next
  case Client_Leave
  with step have "ss_pipe s = Connected" "s' = s\<lparr>ss_pipe := Hung_Up\<rparr>" by (auto split: if_splits)
  with inv pipe_inv_frame [of s s'] request_inv_cong [of s' s] show ?thesis by (auto simp: race_inv_def gate_inv_def)
qed

lemma take_turn_wake:
  assumes inv: "race_inv s" and "no_lost_wake s" and step: "take_turn t s = Some s'" and "t \<noteq> Main_Wake_Refused"
  shows "no_lost_wake s'"
proof (cases t)
  case (Worker_Turn b)
  with step have w: "status_worker_turn b s = Some s'" by simp
  have "ss_main s' = ss_main s"
    using w unfolding status_worker_turn_def
    by (cases "ss_worker s") (auto simp: race_defs split: if_splits option.splits)
  moreover have "ss_worker s' = Connecting \<Longrightarrow> \<not> ss_requested s"
    using w inv unfolding status_worker_turn_def race_inv_def gate_inv_def
    by (cases "ss_worker s") (auto simp: race_defs split: if_splits option.splits)
  moreover have "\<not> ss_requested s \<Longrightarrow> \<not> wake_tried (ss_main s)"
    using inv by (cases "ss_main s") (auto simp: race_inv_def gate_inv_def)
  ultimately show ?thesis by (auto simp: no_lost_wake_def)
next
  case (Main_Turn b)
  with step have m: "main_turn b s = Some s'" by simp
  have "wake_tried (ss_main s') \<Longrightarrow> wake_tried (ss_main s) \<or> ss_pipe s' \<noteq> Listening"
    using m unfolding main_turn_def
    by (cases "ss_main s") (auto simp: race_defs split: if_splits)
  with assms(2) main_frame [OF m] show ?thesis by (auto simp: no_lost_wake_def)
next
  case (Main_Serve response)
  with step have "ss_main s = Serving" "s' = answer_first response s" by (auto simp: main_serve_def split: if_splits)
  then show ?thesis by (simp add: no_lost_wake_def answer_first_def)
qed (use assms in \<open>auto simp: no_lost_wake_def split: if_splits\<close>)

lemma race_run_inv: "race_inv s \<Longrightarrow> race_inv (race_run ts s)"
  by (induction ts arbitrary: s) (auto intro: take_turn_inv split: option.split)

lemma race_run_wake:
  "race_inv s \<Longrightarrow> no_lost_wake s \<Longrightarrow> Main_Wake_Refused \<notin> set ts \<Longrightarrow> no_lost_wake (race_run ts s)"
proof (induction ts arbitrary: s)
  case (Cons t ts)
  then show ?case
    using take_turn_inv [of s t] take_turn_wake [of s t] by (cases "take_turn t s") auto
qed simp

lemmas race_reachable = race_run_inv [OF conjunct1 [OF race_start_inv]] race_run_wake [OF conjunct1 conjunct2, OF race_start_inv race_start_inv]


subsection \<open>Stopping ends\<close>

text \<open>Turns the two threads can still take once the flag is set. A request in the channel costs the
  main thread one turn, and the worker can put at most one more there.\<close>

fun worker_rank :: "worker_pc \<Rightarrow> nat" where
  "worker_rank Left = 0"
| "worker_rank Checking = 1"
| "worker_rank Rechecking = 1"
| "worker_rank At_Gate = 2"
| "worker_rank Connecting = 2"
| "worker_rank Creating = 3"
| "worker_rank Replying = 3"
| "worker_rank Receiving = 4"
| "worker_rank Waking_Ui = 5"
| "worker_rank Sending = 6"

fun main_rank :: "main_pc \<Rightarrow> nat" where
  "main_rank Gone = 0"
| "main_rank (Returned _) = 1"
| "main_rank Joining_Status = 2"
| "main_rank Stopping_Control = 3"
| "main_rank (Waking Second) = 4"
| "main_rank (Storing Second) = 5"
| "main_rank (Gating Second) = 6"
| "main_rank Rejecting = 7"
| "main_rank (Waking First) = 8"
| "main_rank (Storing First) = 9"
| "main_rank (Gating First) = 10"
| "main_rank Serving = 11"

definition race_rank :: "status_shutdown \<Rightarrow> nat" where
  "race_rank s = 2 * worker_rank (ss_worker s) + main_rank (ss_main s) + length (ss_requests s)"

lemma take_turn_rank:
  assumes inv: "race_inv s" and req: "ss_requested s" and step: "take_turn t s = Some s'"
  shows "ss_requested s' \<and> race_rank s' + (if thread_turn t then 1 else 0) \<le> race_rank s"
proof (cases t)
  case (Worker_Turn b)
  with step have w: "status_worker_turn b s = Some s'" by simp
  have "ss_worker s \<noteq> Creating" using inv req by (auto simp: race_inv_def gate_inv_def)
  with w req Worker_Turn show ?thesis
    unfolding status_worker_turn_def
    by (cases "ss_worker s") (auto simp: race_rank_def race_defs split: if_splits option.splits)
next
  case (Main_Turn b)
  with step have m: "main_turn b s = Some s'" by simp
  have f: "flag_stored (ss_main s)" using inv req by (simp add: race_inv_def gate_inv_def)
  have q: "ss_requests s \<noteq> [] \<Longrightarrow> Suc (length (tl (ss_requests s))) = length (ss_requests s)"
    by (cases "ss_requests s") auto
  have a: "main_rank (after_wake call) + 1 \<le> main_rank (Waking call)" for call by (cases call) simp_all
  from m f req q a Main_Turn show ?thesis
    unfolding main_turn_def
    by (cases "ss_main s") (auto simp: race_rank_def race_defs split: if_splits)
next
  case (Main_Serve response)
  with step inv req show ?thesis by (auto simp: main_serve_def race_inv_def gate_inv_def split: if_splits)
next
  case Main_Wake_Refused
  with step obtain call where "ss_main s = Waking call" "s' = s\<lparr>ss_main := after_wake call\<rparr>"
    by (auto simp: main_wake_refused_def split: main_pc.splits)
  with req Main_Wake_Refused show ?thesis by (cases call) (simp_all add: race_rank_def)
qed (use assms in \<open>auto simp: race_rank_def split: if_splits\<close>)

lemma turns_bounded:
  assumes "race_inv s" and "ss_requested s"
  shows "turns_taken ts s + race_rank (race_run ts s) \<le> race_rank s"
  using assms
proof (induction ts arbitrary: s)
  case (Cons t ts)
  then show ?case
    using take_turn_rank [of s t] take_turn_inv [of s t] by (cases "take_turn t s") fastforce+
qed simp

lemma race_run_requested: "race_inv s \<Longrightarrow> ss_requested s \<Longrightarrow> ss_requested (race_run ts s)"
proof (induction ts arbitrary: s)
  case (Cons t ts)
  then show ?case using take_turn_rank [of s t] take_turn_inv [of s t] by (cases "take_turn t s") auto
qed simp

text \<open>The one way to wait for ever: the main thread joins a worker that waits for the main thread's
  answer to a request still in the channel.\<close>

definition hung :: "status_shutdown \<Rightarrow> bool" where
  "hung s \<longleftrightarrow> ss_main s = Joining_Status \<and> ss_worker s = Receiving \<and> ss_answer s = None \<and> awaits s"

lemma main_blocked:
  assumes "main_turn b s = None"
  shows "ss_main s = Gone \<or> ss_main s = Joining_Status \<and> ss_worker s \<noteq> Left \<or>
    (\<exists>call. ss_main s = Gating call) \<and> ss_accept_gate s \<noteq> None"
  using assms unfolding main_turn_def
  by (cases "ss_main s") (auto simp: lock_accept_def split: if_splits)

lemma worker_blocked:
  assumes "status_worker_turn True s = None"
  shows "ss_worker s = Left \<or> ss_worker s = At_Gate \<and> ss_accept_gate s \<noteq> None \<or>
    ss_worker s = Connecting \<and> ss_pipe s = Listening \<or>
    ss_worker s = Receiving \<and> ss_answer s = None \<and> awaits s"
  using assms unfolding status_worker_turn_def
  by (cases "ss_worker s") (auto simp: lock_accept_def awaits_def split: if_splits option.splits)

lemma gate_holder_moves:
  assumes "gate_inv s" and "threads_blocked s"
  shows "ss_accept_gate s = None"
proof (cases "ss_accept_gate s")
  case (Some t)
  with assms show ?thesis
    using main_blocked [of True s] worker_blocked [of s]
    by (cases t) (auto simp: gate_inv_def threads_blocked_def)
qed simp

lemma blocked_outcome:
  assumes "race_inv s" and "no_lost_wake s" and "ss_requested s" and "threads_blocked s"
  shows "ss_main s = Gone \<and> ss_worker s = Left \<or> hung s"
proof -
  have g: "ss_accept_gate s = None" using gate_holder_moves assms(1,4) by (simp add: race_inv_def)
  have m: "ss_main s = Gone \<or> ss_main s = Joining_Status \<and> ss_worker s \<noteq> Left"
    using main_blocked [of True s] assms(4) g by (auto simp: threads_blocked_def)
  then have w: "ss_worker s = Left \<or> ss_worker s = Receiving \<and> ss_answer s = None \<and> awaits s"
    using worker_blocked [of s] assms(2,4) g by (auto simp: threads_blocked_def no_lost_wake_def)
  have "ss_main s = Gone \<Longrightarrow> \<not> awaits s" using assms(1) by (auto simp: race_inv_def request_inv_def awaits_def)
  with m w show ?thesis by (auto simp: hung_def)
qed

subsection \<open>The window before the request is queued\<close>

text \<open>The main thread has emptied the channel for the last time.\<close>

fun drained :: "main_pc \<Rightarrow> bool" where
  "drained (Gating call) = (call = Second)"
| "drained (Storing call) = (call = Second)"
| "drained (Waking call) = (call = Second)"
| "drained pc = (pc \<noteq> Serving \<and> pc \<noteq> Rejecting)"

definition past_window :: "status_shutdown \<Rightarrow> bool" where
  "past_window s \<longleftrightarrow> drained (ss_main s) \<and> ss_worker s \<noteq> Sending \<and> \<not> awaits s"

lemma drained_requested: "gate_inv s \<Longrightarrow> drained (ss_main s) \<Longrightarrow> ss_requested s"
  by (cases "ss_main s") (auto simp: gate_inv_def)

lemma take_turn_past_window:
  assumes inv: "race_inv s" and "past_window s" and step: "take_turn t s = Some s'"
  shows "past_window s'"
proof (cases t)
  case (Worker_Turn b)
  with step have w: "status_worker_turn b s = Some s'" by simp
  have "ss_requested s" using drained_requested assms(1,2) by (simp add: race_inv_def past_window_def)
  with w assms(2) show ?thesis
    unfolding status_worker_turn_def
    by (cases "ss_worker s") (auto simp: past_window_def awaits_def race_defs split: if_splits option.splits)
next
  case (Main_Turn b)
  with step have m: "main_turn b s = Some s'" by simp
  with assms(2) show ?thesis
    unfolding main_turn_def
    by (cases "ss_main s") (auto simp: past_window_def awaits_def race_defs split: if_splits begin_call.split)
next
  case (Main_Serve response)
  with step assms(2) show ?thesis by (auto simp: main_serve_def past_window_def split: if_splits)
next
  case Main_Wake_Refused
  with step assms(2) show ?thesis
    by (auto simp: main_wake_refused_def past_window_def awaits_def split: main_pc.splits)
qed (use step assms(2) in \<open>auto simp: past_window_def awaits_def split: if_splits\<close>)

lemma race_run_past_window: "race_inv s \<Longrightarrow> past_window s \<Longrightarrow> past_window (race_run ts s)"
  by (induction ts arbitrary: s) (auto intro: take_turn_inv take_turn_past_window split: option.split)

lemma past_window_not_hung: "past_window s \<Longrightarrow> \<not> hung s"
  by (simp add: past_window_def hung_def)

lemma hung_stays:
  assumes "hung s"
  shows "hung (race_run ts s)"
  using assms
proof (induction ts arbitrary: s)
  case (Cons t ts)
  have "hung s'" if "take_turn t s = Some s'" for s'
    using that Cons.prems
    by (cases t) (auto simp: hung_def awaits_def status_worker_turn_def main_turn_def main_serve_def main_wake_refused_def
        split: if_splits)
  with Cons show ?case by (cases "take_turn t s") auto
qed simp

subsection \<open>A round of the worker\<close>

fun phase_matches :: "server_phase \<Rightarrow> worker_pc \<Rightarrow> bool" where
  "phase_matches (Accepting _) pc = (pc = At_Gate)"
| "phase_matches (Awaiting _) pc = (pc = Receiving)"
| "phase_matches Ended pc = (pc = Left)"
| "phase_matches Stuck pc = False"

text \<open>A round of the worker alone, with a client at hand; between its two reads of the flag the
  main thread may have set it.\<close>

definition solo_round :: "bool \<Rightarrow> bool \<Rightarrow> bool \<Rightarrow> bool \<Rightarrow> status_shutdown \<Rightarrow> status_shutdown" where
  "solo_round created connected requested_after woken s =
     race_run [Worker_Turn True, Worker_Turn True, Worker_Turn woken]
       (race_run [Worker_Turn True, Worker_Turn True, Worker_Turn created, Client_Connect, Worker_Turn connected] s
          \<lparr>ss_requested := requested_after\<rparr>)"

lemma orphans_unchanged:
  "\<not> list_ex pr_awaited ps \<Longrightarrow> map (\<lambda>p. p\<lparr>pr_awaited := False\<rparr>) ps = ps"
  by (induction ps) auto

lemma status_accept_cases:
  obtains
    (asked) w' where "before" "status_accept os ui path before after initial (q, w) = (Ended, (q, w'))"
  | (failed) w' where "\<not> before" "status_accept os ui path before after initial (q, w) = (Ended, (q, w'))"
  | (stopped) w' where "\<not> before" "after \<or> \<not> iq_open q" "status_accept os ui path before after initial (q, w) = (Ended, (q, w'))"
  | (waiting) pipe w' where "\<not> before" "\<not> after" "iq_open q"
      "status_accept os ui path before after initial (q, w) = (Awaiting pipe, (enqueue Status_Server Status True q, w'))"
  | (rejected) w' where "\<not> before" "\<not> after" "iq_open q"
      "status_accept os ui path before after initial (q, w) = (Accepting None, (enqueue Status_Server Status False q, w'))"
proof (cases before)
  case True
  then show thesis using asked by (auto simp: status_accept_def)
next
  case False
  let ?c = "case initial of Some pipe \<Rightarrow> connect_pipe_client os pipe path w | None \<Rightarrow> accept_client os path False w"
  obtain r w1 where c: "?c = (r, w1)" by (rule prod.exhaust)
  show thesis
  proof (cases r)
    case (Inl e)
    with c False show thesis using failed by (simp add: status_accept_def)
  next
    case (Inr pipe)
    note r = Inr
    show thesis
    proof (cases "after \<or> \<not> iq_open q")
      case True
      with c r False show thesis using stopped by (simp add: status_accept_def)
    next
      case go: False
      obtain u w2 where k: "wake_ui_thread os ui w1 = (u, w2)" by (rule prod.exhaust)
      show thesis
      proof (cases u)
        case (Inl e)
        with k c r go False show thesis using rejected by (simp add: status_accept_def)
      next
        case (Inr _)
        with k c r go False show thesis using waiting by (simp add: status_accept_def)
      qed
    qed
  qed
qed

text \<open>Whatever Windows answers to \<open>status_accept\<close>, some answers to the turns of the worker lead to
  the same phase and the same requests in the channel.\<close>

lemma solo_round_is_status_accept:
  assumes s: "ss_worker s = At_Gate" "ss_accept_gate s = None" "ss_initial_pipe s = (initial \<noteq> None)"
      "ss_pipe s = (if initial \<noteq> None then Listening else Absent)" "ss_open s = iq_open q" "ss_requests s = iq_pending q"
      "\<not> list_ex pr_awaited (iq_pending q)"
    and run: "status_accept os ui path (ss_requested s) after initial (q, w) = (phase, (q', w'))"
  shows "\<exists>created connected woken. let s' = solo_round created connected after woken s in
    phase_matches phase (ss_worker s') \<and> ss_requests s' = iq_pending q'"
proof -
  note d = solo_round_def status_worker_turn_def race_defs s enqueue_def orphans_unchanged
  show ?thesis
  proof (cases rule: status_accept_cases [of "ss_requested s" os ui path after initial q w])
    case (asked w')
    with run show ?thesis by (simp add: d)
  next
    case (failed w')
    with run have "phase = Ended" "q' = q" by simp_all
    with failed(1) show ?thesis
      by (intro exI [of _ True] exI [of _ False] exI [of _ True]) (cases initial; simp add: d)
  next
    case (stopped w')
    with run have "phase = Ended" "q' = q" by simp_all
    with stopped(1,2) show ?thesis
      by (intro exI [of _ True]) (cases initial; cases after; simp add: d)
  next
    case (waiting pipe w')
    with run have "phase = Awaiting pipe" "q' = enqueue Status_Server Status True q" by simp_all
    with waiting(1-3) show ?thesis
      by (intro exI [of _ True]) (cases initial; simp add: d)
  next
    case (rejected w')
    with run have "phase = Accepting None" "q' = enqueue Status_Server Status False q" by simp_all
    with rejected(1-3) show ?thesis
      by (intro exI [of _ True] exI [of _ True] exI [of _ False]) (cases initial; simp add: d)
  qed
qed

subsection \<open>Stopping the status pipe\<close>

lemma reachable_rank:
  assumes "race_inv s" and "ss_requested s"
  shows "race_rank s \<le> 20 + length (ss_requests s)"
proof -
  have "worker_rank (ss_worker s) \<le> 6" by (cases "ss_worker s") simp_all
  moreover have "main_rank (ss_main s) \<le> 8"
    using assms by (cases "ss_main s" rule: main_rank.cases) (simp_all add: race_inv_def gate_inv_def)
  ultimately show ?thesis by (simp add: race_rank_def)
qed

text \<open>C4. Stopping the status pipe, under every interleaving of the status worker, the main thread
  and clients, with every failure of the calls made (except that Windows refuses the wake-up a free
  instance): once the first wake-up has been tried the worker is not left waiting for a client;
  from the moment the flag is set the two threads together take at most 20 more turns and one per
  queued request; when neither can take a turn, the worker has left its loop and the application is
  gone, or the main thread is joining a worker that waits for its answer; and that cannot happen
  any more when the main thread has emptied the channel and the worker is neither about to queue
  its request nor waiting for an answer.\<close>

theorem status_pipe_stops:
  assumes "Main_Wake_Refused \<notin> set ts" and "s = race_run ts race_start" and "ss_requested s"
  shows "(wake_tried (ss_main s) \<longrightarrow> \<not> (ss_worker s = Connecting \<and> ss_pipe s = Listening)) \<and>
    (\<forall>us. turns_taken us s \<le> 20 + length (ss_requests s)) \<and>
    (\<forall>us. Main_Wake_Refused \<notin> set us \<longrightarrow> threads_blocked (race_run us s) \<longrightarrow>
       ss_main (race_run us s) = Gone \<and> ss_worker (race_run us s) = Left \<or> hung (race_run us s)) \<and>
    (drained (ss_main s) \<and> ss_worker s \<noteq> Sending \<and> \<not> awaits s \<longrightarrow> (\<forall>us. \<not> hung (race_run us s)))"
proof -
  have inv: "race_inv s" and wake: "no_lost_wake s" using race_reachable assms(1,2) by blast+
  have turns: "turns_taken us s \<le> 20 + length (ss_requests s)" for us
    using turns_bounded [OF inv assms(3), of us] reachable_rank [OF inv assms(3)] by linarith
  have ends: "ss_main (race_run us s) = Gone \<and> ss_worker (race_run us s) = Left \<or> hung (race_run us s)"
    if "Main_Wake_Refused \<notin> set us" "threads_blocked (race_run us s)" for us
    using blocked_outcome [OF race_run_inv [OF inv] race_run_wake [OF inv wake that(1)] _ that(2)]
      race_run_requested [OF inv assms(3)] by blast
  have "\<not> hung (race_run us s)" if "drained (ss_main s) \<and> ss_worker s \<noteq> Sending \<and> \<not> awaits s" for us
    using race_run_past_window [OF inv, of us] past_window_not_hung that by (simp add: past_window_def)
  with turns ends wake show ?thesis by (auto simp: no_lost_wake_def)
qed

text \<open>A client is connected when the application shuts down: the worker is asked to stop before it
  looks at the flag again, and everything ends.\<close>

definition orderly_schedule :: "race_turn list" where
  "orderly_schedule = [Client_Connect] @ replicate 4 (Worker_Turn True) @ replicate 4 (Main_Turn True)"

lemma status_pipe_stops_witness:
  "let s = race_run orderly_schedule race_start in
     (\<forall>us. turns_taken us s \<le> 20) \<and>
     threads_blocked (race_run (replicate 5 (Main_Turn True) @ [Worker_Turn True] @ replicate 2 (Main_Turn True)) s) \<and>
     ss_worker (race_run (replicate 5 (Main_Turn True) @ [Worker_Turn True] @ replicate 2 (Main_Turn True)) s) = Left"
proof -
  let ?s = "race_run orderly_schedule race_start"
  let ?us = "replicate 5 (Main_Turn True) @ [Worker_Turn True] @ replicate 2 (Main_Turn True)"
  have h: "Main_Wake_Refused \<notin> set orderly_schedule" "ss_requested ?s" "ss_requests ?s = []"
    "Main_Wake_Refused \<notin> set ?us" "threads_blocked (race_run ?us ?s)" "\<not> hung (race_run ?us ?s)"
    by (simp_all add: orderly_schedule_def race_start_def status_worker_turn_def main_turn_def race_defs
        threads_blocked_def hung_def numeral_eq_Suc)
  note stops = status_pipe_stops [OF h(1) refl h(2)]
  have "ss_worker (race_run ?us ?s) = Left" using stops h(4-6) by blast
  with stops h(3,5) show ?thesis by (simp add: Let_def)
qed

text \<open>C23. The window is real: a worker that found the flag unset just before it was set queues its
  request after the main thread has emptied the channel. It then waits for an answer nobody will
  give, and the main thread waits in \<^verbatim>\<open>join\<close> for it; whatever turns follow, neither gets on.\<close>

definition late_request_schedule :: "race_turn list" where
  "late_request_schedule = [Client_Connect] @ replicate 5 (Worker_Turn True) @ replicate 5 (Main_Turn True) @
     replicate 2 (Worker_Turn True) @ replicate 4 (Main_Turn True)"

theorem status_join_can_hang:
  "Main_Wake_Refused \<notin> set late_request_schedule \<and>
   ss_main (race_run (late_request_schedule @ us) race_start) = Joining_Status \<and>
   ss_worker (race_run (late_request_schedule @ us) race_start) = Receiving \<and>
   ss_answer (race_run (late_request_schedule @ us) race_start) = None"
proof -
  have "hung (race_run late_request_schedule race_start)"
    by (simp add: late_request_schedule_def race_start_def status_worker_turn_def main_turn_def race_defs
        hung_def awaits_def numeral_eq_Suc)
  from hung_stays [OF this, of us] show ?thesis
    by (auto simp: race_run_append hung_def late_request_schedule_def)
qed

end
