(* ===== verification/Wide_Strings.thy ===== *)
theory Wide_Strings
  imports Local_Layer Logger
begin

text \<open>
  Strings on their way to Windows and back. A Rust \<^verbatim>\<open>str\<close> is its UTF-8 bytes (\<open>utf8_valid\<close>); what
  Windows takes and returns are zero-terminated runs of UTF-16 code units in memory. \<^verbatim>\<open>wide_null\<close>
  (four copies in the source) and \<^verbatim>\<open>session_name_to_wide\<close> go one way, the scan for the terminator
  and \<^verbatim>\<open>from_utf16_lossy\<close> of \<^verbatim>\<open>LocalAllocatedWideString\<close> go the other. \<^verbatim>\<open>TracePropertiesBuffer\<close> lays
  a session name out behind the \<^verbatim>\<open>EVENT_TRACE_PROPERTIES\<close> of an ETW session.
\<close>

subsection \<open>Unicode scalar values\<close>

definition is_scalar :: "nat \<Rightarrow> bool" where
  "is_scalar c \<longleftrightarrow> c < 0xD800 \<or> 0xE000 \<le> c \<and> c \<le> 0x10FFFF"

text \<open>\<^verbatim>\<open>str::chars\<close> on well-formed UTF-8.\<close>

fun str_chars :: "string \<Rightarrow> nat list" where
  "str_chars [] = []"
| "str_chars (a # cs) =
     (if of_char a < (0x80 :: nat) then of_char a # str_chars cs
      else case cs of
        [] \<Rightarrow> []
      | b # cs \<Rightarrow>
          if of_char a < (0xE0 :: nat) then ((of_char a - 0xC0) * 64 + (of_char b - 0x80)) # str_chars cs
          else case cs of
            [] \<Rightarrow> []
          | c # cs \<Rightarrow>
              if of_char a < (0xF0 :: nat)
              then ((of_char a - 0xE0) * 4096 + (of_char b - 0x80) * 64 + (of_char c - 0x80)) # str_chars cs
              else case cs of
                [] \<Rightarrow> []
              | e # cs \<Rightarrow>
                  ((of_char a - 0xF0) * 262144 + (of_char b - 0x80) * 4096 + (of_char c - 0x80) * 64 + (of_char e - 0x80))
                  # str_chars cs)"

text \<open>\<^verbatim>\<open>String::push\<close>.\<close>

definition utf8_bytes :: "nat \<Rightarrow> string" where
  "utf8_bytes c =
     (if c < 0x80 then [char_of c]
      else if c < 0x800 then [char_of (0xC0 + c div 64), char_of (0x80 + c mod 64)]
      else if c < 0x10000 then [char_of (0xE0 + c div 4096), char_of (0x80 + c div 64 mod 64), char_of (0x80 + c mod 64)]
      else [char_of (0xF0 + c div 262144), char_of (0x80 + c div 4096 mod 64), char_of (0x80 + c div 64 mod 64),
            char_of (0x80 + c mod 64)])"

definition str_of_chars :: "nat list \<Rightarrow> string" where
  "str_of_chars cs = concat (map utf8_bytes cs)"

lemma base64:
  assumes "r \<le> 63"
  shows "(q * 64 + r) div 64 = q" "(q * 64 + r) mod 64 = (r :: nat)"
  using assms by simp_all

lemma utf8_two:
  assumes "byte_in 0xC2 0xDF a" and "byte_in 0x80 0xBF b"
  shows "is_scalar ((of_char a - 0xC0) * 64 + (of_char b - 0x80)) \<and>
    utf8_bytes ((of_char a - 0xC0) * 64 + (of_char b - 0x80)) = [a, b]"
proof -
  obtain x where x: "of_char a = 0xC0 + (x :: nat)" using assms(1) le_Suc_ex [of "0xC0" "of_char a"] by (auto simp: byte_in_def)
  obtain y where y: "of_char b = 0x80 + (y :: nat)" using assms(2) le_Suc_ex [of "0x80" "of_char b"] by (auto simp: byte_in_def)
  have r: "2 \<le> x" "x \<le> 31" "y \<le> 63" using assms x y by (simp_all add: byte_in_def)
  have "a = char_of (0xC0 + x)" "b = char_of (0x80 + y)" using x y by (metis char_of_char)+
  moreover have "(x * 64 + y) div 64 = x" "(x * 64 + y) mod 64 = y" using r by simp_all
  moreover have "0x80 \<le> x * 64 + y" "x * 64 + y < 0x800" using r by simp_all
  ultimately show ?thesis using x y by (simp add: is_scalar_def utf8_bytes_def)
qed

lemma utf8_three:
  assumes "byte_in 0xE0 0xEF a" and "byte_in 0x80 0xBF b" and "byte_in 0x80 0xBF c"
    and "of_char a = (0xE0 :: nat) \<Longrightarrow> byte_in 0xA0 0xBF b" and "of_char a = (0xED :: nat) \<Longrightarrow> byte_in 0x80 0x9F b"
  shows "is_scalar ((of_char a - 0xE0) * 4096 + (of_char b - 0x80) * 64 + (of_char c - 0x80)) \<and>
    utf8_bytes ((of_char a - 0xE0) * 4096 + (of_char b - 0x80) * 64 + (of_char c - 0x80)) = [a, b, c]"
proof -
  obtain x where x: "of_char a = 0xE0 + (x :: nat)" using assms(1) le_Suc_ex [of "0xE0" "of_char a"] by (auto simp: byte_in_def)
  obtain y where y: "of_char b = 0x80 + (y :: nat)" using assms(2) le_Suc_ex [of "0x80" "of_char b"] by (auto simp: byte_in_def)
  obtain z where z: "of_char c = 0x80 + (z :: nat)" using assms(3) le_Suc_ex [of "0x80" "of_char c"] by (auto simp: byte_in_def)
  have r: "x \<le> 15" "y \<le> 63" "z \<le> 63" "x = 0 \<Longrightarrow> 32 \<le> y" "x = 13 \<Longrightarrow> y \<le> 31"
    using assms x y z by (simp_all add: byte_in_def)
  let ?v = "x * 4096 + y * 64 + z"
  have "a = char_of (0xE0 + x)" "b = char_of (0x80 + y)" "c = char_of (0x80 + z)" using x y z by (metis char_of_char)+
  moreover have "?v div 4096 = x" "?v div 64 mod 64 = y" "?v mod 64 = z"
  proof -
    have "y * 64 + z < 4096" using r by simp
    then show "?v div 4096 = x" by simp
    have e: "?v = (x * 64 + y) * 64 + z" by simp
    show "?v div 64 mod 64 = y" "?v mod 64 = z" unfolding e by (simp_all only: base64 r)
  qed
  moreover have "0x800 \<le> ?v" using r by (cases "x = 0") simp_all
  moreover have "?v < 0x10000" using r by simp
  moreover have "is_scalar ?v"
  proof -
    consider "x < 13" | "x = 13" | "13 < x" by linarith
    then show ?thesis using r by cases (simp_all add: is_scalar_def)
  qed
  ultimately show ?thesis using x y z by (simp add: utf8_bytes_def)
qed

lemma utf8_four:
  assumes "byte_in 0xF0 0xF4 a" and "byte_in 0x80 0xBF b" and "byte_in 0x80 0xBF c" and "byte_in 0x80 0xBF e"
    and "of_char a = (0xF0 :: nat) \<Longrightarrow> byte_in 0x90 0xBF b" and "of_char a = (0xF4 :: nat) \<Longrightarrow> byte_in 0x80 0x8F b"
  shows "is_scalar ((of_char a - 0xF0) * 262144 + (of_char b - 0x80) * 4096 + (of_char c - 0x80) * 64 + (of_char e - 0x80)) \<and>
    utf8_bytes ((of_char a - 0xF0) * 262144 + (of_char b - 0x80) * 4096 + (of_char c - 0x80) * 64 + (of_char e - 0x80)) =
      [a, b, c, e]"
proof -
  obtain x where x: "of_char a = 0xF0 + (x :: nat)" using assms(1) le_Suc_ex [of "0xF0" "of_char a"] by (auto simp: byte_in_def)
  obtain y where y: "of_char b = 0x80 + (y :: nat)" using assms(2) le_Suc_ex [of "0x80" "of_char b"] by (auto simp: byte_in_def)
  obtain z where z: "of_char c = 0x80 + (z :: nat)" using assms(3) le_Suc_ex [of "0x80" "of_char c"] by (auto simp: byte_in_def)
  obtain u where u: "of_char e = 0x80 + (u :: nat)" using assms(4) le_Suc_ex [of "0x80" "of_char e"] by (auto simp: byte_in_def)
  have r: "x \<le> 4" "y \<le> 63" "z \<le> 63" "u \<le> 63" "x = 0 \<Longrightarrow> 16 \<le> y" "x = 4 \<Longrightarrow> y \<le> 15"
    using assms x y z u by (simp_all add: byte_in_def)
  let ?v = "x * 262144 + y * 4096 + z * 64 + u"
  have "a = char_of (0xF0 + x)" "b = char_of (0x80 + y)" "c = char_of (0x80 + z)" "e = char_of (0x80 + u)"
    using x y z u by (metis char_of_char)+
  moreover have "?v div 262144 = x" "?v div 4096 mod 64 = y" "?v div 64 mod 64 = z" "?v mod 64 = u"
  proof -
    have "y * 4096 + z * 64 + u < 262144" using r by simp
    then show "?v div 262144 = x" by simp
    have "?v = (x * 64 + y) * 4096 + (z * 64 + u)" "z * 64 + u < 4096" using r by simp_all
    then have "?v div 4096 = x * 64 + y" by simp
    then show "?v div 4096 mod 64 = y" using r by simp
    have e: "?v = ((x * 64 + y) * 64 + z) * 64 + u" by simp
    show "?v div 64 mod 64 = z" "?v mod 64 = u" unfolding e by (simp_all only: base64 r)
  qed
  moreover have "0x10000 \<le> ?v" using r by (cases "x = 0") simp_all
  moreover have "?v \<le> 0x10FFFF" using r by (cases "x = 4") simp_all
  ultimately show ?thesis using x y z u by (simp add: utf8_bytes_def is_scalar_def)
qed


lemma utf8_valid_chars:
  assumes "utf8_valid s"
  shows "list_all is_scalar (str_chars s) \<and> str_of_chars (str_chars s) = s"
  using assms
proof (induction s rule: str_chars.induct)
  case (2 a cs)
  consider (one) "of_char a < (0x80 :: nat)" | (more) "0x80 \<le> (of_char a :: nat)" by linarith
  then show ?case
  proof cases
    case one
    with 2 show ?thesis by (simp add: byte_in_def is_scalar_def str_of_chars_def utf8_bytes_def)
  next
    case more
    then obtain b bs where cs: "cs = b # bs" using 2(5) by (auto simp: byte_in_def split: list.splits)
    show ?thesis
    proof (cases "byte_in 0xC2 0xDF a")
      case True
      then have "byte_in 0x80 0xBF b" "utf8_valid bs" using 2(5) more cs by (simp_all add: byte_in_def)
      with 2(2) [OF _ cs] utf8_two [OF True, of b] True more cs show ?thesis
        by (simp add: byte_in_def str_of_chars_def)
    next
      case False
      then obtain c ds where ds: "bs = c # ds" using 2(5) more cs by (auto simp: byte_in_def split: list.splits)
      show ?thesis
      proof (cases "byte_in 0xE0 0xEF a")
        case True
        then have v: "utf8_valid ds" "byte_in 0x80 0xBF b" "byte_in 0x80 0xBF c"
            "of_char a = (0xE0 :: nat) \<Longrightarrow> byte_in 0xA0 0xBF b" "of_char a = (0xED :: nat) \<Longrightarrow> byte_in 0x80 0x9F b"
          using 2(5) more False cs ds by (auto simp: byte_in_def split: if_splits)
        with 2(3) [OF _ cs _ ds] utf8_three [OF True v(2-5)] True more cs ds show ?thesis
          by (simp add: byte_in_def str_of_chars_def)
      next
        case four: False
        then obtain e es where es: "ds = e # es" using 2(5) more False cs ds by (auto simp: byte_in_def split: list.splits)
        then have v: "utf8_valid es" "byte_in 0xF0 0xF4 a" "byte_in 0x80 0xBF b" "byte_in 0x80 0xBF c" "byte_in 0x80 0xBF e"
            "of_char a = (0xF0 :: nat) \<Longrightarrow> byte_in 0x90 0xBF b" "of_char a = (0xF4 :: nat) \<Longrightarrow> byte_in 0x80 0x8F b"
          using 2(5) more False four cs ds by (auto simp: byte_in_def split: if_splits)
        with 2(4) [OF _ cs _ ds _ es] utf8_four [OF v(2-7)] more cs ds es show ?thesis
          by (simp add: byte_in_def str_of_chars_def)
      qed
    qed
  qed
qed (simp add: str_of_chars_def)

subsection \<open>UTF-16\<close>

definition utf16_units :: "nat \<Rightarrow> u16 list" where
  "utf16_units c =
     (if c < 0x10000 then [of_nat c]
      else [of_nat (0xD800 + (c - 0x10000) div 0x400), of_nat (0xDC00 + (c - 0x10000) mod 0x400)])"

text \<open>\<^verbatim>\<open>str::encode_utf16\<close>.\<close>

definition encode_utf16 :: "string \<Rightarrow> u16 list" where
  "encode_utf16 s = concat (map utf16_units (str_chars s))"

definition REPLACEMENT_CHARACTER :: nat where "REPLACEMENT_CHARACTER = 0xFFFD"

text \<open>\<^verbatim>\<open>char::decode_utf16\<close> with unpaired surrogates replaced, one by one.\<close>

fun decode_utf16_lossy :: "u16 list \<Rightarrow> nat list" where
  "decode_utf16_lossy [] = []"
| "decode_utf16_lossy (u # us) =
     (if high_surrogate u then
        (case us of
           [] \<Rightarrow> [REPLACEMENT_CHARACTER]
         | v # vs \<Rightarrow>
             if low_surrogate v
             then (0x10000 + (unat u - 0xD800) * 0x400 + (unat v - 0xDC00)) # decode_utf16_lossy vs
             else REPLACEMENT_CHARACTER # decode_utf16_lossy us)
      else (if low_surrogate u then REPLACEMENT_CHARACTER else unat u) # decode_utf16_lossy us)"

definition from_utf16_lossy :: "u16 list \<Rightarrow> string" where
  "from_utf16_lossy us = str_of_chars (decode_utf16_lossy us)"

lemma high_surrogate_iff: "high_surrogate u \<longleftrightarrow> 0xD800 \<le> unat u \<and> unat u \<le> 0xDBFF"
  by (simp add: high_surrogate_def word_le_nat_alt)

lemma low_surrogate_iff: "low_surrogate u \<longleftrightarrow> 0xDC00 \<le> unat u \<and> unat u \<le> 0xDFFF"
  by (simp add: low_surrogate_def word_le_nat_alt)

lemma unat_unit: "c < 0x10000 \<Longrightarrow> unat (of_nat c :: u16) = c"
  by (simp add: unat_of_nat)

text \<open>A scalar's units are read back as that scalar, and only U+0000 has a zero unit.\<close>

lemma decode_units:
  assumes "is_scalar c"
  shows "decode_utf16_lossy (utf16_units c @ us) = c # decode_utf16_lossy us"
proof (cases "c < 0x10000")
  case True
  then have "\<not> high_surrogate (of_nat c)" "\<not> low_surrogate (of_nat c)"
    using assms by (auto simp: high_surrogate_iff low_surrogate_iff unat_unit is_scalar_def)
  with True show ?thesis by (simp add: utf16_units_def unat_unit)
next
  case False
  define d where "d = c - 0x10000"
  have c: "c = 0x10000 + d" and d: "d div 0x400 < 0x400" "d mod 0x400 < 0x400"
    using False assms by (auto simp: d_def is_scalar_def less_mult_imp_div_less)
  have u: "unat (of_nat (0xD800 + d div 0x400) :: u16) = 0xD800 + d div 0x400"
    "unat (of_nat (0xDC00 + d mod 0x400) :: u16) = 0xDC00 + d mod 0x400"
    using d by (intro unat_unit; simp)+
  then have "high_surrogate (of_nat (0xD800 + d div 0x400))" "low_surrogate (of_nat (0xDC00 + d mod 0x400))"
    using d unfolding high_surrogate_iff low_surrogate_iff u by simp_all
  moreover have "utf16_units c = [of_nat (0xD800 + d div 0x400), of_nat (0xDC00 + d mod 0x400)]"
    using False by (simp only: utf16_units_def d_def if_False)
  moreover have "0x10000 + (0xD800 + d div 0x400 - 0xD800) * 0x400 + (0xDC00 + d mod 0x400 - 0xDC00) = c"
    using div_mult_mod_eq [of d "0x400"] by (simp add: c)
  ultimately show ?thesis by (simp only: append.simps decode_utf16_lossy.simps list.case if_True u)
qed

lemma zero_unit:
  assumes "is_scalar c" and "0 \<in> set (utf16_units c)"
  shows "c = 0"
proof (cases "c < 0x10000")
  case True
  with assms(2) have "(of_nat c :: u16) = 0" by (simp add: utf16_units_def)
  with unat_unit [OF True] show ?thesis by simp
next
  case False
  define d where "d = c - 0x10000"
  have d: "d div 0x400 < 0x400" "d mod 0x400 < 0x400"
    using False assms(1) by (auto simp: d_def is_scalar_def less_mult_imp_div_less)
  have u: "unat (of_nat (0xD800 + d div 0x400) :: u16) = 0xD800 + d div 0x400"
    "unat (of_nat (0xDC00 + d mod 0x400) :: u16) = 0xDC00 + d mod 0x400"
    using d by (intro unat_unit; simp)+
  have "utf16_units c = [of_nat (0xD800 + d div 0x400), of_nat (0xDC00 + d mod 0x400)]"
    using False by (simp only: utf16_units_def d_def if_False)
  with assms(2) have "(of_nat (0xD800 + d div 0x400) :: u16) = 0 \<or> (of_nat (0xDC00 + d mod 0x400) :: u16) = 0"
    by (simp only: list.set insert_iff empty_iff) auto
  with u have False by (metis add_eq_0_iff_both_eq_0 unat_0 zero_neq_numeral)
  then show ?thesis ..
qed

lemma decode_encode:
  assumes "utf8_valid s"
  shows "decode_utf16_lossy (encode_utf16 s) = str_chars s"
proof -
  have "list_all is_scalar cs \<Longrightarrow> decode_utf16_lossy (concat (map utf16_units cs)) = cs" for cs
    by (induction cs) (simp_all add: decode_units)
  with utf8_valid_chars [OF assms] show ?thesis by (simp add: encode_utf16_def)
qed

lemma from_utf16_encode: "utf8_valid s \<Longrightarrow> from_utf16_lossy (encode_utf16 s) = s"
  by (simp add: from_utf16_lossy_def decode_encode utf8_valid_chars)

subsection \<open>Zero-terminated strings in memory\<close>

definition wide_null :: "string \<Rightarrow> u16 list" where
  "wide_null value = encode_utf16 value @ [0]"

definition session_name_to_wide :: "string \<Rightarrow> u16 list" where
  "session_name_to_wide value = encode_utf16 value @ [0]"

text \<open>The scan for the terminator in the memory from the pointer on; \<open>None\<close> when it would leave that
  memory.\<close>

fun wide_length :: "u16 list \<Rightarrow> nat option" where
  "wide_length [] = None"
| "wide_length (u # us) = (if u = 0 then Some 0 else map_option Suc (wide_length us))"

text \<open>\<^verbatim>\<open>LocalAllocatedWideString::to_string_lossy\<close> and its \<^verbatim>\<open>Display\<close>; the outer \<open>None\<close> is the null
  pointer.\<close>

definition to_string_lossy :: "u16 list option \<Rightarrow> string option" where
  "to_string_lossy pointer =
     (case pointer of
        None \<Rightarrow> Some []
      | Some memory \<Rightarrow> map_option (\<lambda>length. from_utf16_lossy (take length memory)) (wide_length memory))"

lemma wide_length_append: "0 \<notin> set us \<Longrightarrow> wide_length (us @ 0 # rest) = Some (length us)"
  by (induction us) auto

lemma nul_free_units:
  assumes "utf8_valid s" and "char_of (0 :: nat) \<notin> set s"
  shows "0 \<notin> set (encode_utf16 s)"
proof
  assume "0 \<in> set (encode_utf16 s)"
  then obtain c where c: "c \<in> set (str_chars s)" "0 \<in> set (utf16_units c)" by (auto simp: encode_utf16_def)
  have v: "list_all is_scalar (str_chars s)" "str_of_chars (str_chars s) = s" using utf8_valid_chars [OF assms(1)] by simp_all
  then have "c = 0" using c zero_unit by (auto simp: list_all_iff)
  then have "char_of (0 :: nat) \<in> set (utf8_bytes c)" by (simp add: utf8_bytes_def)
  with c(1) have "char_of (0 :: nat) \<in> set (str_of_chars (str_chars s))" by (auto simp: str_of_chars_def)
  with v(2) assms(2) show False by simp
qed

lemma wide_null_read_back:
  assumes "utf8_valid s" and "char_of (0 :: nat) \<notin> set s"
  shows "to_string_lossy (Some (wide_null s @ rest)) = Some s"
  using wide_length_append [OF nul_free_units [OF assms], of rest] from_utf16_encode [OF assms(1)]
  by (simp add: to_string_lossy_def wide_null_def)

subsection \<open>The properties of a trace session\<close>

definition WNODE_FLAG_TRACED_GUID :: u32 where "WNODE_FLAG_TRACED_GUID = 0x00020000"
definition EVENT_TRACE_REAL_TIME_MODE :: u32 where "EVENT_TRACE_REAL_TIME_MODE = 0x00000100"

record event_trace_properties =
  Wnode_BufferSize :: u32
  Wnode_Flags :: u32
  Wnode_ClientContext :: u32
  etp_BufferSize :: u32
  MinimumBuffers :: u32
  MaximumBuffers :: u32
  LogFileMode :: u32
  FlushTimer :: u32
  LoggerNameOffset :: u32

text \<open>The buffer's first \<open>header\<close> bytes hold the structure (\<open>header\<close> is the size the \<^verbatim>\<open>windows\<close> crate
  gives it), kept here as a record beside the bytes.\<close>

record trace_properties_buffer =
  tp_properties :: event_trace_properties
  tp_buffer :: "8 word list"

text \<open>The name's bytes are read in place, two per code unit; \<open>None\<close> is the panic of the copy.\<close>

definition trace_properties_buffer_new :: "nat \<Rightarrow> string \<Rightarrow> trace_properties_buffer option" where
  "trace_properties_buffer_new header session_name =
     (let session_name_wide = session_name_to_wide session_name;
          total_size = header + length session_name_wide * 2;
          buffer = replicate total_size 0;
          properties = \<lparr>Wnode_BufferSize = of_nat total_size, Wnode_Flags = WNODE_FLAG_TRACED_GUID, Wnode_ClientContext = 1,
            etp_BufferSize = 64, MinimumBuffers = 2, MaximumBuffers = 4, LogFileMode = EVENT_TRACE_REAL_TIME_MODE,
            FlushTimer = 1, LoggerNameOffset = of_nat header\<rparr>;
          name_offset = unat (LoggerNameOffset properties);
          name_bytes = u16_bytes session_name_wide
      in map_option (\<lambda>buffer. \<lparr>tp_properties = properties, tp_buffer = buffer\<rparr>)
           (copy_from_slice name_offset name_bytes buffer))"

lemma session_name_wide: "session_name_to_wide s = wide_null s"
  by (simp add: session_name_to_wide_def wide_null_def)

lemma unat_small: "n < 2 ^ 32 \<Longrightarrow> unat (of_nat n :: u32) = n"
  by (simp add: unat_of_nat)

lemma trace_buffer_layout:
  assumes "header + length (wide_null s) * 2 < 2 ^ 32"
  shows "\<exists>b. trace_properties_buffer_new header s = Some b \<and>
    length (tp_buffer b) = header + length (wide_null s) * 2 \<and>
    unat (Wnode_BufferSize (tp_properties b)) = length (tp_buffer b) \<and>
    unat (LoggerNameOffset (tp_properties b)) = header \<and>
    take header (tp_buffer b) = replicate header 0 \<and>
    u16_chunks (drop header (tp_buffer b)) = wide_null s"
proof -
  have u: "unat (of_nat header :: u32) = header"
    "unat (of_nat (header + length (wide_null s) * 2) :: u32) = header + length (wide_null s) * 2"
    using assms by (intro unat_small; simp)+
  show ?thesis
    unfolding trace_properties_buffer_new_def session_name_wide Let_def event_trace_properties.simps u copy_from_slice_def
    by (simp add: u del: of_nat_add of_nat_mult)
qed

text \<open>C2. Strings survive the way to Windows and back. For every Rust string without a NUL, the
  zero-terminated UTF-16 that \<^verbatim>\<open>wide_null\<close> writes is read back as that string whatever follows it
  in memory, non-BMP characters included. And if the whole fits 32 bits, the properties buffer of
  an ETW session is built without a slice panic, is as long as its header says, and holds, at the
  offset its header gives and behind the bytes of the header itself, which the copy leaves alone, a
  zero-terminated string that is the session name.\<close>

theorem wide_strings_round_trip:
  assumes "utf8_valid s" and "char_of (0 :: nat) \<notin> set s"
  shows "to_string_lossy (Some (wide_null s @ rest)) = Some s \<and>
    (header + length (wide_null s) * 2 < 2 ^ 32 \<longrightarrow>
       (\<exists>b. trace_properties_buffer_new header s = Some b \<and>
          unat (Wnode_BufferSize (tp_properties b)) = length (tp_buffer b) \<and>
          header \<le> unat (LoggerNameOffset (tp_properties b)) \<and>
          unat (LoggerNameOffset (tp_properties b)) \<le> length (tp_buffer b) \<and>
          take header (tp_buffer b) = replicate header 0 \<and>
          to_string_lossy (Some (u16_chunks (drop (unat (LoggerNameOffset (tp_properties b))) (tp_buffer b)))) = Some s))"
proof (intro conjI impI)
  show "to_string_lossy (Some (wide_null s @ rest)) = Some s" by (rule wide_null_read_back [OF assms])
  assume "header + length (wide_null s) * 2 < 2 ^ 32"
  from trace_buffer_layout [OF this] obtain b where b: "trace_properties_buffer_new header s = Some b"
    "length (tp_buffer b) = header + length (wide_null s) * 2"
    "unat (Wnode_BufferSize (tp_properties b)) = length (tp_buffer b)"
    "unat (LoggerNameOffset (tp_properties b)) = header" "take header (tp_buffer b) = replicate header 0" "u16_chunks (drop header (tp_buffer b)) = wide_null s"
    by blast
  with wide_null_read_back [OF assms, of "[]"] show "\<exists>b. trace_properties_buffer_new header s = Some b \<and>
      unat (Wnode_BufferSize (tp_properties b)) = length (tp_buffer b) \<and>
      header \<le> unat (LoggerNameOffset (tp_properties b)) \<and>
      unat (LoggerNameOffset (tp_properties b)) \<le> length (tp_buffer b) \<and>
      take header (tp_buffer b) = replicate header 0 \<and>
      to_string_lossy (Some (u16_chunks (drop (unat (LoggerNameOffset (tp_properties b))) (tp_buffer b)))) = Some s"
    by (intro exI [of _ b]) simp
qed

text \<open>The musical G clef, four bytes in UTF-8 and a surrogate pair in UTF-16, between two letters.\<close>

definition clef_name :: string where
  "clef_name = ''a'' @ map char_of [0xF0 :: nat, 0x9D, 0x84, 0x9E] @ ''b''"

theorem wide_strings_round_trip_witness:
  "wide_null clef_name = [0x61, 0xD834, 0xDD1E, 0x62, 0] \<and>
   to_string_lossy (Some (wide_null clef_name @ [0x63, 0])) = Some clef_name \<and>
   (\<exists>b. trace_properties_buffer_new 120 clef_name = Some b \<and> length (tp_buffer b) = 130 \<and>
      unat (LoggerNameOffset (tp_properties b)) \<le> 130)"
proof -
  have c: "str_chars clef_name = [0x61, 0x1D11E, 0x62]" by (simp add: clef_name_def)
  have w: "wide_null clef_name = [0x61, 0xD834, 0xDD1E, 0x62, 0]"
    by (simp add: wide_null_def encode_utf16_def c utf16_units_def)
  have h: "utf8_valid clef_name" "char_of (0 :: nat) \<notin> set clef_name"
    by (simp add: clef_name_def byte_in_def) code_simp
  have "header + length (wide_null clef_name) * 2 < 2 ^ 32" if "header = 120" for header using that by (simp add: w)
  from wide_strings_round_trip [OF h, of "[0x63, 0]" 120] trace_buffer_layout [OF this [OF refl]] show ?thesis
    by (auto simp: w)
qed

subsection \<open>The session names of Layer 2\<close>

lemma plain_ascii:
  assumes "list_all (byte_in 1 0x7F) s"
  shows "utf8_valid s \<and> char_of (0 :: nat) \<notin> set s \<and> length (wide_null s) = length s + 1"
proof -
  have "str_chars s = map of_char s \<and> utf8_valid s \<and> (\<forall>c \<in> set s. 1 \<le> (of_char c :: nat) \<and> (of_char c :: nat) < 0x80)"
    using assms by (induction s) (auto simp: byte_in_def)
  moreover from this have "length (concat (map (utf16_units \<circ> of_char) s)) = length s"
    by (induction s) (auto simp: utf16_units_def byte_in_def)
  ultimately show ?thesis by (auto simp: wide_null_def encode_utf16_def)
qed

lemma show_nat_ascii: "list_all (byte_in 1 0x7F) (show_nat n)"
proof (induction n rule: show_nat.induct)
  case (1 n)
  have "byte_in 1 0x7F (digit_char m)" if "m < 10" for m
    using that by (simp add: byte_in_def digit_char_def)
  with 1 show ?case by (subst show_nat.simps) auto
qed

lemma length_show_nat: "n < 10 ^ Suc k \<Longrightarrow> length (show_nat n) \<le> Suc k"
proof (induction k arbitrary: n)
  case (Suc k)
  then have "n div 10 < 10 ^ Suc k" by (simp add: less_mult_imp_div_less)
  with Suc.IH [of "n div 10"] show ?case by (subst show_nat.simps) auto
qed (simp add: show_nat.simps)

text \<open>\<^verbatim>\<open>as_millis\<close> is 128 bits wide and a process id 32: a session name is at most 72 characters, all
  of them ASCII, and so its properties fit any header below 4 GiB less 146 bytes.\<close>

lemma session_name_fits:
  assumes "build_session_name os w = (name, w')"
    and "r_num (os (trace w) (Clock SystemTimeMillis)) < 2 ^ 128"
    and "r_num (os (trace (snd (syscall os (Clock SystemTimeMillis) w))) (Clock ProcessId)) < 2 ^ 32"
  shows "utf8_valid name \<and> char_of (0 :: nat) \<notin> set name \<and> length (wide_null name) \<le> 73"
proof -
  let ?t = "r_num (os (trace w) (Clock SystemTimeMillis))"
  let ?p = "r_num (os (trace (snd (syscall os (Clock SystemTimeMillis) w))) (Clock ProcessId))"
  have n: "name = ''Wardoff-Layer2-Local-'' @ show_nat ?p @ ''-'' @ show_nat ?t"
    using assms(1) by (simp add: build_session_name_def call_value_eq Let_def)
  have "list_all (byte_in 1 0x7F) ''Wardoff-Layer2-Local-''" "list_all (byte_in 1 0x7F) ''-''" by code_simp+
  then have a: "list_all (byte_in 1 0x7F) name" using show_nat_ascii by (simp add: n)
  have "length (show_nat ?t) \<le> 39" "length (show_nat ?p) \<le> 10"
    using length_show_nat [of ?t 38] length_show_nat [of ?p 9] assms(2,3) by simp_all
  then have "length name \<le> 72" by (simp add: n)
  with plain_ascii [OF a] show ?thesis by simp
qed

end
