(* ===== verification/Spec2Isabelle.thy ===== *)
theory Spec2Isabelle
  imports Launch Application_Protocol Status_Shutdown Wide_Strings
begin

text \<open>
  Wardoff keeps a Windows session from being shut down, rebooted or put to sleep. This library
  models the program in \<^verbatim>\<open>src/src\<close> and proves what makes it correct.

  \<^bold>\<open>The program and its parts.\<close> A process parses its command line and dispatches on it
  (\<^verbatim>\<open>cli.rs\<close>, \<^verbatim>\<open>main.rs\<close>). At most one process per session is the primary (\<^verbatim>\<open>instance.rs\<close>,
  \<^verbatim>\<open>session_scope.rs\<close>); the others hand it their requests over named pipes (\<^verbatim>\<open>ipc.rs\<close>). The
  primary runs the \<^verbatim>\<open>Application\<close> of \<^verbatim>\<open>main.rs\<close>: one thread with a message loop that owns the
  blocker coordinator, the tray service and the pipe server. The coordinator (\<^verbatim>\<open>blocker/mod.rs\<close>)
  switches five layers on and off: Layer 1 refuses shutdown queries, Layer 2 watches process starts
  through ETW, Layer 3 keeps the update reboot task disabled, Layer 4 aborts remote shutdowns,
  Layer 5 holds power requests. Layers 2 to 4 have a worker thread each, the tray and the two pipe
  servers have theirs, and a writer thread owns the log files (\<^verbatim>\<open>logger/mod.rs\<close>).

  \<^bold>\<open>How it is modelled.\<close> \<open>World\<close> holds the machine as the program sees it: an operating system is
  any function from the history of calls and the call to a reply, so a theorem about all of them
  covers every success, failure and value Windows may return; the world is that history, the
  program's statics and the log channel. A fallible function is a state transformer
  \<open>('s, 'e, 'a) prog\<close> with \<open>Inl\<close> for \<^verbatim>\<open>Err\<close> and \<open>Inr\<close> for \<^verbatim>\<open>Ok\<close> (\<open>Wardoff_Prelude\<close>); \<^verbatim>\<open>?\<close> is
  \<open>and_then\<close>, \<^verbatim>\<open>map_err\<close> is \<open>map_error\<close>, a guard's \<^verbatim>\<open>Drop\<close> is an explicit call on every way out.
  A struct is a record, an enum a datatype, \<^verbatim>\<open>u32\<close> and \<^verbatim>\<open>u64\<close> are words. Threads are values that
  are advanced one turn at a time; a theorem about interleavings quantifies over all orders of
  turns and of the operations of their owner. Resources (handles, windows, power requests, ETW
  sessions, icons, the enabled state of tasks) are read off the history of calls.

  \<^bold>\<open>Theories.\<close>
  \<^item> \<open>Wardoff_Prelude\<close>, \<open>World\<close>, \<open>Blocker_Types\<close>, \<open>Ipc_Protocol\<close>: shared types, combinators, calls,
    labels; frames of calls.
  \<^item> \<open>Retry\<close>: \<^verbatim>\<open>for attempt in 0..n\<close> with an early return, and the locale \<open>bounded_retry\<close>, which the
    mutex claim and the pipe connection interpret.
  \<^item> \<open>Worker\<close>: the locales \<open>stoppable_worker\<close> (a thread that ends within two turns of being stopped)
    and \<open>protection_layer\<close> (what the coordinator relies on of a layer), interpreted by the layers.
  \<^item> \<open>Cli\<close>, \<open>Runtime_Policy\<close>: \<^verbatim>\<open>cli.rs\<close>, \<^verbatim>\<open>runtime_policy.rs\<close>; the action a command line means (C1),
    agreement of fresh and forwarded starts.
  \<^item> \<open>Sleep_Layer\<close>, \<open>Shutdown_Layer\<close>, \<open>Remote_Layer\<close>, \<open>Update_Layer\<close>, \<open>Etw_Events\<close>, \<open>Local_Layer\<close>:
    \<^verbatim>\<open>blocker/sleep.rs\<close>, \<^verbatim>\<open>shutdown.rs\<close>, \<^verbatim>\<open>remote.rs\<close>, \<^verbatim>\<open>update.rs\<close>, \<^verbatim>\<open>local.rs\<close>; balance of what each
    layer acquires, truthful reports, soundness under every interleaving of its worker (C3, C5, C6,
    C8 to C12). Layer 2 counts an ETW session or consumer as given back only when Windows accepted
    the stop or close, keeps account of the refused ones, and asks for the abort privilege and
    calls \<^verbatim>\<open>AbortSystemShutdownW\<close> exactly when \<^verbatim>\<open>shutdown.exe\<close> starts.
  \<^item> \<open>Wide_Strings\<close>: the strings handed to Windows and read back, the \<^verbatim>\<open>wide_null\<close> and
    \<^verbatim>\<open>LocalAllocatedWideString\<close> of several files, and Layer 2's \<^verbatim>\<open>TracePropertiesBuffer\<close>; they survive
    the way, and the buffer is laid out as its header says (C2).
  \<^item> \<open>Abort\<close>, \<open>Windows_Util\<close>: the privileged calls of \<^verbatim>\<open>blocker/mod.rs\<close> and \<^verbatim>\<open>abort.rs\<close>,
    \<^verbatim>\<open>windows_util.rs\<close> (C7), and the locale \<open>call_frame\<close>, which carries a property of single calls
    to operations built from them; it is interpreted for the flags of Layer 1, for sets of calls
    and, in \<open>Launch\<close>, for reading.
  \<^item> \<open>Coordinator\<close>: \<^verbatim>\<open>BlockerCoordinator\<close>, and the locale \<open>mode_switch\<close>, the
    contract of a mode switch that the application's invariant rests on; until a session end is
    forced, the mode is the protection and switches to Block are all or nothing, the workers of
    Layers 2 and 3 started exactly if they can be; and two ways in which a reported Block is
    weaker than it says (C13 to C16).
  \<^item> \<open>Logger\<close>: \<^verbatim>\<open>logger/mod.rs\<close> on an explicit disk keyed by paths; every change is a \<open>writer_step\<close>,
    made through plain directories to a plain managed file (a hard link is a plain file here, as
    \<^verbatim>\<open>docs/SECURITY_AUDIT.md\<close> says of the code), sizes are bounded, reading returns the newest lines, written records are read back, and asynchronous
    logging refines synchronous logging (C17 to C21).
  \<^item> \<open>Instance\<close>, \<open>Ipc_Client\<close>, \<open>Ipc_Server\<close>: one primary per session, bounded claims and
    connections, requests sent once or not at all, clients that cannot stall or leak the server
    (every read is made in \<^verbatim>\<open>PIPE_NOWAIT\<close> mode and before the deadline),
    and a startup failure that waits for a worker nobody stops (C24 to C30).
  \<^item> \<open>Status_Shutdown\<close>: the accept gate, the shutdown flag and the channel as the status worker and
    the main thread share them, one access at a time; stopping the status pipe loses no wake-up
    and takes a bounded number of turns (C4), but for one window in which the join waits for ever
    (C23). A round of this worker is a round of the one in \<open>Ipc_Server\<close>
    (\<open>solo_round_is_status_accept\<close>).
  \<^item> \<open>Tray_Icon\<close>, \<open>Tray_Service\<close>: \<^verbatim>\<open>tray/\<close>; the bitmap, the icon as a picture of the thread's state,
    clicks forwarded once, recovery from an Explorer restart (C31, C32, C34).
  \<^item> \<open>Autostart_Task\<close>: \<^verbatim>\<open>autostart.rs\<close>; guarded changes of the scheduled task, and their round trip
    with a scheduler that keeps the enabled state the registered definition carries (C35, C36).
  \<^item> \<open>Application\<close>, \<open>Application_Invariant\<close>, \<open>Application_Runs\<close>: the \<^verbatim>\<open>Application\<close> of \<^verbatim>\<open>main.rs\<close>, every
    operation of it; its invariant and that each event keeps it; and over all runs from
    \<^verbatim>\<open>bootstrap\<close>: it tells the truth, leaves Block mode only on request or by a forced session
    end, restores it after sleep, and a shutdown whose joins return takes everything down (C37 to
    C40; C23 is about the join that does not). The locale \<open>app_field\<close> carries what handling a request
    leaves alone; it is interpreted for the forced-end flag and for the answers.
  \<^item> \<open>Application_Protocol\<close>: an abstract protocol of the application (mode, pending restore, answers)
    and that every run of the application is a run of it on the commands taken in (C33), through
    the locale \<open>event_refinement\<close>; two consequences drawn in the protocol alone.
  \<^item> \<open>Launch\<close>: \<^verbatim>\<open>main\<close>, \<^verbatim>\<open>run_main\<close> and the handlers of the command line; commands that read leave
    everything as it was and write nothing to a pipe but the line that asks for the status (C22).

  \<^bold>\<open>How the parts fit together.\<close> The layers promise \<open>protection_layer\<close>; the coordinator's invariant
  \<open>coord_inv\<close> is proved from that contract. The application's invariant \<open>sound\<close> contains \<open>coord_inv\<close>
  and, of the tray, only that a running thread's target mode is the coordinator's; its proof uses
  \<open>set_mode_block\<close> and \<open>set_mode_allow\<close> of the coordinator, the frames at the end of \<open>Tray_Service\<close>
  and \<open>Autostart_Task\<close>, and the window procedure of Layer 1 with the application's own callbacks.
  \<open>running\<close> is the set of states reached by message-loop rounds, worker and tray turns and queued
  requests, in any order, until Windows ends the session by force (after that point see C16).

  \<^bold>\<open>Bounds.\<close> Loops are total functions except two. The server's read of a request has fuel
  \<open>READ_FUEL\<close> = 4200: a request is cut off after 4096 bytes, one per round, and at most 100 polls of
  10 ms fit into the one-second deadline; C27 shows that the fuel is never used up on a clock that
  does not run backwards. Joining a worker runs its turns until it ends; \<open>stoppable_worker\<close> shows
  that two turns suffice. Joining Layer 2's worker (\<open>local_await\<close>) and the pipe threads in
  \<open>app_shutdown\<close> is modelled for joins that return. The message loop follows a list of events, and a runtime whose list is
  used up is \<open>Still_Running\<close>. \<open>race_rank\<close> bounds the turns of the two threads of C4.

  \<^bold>\<open>Parameters.\<close> Windows (all of Win32, COM, ETW, the file system's failures), the \<^verbatim>\<open>tray_icon\<close> crate,
  clap's parsing, whether \<^verbatim>\<open>env_logger\<close> can be initialised, and serde's JSON are arguments of the model. Theorems that need more of them say so
  in a hypothesis: a clock that does not run backwards, kernel mutexes that exclude, a task scheduler
  that reports what was registered, a tray that accepts icons, a free pipe instance that accepts
  the wake-up; each has a witness.

  \<^bold>\<open>Not modelled.\<close> The human-readable \<^verbatim>\<open>env_logger\<close> output and \<^verbatim>\<open>log\<close>-crate messages; memory layout of
  native structures (the one properties buffer apart) and the pointer hand-over of the two C callbacks; mutex poisoning and panics
  inside threads (a join may still report one); the \<^verbatim>\<open>LocalFree\<close> of the pipe's security
  descriptor; hard links and clap's waiver of a requirement that conflicts with a present flag; the tests and \<^verbatim>\<open>build.rs\<close>. Icon distances are exact
  integers in place of \<^verbatim>\<open>f32\<close>. When \<^verbatim>\<open>bootstrap\<close> fails after the tray thread was started, that
  thread's own end is not followed, since the process ends there. In \<open>Status_Shutdown\<close> the control
  worker is only the outcome of stopping it.
\<close>

end
